(* ===== verification/Prelude.thy ===== *)
theory Prelude
  imports Main "HOL-Library.Word" "HOL-Library.List_Lexorder" "HOL-Library.Product_Lexorder"
begin

text \<open>
  Shared vocabulary of the development: bytes, Unicode strings, the result type
  with its sequencing operator, big-endian integers and hexadecimal text, and the
  list lemmas the components use.

  A Rust \<open>[u8; N]\<close> and a Rust \<open>Vec<u8>\<close> are both a list of 8-bit words; that an array
  has N elements is stated by \<open>is_array N\<close> where it matters. The order of byte
  lists is the lexicographic one (theory List\_Lexorder), as Rust's \<open>Ord\<close> for
  arrays and slices; the order of pairs is lexicographic too, as Rust's for tuples.
\<close>

section \<open>Types\<close>

type_synonym byte = "8 word"
type_synonym bytes = "byte list"
type_synonym u16 = "16 word"
type_synonym u32 = "32 word"
type_synonym u64 = "64 word"

text \<open>A Rust \<open>str\<close> is the list of its Unicode scalar values.\<close>

type_synonym ustr = "nat list"

abbreviation is_array :: "nat \<Rightarrow> bytes \<Rightarrow> bool" where
  "is_array n bs \<equiv> length bs = n"

definition ascii :: "string \<Rightarrow> ustr" where
  "ascii s = map of_char s"

definition ascii_bytes :: "string \<Rightarrow> bytes" where
  "ascii_bytes s = map (\<lambda>c. of_nat (of_char c)) s"

named_theorems codec_simps \<open>step equations of encoders and decoders\<close>

section \<open>Results\<close>

text \<open>
  A fallible operation returns \<open>Inl\<close> of an error or \<open>Inr\<close> of a value; \<open>rbind\<close> is Rust's
  \<open>?\<close>: the first error ends the computation.
\<close>

definition rbind :: "'e + 'a \<Rightarrow> ('a \<Rightarrow> 'e + 'b) \<Rightarrow> 'e + 'b" where
  "rbind m f = (case m of Inl e \<Rightarrow> Inl e | Inr x \<Rightarrow> f x)"

definition ok_or :: "'e \<Rightarrow> 'a option \<Rightarrow> 'e + 'a" where
  "ok_or e x = (case x of None \<Rightarrow> Inl e | Some v \<Rightarrow> Inr v)"

definition map_err :: "('e \<Rightarrow> 'f) \<Rightarrow> 'e + 'a \<Rightarrow> 'f + 'a" where
  "map_err f m = (case m of Inl e \<Rightarrow> Inl (f e) | Inr x \<Rightarrow> Inr x)"

definition rmap :: "('a \<Rightarrow> 'b) \<Rightarrow> 'e + 'a \<Rightarrow> 'e + 'b" where
  "rmap f m = (case m of Inl e \<Rightarrow> Inl e | Inr x \<Rightarrow> Inr (f x))"

lemma rbind_simps [simp]: "rbind (Inl e) f = Inl e" "rbind (Inr x) f = f x"
  by (simp_all add: rbind_def)

lemma ok_or_simps [simp]: "ok_or e None = Inl e" "ok_or e (Some v) = Inr v"
  by (simp_all add: ok_or_def)

lemma map_err_simps [simp]: "map_err g (Inl e) = Inl (g e)" "map_err g (Inr x) = Inr x"
  by (simp_all add: map_err_def)

lemma rmap_simps [simp]: "rmap g (Inl e) = Inl e" "rmap g (Inr x) = Inr (g x)"
  by (simp_all add: rmap_def)

lemma rbind_Inr_iff: "rbind m f = Inr y \<longleftrightarrow> (\<exists>x. m = Inr x \<and> f x = Inr y)"
  by (cases m) simp_all

lemma rbind_Inl_iff: "rbind m f = Inl e \<longleftrightarrow> m = Inl e \<or> (\<exists>x. m = Inr x \<and> f x = Inl e)"
  by (cases m) auto

lemma ok_or_Inr_iff: "ok_or e x = Inr v \<longleftrightarrow> x = Some v"
  by (cases x) auto

lemma map_err_Inr_iff: "map_err g m = Inr x \<longleftrightarrow> m = Inr x"
  by (cases m) auto

lemma rmap_Inr_iff: "rmap g m = Inr y \<longleftrightarrow> (\<exists>x. m = Inr x \<and> y = g x)"
  by (cases m) auto

lemma if_Inl_Inr_iff: "(if b then Inl e else m) = Inr x \<longleftrightarrow> \<not> b \<and> m = Inr x"
  by simp

lemmas result_iffs = rbind_Inr_iff ok_or_Inr_iff map_err_Inr_iff rmap_Inr_iff if_Inl_Inr_iff

section \<open>Repetition\<close>

text \<open>A counted \<open>for\<close> loop that pushes one decoded item per round.\<close>

fun dec_times :: "(bytes \<Rightarrow> 'e + ('a \<times> bytes)) \<Rightarrow> nat \<Rightarrow> bytes \<Rightarrow> 'e + ('a list \<times> bytes)" where
  "dec_times f 0 d = Inr ([], d)"
| "dec_times f (Suc n) d =
     rbind (f d) (\<lambda>(x, d). rbind (dec_times f n d) (\<lambda>(xs, d). Inr (x # xs, d)))"

lemma dec_times_encoded:
  assumes "\<And>x r. x \<in> set xs \<Longrightarrow> f (enc x @ r) = Inr (x, r)"
  shows "dec_times f (length xs) (concat (map enc xs) @ r) = Inr (xs, r)"
  using assms by (induction xs) simp_all

lemma dec_times_Inr:
  "dec_times f n d = Inr (xs, d') \<Longrightarrow>
     length xs = n \<and> (\<forall>x \<in> set xs. \<exists>e e'. f e = Inr (x, e'))"
  by (induction n arbitrary: d xs) (fastforce simp: rbind_Inr_iff split: prod.splits)+

section \<open>Big-endian integers\<close>

fun be_bytes :: "nat \<Rightarrow> nat \<Rightarrow> bytes" where
  "be_bytes 0 n = []"
| "be_bytes (Suc k) n = be_bytes k (n div 256) @ [of_nat (n mod 256)]"

definition be_nat :: "bytes \<Rightarrow> nat" where
  "be_nat bs = foldl (\<lambda>a b. a * 256 + unat b) 0 bs"

lemma be_bytes_numeral: "be_bytes (numeral k) n = be_bytes (pred_numeral k) (n div 256) @ [of_nat (n mod 256)]"
  by (metis be_bytes.simps(2) numeral_eq_Suc)

lemma replicate_numeral: "replicate (numeral n) x = x # replicate (pred_numeral n) x"
  by (simp add: numeral_eq_Suc)

lemma length_be_bytes [simp]: "length (be_bytes k n) = k"
  by (induction k n rule: be_bytes.induct) simp_all

lemma be_nat_Nil [simp]: "be_nat [] = 0"
  by (simp add: be_nat_def)

lemma be_nat_snoc [simp]: "be_nat (bs @ [b]) = be_nat bs * 256 + unat b"
  by (simp add: be_nat_def)

lemma unat_byte_less [simp]: "unat (b :: byte) < 256"
  using unsigned_less [of b] by simp

lemma be_nat_bound: "be_nat bs < 256 ^ length bs"
proof (induction bs rule: rev_induct)
  case (snoc b bs)
  have "be_nat bs * 256 + unat b < (be_nat bs + 1) * 256" by simp
  also have "\<dots> \<le> 256 ^ length bs * 256" using snoc by (intro mult_le_mono) auto
  finally show ?case by simp
qed simp

lemma be_nat_be_bytes: "n < 256 ^ k \<Longrightarrow> be_nat (be_bytes k n) = n"
proof (induction k arbitrary: n)
  case (Suc k)
  have "n div 256 < 256 ^ k" using Suc.prems by (simp add: less_mult_imp_div_less mult.commute)
  with Suc.IH show ?case by (simp add: unat_of_nat)
qed simp

lemma be_bytes_be_nat: "length bs = k \<Longrightarrow> be_bytes k (be_nat bs) = bs"
proof (induction bs arbitrary: k rule: rev_induct)
  case (snoc b bs)
  then obtain j where k: "k = Suc j" "length bs = j" by auto
  have "(be_nat bs * 256 + unat b) div 256 = be_nat bs" by simp
  moreover have "(be_nat bs * 256 + unat b) mod 256 = unat b" by simp
  ultimately show ?case using snoc.IH [of j] k by simp
qed simp

text \<open>\<open>checked_add(1)\<close> succeeds on every word but the largest.\<close>

lemma unat_succ: "(n :: 'a :: len word) \<noteq> - 1 \<Longrightarrow> unat (n + 1) = Suc (unat n)"
  by (metis add.commute eq_neg_iff_add_eq_0 unatSuc)

lemma unat_le_top: "unat (n :: 'a :: len word) \<le> unat (- 1 :: 'a word)"
  by (simp add: word_le_nat_alt [symmetric])

section \<open>Hexadecimal text\<close>

definition hex_digit :: "nat \<Rightarrow> char" where
  "hex_digit n = ''0123456789abcdef'' ! n"

fun hex_encode :: "bytes \<Rightarrow> string" where
  "hex_encode [] = []"
| "hex_encode (b # bs) =
     hex_digit (unat b div 16) # hex_digit (unat b mod 16) # hex_encode bs"

lemma hex_digit_inj: "i < 16 \<Longrightarrow> j < 16 \<Longrightarrow> hex_digit i = hex_digit j \<Longrightarrow> i = j"
proof -
  assume "i < 16" "j < 16" and eq: "hex_digit i = hex_digit j"
  moreover have "distinct ''0123456789abcdef''" by simp
  ultimately show "i = j" by (simp add: hex_digit_def nth_eq_iff_index_eq)
qed

lemma hex_encode_inj: "hex_encode as = hex_encode bs \<Longrightarrow> as = bs"
proof (induction as arbitrary: bs)
  case Nil
  then show ?case by (cases bs) simp_all
next
  case (Cons a as)
  then obtain b cs where bs: "bs = b # cs" by (cases bs) auto
  have ub: "unat a < 256" "unat b < 256" by simp_all
  then have ub': "unat a div 16 < 16" "unat b div 16 < 16" by linarith+
  have eq: "hex_digit (unat a div 16) = hex_digit (unat b div 16)"
    "hex_digit (unat a mod 16) = hex_digit (unat b mod 16)"
    using Cons.prems by (simp_all only: bs hex_encode.simps list.inject)
  have "unat a div 16 = unat b div 16" by (rule hex_digit_inj [OF ub' eq(1)])
  moreover have "unat a mod 16 = unat b mod 16" by (rule hex_digit_inj [OF _ _ eq(2)]) simp_all
  ultimately have "unat a = unat b" by (metis div_mult_mod_eq)
  then show ?case using Cons bs by (auto simp: word_unat_eq_iff)
qed

lemma length_hex_encode [simp]: "length (hex_encode bs) = 2 * length bs"
  by (induction bs) simp_all

section \<open>Sorted collections\<close>

text \<open>\<open>windows(2).all(|p| p[0] < p[1])\<close> is \<open>successively (<)\<close>: the list is strictly sorted.\<close>

lemma successively_less_iff:
  "successively (<) (xs :: 'a :: linorder list) \<longleftrightarrow> sorted xs \<and> distinct xs"
  by (simp add: successively_conv_sorted_wrt transp_on_less strict_sorted_iff)

lemma strict_sorted_eqI:
  "sorted xs \<Longrightarrow> distinct xs \<Longrightarrow> sorted ys \<Longrightarrow> distinct ys \<Longrightarrow> set xs = set ys \<Longrightarrow>
     xs = (ys :: 'a :: linorder list)"
  by (metis sorted_distinct_set_unique)

lemma find_Some_iff_mem: "find P xs = Some x \<Longrightarrow> x \<in> set xs \<and> P x"
  by (auto simp: find_Some_iff)

lemma find_distinct_key:
  "distinct (map f xs) \<Longrightarrow> x \<in> set xs \<Longrightarrow> find (\<lambda>y. f y = f x) xs = Some x"
  by (induction xs) (auto simp: image_iff)

lemma map_of_filter_values:
  "distinct (map fst xs) \<Longrightarrow> map_of (filter (\<lambda>(k, v). P v) xs) k =
     (case map_of xs k of Some v \<Rightarrow> if P v then Some v else None | None \<Rightarrow> None)"
  by (induction xs) (auto split: option.splits simp: map_of_eq_None_iff dest: map_of_SomeD)

section \<open>Invariants of step relations\<close>

text \<open>
  What every component with a step relation shows of its invariant, and a second invariant that is
  kept as long as the first one holds.
\<close>

locale invariant =
  fixes step :: "'s \<Rightarrow> 's \<Rightarrow> bool" and inv :: "'s \<Rightarrow> bool"
  assumes step_keeps: "step s s' \<Longrightarrow> inv s \<Longrightarrow> inv s'"
begin

lemma steps_keep:
  assumes "step\<^sup>*\<^sup>* s s'" and "inv s"
  shows "inv s'"
  using assms by (induction rule: rtranclp_induct) (auto intro: step_keeps)

end

locale relative_invariant = invariant +
  fixes extra :: "'s \<Rightarrow> bool"
  assumes step_keeps_extra: "step s s' \<Longrightarrow> inv s \<Longrightarrow> extra s \<Longrightarrow> extra s'"
begin

lemma steps_keep_both:
  assumes "step\<^sup>*\<^sup>* s s'" and "inv s" and "extra s"
  shows "inv s' \<and> extra s'"
  using assms by (induction rule: rtranclp_induct) (auto intro: step_keeps step_keeps_extra)

end

section \<open>BTreeMap\<close>

text \<open>
  A \<open>BTreeMap\<close> is its list of entries in key order; \<open>bt_entry k f\<close> is the entry API: the
  value under \<open>k\<close>, if any, is replaced by \<open>f\<close> of it.
\<close>

fun bt_entry :: "'k :: linorder \<Rightarrow> ('v option \<Rightarrow> 'v) \<Rightarrow> ('k \<times> 'v) list \<Rightarrow> ('k \<times> 'v) list" where
  "bt_entry k f [] = [(k, f None)]"
| "bt_entry k f ((k', v) # m) =
     (if k = k' then (k, f (Some v)) # m
      else if k < k' then (k, f None) # (k', v) # m
      else (k', v) # bt_entry k f m)"

definition bt_wf :: "('k :: linorder \<times> 'v) list \<Rightarrow> bool" where
  "bt_wf m \<longleftrightarrow> sorted_wrt (<) (map fst m)"

lemma bt_entry_nonempty [simp]: "bt_entry k f m \<noteq> []"
  by (cases m) (auto split: if_splits)

lemma bt_entry_keys [simp]: "set (map fst (bt_entry k f m)) = insert k (set (map fst m))"
  by (induction k f m rule: bt_entry.induct) auto

lemma bt_wf_entry [simp]: "bt_wf m \<Longrightarrow> bt_wf (bt_entry k f m)"
proof (induction k f m rule: bt_entry.induct)
  case (2 k f k' v m)
  have "set (map fst (bt_entry k f m)) = insert k (set (map fst m))" by (rule bt_entry_keys)
  with 2 show ?case by (auto simp: bt_wf_def)
qed (simp add: bt_wf_def)

lemma bt_wf_Nil [simp]: "bt_wf []"
  by (simp add: bt_wf_def)

lemma bt_wf_distinct: "bt_wf m \<Longrightarrow> distinct (map fst m)"
  by (simp add: bt_wf_def strict_sorted_iff)

lemma map_of_bt_entry:
  "bt_wf m \<Longrightarrow> map_of (bt_entry k f m) = (map_of m)(k \<mapsto> f (map_of m k))"
proof (induction k f m rule: bt_entry.induct)
  case (2 k f k' v m)
  have "k < k' \<Longrightarrow> map_of m k = None"
    using 2 by (auto simp: bt_wf_def map_of_eq_None_iff)
  with 2 show ?case by (auto simp: bt_wf_def fun_eq_iff)
qed simp

end
