(* ===== verification/Canonical_Text.thy ===== *)
theory Canonical_Text
  imports Prelude
begin

text \<open>
  Text canonicalization: \<open>crates/ll-canonical/src/content.rs\<close>. The standard library's
  strict UTF-8 decoder and encoder are modelled on Unicode scalar values; the function
  itself removes one byte-order mark and maps CRLF and CR to LF.
\<close>

section \<open>UTF-8\<close>

definition is_scalar :: "nat \<Rightarrow> bool" where
  "is_scalar c \<longleftrightarrow> c < 0xD800 \<or> 0xE000 \<le> c \<and> c < 0x110000"

definition utf8_char :: "nat \<Rightarrow> nat list" where
  "utf8_char c =
     (if c < 0x80 then [c]
      else if c < 0x800 then [0xC0 + c div 64, 0x80 + c mod 64]
      else if c < 0x10000 then [0xE0 + c div 4096, 0x80 + c div 64 mod 64, 0x80 + c mod 64]
      else [0xF0 + c div 262144, 0x80 + c div 4096 mod 64, 0x80 + c div 64 mod 64, 0x80 + c mod 64])"

text \<open>\<open>String::len\<close> counts UTF-8 bytes.\<close>

definition utf8_len :: "ustr \<Rightarrow> nat" where
  "utf8_len s = sum_list (map (\<lambda>c. length (utf8_char c)) s)"

definition utf8_encode :: "ustr \<Rightarrow> bytes" where
  "utf8_encode s = map of_nat (concat (map utf8_char s))"

definition is_cont :: "nat \<Rightarrow> bool" where
  "is_cont n \<longleftrightarrow> 0x80 \<le> n \<and> n < 0xC0"

text \<open>One scalar off the front: \<open>None\<close> for a byte sequence UTF-8 does not allow.\<close>

fun utf8_next :: "nat list \<Rightarrow> (nat \<times> nat list) option" where
  "utf8_next [] = None"
| "utf8_next (n # bs) =
     (if n < 0x80 then Some (n, bs)
      else case bs of
        [] \<Rightarrow> None
      | b1 # bs1 \<Rightarrow>
          if \<not> is_cont b1 then None
          else if n < 0xC2 then None
          else if n < 0xE0 then Some ((n - 0xC0) * 64 + (b1 - 0x80), bs1)
          else case bs1 of
            [] \<Rightarrow> None
          | b2 # bs2 \<Rightarrow>
              if \<not> is_cont b2 then None
              else if n < 0xF0 then
                (let c = (n - 0xE0) * 4096 + (b1 - 0x80) * 64 + (b2 - 0x80)
                 in if 0x800 \<le> c \<and> is_scalar c then Some (c, bs2) else None)
              else case bs2 of
                [] \<Rightarrow> None
              | b3 # bs3 \<Rightarrow>
                  if \<not> is_cont b3 then None
                  else
                    (let c = (n - 0xF0) * 262144 + (b1 - 0x80) * 4096 + (b2 - 0x80) * 64 + (b3 - 0x80)
                     in if 0x10000 \<le> c \<and> is_scalar c then Some (c, bs3) else None))"

lemma utf8_next_shorter: "utf8_next bs = Some (c, rest) \<Longrightarrow> length rest < length bs"
  by (cases bs) (auto simp: Let_def split: if_splits list.splits)

function utf8_scan :: "nat list \<Rightarrow> ustr option" where
  "utf8_scan bs =
     (if bs = [] then Some []
      else case utf8_next bs of
        None \<Rightarrow> None
      | Some (c, rest) \<Rightarrow> map_option ((#) c) (utf8_scan rest))"
  by pat_completeness auto
termination
  by (relation "measure length") (auto dest: utf8_next_shorter)

declare utf8_scan.simps [simp del]

text \<open>\<open>std::str::from_utf8\<close>.\<close>

definition utf8_decode :: "bytes \<Rightarrow> ustr option" where
  "utf8_decode bs = utf8_scan (map unat bs)"

lemma utf8_char_len: "1 \<le> length (utf8_char c) \<and> length (utf8_char c) \<le> 4"
  by (simp add: utf8_char_def)

lemma utf8_char_bytes: "is_scalar c \<Longrightarrow> b \<in> set (utf8_char c) \<Longrightarrow> b < 256"
  by (auto simp: utf8_char_def is_scalar_def split: if_splits)

lemma length_utf8_encode: "length (utf8_encode s) = utf8_len s"
  by (induction s) (simp_all add: utf8_encode_def utf8_len_def)

lemma utf8_len_simps [simp]:
  "utf8_len [] = 0" "utf8_len (c # s) = length (utf8_char c) + utf8_len s"
  "utf8_len (s @ t) = utf8_len s + utf8_len t"
  by (simp_all add: utf8_len_def)

lemma radix64_split:
  fixes c :: nat
  shows "c div 4096 * 4096 + c div 64 mod 64 * 64 + c mod 64 = c"
    and "c div 262144 * 262144 + c div 4096 mod 64 * 4096 + c div 64 mod 64 * 64 + c mod 64 = c"
proof -
  have d: "c div 4096 = c div 64 div 64" "c div 262144 = c div 64 div 64 div 64"
    by (simp_all flip: div_mult2_eq)
  have e: "c div 64 * 64 + c mod 64 = c" "c div 64 div 64 * 64 + c div 64 mod 64 = c div 64"
    "c div 64 div 64 div 64 * 64 + c div 64 div 64 mod 64 = c div 64 div 64"
    by (rule div_mult_mod_eq)+
  from e(1,2) show "c div 4096 * 4096 + c div 64 mod 64 * 64 + c mod 64 = c"
    unfolding d by linarith
  from e show "c div 262144 * 262144 + c div 4096 mod 64 * 4096 + c div 64 mod 64 * 64 + c mod 64 = c"
    unfolding d by linarith
qed

lemma radix64_join:
  fixes a b d m :: nat
  assumes "a < 64" "b < 64" "d < 64"
  shows "(m * 4096 + b * 64 + a) div 4096 = m"
    and "(m * 4096 + b * 64 + a) div 64 = m * 64 + b"
    and "(m * 4096 + b * 64 + a) mod 64 = a"
    and "(m * 262144 + d * 4096 + b * 64 + a) div 262144 = m"
    and "(m * 262144 + d * 4096 + b * 64 + a) div 4096 = m * 64 + d"
    and "(m * 262144 + d * 4096 + b * 64 + a) div 64 = m * 4096 + d * 64 + b"
    and "(m * 262144 + d * 4096 + b * 64 + a) mod 64 = a"
proof -
  have r: "x < 64 \<Longrightarrow> (y * 64 + x) div 64 = y" "x < 64 \<Longrightarrow> (y * 64 + x) mod 64 = x" for x y :: nat
    by simp_all
  have d: "c div 4096 = c div 64 div 64" "c div 262144 = c div 64 div 64 div 64" for c :: nat
    by (simp_all flip: div_mult2_eq)
  have f: "m * 4096 + b * 64 + a = (m * 64 + b) * 64 + a"
    "m * 262144 + d * 4096 + b * 64 + a = ((m * 64 + d) * 64 + b) * 64 + a" by simp_all
  show "(m * 4096 + b * 64 + a) div 4096 = m" "(m * 4096 + b * 64 + a) div 64 = m * 64 + b"
    "(m * 4096 + b * 64 + a) mod 64 = a"
    unfolding f d using assms by (simp_all only: r)
  show "(m * 262144 + d * 4096 + b * 64 + a) div 262144 = m"
    "(m * 262144 + d * 4096 + b * 64 + a) div 4096 = m * 64 + d"
    "(m * 262144 + d * 4096 + b * 64 + a) mod 64 = a"
    unfolding f d using assms by (simp_all only: r)
  show "(m * 262144 + d * 4096 + b * 64 + a) div 64 = m * 4096 + d * 64 + b"
    unfolding f using assms by (simp only: r) simp
qed

lemma utf8_next_char:
  assumes "is_scalar c"
  shows "utf8_next (utf8_char c @ rest) = Some (c, rest)"
proof -
  consider "c < 0x80" | "0x80 \<le> c" "c < 0x800" | "0x800 \<le> c" "c < 0x10000" | "0x10000 \<le> c"
    by linarith
  then show ?thesis
  proof cases
    case 2
    then have "2 \<le> c div 64" "c div 64 < 32" by linarith+
    with 2 show ?thesis by (simp add: utf8_char_def is_cont_def)
  next
    case 3
    note radix64_split(1) [of c]
    moreover have "c div 4096 < 16" using 3 by linarith
    ultimately show ?thesis using 3 assms by (simp add: utf8_char_def is_cont_def Let_def)
  next
    case 4
    note radix64_split(2) [of c]
    moreover have "c div 262144 < 5" using assms by (simp add: is_scalar_def) linarith
    ultimately show ?thesis using 4 assms by (simp add: utf8_char_def is_cont_def Let_def)
  qed (simp add: utf8_char_def)
qed

lemma utf8_scan_encode:
  "\<forall>c \<in> set s. is_scalar c \<Longrightarrow> utf8_scan (concat (map utf8_char s)) = Some s"
proof (induction s)
  case Nil
  show ?case by (simp add: utf8_scan.simps)
next
  case (Cons c s)
  have "utf8_char c \<noteq> []" by (simp add: utf8_char_def)
  with Cons show ?case by (subst utf8_scan.simps) (simp add: utf8_next_char)
qed

lemma utf8_decode_encode:
  assumes "\<forall>c \<in> set s. is_scalar c"
  shows "utf8_decode (utf8_encode s) = Some s"
proof -
  have "map (unat \<circ> (of_nat :: nat \<Rightarrow> byte)) (concat (map utf8_char s)) = concat (map utf8_char s)"
  proof (rule map_idI)
    fix b assume "b \<in> set (concat (map utf8_char s))"
    then have "b < 256" using assms utf8_char_bytes by auto
    then show "(unat \<circ> (of_nat :: nat \<Rightarrow> byte)) b = b" by (simp add: unat_of_nat)
  qed
  then show ?thesis using assms
    by (simp add: utf8_decode_def utf8_encode_def utf8_scan_encode)
qed

lemma utf8_next_sound:
  assumes "utf8_next bs = Some (c, rest)"
  shows "is_scalar c \<and> bs = utf8_char c @ rest"
proof (cases bs)
  case (Cons n bs')
  consider "n < 0x80" | "0x80 \<le> n" "n < 0xE0" | "0xE0 \<le> n" "n < 0xF0" | "0xF0 \<le> n"
    by linarith
  then show ?thesis
  proof cases
    case 1
    with assms Cons show ?thesis by (auto simp: is_scalar_def utf8_char_def)
  next
    case 2
    with assms Cons obtain b1 where b: "bs' = b1 # rest" "is_cont b1" "0xC2 \<le> n"
      "c = (n - 0xC0) * 64 + (b1 - 0x80)"
      by (auto split: list.splits if_splits)
    then obtain x y where xy: "n = 0xC0 + x" "b1 = 0x80 + y" "y < 64"
      by (auto simp: is_cont_def le_iff_add)
    with b(3) 2 have x: "2 \<le> x" "x < 32" by simp_all
    with b xy have c: "c = x * 64 + y" "c div 64 = x" "c mod 64 = y" "128 \<le> c" "c < 2048"
      by simp_all
    have "bs = utf8_char c @ rest"
      unfolding utf8_char_def c(2,3) using c(4,5) by (simp add: Cons b(1) xy)
    then show ?thesis using c(5) by (simp add: is_scalar_def)
  next
    case 3
    with assms Cons obtain b1 b2 where b: "bs' = b1 # b2 # rest" "is_cont b1" "is_cont b2"
      "c = (n - 0xE0) * 4096 + (b1 - 0x80) * 64 + (b2 - 0x80)" "0x800 \<le> c" "is_scalar c"
      by (auto simp: Let_def split: list.splits if_splits)
    then obtain x y z where xyz: "n = 0xE0 + x" "b1 = 0x80 + y" "b2 = 0x80 + z" "y < 64" "z < 64"
      using 3 by (auto simp: is_cont_def le_iff_add)
    with b 3 have x: "x < 16" and c: "c = x * 4096 + y * 64 + z" by simp_all
    then have d: "c div 4096 = x" "c div 64 mod 64 = y" "c mod 64 = z"
      using xyz(4,5) radix64_join [of z y z x] by simp_all
    have "c < 0x10000" using c x xyz(4,5) by linarith
    then have "bs = utf8_char c @ rest"
      unfolding utf8_char_def d using b(5) by (simp add: Cons b(1) xyz(1-3))
    then show ?thesis using b(6) by simp
  next
    case 4
    with assms Cons obtain b1 b2 b3 where b: "bs' = b1 # b2 # b3 # rest"
      "is_cont b1" "is_cont b2" "is_cont b3"
      "c = (n - 0xF0) * 262144 + (b1 - 0x80) * 4096 + (b2 - 0x80) * 64 + (b3 - 0x80)"
      "0x10000 \<le> c" "is_scalar c"
      by (auto simp: Let_def split: list.splits if_splits)
    then obtain x y z w where xyz: "n = 0xF0 + x" "b1 = 0x80 + y" "b2 = 0x80 + z" "b3 = 0x80 + w"
      "y < 64" "z < 64" "w < 64"
      using 4 by (auto simp: is_cont_def le_iff_add)
    with b have c: "c = x * 262144 + y * 4096 + z * 64 + w" by simp
    then have d: "c div 262144 = x" "c div 4096 mod 64 = y" "c div 64 mod 64 = z" "c mod 64 = w"
      using xyz(5-7) radix64_join [of w z y x] radix64_join(3) [of z y z x] by simp_all
    have "bs = utf8_char c @ rest"
      unfolding utf8_char_def d using b(6) by (simp add: Cons b(1) xyz(1-4))
    then show ?thesis using b(7) by simp
  qed
qed (use assms in simp)

lemma utf8_scan_sound:
  "utf8_scan bs = Some s \<Longrightarrow> (\<forall>c \<in> set s. is_scalar c) \<and> bs = concat (map utf8_char s)"
proof (induction bs arbitrary: s rule: utf8_scan.induct)
  case (1 bs)
  show ?case
  proof (cases "bs = []")
    case True
    with "1.prems" show ?thesis by (simp add: utf8_scan.simps)
  next
    case False
    with "1.prems" obtain c rest s' where n: "utf8_next bs = Some (c, rest)"
      "utf8_scan rest = Some s'" "s = c # s'"
      by (subst (asm) utf8_scan.simps) (auto split: option.splits prod.splits)
    with "1.IH" [OF False n(1) refl n(2)] utf8_next_sound [OF n(1)] show ?thesis by simp
  qed
qed

lemma utf8_decode_sound:
  "utf8_decode bs = Some s \<Longrightarrow> (\<forall>c \<in> set s. is_scalar c) \<and> bs = utf8_encode s"
  by (drule utf8_scan_sound [of "map unat bs", folded utf8_decode_def])
    (auto simp: utf8_encode_def o_def dest: arg_cong [where f = "map (of_nat :: nat \<Rightarrow> byte)"])

section \<open>Canonicalization\<close>

datatype content_error = InvalidUtf8

definition strip_bom :: "ustr \<Rightarrow> ustr" where
  "strip_bom s = (case s of c # cs \<Rightarrow> if c = 0xFEFF then cs else s | [] \<Rightarrow> s)"

text \<open>The \<open>while let\<close> loop over the peekable characters.\<close>

fun normalize_newlines :: "ustr \<Rightarrow> ustr" where
  "normalize_newlines [] = []"
| "normalize_newlines [c] = [if c = 13 then 10 else c]"
| "normalize_newlines (c # d # cs) =
     (if c = 13 then (if d = 10 then 10 # normalize_newlines cs else 10 # normalize_newlines (d # cs))
      else c # normalize_newlines (d # cs))"

definition canonicalize_text :: "bytes \<Rightarrow> content_error + bytes" where
  "canonicalize_text input =
     (case utf8_decode input of
        None \<Rightarrow> Inl InvalidUtf8
      | Some decoded \<Rightarrow> Inr (utf8_encode (normalize_newlines (strip_bom decoded))))"

text \<open>
  The format document describes two passes: replace every CRLF, then every remaining
  CR. \<open>drop_crlf\<close> and \<open>map\<close> are those passes.
\<close>

fun drop_crlf :: "ustr \<Rightarrow> ustr" where
  "drop_crlf (c # d # cs) =
     (if c = 13 \<and> d = 10 then 10 # drop_crlf cs else c # drop_crlf (d # cs))"
| "drop_crlf s = s"

lemma normalize_newlines_two_pass:
  "normalize_newlines s = map (\<lambda>c. if c = 13 then 10 else c) (drop_crlf s)"
  by (induction s rule: normalize_newlines.induct) auto

lemma normalize_newlines_no_cr: "13 \<notin> set (normalize_newlines s)"
  by (induction s rule: normalize_newlines.induct) auto

lemma normalize_newlines_id: "13 \<notin> set s \<Longrightarrow> normalize_newlines s = s"
  by (induction s rule: normalize_newlines.induct) auto

lemma normalize_newlines_set: "set (normalize_newlines s) \<subseteq> insert 10 (set s)"
  by (induction s rule: normalize_newlines.induct) auto

lemma strip_bom_set: "set (strip_bom s) \<subseteq> set s"
  by (auto simp: strip_bom_def split: list.splits if_splits)

lemma strip_bom_id: "s = [] \<or> hd s \<noteq> 0xFEFF \<Longrightarrow> strip_bom s = s"
  by (auto simp: strip_bom_def split: list.splits)

lemma canonical_scalars:
  "\<forall>c \<in> set s. is_scalar c \<Longrightarrow> \<forall>c \<in> set (normalize_newlines (strip_bom s)). is_scalar c"
proof
  fix c assume "\<forall>c \<in> set s. is_scalar c" "c \<in> set (normalize_newlines (strip_bom s))"
  then have "c = 10 \<or> is_scalar c"
    using normalize_newlines_set [of "strip_bom s"] strip_bom_set [of s] by blast
  then show "is_scalar c" by (auto simp: is_scalar_def)
qed

lemma hd_normalize_newlines:
  "normalize_newlines s \<noteq> [] \<Longrightarrow> hd (normalize_newlines s) = (if hd s = 13 then 10 else hd s)"
  by (cases s rule: normalize_newlines.cases) auto

lemma normalize_newlines_Nil [simp]: "normalize_newlines s = [] \<longleftrightarrow> s = []"
  by (cases s rule: normalize_newlines.cases) auto

lemma unat_of_nat_byte: "b < 256 \<Longrightarrow> unat (of_nat b :: byte) = b"
  by (simp add: unat_of_nat)

lemma unat_numeral_8_bit: "unat (13 :: byte) = 13"
  by simp

lemma utf8_encode_no_cr:
  assumes "\<forall>c \<in> set s. is_scalar c" "13 \<notin> set s"
  shows "(13 :: byte) \<notin> set (utf8_encode s)"
proof
  assume "(13 :: byte) \<in> set (utf8_encode s)"
  then obtain c b where cb: "c \<in> set s" "b \<in> set (utf8_char c)" "(of_nat b :: byte) = 13"
    by (auto simp: utf8_encode_def)
  have "b < 256" using assms(1) cb utf8_char_bytes by blast
  with cb(3) have "b = 13"
    by (metis unat_of_nat_byte unat_numeral_8_bit)
  with cb(2) have "c = 13" by (auto simp: utf8_char_def split: if_splits)
  with cb(1) assms(2) show False by simp
qed

text \<open>
  C40. Canonicalization rejects exactly the byte sequences that are not UTF-8, and on
  UTF-8 input it is the two-pass description of the format document: strip one leading
  byte-order mark, replace every CRLF by LF, then every remaining CR by LF, and keep
  every other scalar.
\<close>

theorem canonicalize_text_two_pass:
  "canonicalize_text input =
     (case utf8_decode input of
        None \<Rightarrow> Inl InvalidUtf8
      | Some s \<Rightarrow> Inr (utf8_encode (map (\<lambda>c. if c = 13 then 10 else c) (drop_crlf (strip_bom s)))))"
  by (simp add: canonicalize_text_def normalize_newlines_two_pass split: option.split)

text \<open>
  The output never holds a carriage return, and canonicalizing it again changes
  nothing, provided it does not begin with another byte-order mark.
\<close>

theorem canonicalize_text_stable:
  assumes "canonicalize_text input = Inr out"
  shows "(13 :: byte) \<notin> set out \<and>
    (take 3 out \<noteq> [0xEF, 0xBB, 0xBF] \<longrightarrow> canonicalize_text out = Inr out)"
proof -
  from assms obtain d where d: "utf8_decode input = Some d"
    and out: "out = utf8_encode (normalize_newlines (strip_bom d))"
    by (auto simp: canonicalize_text_def split: option.splits)
  let ?n = "normalize_newlines (strip_bom d)"
  from utf8_decode_sound [OF d] have sc: "\<forall>c \<in> set ?n. is_scalar c"
    by (intro canonical_scalars) simp
  have keep: "canonicalize_text out = Inr out" if "take 3 out \<noteq> [0xEF, 0xBB, 0xBF]"
  proof -
    have "?n = [] \<or> hd ?n \<noteq> 0xFEFF"
    proof (rule ccontr)
      assume "\<not> ?thesis"
      then obtain cs where "?n = 0xFEFF # cs" by (cases ?n) auto
      then have "take 3 out = [0xEF, 0xBB, 0xBF]"
        by (simp add: out utf8_encode_def utf8_char_def)
      with that show False by simp
    qed
    then show ?thesis using sc
      by (simp add: canonicalize_text_def out utf8_decode_encode strip_bom_id
          normalize_newlines_id normalize_newlines_no_cr)
  qed
  with sc show ?thesis by (simp add: out utf8_encode_no_cr normalize_newlines_no_cr)
qed

theorem canonicalize_text_stable_witness: "canonicalize_text [0xEF, 0xBB, 0xBF, 97, 13, 10, 98] = Inr [97, 10, 98] \<and>
   canonicalize_text [97, 10, 98] = Inr [97, 10, 98]"
proof -
  have a: "canonicalize_text [0xEF, 0xBB, 0xBF, 97, 13, 10, 98] = Inr [97, 10, 98]"
    by (simp add: canonicalize_text_def utf8_decode_def utf8_scan.simps is_cont_def is_scalar_def
      strip_bom_def utf8_encode_def utf8_char_def Let_def)
  show ?thesis using a canonicalize_text_stable [OF a] by simp
qed
text \<open>
  Without that proviso it is not idempotent: one mark is removed per call, so a text
  with two leading marks changes again when it is canonicalized a second time.
\<close>

theorem canonicalize_text_two_boms:
  "canonicalize_text [0xEF, 0xBB, 0xBF, 0xEF, 0xBB, 0xBF, 97] = Inr [0xEF, 0xBB, 0xBF, 97] \<and>
   canonicalize_text [0xEF, 0xBB, 0xBF, 97] = Inr [97]"
  by (simp add: canonicalize_text_def utf8_decode_def utf8_scan.simps is_cont_def is_scalar_def
      strip_bom_def utf8_encode_def utf8_char_def Let_def)
end
