(* ===== verification/Portable_Path.thy ===== *)
theory Portable_Path
  imports Canonical_Text
begin

text \<open>
  Portable logical paths: \<open>crates/ll-canonical/src/path.rs\<close>. Unicode normalization (crate
  unicode-normalization) and case folding (crate unicode-casefold) are the parameters
  \<open>nfc\<close> and \<open>case_fold\<close>; what the path code relies on is stated as the predicate
  \<open>nfc_laws\<close>. A \<open>PortablePath\<close> is its canonical string.
\<close>

section \<open>Constants and errors\<close>

definition MAX_SEGMENT_BYTES :: nat where "MAX_SEGMENT_BYTES = 255"
definition MAX_PATH_BYTES :: nat where "MAX_PATH_BYTES = 1024"

definition FORBIDDEN_CHARACTERS :: "nat list" where
  "FORBIDDEN_CHARACTERS = [0x3C, 0x3E, 0x3A, 0x22, 0x5C, 0x7C, 0x3F, 0x2A, 0]"

datatype path_error =
    PE_EmptyPath | PE_AbsolutePath | PE_EmptySegment | PE_DotSegment ustr
  | PE_ControlCharacter | PE_ForbiddenCharacter nat | PE_TrailingSpaceOrDot
  | PE_ReservedName ustr | PE_SegmentTooLong nat nat | PE_PathTooLong nat nat

fun path_error_code :: "path_error \<Rightarrow> string" where
  "path_error_code PE_EmptyPath = ''empty_path''"
| "path_error_code PE_AbsolutePath = ''absolute_path''"
| "path_error_code PE_EmptySegment = ''empty_segment''"
| "path_error_code (PE_DotSegment _) = ''dot_segment''"
| "path_error_code PE_ControlCharacter = ''control_character''"
| "path_error_code (PE_ForbiddenCharacter _) = ''forbidden_character''"
| "path_error_code PE_TrailingSpaceOrDot = ''trailing_space_or_dot''"
| "path_error_code (PE_ReservedName _) = ''reserved_name''"
| "path_error_code (PE_SegmentTooLong _ _) = ''segment_too_long''"
| "path_error_code (PE_PathTooLong _ _) = ''path_too_long''"

section \<open>Strings\<close>

text \<open>\<open>char::is_control\<close> (general category Cc), \<open>str::split\<close> and \<open>join\<close> with one
  separator, \<open>ends_with([' ', '.'])\<close>, and the ASCII upper-casing.\<close>

definition is_control :: "nat \<Rightarrow> bool" where
  "is_control c \<longleftrightarrow> c < 0x20 \<or> 0x7F \<le> c \<and> c < 0xA0"

abbreviation slash :: nat where "slash \<equiv> 0x2F"

fun split_on :: "nat \<Rightarrow> ustr \<Rightarrow> ustr list" where
  "split_on sep [] = [[]]"
| "split_on sep (c # cs) =
     (if c = sep then [] # split_on sep cs
      else case split_on sep cs of seg # segs \<Rightarrow> (c # seg) # segs | [] \<Rightarrow> [[c]])"

fun join_with :: "nat \<Rightarrow> ustr list \<Rightarrow> ustr" where
  "join_with sep [] = []"
| "join_with sep [s] = s"
| "join_with sep (s # t # ss) = s @ sep # join_with sep (t # ss)"

definition space_or_dot :: "nat \<Rightarrow> bool" where
  "space_or_dot c \<longleftrightarrow> c = 0x20 \<or> c = 0x2E"

definition ends_space_or_dot :: "ustr \<Rightarrow> bool" where
  "ends_space_or_dot s \<longleftrightarrow> s \<noteq> [] \<and> space_or_dot (last s)"

definition trim_end_space_or_dot :: "ustr \<Rightarrow> ustr" where
  "trim_end_space_or_dot s = rev (dropWhile space_or_dot (rev s))"

definition ascii_upper :: "nat \<Rightarrow> nat" where
  "ascii_upper c = (if 0x61 \<le> c \<and> c \<le> 0x7A then c - 0x20 else c)"

lemma split_on_nonempty [simp]: "split_on sep s \<noteq> []"
  by (cases s) (auto split: list.splits)

lemma join_split [simp]: "join_with sep (split_on sep s) = s"
proof (induction s)
  case (Cons c cs)
  obtain t ts where t: "split_on sep cs = t # ts" by (cases "split_on sep cs") auto
  with Cons show ?case by (cases ts) auto
qed simp

lemma split_on_no_sep: "t \<in> set (split_on sep s) \<Longrightarrow> sep \<notin> set t"
proof (induction s arbitrary: t)
  case (Cons c cs)
  obtain u us where u: "split_on sep cs = u # us" by (cases "split_on sep cs") auto
  with Cons show ?case by (auto split: if_splits)
qed simp

lemma split_on_id: "sep \<notin> set s \<Longrightarrow> split_on sep s = [s]"
  by (induction s) auto

lemma split_on_append: "sep \<notin> set s \<Longrightarrow> split_on sep (s @ sep # t) = s # split_on sep t"
  by (induction s) auto

lemma split_join:
  "ss \<noteq> [] \<Longrightarrow> \<forall>s \<in> set ss. sep \<notin> set s \<Longrightarrow> split_on sep (join_with sep ss) = ss"
  by (induction sep ss rule: join_with.induct) (auto simp: split_on_id split_on_append)

section \<open>Segments\<close>

definition is_numbered_device :: "ustr \<Rightarrow> ustr \<Rightarrow> bool" where
  "is_numbered_device name prefix \<longleftrightarrow>
     take (length prefix) name = prefix \<and>
     drop (length prefix) name \<in> set (map (\<lambda>d. [d]) [0x31..<0x3A])"

definition CON :: ustr where "CON = [0x43, 0x4F, 0x4E]"
definition PRN :: ustr where "PRN = [0x50, 0x52, 0x4E]"
definition AUX :: ustr where "AUX = [0x41, 0x55, 0x58]"
definition NUL :: ustr where "NUL = [0x4E, 0x55, 0x4C]"
definition COM :: ustr where "COM = [0x43, 0x4F, 0x4D]"
definition LPT :: ustr where "LPT = [0x4C, 0x50, 0x54]"

definition is_reserved_name :: "ustr \<Rightarrow> bool" where
  "is_reserved_name segment =
     (let basename = map ascii_upper (trim_end_space_or_dot (hd (split_on 0x2E segment)))
      in basename \<in> set [CON, PRN, AUX, NUL]
         \<or> is_numbered_device basename COM \<or> is_numbered_device basename LPT)"

fun check_characters :: "ustr \<Rightarrow> path_error + unit" where
  "check_characters [] = Inr ()"
| "check_characters (c # cs) =
     (if is_control c then Inl PE_ControlCharacter
      else if c \<in> set FORBIDDEN_CHARACTERS then Inl (PE_ForbiddenCharacter c)
      else check_characters cs)"

definition validate_segment :: "ustr \<Rightarrow> path_error + unit" where
  "validate_segment segment =
     rbind (check_characters segment) (\<lambda>_.
       if ends_space_or_dot segment then Inl PE_TrailingSpaceOrDot
       else if is_reserved_name segment then Inl (PE_ReservedName segment)
       else if utf8_len segment > MAX_SEGMENT_BYTES
         then Inl (PE_SegmentTooLong (utf8_len segment) MAX_SEGMENT_BYTES)
       else Inr ())"

section \<open>Parsing\<close>

fun parse_segments :: "(ustr \<Rightarrow> ustr) \<Rightarrow> ustr list \<Rightarrow> path_error + ustr list" where
  "parse_segments nfc [] = Inr []"
| "parse_segments nfc (segment # rest) =
     (if segment = [] then Inl PE_EmptySegment
      else if segment = [0x2E] \<or> segment = [0x2E, 0x2E] then Inl (PE_DotSegment segment)
      else rbind (validate_segment (nfc segment)) (\<lambda>_.
           rbind (parse_segments nfc rest) (\<lambda>segments. Inr (nfc segment # segments))))"

definition parse_path :: "(ustr \<Rightarrow> ustr) \<Rightarrow> ustr \<Rightarrow> path_error + ustr" where
  "parse_path nfc input =
     (if input = [] then Inl PE_EmptyPath
      else if hd input = slash then Inl PE_AbsolutePath
      else rbind (parse_segments nfc (split_on slash input)) (\<lambda>segments.
        let canonical = join_with slash segments
        in if utf8_len canonical > MAX_PATH_BYTES
           then Inl (PE_PathTooLong (utf8_len canonical) MAX_PATH_BYTES)
           else Inr canonical))"

definition collision_key :: "(ustr \<Rightarrow> ustr) \<Rightarrow> (ustr \<Rightarrow> ustr) \<Rightarrow> ustr \<Rightarrow> ustr" where
  "collision_key nfc case_fold path =
     join_with slash (map (\<lambda>segment. nfc (case_fold segment)) (split_on slash path))"

text \<open>What a canonical path is, independently of the parser.\<close>

definition portable_segment :: "ustr \<Rightarrow> bool" where
  "portable_segment s \<longleftrightarrow> s \<noteq> [] \<and> validate_segment s = Inr ()"

definition portable_path :: "ustr \<Rightarrow> bool" where
  "portable_path p \<longleftrightarrow>
     (\<forall>s \<in> set (split_on slash p). portable_segment s) \<and> utf8_len p \<le> MAX_PATH_BYTES"

text \<open>Documented behaviour of Unicode normalization form C: it is idempotent, and it
  neither creates nor removes the separator, nor empties a string.\<close>

definition nfc_laws :: "(ustr \<Rightarrow> ustr) \<Rightarrow> bool" where
  "nfc_laws nfc \<longleftrightarrow>
     (\<forall>s. nfc (nfc s) = nfc s) \<and>
     (\<forall>s. slash \<notin> set s \<longrightarrow> slash \<notin> set (nfc s)) \<and>
     (\<forall>s. nfc s = [] \<longleftrightarrow> s = [])"

lemma nfc_lawsD:
  assumes "nfc_laws nfc"
  shows nfc_idem: "nfc (nfc s) = nfc s"
    and nfc_slash: "slash \<notin> set s \<Longrightarrow> slash \<notin> set (nfc s)"
    and nfc_empty: "nfc s = [] \<longleftrightarrow> s = []"
  using assms by (auto simp: nfc_laws_def)

lemma parse_segments_Inr:
  assumes "nfc_laws nfc"
  shows "parse_segments nfc ss = Inr ts \<Longrightarrow>
     ts = map nfc ss \<and> (\<forall>t \<in> set ts. portable_segment t)"
  by (induction ss arbitrary: ts)
    (auto simp: rbind_Inr_iff portable_segment_def nfc_empty [OF assms] eq_commute [of "[]"] split: if_splits)

lemma portable_not_dot: "portable_segment s \<Longrightarrow> s \<noteq> [0x2E] \<and> s \<noteq> [0x2E, 0x2E]"
  by (auto simp: portable_segment_def validate_segment_def ends_space_or_dot_def
      space_or_dot_def result_iffs)

lemma parse_segments_fixed:
  "\<forall>s \<in> set ss. portable_segment s \<and> nfc s = s \<Longrightarrow> parse_segments nfc ss = Inr ss"
proof (induction ss)
  case (Cons s ss)
  then have "portable_segment s" "nfc s = s" "parse_segments nfc ss = Inr ss" by simp_all
  with portable_not_dot [of s] show ?case by (simp add: portable_segment_def)
qed simp

lemma parse_path_Inr:
  assumes laws: "nfc_laws nfc" and "parse_path nfc input = Inr p"
  shows "split_on slash p = map nfc (split_on slash input) \<and> portable_path p"
proof -
  from assms(2) obtain ts where ts: "parse_segments nfc (split_on slash input) = Inr ts"
    and p: "p = join_with slash ts" "utf8_len p \<le> MAX_PATH_BYTES"
    by (auto simp: parse_path_def rbind_Inr_iff Let_def split: if_splits)
  from parse_segments_Inr [OF laws ts] have t: "ts = map nfc (split_on slash input)"
    "\<forall>t \<in> set ts. portable_segment t" by auto
  have "split_on slash p = ts"
    unfolding p(1) using t by (intro split_join) (auto dest: split_on_no_sep nfc_slash [OF laws])
  with t p(2) show ?thesis by (simp add: portable_path_def)
qed

lemma parse_path_idem:
  assumes laws: "nfc_laws nfc" and "parse_path nfc input = Inr p"
  shows "parse_path nfc p = Inr p"
proof -
  note p = parse_path_Inr [OF assms]
  have seg: "\<forall>s \<in> set (split_on slash p). portable_segment s \<and> nfc s = s"
    using p by (auto simp: portable_path_def nfc_idem [OF laws])
  obtain s ss where s: "split_on slash p = s # ss" by (cases "split_on slash p") auto
  with seg have "s \<noteq> []" "slash \<notin> set s"
    using split_on_no_sep [of s slash p] by (auto simp: portable_segment_def)
  moreover have "p = join_with slash (s # ss)" using s join_split [of slash p] by simp
  ultimately have "p \<noteq> []" "hd p \<noteq> slash" by (cases ss; cases s; auto)+
  moreover have "utf8_len p \<le> MAX_PATH_BYTES" using p by (simp add: portable_path_def)
  moreover note parse_segments_fixed [OF seg]
  ultimately show ?thesis by (simp add: parse_path_def)
qed

text \<open>
  A concrete normalizer, for the witnesses: it composes \<open>e\<close> followed by the combining
  acute accent (U+0301) to U+00E9 and leaves everything else alone.
\<close>

fun compose_acute :: "ustr \<Rightarrow> ustr" where
  "compose_acute (c # d # cs) =
     (if c = 0x65 \<and> d = 0x301 then 0xE9 # compose_acute cs else c # compose_acute (d # cs))"
| "compose_acute s = s"

lemma hd_compose_acute: "s \<noteq> [] \<Longrightarrow> hd (compose_acute s) \<in> {hd s, 0xE9}"
  by (induction s rule: compose_acute.induct) auto

lemma compose_acute_idem: "compose_acute (compose_acute s) = compose_acute s"
proof (induction s rule: compose_acute.induct)
  case (1 c d cs)
  show ?case
  proof (cases "c = 0x65 \<and> d = 0x301")
    case True
    with 1 show ?thesis by (cases "compose_acute cs") auto
  next
    case False
    have "compose_acute (d # cs) \<noteq> []" by (cases cs) auto
    then obtain e es where e: "compose_acute (d # cs) = e # es"
      by (cases "compose_acute (d # cs)") auto
    with hd_compose_acute [of "d # cs"] have "e = d \<or> e = 0xE9" by auto
    with 1 False e show ?thesis by auto
  qed
qed auto

lemma compose_acute_laws: "nfc_laws compose_acute"
proof -
  have "set (compose_acute s) \<subseteq> insert 0xE9 (set s)" for s
    by (induction s rule: compose_acute.induct) auto
  moreover have "compose_acute s = [] \<longleftrightarrow> s = []" for s
    by (cases s rule: compose_acute.cases) auto
  moreover have "slash \<noteq> 0xE9" by simp
  ultimately show ?thesis unfolding nfc_laws_def using compose_acute_idem by blast
qed

lemmas validate_segment_eval =
  validate_segment_def is_control_def FORBIDDEN_CHARACTERS_def ends_space_or_dot_def
  space_or_dot_def is_reserved_name_def Let_def ascii_upper_def trim_end_space_or_dot_def
  CON_def PRN_def AUX_def NUL_def COM_def LPT_def is_numbered_device_def utf8_char_def
  MAX_SEGMENT_BYTES_def

text \<open>
  C38. A path the parser accepts is canonical: its segments are the normalized input
  segments in order, each passes segment validation and is not empty, the whole is within
  the byte limit, and parsing it again returns it unchanged.
\<close>

theorem parse_path_canonical:
  assumes "nfc_laws nfc" and "parse_path nfc input = Inr p"
  shows "split_on slash p = map nfc (split_on slash input) \<and> portable_path p \<and>
    parse_path nfc p = Inr p"
  using parse_path_Inr [OF assms] parse_path_idem [OF assms] by simp

theorem parse_path_canonical_witness:
  "parse_path compose_acute [0x61, 0x2F, 0x65, 0x301] = Inr [0x61, 0x2F, 0xE9] \<and>
   parse_path compose_acute [0x61, 0x2F, 0xE9] = Inr [0x61, 0x2F, 0xE9] \<and>
   portable_path [0x61, 0x2F, 0xE9]"
proof -
  have h: "parse_path compose_acute [0x61, 0x2F, 0x65, 0x301] = Inr [0x61, 0x2F, 0xE9]"
    by (simp add: parse_path_def validate_segment_eval MAX_PATH_BYTES_def)
  show ?thesis using h parse_path_canonical [OF compose_acute_laws h] by simp
qed

end
