(* ===== verification/Path_Collisions.thy ===== *)
theory Path_Collisions
  imports Portable_Path
begin

text \<open>
  Portable collisions and safe-name suggestions: \<open>detect_collisions\<close> and
  \<open>suggest_safe_segment\<close> of \<open>crates/ll-canonical/src/path.rs\<close>. A collision key function
  stands for \<open>PortablePath::collision_key\<close>; the properties instantiate it.
\<close>

section \<open>Collision detection\<close>

record path_collision =
  pc_key :: ustr
  pc_paths :: "ustr list"

definition push_path :: "ustr \<Rightarrow> ustr list option \<Rightarrow> ustr list" where
  "push_path p members = (case members of None \<Rightarrow> [p] | Some ps \<Rightarrow> ps @ [p])"

definition group_paths :: "(ustr \<Rightarrow> ustr) \<Rightarrow> ustr list \<Rightarrow> (ustr \<times> ustr list) list" where
  "group_paths key paths = foldl (\<lambda>grouped p. bt_entry (key p) (push_path p) grouped) [] paths"

text \<open>The proper prefixes of a key that end before a separator.\<close>

definition ancestor_keys :: "ustr \<Rightarrow> ustr list" where
  "ancestor_keys k = map (\<lambda>i. take i k) (filter (\<lambda>i. k ! i = slash) [0..<length k])"

definition add_members :: "ustr list \<Rightarrow> (ustr \<times> ustr) list option \<Rightarrow> (ustr \<times> ustr) list" where
  "add_members ps members =
     foldl (\<lambda>m p. bt_entry p (\<lambda>_. p) m) (case members of None \<Rightarrow> [] | Some m \<Rightarrow> m) ps"

definition prefix_step ::
  "(ustr \<times> ustr list) list \<Rightarrow> (ustr \<times> (ustr \<times> ustr) list) list \<Rightarrow> ustr \<times> ustr list
     \<Rightarrow> (ustr \<times> (ustr \<times> ustr) list) list" where
  "prefix_step grouped acc = (\<lambda>(ancestor_key, descendant_paths).
     case map_of grouped ancestor_key of
       None \<Rightarrow> acc
     | Some ancestor_paths \<Rightarrow>
         bt_entry ancestor_key (add_members (ancestor_paths @ descendant_paths)) acc)"

definition prefix_pairs :: "(ustr \<times> ustr list) list \<Rightarrow> (ustr \<times> ustr list) list" where
  "prefix_pairs grouped =
     concat (map (\<lambda>(k, ps). map (\<lambda>a. (a, ps)) (ancestor_keys k)) grouped)"

definition prefix_collisions :: "(ustr \<times> ustr list) list \<Rightarrow> (ustr \<times> (ustr \<times> ustr) list) list" where
  "prefix_collisions grouped = foldl (prefix_step grouped) [] (prefix_pairs grouped)"

definition detect_collisions :: "(ustr \<Rightarrow> ustr) \<Rightarrow> ustr list \<Rightarrow> path_collision list" where
  "detect_collisions key paths =
     (let grouped = group_paths key paths;
          same = map (\<lambda>(k, members). \<lparr>pc_key = k, pc_paths = sort members\<rparr>)
                   (filter (\<lambda>(k, members). 1 < length members) grouped);
          nested = map (\<lambda>(k, members). \<lparr>pc_key = k, pc_paths = map snd members\<rparr>)
                     (prefix_collisions grouped)
      in sort_key (\<lambda>c. (pc_key c, pc_paths c)) (same @ nested))"

lemma group_paths_inv:
  "bt_wf (group_paths key paths) \<and>
   map_of (group_paths key paths) k =
     (let g = filter (\<lambda>p. key p = k) paths in if g = [] then None else Some g)"
proof (induction paths arbitrary: k rule: rev_induct)
  case Nil
  show ?case by (simp add: group_paths_def)
next
  case (snoc p paths)
  let ?m = "group_paths key paths"
  have wf: "bt_wf ?m" using snoc by blast
  have step: "group_paths key (paths @ [p]) = bt_entry (key p) (push_path p) ?m"
    by (simp add: group_paths_def)
  show ?case
    unfolding step using wf snoc [of k] snoc [of "key p"]
    by (auto simp: map_of_bt_entry push_path_def Let_def)
qed

lemma group_paths_mem:
  "(k, g) \<in> set (group_paths key paths) \<longleftrightarrow> g = filter (\<lambda>p. key p = k) paths \<and> g \<noteq> []"
proof -
  have "(k, g) \<in> set (group_paths key paths) \<longleftrightarrow> map_of (group_paths key paths) k = Some g"
    using group_paths_inv [of key paths k] by (metis bt_wf_distinct map_of_eq_Some_iff)
  then show ?thesis using group_paths_inv [of key paths k] by (auto simp: Let_def)
qed

lemma ancestor_keys_iff: "a \<in> set (ancestor_keys k) \<longleftrightarrow> (\<exists>s. k = a @ slash # s)"
proof
  assume "a \<in> set (ancestor_keys k)"
  then obtain i where "i < length k" "k ! i = slash" "a = take i k"
    by (auto simp: ancestor_keys_def)
  then have "k = a @ slash # drop (Suc i) k" by (metis id_take_nth_drop)
  then show "\<exists>s. k = a @ slash # s" ..
next
  assume "\<exists>s. k = a @ slash # s"
  then obtain s where s: "k = a @ slash # s" ..
  then have "length a < length k" "k ! length a = slash" "take (length a) k = a"
    by (simp_all add: nth_append)
  then show "a \<in> set (ancestor_keys k)"
    unfolding ancestor_keys_def set_map set_filter
    by (intro image_eqI [where x = "length a"]) auto
qed

lemma prefix_fold_Nil:
  "foldl (prefix_step grouped) acc ps = [] \<longleftrightarrow>
     acc = [] \<and> (\<forall>(a, d) \<in> set ps. map_of grouped a = None)"
  by (induction ps arbitrary: acc)
    (auto simp: prefix_step_def split: option.splits prod.splits)

lemma same_key_iff:
  "distinct (map key paths) \<longleftrightarrow> (\<forall>k. length (filter (\<lambda>p. key p = k) paths) \<le> 1)"
proof (induction paths)
  case (Cons p paths)
  have "key p \<notin> key ` set paths \<longleftrightarrow> filter (\<lambda>q. key q = key p) paths = []"
    unfolding filter_empty_conv image_iff by metis
  then have iff: "distinct (map key (p # paths)) \<longleftrightarrow>
      filter (\<lambda>q. key q = key p) paths = [] \<and> (\<forall>k. length (filter (\<lambda>q. key q = k) paths) \<le> 1)"
    using Cons by simp
  show ?case
  proof
    assume "distinct (map key (p # paths))"
    with iff show "\<forall>k. length (filter (\<lambda>q. key q = k) (p # paths)) \<le> 1" by auto
  next
    assume all: "\<forall>k. length (filter (\<lambda>q. key q = k) (p # paths)) \<le> 1"
    then have "filter (\<lambda>q. key q = key p) paths = []" using spec [OF all, of "key p"] by simp
    moreover have "\<forall>k. length (filter (\<lambda>q. key q = k) paths) \<le> 1"
      using all by (metis filter.simps(2) le_SucI length_Cons Suc_leD)
    ultimately show "distinct (map key (p # paths))" using iff by simp
  qed
qed simp

lemma detect_collisions_Nil_iff:
  "detect_collisions key paths = [] \<longleftrightarrow>
     distinct (map key paths) \<and>
     (\<forall>p \<in> set paths. \<forall>q \<in> set paths. \<forall>s. key q \<noteq> key p @ slash # s)"
proof -
  let ?g = "group_paths key paths"
  have "sort_key f xs = [] \<longleftrightarrow> xs = []" for f :: "path_collision \<Rightarrow> ustr \<times> ustr list" and xs
    by (metis set_empty set_sort)
  then have "detect_collisions key paths = [] \<longleftrightarrow>
      (\<forall>(k, g) \<in> set ?g. length g \<le> 1) \<and> prefix_collisions ?g = []"
    by (auto simp: detect_collisions_def Let_def filter_empty_conv not_less)
  also have "(\<forall>(k, g) \<in> set ?g. length g \<le> 1) \<longleftrightarrow> distinct (map key paths)"
    unfolding same_key_iff by (fastforce simp: group_paths_mem)
  also have "prefix_collisions ?g = [] \<longleftrightarrow>
      (\<forall>(k, g) \<in> set ?g. \<forall>a \<in> set (ancestor_keys k). map_of ?g a = None)"
    unfolding prefix_collisions_def prefix_fold_Nil prefix_pairs_def
    by (simp add: split_def)
  also have "\<dots> \<longleftrightarrow> (\<forall>q \<in> set paths. \<forall>a \<in> set (ancestor_keys (key q)). \<forall>p \<in> set paths. key p \<noteq> a)"
  proof -
    have none: "map_of ?g a = None \<longleftrightarrow> (\<forall>p \<in> set paths. key p \<noteq> a)" for a
      using group_paths_inv [of key paths a] by (simp add: Let_def filter_empty_conv)
    have keys: "fst ` set ?g = key ` set paths"
      unfolding dom_map_of_conv_image_fst [symmetric] dom_def none by auto
    define Q where "Q k \<longleftrightarrow> (\<forall>a \<in> set (ancestor_keys k). \<forall>p \<in> set paths. key p \<noteq> a)" for k
    have "(\<forall>x \<in> set ?g. Q (fst x)) \<longleftrightarrow> (\<forall>k \<in> fst ` set ?g. Q k)" by simp
    also have "\<dots> \<longleftrightarrow> (\<forall>q \<in> set paths. Q (key q))" unfolding keys by simp
    finally show ?thesis unfolding none Q_def split_def .
  qed
  finally show ?thesis unfolding Ball_def ancestor_keys_iff by blast
qed

text \<open>Members of a directory collision: a map from every path to itself.\<close>

definition diagonal :: "(ustr \<times> ustr) list \<Rightarrow> bool" where
  "diagonal m \<longleftrightarrow> bt_wf m \<and> (\<forall>(p, q) \<in> set m. q = p)"

lemma diagonal_snd: "diagonal m \<Longrightarrow> map snd m = map fst m"
  by (auto simp: diagonal_def)

lemma bt_entry_mem:
  assumes "bt_wf m"
  shows "(q, r) \<in> set (bt_entry k f m) \<longleftrightarrow> (if q = k then r = f (map_of m k) else (q, r) \<in> set m)"
proof -
  have "(q, r) \<in> set (bt_entry k f m) \<longleftrightarrow> map_of (bt_entry k f m) q = Some r"
    using assms by (simp add: bt_wf_distinct)
  with assms show ?thesis by (auto simp: map_of_bt_entry bt_wf_distinct)
qed

lemma diagonal_entry: "diagonal m \<Longrightarrow> diagonal (bt_entry p (\<lambda>_. p) m)"
  by (auto simp: diagonal_def bt_entry_mem split: if_splits)

lemma diagonal_fold:
  "diagonal m \<Longrightarrow> diagonal (foldl (\<lambda>m p. bt_entry p (\<lambda>_. p) m) m ps) \<and>
     set (map fst (foldl (\<lambda>m p. bt_entry p (\<lambda>_. p) m) m ps)) = set ps \<union> set (map fst m)"
proof (induction ps arbitrary: m)
  case (Cons p ps)
  from Cons.IH [OF diagonal_entry [OF Cons.prems, of p]] show ?case by (simp del: set_map)
qed simp

definition real_group :: "ustr list \<Rightarrow> (ustr \<times> ustr) list \<Rightarrow> bool" where
  "real_group paths m \<longleftrightarrow> diagonal m \<and> set (map fst m) \<subseteq> set paths \<and>
     (\<exists>p \<in> set (map fst m). \<exists>q \<in> set (map fst m). p \<noteq> q)"

lemma real_group_distinct:
  assumes "real_group paths m"
  shows "distinct (map snd m) \<and> 2 \<le> length m \<and> set (map snd m) \<subseteq> set paths"
proof -
  have d: "distinct (map fst m)" using assms by (simp add: real_group_def diagonal_def bt_wf_distinct)
  have "\<not> length m \<le> 1"
    using assms by (cases m) (auto simp: real_group_def)
  with d assms show ?thesis by (simp add: real_group_def diagonal_snd)
qed

lemma prefix_pairs_mem:
  "(a, d) \<in> set (prefix_pairs grouped) \<longleftrightarrow> (\<exists>k. (k, d) \<in> set grouped \<and> a \<in> set (ancestor_keys k))"
  by (force simp: prefix_pairs_def)

lemma prefix_fold_real:
  assumes "bt_wf acc" "\<forall>(k, m) \<in> set acc. real_group paths m"
    and "\<forall>(a, d) \<in> set ps. \<exists>k. (k, d) \<in> set (group_paths key paths) \<and> a \<in> set (ancestor_keys k)"
  shows "\<forall>(k, m) \<in> set (foldl (prefix_step (group_paths key paths)) acc ps). real_group paths m"
  using assms
proof (induction ps arbitrary: acc)
  case (Cons x ps)
  obtain a d where x: "x = (a, d)" by fastforce
  let ?g = "group_paths key paths"
  have wfg: "bt_wf ?g" using group_paths_inv by blast
  show ?case
  proof (cases "map_of ?g a")
    case None
    with Cons x show ?thesis by (simp add: prefix_step_def)
  next
    case (Some ap)
    let ?m = "add_members (ap @ d) (map_of acc a)"
    obtain k where k: "(k, d) \<in> set ?g" "a \<in> set (ancestor_keys k)" using Cons.prems(3) x by auto
    have "(a, ap) \<in> set ?g" using Some by (rule map_of_SomeD)
    with k(1) have ap: "ap = filter (\<lambda>p. key p = a) paths" "ap \<noteq> []" "d = filter (\<lambda>p. key p = k) paths" "d \<noteq> []"
      unfolding group_paths_mem by blast+
    have "a \<noteq> k" using k(2) by (auto simp: ancestor_keys_iff)
    then have two: "\<exists>p \<in> set ap. \<exists>q \<in> set d. p \<noteq> q"
    proof -
      have in_groups: "hd ap \<in> set ap" "hd d \<in> set d" by (rule hd_in_set [OF ap(2)], rule hd_in_set [OF ap(4)])
      have "\<forall>p \<in> set ap. key p = a" "\<forall>q \<in> set d. key q = k" unfolding ap(1,3) by simp_all
      with in_groups have "key (hd ap) = a" "key (hd d) = k" by blast+
      with \<open>a \<noteq> k\<close> have "hd ap \<noteq> hd d" by metis
      with in_groups show ?thesis by blast
    qed
    have sub: "set ap \<union> set d \<subseteq> set paths" using ap by auto
    let ?old = "case map_of acc a of None \<Rightarrow> [] | Some m \<Rightarrow> m"
    have old: "diagonal ?old \<and> set (map fst ?old) \<subseteq> set paths"
    proof (cases "map_of acc a")
      case (Some m)
      then have "real_group paths m" using Cons.prems(2) map_of_SomeD by fastforce
      then show ?thesis using Some by (simp add: real_group_def)
    qed (simp add: diagonal_def)
    have "real_group paths ?m"
      using diagonal_fold [of ?old "ap @ d"] old sub two
      unfolding real_group_def add_members_def by (simp del: set_map) blast
    then have "\<forall>(k, m) \<in> set (bt_entry a (add_members (ap @ d)) acc). real_group paths m"
      using Cons.prems(1,2) by (auto simp: bt_entry_mem split: if_splits)
    with Cons.IH [OF bt_wf_entry [OF Cons.prems(1)]] Cons.prems(3) Some x show ?thesis
      by (simp add: prefix_step_def)
  qed
qed simp

lemma detect_collisions_pairs:
  assumes "distinct paths"
  shows "detect_collisions key paths = [] \<longleftrightarrow> (\<forall>p \<in> set paths. \<forall>q \<in> set paths. p \<noteq> q \<longrightarrow>
    key p \<noteq> key q \<and> (\<forall>s. key q \<noteq> key p @ slash # s))"
proof -
  have d: "distinct (map key paths) \<longleftrightarrow> (\<forall>p \<in> set paths. \<forall>q \<in> set paths. p \<noteq> q \<longrightarrow> key p \<noteq> key q)"
    using assms by (auto simp: distinct_map inj_on_def)
  have self: "(\<forall>p \<in> set paths. \<forall>q \<in> set paths. \<forall>s. key q \<noteq> key p @ slash # s) \<longleftrightarrow>
      (\<forall>p \<in> set paths. \<forall>q \<in> set paths. p \<noteq> q \<longrightarrow> (\<forall>s. key q \<noteq> key p @ slash # s))"
    by (metis append_self_conv list.distinct(1))
  show ?thesis unfolding detect_collisions_Nil_iff d self by blast
qed

lemma detect_collisions_real:
  assumes "distinct paths" and "c \<in> set (detect_collisions key paths)"
  shows "distinct (pc_paths c) \<and> 2 \<le> length (pc_paths c) \<and> set (pc_paths c) \<subseteq> set paths"
proof -
  let ?g = "group_paths key paths"
  have nested: "\<forall>(k, m) \<in> set (prefix_collisions ?g). real_group paths m"
    unfolding prefix_collisions_def by (rule prefix_fold_real) (auto simp: prefix_pairs_mem)
  from assms(2) consider k g where "(k, g) \<in> set ?g" "1 < length g" "pc_paths c = sort g"
    | k m where "(k, m) \<in> set (prefix_collisions ?g)" "pc_paths c = map snd m"
    by (auto simp: detect_collisions_def Let_def)
  then show ?thesis
  proof cases
    case 1
    then show ?thesis using assms(1) by (auto simp: group_paths_mem)
  next
    case 2
    with nested have "real_group paths m" by auto
    from real_group_distinct [OF this] 2(2) show ?thesis by simp
  qed
qed

section \<open>Suggestions\<close>

definition untitled :: ustr where
  "untitled = [0x75, 0x6E, 0x74, 0x69, 0x74, 0x6C, 0x65, 0x64]"

abbreviation underscore :: nat where "underscore \<equiv> 0x5F"

function trunc_bytes :: "ustr \<Rightarrow> ustr" where
  "trunc_bytes s = (if utf8_len s > MAX_SEGMENT_BYTES then trunc_bytes (butlast s) else s)"
  by pat_completeness auto
termination
proof (relation "measure length")
  fix s assume "MAX_SEGMENT_BYTES < utf8_len s"
  then have "s \<noteq> []" by auto
  then show "(butlast s, s) \<in> measure length" by (cases s rule: rev_cases) simp_all
qed simp

declare trunc_bytes.simps [simp del]

definition suggest_safe_segment :: "(ustr \<Rightarrow> ustr) \<Rightarrow> ustr \<Rightarrow> ustr" where
  "suggest_safe_segment nfc input =
     (let replaced = map (\<lambda>c. if is_control c \<or> c \<in> set FORBIDDEN_CHARACTERS then underscore else c)
                       (nfc input);
          trimmed = trim_end_space_or_dot replaced;
          named = (if trimmed = [] \<or> trimmed = [0x2E] \<or> trimmed = [0x2E, 0x2E] then untitled else trimmed);
          unreserved = (if is_reserved_name named then underscore # named else named);
          suggested = trunc_bytes unreserved
      in if suggested = [] then untitled else suggested)"

lemma check_characters_ok:
  "check_characters s = Inr () \<longleftrightarrow> (\<forall>c \<in> set s. \<not> is_control c \<and> c \<notin> set FORBIDDEN_CHARACTERS)"
  by (induction s) auto

lemma trim_end_props:
  "set (trim_end_space_or_dot s) \<subseteq> set s" "utf8_len (trim_end_space_or_dot s) \<le> utf8_len s"
  "\<not> ends_space_or_dot (trim_end_space_or_dot s)"
proof -
  show "set (trim_end_space_or_dot s) \<subseteq> set s"
    using set_dropWhileD by (force simp: trim_end_space_or_dot_def)
  have "s = trim_end_space_or_dot s @ rev (takeWhile space_or_dot (rev s))"
    by (metis rev_append rev_rev_ident takeWhile_dropWhile_id trim_end_space_or_dot_def)
  then show "utf8_len (trim_end_space_or_dot s) \<le> utf8_len s" by (metis le_add1 utf8_len_simps(3))
  show "\<not> ends_space_or_dot (trim_end_space_or_dot s)"
    using hd_dropWhile [of space_or_dot "rev s"]
    by (auto simp: ends_space_or_dot_def trim_end_space_or_dot_def last_rev)
qed

lemma replaced_len:
  "utf8_len (map (\<lambda>c. if P c then underscore else c) s) \<le> utf8_len s"
proof (induction s)
  case (Cons c s)
  have "length (utf8_char underscore) \<le> length (utf8_char c)" by (simp add: utf8_char_def)
  with Cons show ?case by (auto intro: add_mono)
qed simp

lemma underscore_not_reserved: "\<not> is_reserved_name (underscore # s)"
proof -
  obtain t where t: "hd (split_on 0x2E (underscore # s)) = underscore # t"
    by (cases "split_on 0x2E s") auto
  have "trim_end_space_or_dot (underscore # t) \<noteq> [] \<and> hd (trim_end_space_or_dot (underscore # t)) = underscore"
    by (auto simp: trim_end_space_or_dot_def dropWhile_append space_or_dot_def hd_append)
  then obtain u where "trim_end_space_or_dot (underscore # t) = underscore # u"
    by (cases "trim_end_space_or_dot (underscore # t)") auto
  then show ?thesis
    unfolding is_reserved_name_def t
    by (simp add: ascii_upper_def CON_def PRN_def AUX_def NUL_def COM_def LPT_def is_numbered_device_def)
qed

lemma untitled_safe: "validate_segment untitled = Inr ()"
  by (simp add: validate_segment_def untitled_def is_control_def FORBIDDEN_CHARACTERS_def
      ends_space_or_dot_def space_or_dot_def is_reserved_name_def Let_def ascii_upper_def
      trim_end_space_or_dot_def CON_def PRN_def AUX_def NUL_def COM_def LPT_def
      is_numbered_device_def utf8_char_def MAX_SEGMENT_BYTES_def)

lemma suggest_safe_segment_valid_aux:
  assumes "utf8_len (nfc input) < MAX_SEGMENT_BYTES"
  shows "portable_segment (suggest_safe_segment nfc input)"
proof -
  let ?r = "map (\<lambda>c. if is_control c \<or> c \<in> set FORBIDDEN_CHARACTERS then underscore else c) (nfc input)"
  let ?t = "trim_end_space_or_dot ?r"
  let ?n = "if ?t = [] \<or> ?t = [0x2E] \<or> ?t = [0x2E, 0x2E] then untitled else ?t"
  let ?u = "if is_reserved_name ?n then underscore # ?n else ?n"
  have us: "\<not> is_control underscore" "underscore \<notin> set FORBIDDEN_CHARACTERS"
    by (simp_all add: is_control_def FORBIDDEN_CHARACTERS_def)
  have len: "utf8_len ?t < MAX_SEGMENT_BYTES"
    using assms trim_end_props(2) [of ?r] replaced_len [of _ "nfc input"] by (meson le_less_trans)
  have "\<forall>c \<in> set ?r. \<not> is_control c \<and> c \<notin> set FORBIDDEN_CHARACTERS" using us by auto
  then have t_ok: "check_characters ?t = Inr ()"
    using trim_end_props(1) [of ?r] unfolding check_characters_ok by blast
  have n: "?n \<noteq> []" "check_characters ?n = Inr ()" "\<not> ends_space_or_dot ?n"
    "utf8_len ?n < MAX_SEGMENT_BYTES"
    using t_ok trim_end_props(3) [of ?r] len untitled_safe
    by (auto simp: validate_segment_def result_iffs untitled_def utf8_char_def MAX_SEGMENT_BYTES_def)
  then have u: "?u \<noteq> []" "check_characters ?u = Inr ()" "\<not> ends_space_or_dot ?u"
    "utf8_len ?u \<le> MAX_SEGMENT_BYTES" "\<not> is_reserved_name ?u"
    using us underscore_not_reserved by (auto simp: ends_space_or_dot_def utf8_char_def)
  then have "trunc_bytes ?u = ?u" by (subst trunc_bytes.simps) simp
  with u(1) have "suggest_safe_segment nfc input = ?u"
    unfolding suggest_safe_segment_def Let_def by simp
  with u show ?thesis by (simp add: portable_segment_def validate_segment_def)
qed

text \<open>
  C39. For a list of distinct paths, a collision is reported exactly when two of them cannot coexist on every
  platform: they have the same collision key, or the key of one is a proper ancestor directory of the
  other's. Every reported collision lists at least two paths, distinct and taken from the input. (Of a path
  given twice nothing is claimed here: the documentation of the collision type does not foresee it.)
\<close>

theorem detect_collisions_none_iff:
  assumes "distinct paths"
  shows "(detect_collisions (collision_key nfc case_fold) paths = [] \<longleftrightarrow>
     (\<forall>p \<in> set paths. \<forall>q \<in> set paths. p \<noteq> q \<longrightarrow>
        collision_key nfc case_fold p \<noteq> collision_key nfc case_fold q \<and>
        (\<forall>s. collision_key nfc case_fold q \<noteq> collision_key nfc case_fold p @ slash # s))) \<and>
    (\<forall>c \<in> set (detect_collisions (collision_key nfc case_fold) paths).
      distinct (pc_paths c) \<and> 2 \<le> length (pc_paths c) \<and> set (pc_paths c) \<subseteq> set paths)"
  by (intro conjI ballI detect_collisions_pairs [OF assms]) (use detect_collisions_real [OF assms] in simp_all)

theorem detect_collisions_none_iff_witness:
  "detect_collisions (collision_key (\<lambda>s. s) (\<lambda>s. s)) [[0x61], [0x61, 0x62]] = [] \<and>
   detect_collisions (collision_key (\<lambda>s. s) (\<lambda>s. s)) [[0x61], [0x61, slash, 0x62]] \<noteq> []"
proof -
  let ?key = "collision_key (\<lambda>s. s) (\<lambda>s. s)"
  have d: "distinct [[0x61], [0x61, 0x62 :: nat]]" "distinct [[0x61], [0x61, slash, 0x62 :: nat]]" by simp_all
  note iff = conjunct1 [OF detect_collisions_none_iff, of _ "\<lambda>s. s" "\<lambda>s. s"]
  have "detect_collisions ?key [[0x61], [0x61, 0x62]] = []"
    unfolding iff [OF d(1)] by (simp add: collision_key_def)
  moreover have "\<not> detect_collisions ?key [[0x61], [0x61, slash, 0x62]] = []"
    unfolding iff [OF d(2)] by (simp add: collision_key_def)
  ultimately show ?thesis by blast
qed

text \<open>
  The same path listed twice is reported as a collision with itself, although a collision
  is documented as a group of distinct paths.
\<close>

theorem detect_collisions_duplicate:
  "detect_collisions (collision_key (\<lambda>s. s) (\<lambda>s. s)) [[0x61], [0x61]] =
     [\<lparr>pc_key = [0x61], pc_paths = [[0x61], [0x61]]\<rparr>]"
  by (simp add: detect_collisions_def group_paths_def collision_key_def push_path_def
      prefix_collisions_def prefix_pairs_def ancestor_keys_def Let_def)

text \<open>
  The suggested name is a valid portable segment whenever the normalized input is
  below the segment byte limit.
\<close>

theorem suggest_safe_segment_valid:
  assumes "utf8_len (nfc input) < MAX_SEGMENT_BYTES"
  shows "portable_segment (suggest_safe_segment nfc input)"
  using assms by (rule suggest_safe_segment_valid_aux)

theorem suggest_safe_segment_valid_witness:
  "suggest_safe_segment compose_acute [0x43, 0x4F, 0x4E, 0x3C, 0x2E] = [0x43, 0x4F, 0x4E, 0x5F] \<and>
   portable_segment [0x43, 0x4F, 0x4E, 0x5F]"
proof -
  have len: "utf8_len (compose_acute [0x43, 0x4F, 0x4E, 0x3C, 0x2E]) < MAX_SEGMENT_BYTES"
    by (simp add: utf8_char_def MAX_SEGMENT_BYTES_def)
  have val: "suggest_safe_segment compose_acute [0x43, 0x4F, 0x4E, 0x3C, 0x2E] = [0x43, 0x4F, 0x4E, 0x5F]"
    by (simp add: suggest_safe_segment_def validate_segment_eval trunc_bytes.simps)
  show ?thesis using suggest_safe_segment_valid [of compose_acute, OF len] val by simp
qed

text \<open>
  Above the limit the suggestion can be invalid: truncation runs after the trailing spaces
  and periods were trimmed, so it can expose one. 254 letters, a space and one more letter
  are cut to a name that ends with the space.
\<close>

theorem suggest_safe_segment_trailing_space:
  "suggest_safe_segment (\<lambda>s. s) (replicate 254 0x61 @ [0x20, 0x62]) = replicate 254 0x61 @ [0x20] \<and>
   validate_segment (replicate 254 0x61 @ [0x20]) = Inl PE_TrailingSpaceOrDot"
proof -
  let ?a = "replicate 254 (0x61 :: nat)"
  let ?s = "?a @ [0x20, 0x62]"
  have "set ?a \<subseteq> {0x61}" by auto
  then have sub: "set ?s \<subseteq> {0x61, 0x20, 0x62}" by auto
  have ok: "\<forall>c \<in> set ?s. \<not> is_control c \<and> c \<notin> set FORBIDDEN_CHARACTERS"
    using sub by (fastforce simp: is_control_def FORBIDDEN_CHARACTERS_def)
  then have m: "map (\<lambda>c. if is_control c \<or> c \<in> set FORBIDDEN_CHARACTERS then underscore else c) ?s = ?s"
    by (intro map_idI) auto
  have t: "trim_end_space_or_dot ?s = ?s"
    by (simp add: trim_end_space_or_dot_def space_or_dot_def)
  have sp: "split_on 0x2E ?s = [?s]" using sub by (intro split_on_id) auto
  have r: "\<not> is_reserved_name ?s"
  proof -
    have "length (map ascii_upper ?s) = 256" by simp
    then have "map ascii_upper ?s \<notin> set [CON, PRN, AUX, NUL]"
      "\<not> is_numbered_device (map ascii_upper ?s) COM" "\<not> is_numbered_device (map ascii_upper ?s) LPT"
      by (auto simp: CON_def PRN_def AUX_def NUL_def COM_def LPT_def is_numbered_device_def
          dest: arg_cong [where f = length])
    then show ?thesis by (simp add: is_reserved_name_def sp t Let_def)
  qed
  have len: "utf8_len (replicate n 0x61) = n" for n by (induction n) (simp_all add: utf8_char_def)
  have "trunc_bytes ?s = trunc_bytes (?a @ [0x20])"
    by (subst trunc_bytes.simps) (simp add: len utf8_char_def MAX_SEGMENT_BYTES_def butlast_append)
  also have "\<dots> = ?a @ [0x20]"
    by (subst trunc_bytes.simps) (simp add: len utf8_char_def MAX_SEGMENT_BYTES_def)
  finally have tr: "trunc_bytes ?s = ?a @ [0x20]" .
  have "check_characters (?a @ [0x20]) = Inr ()"
    using ok unfolding check_characters_ok by auto
  then have "validate_segment (?a @ [0x20]) = Inl PE_TrailingSpaceOrDot"
    by (simp add: validate_segment_def ends_space_or_dot_def space_or_dot_def)
  moreover have "?s \<noteq> []" "?s \<noteq> [0x2E]" "?s \<noteq> [0x2E, 0x2E]"
    by (auto dest: arg_cong [where f = length])
  ultimately show ?thesis
    unfolding suggest_safe_segment_def Let_def m t by (simp add: r tr del: replicate.simps)
qed

end
