(* ===== verification/Cbor.thy ===== *)
theory Cbor
  imports Canonical_Text
begin

text \<open>
  The CBOR crate (minicbor) the codecs are written against. Its source is not part of the
  repository, so an encoder/decoder is a parameter: the record \<open>cbor\<close> holds one function per
  method the code calls, and the locale \<open>cbor_format\<close> states what the code relies on, the
  documented round trip of every item. Encoding into a \<open>Vec\<close> cannot fail, so an encoder
  is a function to bytes; a decoder is given the rest of the input and returns the value
  and the input after it, or \<open>None\<close> for a decoding error.

  \<open>rfc_cbor\<close> writes the items out as RFC 8949 does (shortest heads when encoding, heads of
  every width when decoding); the locale is interpreted on it, and the witnesses use it.
\<close>

section \<open>The interface\<close>

record cbor =
  e_array :: "nat \<Rightarrow> bytes"
  e_map :: "nat \<Rightarrow> bytes"
  e_u8 :: "byte \<Rightarrow> bytes"
  e_u16 :: "u16 \<Rightarrow> bytes"
  e_u32 :: "u32 \<Rightarrow> bytes"
  e_u64 :: "u64 \<Rightarrow> bytes"
  e_bytes :: "bytes \<Rightarrow> bytes"
  e_str :: "ustr \<Rightarrow> bytes"
  e_bool :: "bool \<Rightarrow> bytes"
  e_null :: bytes
  d_array :: "bytes \<Rightarrow> (nat option \<times> bytes) option"
  d_map :: "bytes \<Rightarrow> (nat option \<times> bytes) option"
  d_u8 :: "bytes \<Rightarrow> (byte \<times> bytes) option"
  d_u16 :: "bytes \<Rightarrow> (u16 \<times> bytes) option"
  d_u32 :: "bytes \<Rightarrow> (u32 \<times> bytes) option"
  d_u64 :: "bytes \<Rightarrow> (u64 \<times> bytes) option"
  d_bytes :: "bytes \<Rightarrow> (bytes \<times> bytes) option"
  d_str :: "bytes \<Rightarrow> (ustr \<times> bytes) option"
  d_bool :: "bytes \<Rightarrow> (bool \<times> bytes) option"
  d_null :: "bytes \<Rightarrow> bytes option"
  d_is_null :: "bytes \<Rightarrow> bool option"

text \<open>A length that fits the 64-bit length field of a CBOR head (and a \<open>usize\<close>).\<close>

definition fits64 :: "nat \<Rightarrow> bool" where
  "fits64 n \<longleftrightarrow> n < 2 ^ 64"

definition wf_str :: "ustr \<Rightarrow> bool" where
  "wf_str s \<longleftrightarrow> (\<forall>c \<in> set s. is_scalar c) \<and> fits64 (utf8_len s)"

locale cbor_format =
  fixes C :: cbor
  assumes array_item [simp]: "fits64 n \<Longrightarrow> d_array C (e_array C n @ r) = Some (Some n, r)"
    and map_item [simp]: "fits64 n \<Longrightarrow> d_map C (e_map C n @ r) = Some (Some n, r)"
    and u8_item [simp]: "d_u8 C (e_u8 C a @ r) = Some (a, r)"
    and u16_item [simp]: "d_u16 C (e_u16 C b @ r) = Some (b, r)"
    and u32_item [simp]: "d_u32 C (e_u32 C c @ r) = Some (c, r)"
    and u64_item [simp]: "d_u64 C (e_u64 C d @ r) = Some (d, r)"
    and bytes_item [simp]: "fits64 (length bs) \<Longrightarrow> d_bytes C (e_bytes C bs @ r) = Some (bs, r)"
    and str_item [simp]: "wf_str s \<Longrightarrow> d_str C (e_str C s @ r) = Some (s, r)"
    and bool_item [simp]: "d_bool C (e_bool C t @ r) = Some (t, r)"
    and null_item [simp]: "d_null C (e_null C @ r) = Some r"
    and null_type [simp]: "d_is_null C (e_null C @ r) = Some True"
    and bytes_type [simp]: "fits64 (length bs) \<Longrightarrow> d_is_null C (e_bytes C bs @ r) = Some False"
    and head_sizes: "length (e_array C n) \<le> 9" "length (e_map C n) \<le> 9" "length (e_u8 C a) \<le> 9"
      "length (e_u16 C b) \<le> 9" "length (e_u32 C c) \<le> 9" "length (e_u64 C d) \<le> 9"
      "length (e_bool C t) \<le> 9" "length (e_bytes C bs) \<le> 9 + length bs"
      "length (e_str C s) \<le> 9 + utf8_len s" "length (e_null C) \<le> 9"
begin

text \<open>The item at the very end of the input.\<close>

lemma last_items [simp]:
  "fits64 n \<Longrightarrow> d_array C (e_array C n) = Some (Some n, [])"
  "fits64 n \<Longrightarrow> d_map C (e_map C n) = Some (Some n, [])"
  "d_u8 C (e_u8 C a) = Some (a, [])"
  "d_u16 C (e_u16 C b) = Some (b, [])"
  "d_u32 C (e_u32 C c) = Some (c, [])"
  "d_u64 C (e_u64 C d) = Some (d, [])"
  "fits64 (length bs) \<Longrightarrow> d_bytes C (e_bytes C bs) = Some (bs, [])"
  "wf_str s \<Longrightarrow> d_str C (e_str C s) = Some (s, [])"
  "d_bool C (e_bool C t) = Some (t, [])"
  using array_item [of n "[]"] map_item [of n "[]"] u8_item [of a "[]"] u16_item [of b "[]"]
    u32_item [of c "[]"] u64_item [of d "[]"] bytes_item [of bs "[]"] str_item [of s "[]"]
    bool_item [of t "[]"]
  by simp_all

lemma u8_inj: "e_u8 C a = e_u8 C b \<Longrightarrow> a = b"
  by (metis last_items(3) option.inject prod.inject)

lemma bytes_inj:
  "e_bytes C as @ r = e_bytes C bs @ s \<Longrightarrow> fits64 (length as) \<Longrightarrow> fits64 (length bs) \<Longrightarrow>
     as = bs \<and> r = s"
  by (metis bytes_item option.inject prod.inject)

end

section \<open>RFC 8949 items\<close>

definition cbor_head :: "nat \<Rightarrow> nat \<Rightarrow> bytes" where
  "cbor_head major n =
     (if n < 24 then [of_nat (major * 32 + n)]
      else if n < 256 then of_nat (major * 32 + 24) # be_bytes 1 n
      else if n < 65536 then of_nat (major * 32 + 25) # be_bytes 2 n
      else if n < 4294967296 then of_nat (major * 32 + 26) # be_bytes 4 n
      else of_nat (major * 32 + 27) # be_bytes 8 n)"

definition take_arg :: "nat \<Rightarrow> nat \<Rightarrow> bytes \<Rightarrow> (nat \<times> nat option \<times> bytes) option" where
  "take_arg major k bs =
     (if length bs < k then None else Some (major, Some (be_nat (take k bs)), drop k bs))"

fun read_head :: "bytes \<Rightarrow> (nat \<times> nat option \<times> bytes) option" where
  "read_head [] = None"
| "read_head (b # bs) =
     (let major = unat b div 32; info = unat b mod 32
      in if info < 24 then Some (major, Some info, bs)
         else if info = 24 then take_arg major 1 bs
         else if info = 25 then take_arg major 2 bs
         else if info = 26 then take_arg major 4 bs
         else if info = 27 then take_arg major 8 bs
         else if info = 31 then Some (major, None, bs)
         else None)"

definition read_len :: "nat \<Rightarrow> bytes \<Rightarrow> (nat option \<times> bytes) option" where
  "read_len major bs =
     (case read_head bs of
        None \<Rightarrow> None
      | Some (m, arg, rest) \<Rightarrow> if m = major then Some (arg, rest) else None)"

definition read_uint :: "nat \<Rightarrow> bytes \<Rightarrow> (nat \<times> bytes) option" where
  "read_uint bound bs =
     (case read_len 0 bs of
        Some (Some n, rest) \<Rightarrow> if n < bound then Some (n, rest) else None
      | _ \<Rightarrow> None)"

definition read_chunk :: "nat \<Rightarrow> bytes \<Rightarrow> (bytes \<times> bytes) option" where
  "read_chunk major bs =
     (case read_len major bs of
        Some (Some n, rest) \<Rightarrow>
          if length rest < n then None else Some (take n rest, drop n rest)
      | _ \<Rightarrow> None)"

definition read_text :: "bytes \<Rightarrow> (ustr \<times> bytes) option" where
  "read_text bs =
     (case read_chunk 3 bs of
        None \<Rightarrow> None
      | Some (raw, rest) \<Rightarrow> (case utf8_decode raw of None \<Rightarrow> None | Some s \<Rightarrow> Some (s, rest)))"

fun read_bool :: "bytes \<Rightarrow> (bool \<times> bytes) option" where
  "read_bool [] = None"
| "read_bool (b # bs) =
     (if b = 0xF4 then Some (False, bs) else if b = 0xF5 then Some (True, bs) else None)"

fun read_null :: "bytes \<Rightarrow> bytes option" where
  "read_null [] = None"
| "read_null (b # bs) = (if b = 0xF6 then Some bs else None)"

fun peek_null :: "bytes \<Rightarrow> bool option" where
  "peek_null [] = None"
| "peek_null (b # bs) = Some (b = 0xF6)"

definition rfc_cbor :: cbor where
  "rfc_cbor = \<lparr>
     e_array = cbor_head 4,
     e_map = cbor_head 5,
     e_u8 = (\<lambda>x. cbor_head 0 (unat x)),
     e_u16 = (\<lambda>x. cbor_head 0 (unat x)),
     e_u32 = (\<lambda>x. cbor_head 0 (unat x)),
     e_u64 = (\<lambda>x. cbor_head 0 (unat x)),
     e_bytes = (\<lambda>bs. cbor_head 2 (length bs) @ bs),
     e_str = (\<lambda>s. cbor_head 3 (utf8_len s) @ utf8_encode s),
     e_bool = (\<lambda>b. [if b then 0xF5 else 0xF4]),
     e_null = [0xF6],
     d_array = read_len 4,
     d_map = read_len 5,
     d_u8 = (\<lambda>bs. map_option (map_prod of_nat id) (read_uint 256 bs)),
     d_u16 = (\<lambda>bs. map_option (map_prod of_nat id) (read_uint 65536 bs)),
     d_u32 = (\<lambda>bs. map_option (map_prod of_nat id) (read_uint 4294967296 bs)),
     d_u64 = (\<lambda>bs. map_option (map_prod of_nat id) (read_uint (2 ^ 64) bs)),
     d_bytes = read_chunk 2,
     d_str = read_text,
     d_bool = read_bool,
     d_null = read_null,
     d_is_null = peek_null \<rparr>"

lemma read_head_head:
  assumes "major < 8" "fits64 n"
  shows "read_head (cbor_head major n @ r) = Some (major, Some n, r)"
proof -
  have b: "unat (of_nat (major * 32 + i) :: byte) = major * 32 + i" if "i < 32" for i
    using assms(1) that by (intro unat_of_nat_byte) linarith
  have d: "(major * 32 + i) div 32 = major" "(major * 32 + i) mod 32 = i" if "i < 32" for i
    using that by simp_all
  have t: "take_arg major k (be_bytes k n @ r) = Some (major, Some n, r)" if "n < 256 ^ k" for k
    using that by (simp add: take_arg_def be_nat_be_bytes)
  have n: "n < 2 ^ 64" using assms(2) by (simp add: fits64_def)
  consider "n < 24" | "24 \<le> n" "n < 256" | "256 \<le> n" "n < 65536" | "65536 \<le> n" "n < 4294967296"
    | "4294967296 \<le> n" by linarith
  then show ?thesis
  proof cases
    case 1
    then show ?thesis by (simp add: cbor_head_def b d Let_def del: of_nat_add of_nat_mult)
  next
    case 2
    then show ?thesis using b [of 24] d [of 24] t [of 1]
      by (simp add: cbor_head_def Let_def del: of_nat_add of_nat_mult be_bytes.simps)
  next
    case 3
    then show ?thesis using b [of 25] d [of 25] t [of 2]
      by (simp add: cbor_head_def Let_def del: of_nat_add of_nat_mult be_bytes.simps)
  next
    case 4
    then show ?thesis using b [of 26] d [of 26] t [of 4]
      by (simp add: cbor_head_def Let_def del: of_nat_add of_nat_mult be_bytes.simps)
  next
    case 5
    then show ?thesis using b [of 27] d [of 27] t [of 8] n
      by (simp add: cbor_head_def Let_def del: of_nat_add of_nat_mult be_bytes.simps)
  qed
qed

lemma read_len_head: "major < 8 \<Longrightarrow> fits64 n \<Longrightarrow> read_len major (cbor_head major n @ r) = Some (Some n, r)"
  by (simp add: read_len_def read_head_head)

lemma read_uint_head: "n < bound \<Longrightarrow> fits64 n \<Longrightarrow> read_uint bound (cbor_head 0 n @ r) = Some (n, r)"
  by (simp add: read_uint_def read_len_head)

lemma read_chunk_head:
  "major < 8 \<Longrightarrow> fits64 (length bs) \<Longrightarrow>
     read_chunk major (cbor_head major (length bs) @ bs @ r) = Some (bs, r)"
  by (simp add: read_chunk_def read_len_head)

lemma read_text_head:
  "wf_str s \<Longrightarrow> read_text (cbor_head 3 (utf8_len s) @ utf8_encode s @ r) = Some (s, r)"
  using read_chunk_head [of 3 "utf8_encode s" r]
  by (simp add: read_text_def wf_str_def utf8_decode_encode length_utf8_encode)

lemma peek_null_head: "major < 7 \<Longrightarrow> peek_null (cbor_head major n @ r) = Some False"
proof -
  assume m: "major < 7"
  have "(of_nat (major * 32 + i) :: byte) \<noteq> 0xF6" if "i < 28" for i
  proof
    assume "(of_nat (major * 32 + i) :: byte) = 0xF6"
    then have "unat (of_nat (major * 32 + i) :: byte) = 246" by (simp del: of_nat_add of_nat_mult)
    then have "major * 32 + i = 246" using m that unat_of_nat_byte [of "major * 32 + i"] by simp
    with m that show False by presburger
  qed
  then show ?thesis by (simp add: cbor_head_def del: of_nat_add of_nat_mult)
qed

lemma unat_width:
  shows unat_u16: "unat (b :: u16) < 65536" and unat_u32: "unat (c :: u32) < 4294967296"
    and unat_u64: "unat (d :: u64) < 18446744073709551616"
proof -
  show "unat (b :: u16) < 65536" using unsigned_less [of b] by simp
  show "unat (c :: u32) < 4294967296" using unsigned_less [of c] by simp
  show "unat (d :: u64) < 18446744073709551616" using unsigned_less [of d] by simp
qed

lemma fits64_unat:
  "fits64 (unat (a :: byte))" "fits64 (unat (b :: u16))" "fits64 (unat (c :: u32))" "fits64 (unat (d :: u64))"
  unfolding fits64_def
  by (rule less_le_trans [OF unat_byte_less], simp, rule less_le_trans [OF unat_u16], simp,
      rule less_le_trans [OF unat_u32], simp, rule less_le_trans [OF unat_u64], simp)

lemma length_cbor_head: "length (cbor_head m n) \<le> 9"
  by (simp add: cbor_head_def)

interpretation rfc: cbor_format rfc_cbor
proof unfold_locales
  fix n a b c d and bs :: bytes and s
  note h = length_cbor_head
  show "length (e_array rfc_cbor n) \<le> 9" "length (e_map rfc_cbor n) \<le> 9" "length (e_u8 rfc_cbor a) \<le> 9"
      "length (e_u16 rfc_cbor b) \<le> 9" "length (e_u32 rfc_cbor c) \<le> 9" "length (e_u64 rfc_cbor d) \<le> 9"
    by (simp_all add: rfc_cbor_def h)
  show "length (e_bytes rfc_cbor bs) \<le> 9 + length bs" "length (e_str rfc_cbor s) \<le> 9 + utf8_len s"
    by (simp_all add: rfc_cbor_def h length_utf8_encode)
next
  fix n :: nat and r :: bytes
  assume "fits64 n"
  then show "d_array rfc_cbor (e_array rfc_cbor n @ r) = Some (Some n, r)"
    and "d_map rfc_cbor (e_map rfc_cbor n @ r) = Some (Some n, r)"
    by (simp_all add: rfc_cbor_def read_len_head)
next
  fix a :: byte and b :: u16 and c :: u32 and d :: u64 and r
  show "d_u8 rfc_cbor (e_u8 rfc_cbor a @ r) = Some (a, r)"
    and "d_u16 rfc_cbor (e_u16 rfc_cbor b @ r) = Some (b, r)"
    and "d_u32 rfc_cbor (e_u32 rfc_cbor c @ r) = Some (c, r)"
    and "d_u64 rfc_cbor (e_u64 rfc_cbor d @ r) = Some (d, r)"
    by (simp_all add: rfc_cbor_def read_uint_head fits64_unat unat_width)
next
  fix bs r :: bytes
  assume "fits64 (length bs)"
  then show "d_bytes rfc_cbor (e_bytes rfc_cbor bs @ r) = Some (bs, r)"
    and "d_is_null rfc_cbor (e_bytes rfc_cbor bs @ r) = Some False"
    by (simp_all add: rfc_cbor_def read_chunk_head peek_null_head)
qed (simp_all add: rfc_cbor_def read_text_head)

end
