(* ===== verification/Protocol_Types.thy ===== *)
theory Protocol_Types
  imports Cbor
begin

text \<open>
  The wire types and hard limits of protocol version 1: \<open>crates/ll-protocol/src/types.rs\<close>,
  \<open>limits.rs\<close> and \<open>lib.rs\<close>. A struct is a record, an enum a datatype with the source's
  constructors in the source's order; error codes carry the prefix \<open>EC\<close>. The \<open>wf\<close>
  predicates say what the Rust types guarantee (the lengths of fixed arrays) together with
  the limits the decoders enforce.
\<close>

section \<open>Limits\<close>

definition PROTOCOL_VERSION :: u16 where "PROTOCOL_VERSION = 1"
definition NOISE_SUITE :: ustr where "NOISE_SUITE = ascii ''Noise_NK_25519_ChaChaPoly_BLAKE2s''"

definition MAX_HANDSHAKE_BYTES :: nat where "MAX_HANDSHAKE_BYTES = 4096"
definition MAX_TRANSPORT_CIPHERTEXT_BYTES :: nat where
  "MAX_TRANSPORT_CIPHERTEXT_BYTES = 1024 * 1024"
definition MAX_HTTP_BODY_BYTES :: nat where
  "MAX_HTTP_BODY_BYTES = MAX_TRANSPORT_CIPHERTEXT_BYTES + 64"
definition MAX_CHUNK_BYTES :: nat where "MAX_CHUNK_BYTES = 256 * 1024"
definition MAX_OBJECT_BYTES :: nat where "MAX_OBJECT_BYTES = 512 * 1024 * 1024"
definition MAX_ENCRYPTED_DEVICE_NAME_BYTES :: nat where "MAX_ENCRYPTED_DEVICE_NAME_BYTES = 4096"
definition MAX_SIGNED_COMMIT_BYTES :: nat where "MAX_SIGNED_COMMIT_BYTES = 264 * 1024"
definition MAX_VAULT_KEY_ENVELOPE_BYTES :: nat where "MAX_VAULT_KEY_ENVELOPE_BYTES = 512"
definition MAX_KNOWN_COMMITS :: nat where "MAX_KNOWN_COMMITS = 2048"
definition MAX_HEADS :: nat where "MAX_HEADS = 1024"
definition MAX_CHANGES_PER_RESPONSE :: nat where "MAX_CHANGES_PER_RESPONSE = 3"

lemmas protocol_limits =
  MAX_HANDSHAKE_BYTES_def MAX_TRANSPORT_CIPHERTEXT_BYTES_def MAX_HTTP_BODY_BYTES_def
  MAX_CHUNK_BYTES_def MAX_OBJECT_BYTES_def MAX_ENCRYPTED_DEVICE_NAME_BYTES_def
  MAX_SIGNED_COMMIT_BYTES_def MAX_VAULT_KEY_ENVELOPE_BYTES_def MAX_KNOWN_COMMITS_def
  MAX_HEADS_def MAX_CHANGES_PER_RESPONSE_def

section \<open>Messages\<close>

record bootstrap =
  bs_protocol_version :: u16
  bs_instance_id :: bytes
  bs_noise_suite :: ustr
  bs_server_static_public_key :: bytes
  bs_server_fingerprint :: ustr
  bs_maximum_handshake_bytes :: u32
  bs_maximum_transport_bytes :: u32

record auth_challenge =
  ac_session_handle :: bytes
  ac_authentication_salt :: bytes
  ac_argon2_memory_kib :: u32
  ac_argon2_iterations :: u32
  ac_argon2_parallelism :: u32
  ac_random_challenge :: bytes
  ac_session_id :: bytes

datatype request =
    Authenticate bytes "bytes option" "bytes option" \<comment> \<open>proof, device id, device signature\<close>
  | RegisterDevice bytes bytes bytes bytes
      \<comment> \<open>device id, public key, encrypted name, signature\<close>
  | ListDevices
  | RevokeDevice bytes
  | BeginUpload u64 bytes \<comment> \<open>expected size, expected hash\<close>
  | UploadChunk bytes u64 bytes \<comment> \<open>upload id, offset, chunk\<close>
  | CommitUpload bytes
  | GetBlob bytes u64 u32 \<comment> \<open>blob id, offset, maximum bytes\<close>
  | PutCommit bytes
  | GetCommit bytes
  | GetHeads
  | GetChanges "bytes list" u16 \<comment> \<open>known commit ids, maximum commits\<close>
  | PutVaultKeyEnvelope bytes
  | GetVaultKeyEnvelope
  | Ping

datatype error_code =
    EC_InvalidState | EC_AuthenticationFailed | EC_DeviceRequired | EC_DeviceNotFound
  | EC_DeviceRevoked | EC_InvalidSignature | EC_RequestTooLarge | EC_SequenceMismatch
  | EC_UploadNotFound | EC_IntegrityFailure | EC_BlobNotFound | EC_InsufficientStorage
  | EC_RateLimited | EC_TemporarilyUnavailable | EC_MissingParent | EC_CommitNotFound
  | EC_CommitConflict | EC_VaultKeyEnvelopeNotFound | EC_VaultKeyEnvelopeConflict

record device_record =
  dr_device_id :: bytes
  dr_public_key :: bytes
  dr_encrypted_name :: bytes
  dr_revoked :: bool

datatype response =
    Authenticated bool bytes \<comment> \<open>device authenticated, vault id\<close>
  | DeviceRegistered
  | Devices "device_record list"
  | DeviceRevoked
  | UploadReady bytes u64 \<comment> \<open>upload id, offset\<close>
  | ChunkAccepted u64
  | UploadCommitted bytes
  | BlobChunk u64 u64 bool bytes \<comment> \<open>offset, total size, complete, chunk\<close>
  | CommitStored bytes "bytes list" \<comment> \<open>commit id, heads\<close>
  | CommitRecord bytes
  | Heads "bytes list"
  | Changes "bytes list" bool \<comment> \<open>commits, has more\<close>
  | VaultKeyEnvelopeStored
  | VaultKeyEnvelope bytes
  | Pong
  | Error error_code

record client_message =
  cm_sequence :: u64
  cm_request :: request

record server_message =
  sm_sequence :: u64
  sm_response :: response

fun error_code_number :: "error_code \<Rightarrow> u16" where
  "error_code_number EC_InvalidState = 1"
| "error_code_number EC_AuthenticationFailed = 2"
| "error_code_number EC_DeviceRequired = 3"
| "error_code_number EC_DeviceNotFound = 4"
| "error_code_number EC_DeviceRevoked = 5"
| "error_code_number EC_InvalidSignature = 6"
| "error_code_number EC_RequestTooLarge = 7"
| "error_code_number EC_SequenceMismatch = 8"
| "error_code_number EC_UploadNotFound = 9"
| "error_code_number EC_IntegrityFailure = 10"
| "error_code_number EC_BlobNotFound = 11"
| "error_code_number EC_InsufficientStorage = 12"
| "error_code_number EC_RateLimited = 13"
| "error_code_number EC_TemporarilyUnavailable = 14"
| "error_code_number EC_MissingParent = 15"
| "error_code_number EC_CommitNotFound = 16"
| "error_code_number EC_CommitConflict = 17"
| "error_code_number EC_VaultKeyEnvelopeNotFound = 18"
| "error_code_number EC_VaultKeyEnvelopeConflict = 19"

definition error_code_try_from :: "u16 \<Rightarrow> error_code option" where
  "error_code_try_from v =
     (if v = 1 then Some EC_InvalidState
      else if v = 2 then Some EC_AuthenticationFailed
      else if v = 3 then Some EC_DeviceRequired
      else if v = 4 then Some EC_DeviceNotFound
      else if v = 5 then Some EC_DeviceRevoked
      else if v = 6 then Some EC_InvalidSignature
      else if v = 7 then Some EC_RequestTooLarge
      else if v = 8 then Some EC_SequenceMismatch
      else if v = 9 then Some EC_UploadNotFound
      else if v = 10 then Some EC_IntegrityFailure
      else if v = 11 then Some EC_BlobNotFound
      else if v = 12 then Some EC_InsufficientStorage
      else if v = 13 then Some EC_RateLimited
      else if v = 14 then Some EC_TemporarilyUnavailable
      else if v = 15 then Some EC_MissingParent
      else if v = 16 then Some EC_CommitNotFound
      else if v = 17 then Some EC_CommitConflict
      else if v = 18 then Some EC_VaultKeyEnvelopeNotFound
      else if v = 19 then Some EC_VaultKeyEnvelopeConflict
      else None)"

lemma error_code_try_from_number [simp]: "error_code_try_from (error_code_number c) = Some c"
  by (cases c) (simp_all add: error_code_try_from_def)

section \<open>Well-formed values\<close>

fun wf_request :: "request \<Rightarrow> bool" where
  "wf_request (Authenticate proof device_id signature) \<longleftrightarrow>
     is_array 32 proof \<and> (\<forall>d. device_id = Some d \<longrightarrow> is_array 16 d) \<and>
     (\<forall>s. signature = Some s \<longrightarrow> is_array 64 s) \<and> (device_id = None \<longleftrightarrow> signature = None)"
| "wf_request (RegisterDevice device_id public_key name signature) \<longleftrightarrow>
     is_array 16 device_id \<and> is_array 32 public_key \<and>
     length name \<le> MAX_ENCRYPTED_DEVICE_NAME_BYTES \<and> is_array 64 signature"
| "wf_request ListDevices \<longleftrightarrow> True"
| "wf_request (RevokeDevice device_id) \<longleftrightarrow> is_array 16 device_id"
| "wf_request (BeginUpload expected_size hash) \<longleftrightarrow> is_array 32 hash"
| "wf_request (UploadChunk upload_id offset chunk) \<longleftrightarrow>
     is_array 16 upload_id \<and> length chunk \<le> MAX_CHUNK_BYTES"
| "wf_request (CommitUpload upload_id) \<longleftrightarrow> is_array 16 upload_id"
| "wf_request (GetBlob blob_id offset maximum) \<longleftrightarrow> is_array 32 blob_id"
| "wf_request (PutCommit record) \<longleftrightarrow> length record \<le> MAX_SIGNED_COMMIT_BYTES"
| "wf_request (GetCommit commit_id) \<longleftrightarrow> is_array 32 commit_id"
| "wf_request GetHeads \<longleftrightarrow> True"
| "wf_request (GetChanges known maximum) \<longleftrightarrow>
     (\<forall>k \<in> set known. is_array 32 k) \<and> length known \<le> MAX_KNOWN_COMMITS \<and>
     maximum \<noteq> 0 \<and> unat maximum \<le> MAX_CHANGES_PER_RESPONSE"
| "wf_request (PutVaultKeyEnvelope envelope) \<longleftrightarrow> length envelope \<le> MAX_VAULT_KEY_ENVELOPE_BYTES"
| "wf_request GetVaultKeyEnvelope \<longleftrightarrow> True"
| "wf_request Ping \<longleftrightarrow> True"

definition wf_device_record :: "device_record \<Rightarrow> bool" where
  "wf_device_record d \<longleftrightarrow>
     is_array 16 (dr_device_id d) \<and> is_array 32 (dr_public_key d) \<and>
     length (dr_encrypted_name d) \<le> MAX_ENCRYPTED_DEVICE_NAME_BYTES"

fun wf_response :: "response \<Rightarrow> bool" where
  "wf_response (Authenticated flag vault_id) \<longleftrightarrow> is_array 16 vault_id"
| "wf_response DeviceRegistered \<longleftrightarrow> True"
| "wf_response (Devices ds) \<longleftrightarrow> (\<forall>d \<in> set ds. wf_device_record d) \<and> length ds \<le> 1024"
| "wf_response DeviceRevoked \<longleftrightarrow> True"
| "wf_response (UploadReady upload_id offset) \<longleftrightarrow> is_array 16 upload_id"
| "wf_response (ChunkAccepted offset) \<longleftrightarrow> True"
| "wf_response (UploadCommitted blob_id) \<longleftrightarrow> is_array 32 blob_id"
| "wf_response (BlobChunk offset total_size complete chunk) \<longleftrightarrow> length chunk \<le> MAX_CHUNK_BYTES"
| "wf_response (CommitStored commit_id heads) \<longleftrightarrow>
     is_array 32 commit_id \<and> (\<forall>h \<in> set heads. is_array 32 h) \<and> length heads \<le> MAX_HEADS"
| "wf_response (CommitRecord record) \<longleftrightarrow> length record \<le> MAX_SIGNED_COMMIT_BYTES"
| "wf_response (Heads heads) \<longleftrightarrow> (\<forall>h \<in> set heads. is_array 32 h) \<and> length heads \<le> MAX_HEADS"
| "wf_response (Changes commits has_more) \<longleftrightarrow>
     (\<forall>c \<in> set commits. length c \<le> MAX_SIGNED_COMMIT_BYTES) \<and>
     length commits \<le> MAX_CHANGES_PER_RESPONSE"
| "wf_response VaultKeyEnvelopeStored \<longleftrightarrow> True"
| "wf_response (VaultKeyEnvelope envelope) \<longleftrightarrow> length envelope \<le> MAX_VAULT_KEY_ENVELOPE_BYTES"
| "wf_response Pong \<longleftrightarrow> True"
| "wf_response (Error code) \<longleftrightarrow> True"

end
