(* ===== verification/Protocol_Codec.thy ===== *)
theory Protocol_Codec
  imports Protocol_Types
begin

text \<open>
  The deterministic CBOR codec of the protocol: \<open>crates/ll-protocol/src/codec.rs\<close>. Every
  function takes the CBOR crate \<open>C\<close> as its first argument. An encoder is the
  concatenation of the items the method chain writes (the \<open>?\<close> of an infallible writer never
  fires); a decoder takes the rest of the input and returns the value and what follows.
\<close>

section \<open>Errors and helpers\<close>

datatype codec_error =
    CE_Encode | CE_Decode | CE_NonDeterministic | CE_InvalidByteLength | CE_LimitExceeded
  | CE_UnsupportedValue | CE_InvalidCombination

type_synonym 'a dec = "codec_error + ('a \<times> bytes)"

abbreviation decoded :: "'a option \<Rightarrow> codec_error + 'a" where
  "decoded \<equiv> ok_or CE_Decode"

text \<open>\<open>usize::try_from\<close> on a 64-bit target.\<close>

definition usize_try_from :: "nat \<Rightarrow> codec_error + nat" where
  "usize_try_from n = (if fits64 n then Inr n else Inl CE_LimitExceeded)"

definition fixed_bytes :: "nat \<Rightarrow> bytes \<Rightarrow> codec_error + bytes" where
  "fixed_bytes n value = (if length value = n then Inr value else Inl CE_InvalidByteLength)"

definition dec_fixed :: "cbor \<Rightarrow> nat \<Rightarrow> bytes \<Rightarrow> bytes dec" where
  "dec_fixed C n d =
     rbind (decoded (d_bytes C d)) (\<lambda>(value, d). rbind (fixed_bytes n value) (\<lambda>value. Inr (value, d)))"

definition bounded_bytes :: "cbor \<Rightarrow> nat \<Rightarrow> bytes \<Rightarrow> bytes dec" where
  "bounded_bytes C maximum d =
     rbind (decoded (d_bytes C d)) (\<lambda>(value, d).
       if length value > maximum then Inl CE_LimitExceeded else Inr (value, d))"

definition definite_array :: "cbor \<Rightarrow> bytes \<Rightarrow> nat dec" where
  "definite_array C d =
     rbind (decoded (d_array C d)) (\<lambda>(len, d).
     rbind (ok_or CE_NonDeterministic len) (\<lambda>len.
     rbind (usize_try_from len) (\<lambda>len. Inr (len, d))))"

definition expect_array :: "cbor \<Rightarrow> nat \<Rightarrow> bytes \<Rightarrow> codec_error + bytes" where
  "expect_array C expected d =
     rbind (definite_array C d) (\<lambda>(len, d).
       if len \<noteq> expected then Inl CE_UnsupportedValue else Inr d)"

text \<open>\<open>Decoder::position\<close> counts the consumed bytes.\<close>

definition position :: "bytes \<Rightarrow> bytes \<Rightarrow> nat" where
  "position input rest = length input - length rest"

definition finish :: "bytes \<Rightarrow> bytes \<Rightarrow> codec_error + unit" where
  "finish rest input =
     (if position input rest \<noteq> length input then Inl CE_NonDeterministic else Inr ())"

definition ensure_deterministic :: "bytes \<Rightarrow> bytes \<Rightarrow> codec_error + unit" where
  "ensure_deterministic input encoded =
     (if input \<noteq> encoded then Inl CE_NonDeterministic else Inr ())"

definition decode_optional_fixed :: "cbor \<Rightarrow> nat \<Rightarrow> bytes \<Rightarrow> bytes option dec" where
  "decode_optional_fixed C n d =
     rbind (decoded (d_is_null C d)) (\<lambda>null.
       if null then rbind (decoded (d_null C d)) (\<lambda>d. Inr (None, d))
       else rbind (dec_fixed C n d) (\<lambda>(value, d). Inr (Some value, d)))"

definition decode_fixed_array :: "cbor \<Rightarrow> nat \<Rightarrow> nat \<Rightarrow> bytes \<Rightarrow> bytes list dec" where
  "decode_fixed_array C n maximum d =
     rbind (definite_array C d) (\<lambda>(count, d).
       if count > maximum then Inl CE_LimitExceeded else dec_times (dec_fixed C n) count d)"

definition encode_optional_bytes :: "cbor \<Rightarrow> bytes option \<Rightarrow> bytes" where
  "encode_optional_bytes C value = (case value of Some bs \<Rightarrow> e_bytes C bs | None \<Rightarrow> e_null C)"

definition encode_fixed_array :: "cbor \<Rightarrow> bytes list \<Rightarrow> bytes" where
  "encode_fixed_array C values = e_array C (length values) @ concat (map (e_bytes C) values)"

definition encode_tagged_bytes :: "cbor \<Rightarrow> byte \<Rightarrow> bytes \<Rightarrow> bytes" where
  "encode_tagged_bytes C tag bs = e_array C 2 @ e_u8 C tag @ e_bytes C bs"

section \<open>Bootstrap, challenge and prologue\<close>

definition encode_noise_prologue :: "cbor \<Rightarrow> bytes \<Rightarrow> codec_error + bytes" where
  "encode_noise_prologue C instance_id =
     Inr (e_array C 4 @ e_str C (ascii ''learning-loop'') @ e_u16 C PROTOCOL_VERSION
       @ e_bytes C instance_id @ e_str C NOISE_SUITE)"

definition encode_bootstrap :: "cbor \<Rightarrow> bootstrap \<Rightarrow> codec_error + bytes" where
  "encode_bootstrap C v =
     Inr (e_array C 7 @ e_u16 C (bs_protocol_version v) @ e_bytes C (bs_instance_id v)
       @ e_str C (bs_noise_suite v) @ e_bytes C (bs_server_static_public_key v)
       @ e_str C (bs_server_fingerprint v) @ e_u32 C (bs_maximum_handshake_bytes v)
       @ e_u32 C (bs_maximum_transport_bytes v))"

definition decode_bootstrap :: "cbor \<Rightarrow> bytes \<Rightarrow> codec_error + bootstrap" where
  "decode_bootstrap C input =
     rbind (expect_array C 7 input) (\<lambda>d.
     rbind (decoded (d_u16 C d)) (\<lambda>(version, d).
     rbind (dec_fixed C 16 d) (\<lambda>(instance, d).
     rbind (decoded (d_str C d)) (\<lambda>(suite, d).
     rbind (dec_fixed C 32 d) (\<lambda>(key, d).
     rbind (decoded (d_str C d)) (\<lambda>(fingerprint, d).
     rbind (decoded (d_u32 C d)) (\<lambda>(handshake, d).
     rbind (decoded (d_u32 C d)) (\<lambda>(transport, d).
     let value = \<lparr>bs_protocol_version = version, bs_instance_id = instance, bs_noise_suite = suite,
                   bs_server_static_public_key = key, bs_server_fingerprint = fingerprint,
                   bs_maximum_handshake_bytes = handshake, bs_maximum_transport_bytes = transport\<rparr> in
     rbind (finish d input) (\<lambda>_.
       if bs_protocol_version value \<noteq> PROTOCOL_VERSION \<or> bs_noise_suite value \<noteq> NOISE_SUITE
       then Inl CE_UnsupportedValue
       else rbind (encode_bootstrap C value) (\<lambda>encoded.
            rbind (ensure_deterministic input encoded) (\<lambda>_. Inr value)))))))))))"

definition encode_auth_challenge :: "cbor \<Rightarrow> auth_challenge \<Rightarrow> codec_error + bytes" where
  "encode_auth_challenge C v =
     Inr (e_array C 7 @ e_bytes C (ac_session_handle v) @ e_bytes C (ac_authentication_salt v)
       @ e_u32 C (ac_argon2_memory_kib v) @ e_u32 C (ac_argon2_iterations v)
       @ e_u32 C (ac_argon2_parallelism v) @ e_bytes C (ac_random_challenge v)
       @ e_bytes C (ac_session_id v))"

definition decode_auth_challenge :: "cbor \<Rightarrow> bytes \<Rightarrow> codec_error + auth_challenge" where
  "decode_auth_challenge C input =
     rbind (expect_array C 7 input) (\<lambda>d.
     rbind (dec_fixed C 32 d) (\<lambda>(handle, d).
     rbind (dec_fixed C 16 d) (\<lambda>(salt, d).
     rbind (decoded (d_u32 C d)) (\<lambda>(memory, d).
     rbind (decoded (d_u32 C d)) (\<lambda>(iterations, d).
     rbind (decoded (d_u32 C d)) (\<lambda>(parallelism, d).
     rbind (dec_fixed C 32 d) (\<lambda>(challenge, d).
     rbind (dec_fixed C 16 d) (\<lambda>(session, d).
     let value = \<lparr>ac_session_handle = handle, ac_authentication_salt = salt, ac_argon2_memory_kib = memory,
                   ac_argon2_iterations = iterations, ac_argon2_parallelism = parallelism,
                   ac_random_challenge = challenge, ac_session_id = session\<rparr> in
     rbind (finish d input) (\<lambda>_.
     rbind (encode_auth_challenge C value) (\<lambda>encoded.
     rbind (ensure_deterministic input encoded) (\<lambda>_. Inr value)))))))))))"

section \<open>Requests\<close>

definition TYPE_AUTHENTICATE :: byte where "TYPE_AUTHENTICATE = 1"
definition TYPE_REGISTER_DEVICE :: byte where "TYPE_REGISTER_DEVICE = 2"
definition TYPE_LIST_DEVICES :: byte where "TYPE_LIST_DEVICES = 3"
definition TYPE_REVOKE_DEVICE :: byte where "TYPE_REVOKE_DEVICE = 4"
definition TYPE_BEGIN_UPLOAD :: byte where "TYPE_BEGIN_UPLOAD = 5"
definition TYPE_UPLOAD_CHUNK :: byte where "TYPE_UPLOAD_CHUNK = 6"
definition TYPE_COMMIT_UPLOAD :: byte where "TYPE_COMMIT_UPLOAD = 7"
definition TYPE_GET_BLOB :: byte where "TYPE_GET_BLOB = 8"
definition TYPE_PING :: byte where "TYPE_PING = 9"
definition TYPE_PUT_COMMIT :: byte where "TYPE_PUT_COMMIT = 10"
definition TYPE_GET_COMMIT :: byte where "TYPE_GET_COMMIT = 11"
definition TYPE_GET_HEADS :: byte where "TYPE_GET_HEADS = 12"
definition TYPE_GET_CHANGES :: byte where "TYPE_GET_CHANGES = 13"
definition TYPE_PUT_VAULT_KEY_ENVELOPE :: byte where "TYPE_PUT_VAULT_KEY_ENVELOPE = 14"
definition TYPE_GET_VAULT_KEY_ENVELOPE :: byte where "TYPE_GET_VAULT_KEY_ENVELOPE = 15"

lemmas request_types =
  TYPE_AUTHENTICATE_def TYPE_REGISTER_DEVICE_def TYPE_LIST_DEVICES_def TYPE_REVOKE_DEVICE_def
  TYPE_BEGIN_UPLOAD_def TYPE_UPLOAD_CHUNK_def TYPE_COMMIT_UPLOAD_def TYPE_GET_BLOB_def
  TYPE_PING_def TYPE_PUT_COMMIT_def TYPE_GET_COMMIT_def TYPE_GET_HEADS_def TYPE_GET_CHANGES_def
  TYPE_PUT_VAULT_KEY_ENVELOPE_def TYPE_GET_VAULT_KEY_ENVELOPE_def

fun encode_request :: "cbor \<Rightarrow> request \<Rightarrow> bytes" where
  "encode_request C (Authenticate proof device_id device_signature) =
     e_array C 4 @ e_u8 C TYPE_AUTHENTICATE @ e_bytes C proof
       @ encode_optional_bytes C device_id @ encode_optional_bytes C device_signature"
| "encode_request C (RegisterDevice device_id public_key encrypted_name signature) =
     e_array C 5 @ e_u8 C TYPE_REGISTER_DEVICE @ e_bytes C device_id @ e_bytes C public_key
       @ e_bytes C encrypted_name @ e_bytes C signature"
| "encode_request C ListDevices = e_array C 1 @ e_u8 C TYPE_LIST_DEVICES"
| "encode_request C (RevokeDevice device_id) =
     e_array C 2 @ e_u8 C TYPE_REVOKE_DEVICE @ e_bytes C device_id"
| "encode_request C (BeginUpload expected_size expected_hash) =
     e_array C 3 @ e_u8 C TYPE_BEGIN_UPLOAD @ e_u64 C expected_size @ e_bytes C expected_hash"
| "encode_request C (UploadChunk upload_id offset chunk) =
     e_array C 4 @ e_u8 C TYPE_UPLOAD_CHUNK @ e_bytes C upload_id @ e_u64 C offset @ e_bytes C chunk"
| "encode_request C (CommitUpload upload_id) =
     e_array C 2 @ e_u8 C TYPE_COMMIT_UPLOAD @ e_bytes C upload_id"
| "encode_request C (GetBlob blob_id offset maximum_bytes) =
     e_array C 4 @ e_u8 C TYPE_GET_BLOB @ e_bytes C blob_id @ e_u64 C offset @ e_u32 C maximum_bytes"
| "encode_request C (PutCommit signed_commit) =
     e_array C 2 @ e_u8 C TYPE_PUT_COMMIT @ e_bytes C signed_commit"
| "encode_request C (GetCommit commit_id) =
     e_array C 2 @ e_u8 C TYPE_GET_COMMIT @ e_bytes C commit_id"
| "encode_request C GetHeads = e_array C 1 @ e_u8 C TYPE_GET_HEADS"
| "encode_request C (GetChanges known_commit_ids maximum_commits) =
     e_array C 3 @ e_u8 C TYPE_GET_CHANGES @ encode_fixed_array C known_commit_ids
       @ e_u16 C maximum_commits"
| "encode_request C (PutVaultKeyEnvelope envelope) =
     encode_tagged_bytes C TYPE_PUT_VAULT_KEY_ENVELOPE envelope"
| "encode_request C GetVaultKeyEnvelope = e_array C 1 @ e_u8 C TYPE_GET_VAULT_KEY_ENVELOPE"
| "encode_request C Ping = e_array C 1 @ e_u8 C TYPE_PING"

definition decode_authenticate :: "cbor \<Rightarrow> bytes \<Rightarrow> request dec" where
  "decode_authenticate C d =
     rbind (dec_fixed C 32 d) (\<lambda>(proof, d).
     rbind (decode_optional_fixed C 16 d) (\<lambda>(device_id, d).
     rbind (decode_optional_fixed C 64 d) (\<lambda>(device_signature, d).
       if (device_id \<noteq> None) \<noteq> (device_signature \<noteq> None) then Inl CE_InvalidCombination
       else Inr (Authenticate proof device_id device_signature, d))))"

definition decode_register_device :: "cbor \<Rightarrow> bytes \<Rightarrow> request dec" where
  "decode_register_device C d =
     rbind (dec_fixed C 16 d) (\<lambda>(device_id, d).
     rbind (dec_fixed C 32 d) (\<lambda>(public_key, d).
     rbind (bounded_bytes C MAX_ENCRYPTED_DEVICE_NAME_BYTES d) (\<lambda>(encrypted_name, d).
     rbind (dec_fixed C 64 d) (\<lambda>(signature, d).
       Inr (RegisterDevice device_id public_key encrypted_name signature, d)))))"

definition decode_upload_chunk :: "cbor \<Rightarrow> bytes \<Rightarrow> request dec" where
  "decode_upload_chunk C d =
     rbind (dec_fixed C 16 d) (\<lambda>(upload_id, d).
     rbind (decoded (d_u64 C d)) (\<lambda>(offset, d).
     rbind (bounded_bytes C MAX_CHUNK_BYTES d) (\<lambda>(chunk, d). Inr (UploadChunk upload_id offset chunk, d))))"

definition decode_get_blob :: "cbor \<Rightarrow> bytes \<Rightarrow> request dec" where
  "decode_get_blob C d =
     rbind (dec_fixed C 32 d) (\<lambda>(blob_id, d).
     rbind (decoded (d_u64 C d)) (\<lambda>(offset, d).
     rbind (decoded (d_u32 C d)) (\<lambda>(maximum_bytes, d). Inr (GetBlob blob_id offset maximum_bytes, d))))"

definition decode_get_changes :: "cbor \<Rightarrow> bytes \<Rightarrow> request dec" where
  "decode_get_changes C d =
     rbind (decode_fixed_array C 32 MAX_KNOWN_COMMITS d) (\<lambda>(known_commit_ids, d).
     rbind (decoded (d_u16 C d)) (\<lambda>(maximum_commits, d).
       if maximum_commits = 0 \<or> unat maximum_commits > MAX_CHANGES_PER_RESPONSE
       then Inl CE_LimitExceeded
       else Inr (GetChanges known_commit_ids maximum_commits, d)))"

definition decode_request :: "cbor \<Rightarrow> bytes \<Rightarrow> request dec" where
  "decode_request C d =
     rbind (definite_array C d) (\<lambda>(len, d).
     rbind (decoded (d_u8 C d)) (\<lambda>(discriminator, d).
       if discriminator = TYPE_AUTHENTICATE \<and> len = 4 then decode_authenticate C d
       else if discriminator = TYPE_REGISTER_DEVICE \<and> len = 5 then decode_register_device C d
       else if discriminator = TYPE_LIST_DEVICES \<and> len = 1 then Inr (ListDevices, d)
       else if discriminator = TYPE_REVOKE_DEVICE \<and> len = 2
         then rbind (dec_fixed C 16 d) (\<lambda>(device_id, d). Inr (RevokeDevice device_id, d))
       else if discriminator = TYPE_BEGIN_UPLOAD \<and> len = 3
         then rbind (decoded (d_u64 C d)) (\<lambda>(expected_size, d).
              rbind (dec_fixed C 32 d) (\<lambda>(expected_hash, d). Inr (BeginUpload expected_size expected_hash, d)))
       else if discriminator = TYPE_UPLOAD_CHUNK \<and> len = 4 then decode_upload_chunk C d
       else if discriminator = TYPE_COMMIT_UPLOAD \<and> len = 2
         then rbind (dec_fixed C 16 d) (\<lambda>(upload_id, d). Inr (CommitUpload upload_id, d))
       else if discriminator = TYPE_GET_BLOB \<and> len = 4 then decode_get_blob C d
       else if discriminator = TYPE_PUT_COMMIT \<and> len = 2
         then rbind (bounded_bytes C MAX_SIGNED_COMMIT_BYTES d) (\<lambda>(signed_commit, d). Inr (PutCommit signed_commit, d))
       else if discriminator = TYPE_GET_COMMIT \<and> len = 2
         then rbind (dec_fixed C 32 d) (\<lambda>(commit_id, d). Inr (GetCommit commit_id, d))
       else if discriminator = TYPE_GET_HEADS \<and> len = 1 then Inr (GetHeads, d)
       else if discriminator = TYPE_GET_CHANGES \<and> len = 3 then decode_get_changes C d
       else if discriminator = TYPE_PUT_VAULT_KEY_ENVELOPE \<and> len = 2
         then rbind (bounded_bytes C MAX_VAULT_KEY_ENVELOPE_BYTES d) (\<lambda>(envelope, d). Inr (PutVaultKeyEnvelope envelope, d))
       else if discriminator = TYPE_GET_VAULT_KEY_ENVELOPE \<and> len = 1 then Inr (GetVaultKeyEnvelope, d)
       else if discriminator = TYPE_PING \<and> len = 1 then Inr (Ping, d)
       else Inl CE_UnsupportedValue))"

definition encode_client_message :: "cbor \<Rightarrow> client_message \<Rightarrow> codec_error + bytes" where
  "encode_client_message C v =
     Inr (e_array C 3 @ e_u16 C PROTOCOL_VERSION @ e_u64 C (cm_sequence v)
       @ encode_request C (cm_request v))"

definition decode_client_message :: "cbor \<Rightarrow> bytes \<Rightarrow> codec_error + client_message" where
  "decode_client_message C input =
     rbind (expect_array C 3 input) (\<lambda>d.
     rbind (decoded (d_u16 C d)) (\<lambda>(version, d).
       if version \<noteq> PROTOCOL_VERSION then Inl CE_UnsupportedValue
       else
         rbind (decoded (d_u64 C d)) (\<lambda>(sequence, d).
         rbind (decode_request C d) (\<lambda>(request, d).
         let value = \<lparr>cm_sequence = sequence, cm_request = request\<rparr> in
         rbind (finish d input) (\<lambda>_.
         rbind (encode_client_message C value) (\<lambda>encoded.
         rbind (ensure_deterministic input encoded) (\<lambda>_. Inr value)))))))"

section \<open>Responses\<close>

definition RESPONSE_AUTHENTICATED :: byte where "RESPONSE_AUTHENTICATED = 1"
definition RESPONSE_DEVICE_REGISTERED :: byte where "RESPONSE_DEVICE_REGISTERED = 2"
definition RESPONSE_DEVICES :: byte where "RESPONSE_DEVICES = 3"
definition RESPONSE_DEVICE_REVOKED :: byte where "RESPONSE_DEVICE_REVOKED = 4"
definition RESPONSE_UPLOAD_READY :: byte where "RESPONSE_UPLOAD_READY = 5"
definition RESPONSE_CHUNK_ACCEPTED :: byte where "RESPONSE_CHUNK_ACCEPTED = 6"
definition RESPONSE_UPLOAD_COMMITTED :: byte where "RESPONSE_UPLOAD_COMMITTED = 7"
definition RESPONSE_BLOB_CHUNK :: byte where "RESPONSE_BLOB_CHUNK = 8"
definition RESPONSE_PONG :: byte where "RESPONSE_PONG = 9"
definition RESPONSE_COMMIT_STORED :: byte where "RESPONSE_COMMIT_STORED = 10"
definition RESPONSE_COMMIT_RECORD :: byte where "RESPONSE_COMMIT_RECORD = 11"
definition RESPONSE_HEADS :: byte where "RESPONSE_HEADS = 12"
definition RESPONSE_CHANGES :: byte where "RESPONSE_CHANGES = 13"
definition RESPONSE_VAULT_KEY_ENVELOPE_STORED :: byte where "RESPONSE_VAULT_KEY_ENVELOPE_STORED = 14"
definition RESPONSE_VAULT_KEY_ENVELOPE :: byte where "RESPONSE_VAULT_KEY_ENVELOPE = 15"
definition RESPONSE_ERROR :: byte where "RESPONSE_ERROR = 255"

lemmas response_types =
  RESPONSE_AUTHENTICATED_def RESPONSE_DEVICE_REGISTERED_def RESPONSE_DEVICES_def
  RESPONSE_DEVICE_REVOKED_def RESPONSE_UPLOAD_READY_def RESPONSE_CHUNK_ACCEPTED_def
  RESPONSE_UPLOAD_COMMITTED_def RESPONSE_BLOB_CHUNK_def RESPONSE_PONG_def
  RESPONSE_COMMIT_STORED_def RESPONSE_COMMIT_RECORD_def RESPONSE_HEADS_def RESPONSE_CHANGES_def
  RESPONSE_VAULT_KEY_ENVELOPE_STORED_def RESPONSE_VAULT_KEY_ENVELOPE_def RESPONSE_ERROR_def

definition encode_device :: "cbor \<Rightarrow> device_record \<Rightarrow> bytes" where
  "encode_device C device =
     e_array C 4 @ e_bytes C (dr_device_id device) @ e_bytes C (dr_public_key device)
       @ e_bytes C (dr_encrypted_name device) @ e_bool C (dr_revoked device)"

definition decode_device :: "cbor \<Rightarrow> bytes \<Rightarrow> device_record dec" where
  "decode_device C d =
     rbind (expect_array C 4 d) (\<lambda>d.
     rbind (dec_fixed C 16 d) (\<lambda>(device_id, d).
     rbind (dec_fixed C 32 d) (\<lambda>(public_key, d).
     rbind (bounded_bytes C MAX_ENCRYPTED_DEVICE_NAME_BYTES d) (\<lambda>(encrypted_name, d).
     rbind (decoded (d_bool C d)) (\<lambda>(revoked, d).
       Inr (\<lparr>dr_device_id = device_id, dr_public_key = public_key,
             dr_encrypted_name = encrypted_name, dr_revoked = revoked\<rparr>, d))))))"

definition encode_vault_stored :: "cbor \<Rightarrow> bytes" where
  "encode_vault_stored C = e_array C 1 @ e_u8 C RESPONSE_VAULT_KEY_ENVELOPE_STORED"

fun encode_response :: "cbor \<Rightarrow> response \<Rightarrow> bytes" where
  "encode_response C (Authenticated device_authenticated vault_id) =
     e_array C 3 @ e_u8 C RESPONSE_AUTHENTICATED @ e_bool C device_authenticated @ e_bytes C vault_id"
| "encode_response C DeviceRegistered = e_array C 1 @ e_u8 C RESPONSE_DEVICE_REGISTERED"
| "encode_response C (Devices devices) =
     e_array C 2 @ e_u8 C RESPONSE_DEVICES @ e_array C (length devices)
       @ concat (map (encode_device C) devices)"
| "encode_response C DeviceRevoked = e_array C 1 @ e_u8 C RESPONSE_DEVICE_REVOKED"
| "encode_response C (UploadReady upload_id offset) =
     e_array C 3 @ e_u8 C RESPONSE_UPLOAD_READY @ e_bytes C upload_id @ e_u64 C offset"
| "encode_response C (ChunkAccepted offset) =
     e_array C 2 @ e_u8 C RESPONSE_CHUNK_ACCEPTED @ e_u64 C offset"
| "encode_response C (UploadCommitted blob_id) =
     e_array C 2 @ e_u8 C RESPONSE_UPLOAD_COMMITTED @ e_bytes C blob_id"
| "encode_response C (BlobChunk offset total_size complete chunk) =
     e_array C 5 @ e_u8 C RESPONSE_BLOB_CHUNK @ e_u64 C offset @ e_u64 C total_size
       @ e_bool C complete @ e_bytes C chunk"
| "encode_response C (CommitStored commit_id heads) =
     e_array C 3 @ e_u8 C RESPONSE_COMMIT_STORED @ e_bytes C commit_id @ encode_fixed_array C heads"
| "encode_response C (CommitRecord signed_commit) =
     e_array C 2 @ e_u8 C RESPONSE_COMMIT_RECORD @ e_bytes C signed_commit"
| "encode_response C (Heads heads) =
     e_array C 2 @ e_u8 C RESPONSE_HEADS @ encode_fixed_array C heads"
| "encode_response C (Changes commits has_more) =
     e_array C 3 @ e_u8 C RESPONSE_CHANGES @ e_array C (length commits)
       @ concat (map (e_bytes C) commits) @ e_bool C has_more"
| "encode_response C VaultKeyEnvelopeStored = encode_vault_stored C"
| "encode_response C (VaultKeyEnvelope envelope) =
     encode_tagged_bytes C RESPONSE_VAULT_KEY_ENVELOPE envelope"
| "encode_response C Pong = e_array C 1 @ e_u8 C RESPONSE_PONG"
| "encode_response C (Error code) =
     e_array C 2 @ e_u8 C RESPONSE_ERROR @ e_u16 C (error_code_number code)"

definition decode_devices :: "cbor \<Rightarrow> bytes \<Rightarrow> response dec" where
  "decode_devices C d =
     rbind (definite_array C d) (\<lambda>(count, d).
       if count > 1024 then Inl CE_LimitExceeded
       else rbind (dec_times (decode_device C) count d) (\<lambda>(devices, d). Inr (Devices devices, d)))"

definition decode_blob_chunk :: "cbor \<Rightarrow> bytes \<Rightarrow> response dec" where
  "decode_blob_chunk C d =
     rbind (decoded (d_u64 C d)) (\<lambda>(offset, d).
     rbind (decoded (d_u64 C d)) (\<lambda>(total_size, d).
     rbind (decoded (d_bool C d)) (\<lambda>(complete, d).
     rbind (bounded_bytes C MAX_CHUNK_BYTES d) (\<lambda>(chunk, d).
       Inr (BlobChunk offset total_size complete chunk, d)))))"

definition decode_changes :: "cbor \<Rightarrow> bytes \<Rightarrow> response dec" where
  "decode_changes C d =
     rbind (definite_array C d) (\<lambda>(count, d).
       if count > MAX_CHANGES_PER_RESPONSE then Inl CE_LimitExceeded
       else rbind (dec_times (bounded_bytes C MAX_SIGNED_COMMIT_BYTES) count d) (\<lambda>(commits, d).
            rbind (decoded (d_bool C d)) (\<lambda>(has_more, d). Inr (Changes commits has_more, d))))"

definition decode_response :: "cbor \<Rightarrow> bytes \<Rightarrow> response dec" where
  "decode_response C d =
     rbind (definite_array C d) (\<lambda>(len, d).
     rbind (decoded (d_u8 C d)) (\<lambda>(discriminator, d).
       if discriminator = RESPONSE_AUTHENTICATED \<and> len = 3
         then rbind (decoded (d_bool C d)) (\<lambda>(device_authenticated, d).
              rbind (dec_fixed C 16 d) (\<lambda>(vault_id, d). Inr (Authenticated device_authenticated vault_id, d)))
       else if discriminator = RESPONSE_DEVICE_REGISTERED \<and> len = 1 then Inr (DeviceRegistered, d)
       else if discriminator = RESPONSE_DEVICES \<and> len = 2 then decode_devices C d
       else if discriminator = RESPONSE_DEVICE_REVOKED \<and> len = 1 then Inr (DeviceRevoked, d)
       else if discriminator = RESPONSE_UPLOAD_READY \<and> len = 3
         then rbind (dec_fixed C 16 d) (\<lambda>(upload_id, d).
              rbind (decoded (d_u64 C d)) (\<lambda>(offset, d). Inr (UploadReady upload_id offset, d)))
       else if discriminator = RESPONSE_CHUNK_ACCEPTED \<and> len = 2
         then rbind (decoded (d_u64 C d)) (\<lambda>(offset, d). Inr (ChunkAccepted offset, d))
       else if discriminator = RESPONSE_UPLOAD_COMMITTED \<and> len = 2
         then rbind (dec_fixed C 32 d) (\<lambda>(blob_id, d). Inr (UploadCommitted blob_id, d))
       else if discriminator = RESPONSE_BLOB_CHUNK \<and> len = 5 then decode_blob_chunk C d
       else if discriminator = RESPONSE_COMMIT_STORED \<and> len = 3
         then rbind (dec_fixed C 32 d) (\<lambda>(commit_id, d).
              rbind (decode_fixed_array C 32 MAX_HEADS d) (\<lambda>(heads, d). Inr (CommitStored commit_id heads, d)))
       else if discriminator = RESPONSE_COMMIT_RECORD \<and> len = 2
         then rbind (bounded_bytes C MAX_SIGNED_COMMIT_BYTES d) (\<lambda>(signed_commit, d). Inr (CommitRecord signed_commit, d))
       else if discriminator = RESPONSE_HEADS \<and> len = 2
         then rbind (decode_fixed_array C 32 MAX_HEADS d) (\<lambda>(heads, d). Inr (Heads heads, d))
       else if discriminator = RESPONSE_CHANGES \<and> len = 3 then decode_changes C d
       else if discriminator = RESPONSE_VAULT_KEY_ENVELOPE_STORED \<and> len = 1 then Inr (VaultKeyEnvelopeStored, d)
       else if discriminator = RESPONSE_VAULT_KEY_ENVELOPE \<and> len = 2
         then rbind (bounded_bytes C MAX_VAULT_KEY_ENVELOPE_BYTES d) (\<lambda>(envelope, d). Inr (VaultKeyEnvelope envelope, d))
       else if discriminator = RESPONSE_PONG \<and> len = 1 then Inr (Pong, d)
       else if discriminator = RESPONSE_ERROR \<and> len = 2
         then rbind (decoded (d_u16 C d)) (\<lambda>(code, d).
              rbind (ok_or CE_UnsupportedValue (error_code_try_from code)) (\<lambda>code. Inr (Error code, d)))
       else Inl CE_UnsupportedValue))"

definition encode_server_message :: "cbor \<Rightarrow> server_message \<Rightarrow> codec_error + bytes" where
  "encode_server_message C v =
     Inr (e_array C 3 @ e_u16 C PROTOCOL_VERSION @ e_u64 C (sm_sequence v)
       @ encode_response C (sm_response v))"

definition decode_server_message :: "cbor \<Rightarrow> bytes \<Rightarrow> codec_error + server_message" where
  "decode_server_message C input =
     rbind (expect_array C 3 input) (\<lambda>d.
     rbind (decoded (d_u16 C d)) (\<lambda>(version, d).
       if version \<noteq> PROTOCOL_VERSION then Inl CE_UnsupportedValue
       else
         rbind (decoded (d_u64 C d)) (\<lambda>(sequence, d).
         rbind (decode_response C d) (\<lambda>(response, d).
         let value = \<lparr>sm_sequence = sequence, sm_response = response\<rparr> in
         rbind (finish d input) (\<lambda>_.
         rbind (encode_server_message C value) (\<lambda>encoded.
         rbind (ensure_deterministic input encoded) (\<lambda>_. Inr value)))))))"

end
