(* ===== verification/Codec_Contract.thy ===== *)
theory Codec_Contract
  imports Cbor
begin

text \<open>
  The contract every codec of the repository is written to, as a locale: the decoder
  accepts exactly the encodings of well-formed values. Its consequences are proved once here;
  each component interprets the locale for its own encoder and decoder. The second part holds the
  two helpers every map-shaped decoder has a private copy of, an expected key and a
  fixed-size byte string, parametrised by the errors the copies return.
\<close>

section \<open>Deterministic codecs\<close>

locale deterministic_codec =
  fixes enc :: "'a \<Rightarrow> 'e + 'b" and dec :: "'b \<Rightarrow> 'f + 'a" and wf :: "'a \<Rightarrow> bool"
  assumes canonical: "dec input = Inr v \<longleftrightarrow> wf v \<and> enc v = Inr input"
begin

lemma decode_encode: "wf v \<Longrightarrow> enc v = Inr input \<Longrightarrow> dec input = Inr v"
  by (simp add: canonical)

lemma encode_decode: "dec input = Inr v \<Longrightarrow> enc v = Inr input"
  by (simp add: canonical)

lemma encode_inj: "wf u \<Longrightarrow> wf v \<Longrightarrow> enc u = Inr input \<Longrightarrow> enc v = Inr input \<Longrightarrow> u = v"
  by (metis canonical sum.inject(2))

lemma unique_encoding: "dec input = Inr v \<Longrightarrow> dec input' = Inr v \<Longrightarrow> input = input'"
  by (metis canonical sum.inject(2))

lemma accepted_iff: "(\<exists>v. dec input = Inr v) \<longleftrightarrow> (\<exists>v. wf v \<and> enc v = Inr input)"
  by (simp add: canonical)

lemma rejected: "(\<And>v. wf v \<Longrightarrow> enc v \<noteq> Inr input) \<Longrightarrow> \<exists>e. dec input = Inl e"
  by (cases "dec input") (auto simp: canonical)

end

section \<open>Keyed fields\<close>

definition take_key :: "'e \<Rightarrow> 'e \<Rightarrow> cbor \<Rightarrow> byte \<Rightarrow> bytes \<Rightarrow> 'e + bytes" where
  "take_key decode_error wrong C key d =
     rbind (ok_or decode_error (d_u8 C d)) (\<lambda>(k, d). if k = key then Inr d else Inl wrong)"

definition take_fixed :: "'e \<Rightarrow> 'e \<Rightarrow> cbor \<Rightarrow> nat \<Rightarrow> bytes \<Rightarrow> 'e + (bytes \<times> bytes)" where
  "take_fixed decode_error wrong C n d =
     rbind (ok_or decode_error (d_bytes C d)) (\<lambda>(value, d).
       if length value = n then Inr (value, d) else Inl wrong)"

lemma take_fixed_length: "take_fixed e w C n d = Inr (v, d') \<Longrightarrow> length v = n"
  by (auto simp: take_fixed_def result_iffs split: if_splits)

lemma fits64_le: "n \<le> m \<Longrightarrow> fits64 m \<Longrightarrow> fits64 n"
  by (simp add: fits64_def)

lemma fits64_numeral [simp]:
  "fits64 0" "fits64 1" "fits64 (Suc 0)" "fits64 2" "fits64 3" "fits64 4" "fits64 5" "fits64 6" "fits64 7"
  "fits64 8" "fits64 9" "fits64 16" "fits64 24" "fits64 32" "fits64 48" "fits64 64" "fits64 512" "fits64 1024"
  "fits64 2048" "fits64 4096" "fits64 262144" "fits64 270336"
  by (simp_all add: fits64_def)

lemma fits64_small: "n \<le> 1073741824 \<Longrightarrow> fits64 n"
  by (simp add: fits64_def)

context cbor_format begin

lemma take_key_item [simp]: "take_key e w C k (e_u8 C k @ r) = Inr r"
  by (simp add: take_key_def)

lemma take_fixed_item [simp]:
  "length bs = n \<Longrightarrow> fits64 n \<Longrightarrow> take_fixed e w C n (e_bytes C bs @ r) = Inr (bs, r)"
  by (simp add: take_fixed_def)

lemma take_fixed_last [simp]:
  "length bs = n \<Longrightarrow> fits64 n \<Longrightarrow> take_fixed e w C n (e_bytes C bs) = Inr (bs, [])"
  by (simp add: take_fixed_def)

end

end
