(* ===== verification/Protocol_Roundtrip.thy ===== *)
theory Protocol_Roundtrip
  imports Protocol_Codec Codec_Contract
begin

text \<open>
  Correctness of the protocol codec. Inside \<open>cbor_format\<close>: every helper and every message
  decodes what it encoded, whatever follows it in the input. Outside: a decoder returns
  well-formed values only, and because it re-encodes what it parsed it accepts exactly the
  encodings of well-formed messages.
\<close>

section \<open>Encodings decode\<close>

text \<open>What the Rust types of the two unauthenticated documents guarantee.\<close>

definition wf_bootstrap :: "bootstrap \<Rightarrow> bool" where
  "wf_bootstrap v \<longleftrightarrow> is_array 16 (bs_instance_id v) \<and> is_array 32 (bs_server_static_public_key v)"

definition wf_challenge :: "auth_challenge \<Rightarrow> bool" where
  "wf_challenge v \<longleftrightarrow> is_array 32 (ac_session_handle v) \<and> is_array 16 (ac_authentication_salt v) \<and>
     is_array 32 (ac_random_challenge v) \<and> is_array 16 (ac_session_id v)"

lemma finish_Nil [simp]: "finish [] input = Inr ()"
  by (simp add: finish_def position_def)

lemma ensure_deterministic_same [simp]: "ensure_deterministic x x = Inr ()"
  by (simp add: ensure_deterministic_def)

lemma wf_str_ascii [simp]: "wf_str NOISE_SUITE"
  by (simp add: wf_str_def NOISE_SUITE_def ascii_def is_scalar_def utf8_char_def fits64_def)

context cbor_format begin

lemma dec_fixed_item [simp]:
  "length bs = n \<Longrightarrow> fits64 n \<Longrightarrow> dec_fixed C n (e_bytes C bs @ r) = Inr (bs, r)"
  by (simp add: dec_fixed_def fixed_bytes_def)

lemma dec_fixed_last [simp]:
  "length bs = n \<Longrightarrow> fits64 n \<Longrightarrow> dec_fixed C n (e_bytes C bs) = Inr (bs, [])"
  using dec_fixed_item [of bs n "[]"] by simp

lemma bounded_bytes_item [simp]:
  "length bs \<le> n \<Longrightarrow> fits64 n \<Longrightarrow> bounded_bytes C n (e_bytes C bs @ r) = Inr (bs, r)"
  by (simp add: bounded_bytes_def fits64_le)

lemma bounded_bytes_last [simp]:
  "length bs \<le> n \<Longrightarrow> fits64 n \<Longrightarrow> bounded_bytes C n (e_bytes C bs) = Inr (bs, [])"
  using bounded_bytes_item [of bs n "[]"] by simp

lemma definite_array_item [simp]:
  "fits64 n \<Longrightarrow> definite_array C (e_array C n @ r) = Inr (n, r)"
  by (simp add: definite_array_def usize_try_from_def)

lemma expect_array_item [simp]: "fits64 n \<Longrightarrow> expect_array C n (e_array C n @ r) = Inr r"
  by (simp add: expect_array_def)

lemma optional_fixed_item [simp]:
  "fits64 n \<Longrightarrow> \<forall>bs. v = Some bs \<longrightarrow> length bs = n \<Longrightarrow>
     decode_optional_fixed C n (encode_optional_bytes C v @ r) = Inr (v, r)"
  by (cases v) (simp_all add: decode_optional_fixed_def encode_optional_bytes_def)

lemma optional_fixed_last [simp]:
  "fits64 n \<Longrightarrow> \<forall>bs. v = Some bs \<longrightarrow> length bs = n \<Longrightarrow>
     decode_optional_fixed C n (encode_optional_bytes C v) = Inr (v, [])"
  using optional_fixed_item [of n v "[]"] by simp

lemma fixed_array_item [simp]:
  "fits64 n \<Longrightarrow> fits64 maximum \<Longrightarrow> \<forall>v \<in> set vs. length v = n \<Longrightarrow> length vs \<le> maximum \<Longrightarrow>
     decode_fixed_array C n maximum (encode_fixed_array C vs @ r) = Inr (vs, r)"
  by (simp add: decode_fixed_array_def encode_fixed_array_def fits64_le dec_times_encoded)

lemma fixed_array_last [simp]:
  "fits64 n \<Longrightarrow> fits64 maximum \<Longrightarrow> \<forall>v \<in> set vs. length v = n \<Longrightarrow> length vs \<le> maximum \<Longrightarrow>
     decode_fixed_array C n maximum (encode_fixed_array C vs) = Inr (vs, [])"
  using fixed_array_item [of n maximum vs "[]"] by simp

lemma request_roundtrip: "wf_request q \<Longrightarrow> decode_request C (encode_request C q) = Inr (q, [])"
  by (cases q, simp_all add: decode_request_def request_types encode_tagged_bytes_def protocol_limits
      decode_authenticate_def decode_register_device_def decode_upload_chunk_def
      decode_get_blob_def decode_get_changes_def)
    (metis not_None_eq)

lemma bootstrap_roundtrip:
  assumes "wf_str (bs_server_fingerprint v)"
    and "wf_bootstrap v" "bs_protocol_version v = PROTOCOL_VERSION" "bs_noise_suite v = NOISE_SUITE"
  shows "rbind (encode_bootstrap C v) (decode_bootstrap C) = Inr v"
  using assms
  by (simp add: decode_bootstrap_def encode_bootstrap_def wf_bootstrap_def Let_def)

lemma challenge_roundtrip:
  "wf_challenge v \<Longrightarrow> rbind (encode_auth_challenge C v) (decode_auth_challenge C) = Inr v"
  by (simp add: decode_auth_challenge_def encode_auth_challenge_def wf_challenge_def Let_def)

lemma client_message_roundtrip:
  assumes "wf_request (cm_request m)"
  shows "rbind (encode_client_message C m) (decode_client_message C) = Inr m"
  using request_roundtrip [OF assms]
  by (simp add: encode_client_message_def decode_client_message_def Let_def)

lemma device_item [simp]:
  "wf_device_record v \<Longrightarrow> decode_device C (encode_device C v @ r) = Inr (v, r)"
  by (simp add: decode_device_def encode_device_def wf_device_record_def protocol_limits)

lemma devices_items: "\<forall>v \<in> set vs. wf_device_record v \<Longrightarrow>
    dec_times (decode_device C) (length vs) (concat (map (encode_device C) vs)) = Inr (vs, [])"
  using dec_times_encoded [of vs "decode_device C" "encode_device C" "[]"] by simp

lemma commits_items: "\<forall>v \<in> set vs. length v \<le> n \<Longrightarrow> fits64 n \<Longrightarrow>
    dec_times (bounded_bytes C n) (length vs) (concat (map (e_bytes C) vs) @ r) = Inr (vs, r)"
  by (rule dec_times_encoded) simp

lemma response_roundtrip: "wf_response q \<Longrightarrow> decode_response C (encode_response C q) = Inr (q, [])"
  by (cases q)
    (simp_all add: decode_response_def response_types encode_tagged_bytes_def protocol_limits
      encode_vault_stored_def decode_devices_def decode_blob_chunk_def decode_changes_def
      devices_items commits_items fits64_small)

lemma server_message_roundtrip:
  assumes "wf_response (sm_response m)"
  shows "rbind (encode_server_message C m) (decode_server_message C) = Inr m"
  using response_roundtrip [OF assms]
  by (simp add: encode_server_message_def decode_server_message_def Let_def)

end

section \<open>Decoded values are well formed\<close>

text \<open>These hold for every CBOR crate: the checks are the decoder's own.\<close>

lemma dec_fixed_length: "dec_fixed C n d = Inr (v, d') \<Longrightarrow> length v = n"
  by (auto simp: dec_fixed_def fixed_bytes_def result_iffs split: if_splits)

lemma bounded_bytes_length: "bounded_bytes C n d = Inr (v, d') \<Longrightarrow> length v \<le> n"
  by (auto simp: bounded_bytes_def result_iffs split: if_splits)

lemma optional_fixed_length: "decode_optional_fixed C n d = Inr (Some v, d') \<Longrightarrow> length v = n"
  by (auto simp: decode_optional_fixed_def result_iffs dest: dec_fixed_length split: if_splits)

lemma fixed_array_length:
  assumes "decode_fixed_array C n maximum d = Inr (vs, d')"
  shows "(\<forall>v \<in> set vs. length v = n) \<and> length vs \<le> maximum"
proof -
  obtain count e where "count \<le> maximum" "dec_times (dec_fixed C n) count e = Inr (vs, d')"
    using assms by (auto simp: decode_fixed_array_def result_iffs not_less split: if_splits)
  then show ?thesis using dec_times_Inr [of "dec_fixed C n" count e vs d'] dec_fixed_length by metis
qed

lemma bounded_items_length:
  "dec_times (bounded_bytes C n) count d = Inr (vs, d') \<Longrightarrow>
     (\<forall>v \<in> set vs. length v \<le> n) \<and> length vs = count"
  using dec_times_Inr [of "bounded_bytes C n" count d vs d'] bounded_bytes_length by metis

lemma decode_device_wf: "decode_device C d = Inr (v, d') \<Longrightarrow> wf_device_record v"
  by (auto simp: decode_device_def wf_device_record_def result_iffs
      dest: dec_fixed_length bounded_bytes_length)

lemma decode_devices_wf:
  assumes "decode_devices C d = Inr (q, d')"
  shows "wf_response q"
proof -
  obtain count e ds where "count \<le> 1024" "q = Devices ds"
    "dec_times (decode_device C) count e = Inr (ds, d')"
    using assms by (auto simp: decode_devices_def result_iffs not_less split: if_splits)
  then show ?thesis
    using dec_times_Inr [of "decode_device C" count e ds d'] decode_device_wf by simp metis
qed

lemmas decoded_lengths =
  dec_fixed_length bounded_bytes_length optional_fixed_length fixed_array_length
  bounded_items_length

lemma decode_authenticate_wf: "decode_authenticate C d = Inr (q, d') \<Longrightarrow> wf_request q"
  by (auto simp: decode_authenticate_def result_iffs dest!: decoded_lengths split: if_splits)

lemma decode_get_changes_wf: "decode_get_changes C d = Inr (q, d') \<Longrightarrow> wf_request q"
  by (auto simp: decode_get_changes_def result_iffs dest!: decoded_lengths split: if_splits)

lemma decode_request_wf: "decode_request C d = Inr (q, d') \<Longrightarrow> wf_request q"
  unfolding decode_request_def decode_register_device_def decode_upload_chunk_def
    decode_get_blob_def
  by (auto simp: result_iffs split: if_splits
      dest!: decoded_lengths decode_authenticate_wf decode_get_changes_wf)

lemma decode_changes_wf: "decode_changes C d = Inr (q, d') \<Longrightarrow> wf_response q"
  by (auto simp: decode_changes_def result_iffs dest!: decoded_lengths split: if_splits)

lemma decode_response_wf: "decode_response C d = Inr (q, d') \<Longrightarrow> wf_response q"
  unfolding decode_response_def decode_blob_chunk_def
  by (auto simp: result_iffs split: if_splits
      dest!: decoded_lengths decode_devices_wf decode_changes_wf)

section \<open>The canonical-form theorems\<close>

lemma decode_client_message_sound:
  assumes "decode_client_message C input = Inr m"
  shows "wf_request (cm_request m) \<and> encode_client_message C m = Inr input"
  using assms decode_request_wf
  by (fastforce simp: decode_client_message_def result_iffs Let_def encode_client_message_def
      ensure_deterministic_def split: if_splits)

lemma decode_server_message_sound:
  assumes "decode_server_message C input = Inr m"
  shows "wf_response (sm_response m) \<and> encode_server_message C m = Inr input"
  using assms decode_response_wf
  by (fastforce simp: decode_server_message_def result_iffs Let_def encode_server_message_def
      ensure_deterministic_def split: if_splits)

lemma decode_auth_challenge_sound:
  assumes "decode_auth_challenge C input = Inr v"
  shows "wf_challenge v \<and> encode_auth_challenge C v = Inr input"
  using assms
  by (auto simp: decode_auth_challenge_def result_iffs Let_def ensure_deterministic_def
      wf_challenge_def split: if_splits dest!: decoded_lengths)

text \<open>
  Each codec obeys the contract of deterministic codecs, for every CBOR crate that obeys its own.
\<close>

sublocale cbor_format \<subseteq>
  client_message: deterministic_codec "encode_client_message C" "decode_client_message C"
    "\<lambda>m. wf_request (cm_request m)"
proof
  fix input m
  show "decode_client_message C input = Inr m \<longleftrightarrow>
      wf_request (cm_request m) \<and> encode_client_message C m = Inr input"
    using client_message_roundtrip [of m] decode_client_message_sound [of C input m] by auto
qed

sublocale cbor_format \<subseteq>
  server_message: deterministic_codec "encode_server_message C" "decode_server_message C"
    "\<lambda>m. wf_response (sm_response m)"
proof
  fix input m
  show "decode_server_message C input = Inr m \<longleftrightarrow>
      wf_response (sm_response m) \<and> encode_server_message C m = Inr input"
    using server_message_roundtrip [of m] decode_server_message_sound [of C input m] by auto
qed

sublocale cbor_format \<subseteq>
  auth_challenge: deterministic_codec "encode_auth_challenge C" "decode_auth_challenge C" wf_challenge
proof
  fix input v
  show "decode_auth_challenge C input = Inr v \<longleftrightarrow>
      wf_challenge v \<and> encode_auth_challenge C v = Inr input"
    using challenge_roundtrip [of v] decode_auth_challenge_sound [of C input v] by auto
qed

context cbor_format begin

lemmas client_message_law = client_message.canonical
lemmas server_message_law = server_message.canonical
lemmas auth_challenge_law = auth_challenge.canonical

end

text \<open>Sample documents for the witnesses.\<close>

definition sample_bootstrap :: bootstrap where
  "sample_bootstrap =
     \<lparr>bs_protocol_version = 1, bs_instance_id = replicate 16 7, bs_noise_suite = NOISE_SUITE,
      bs_server_static_public_key = replicate 32 9, bs_server_fingerprint = ascii ''fp'',
      bs_maximum_handshake_bytes = 4096, bs_maximum_transport_bytes = 1048576\<rparr>"

definition sample_challenge :: auth_challenge where
  "sample_challenge =
     \<lparr>ac_session_handle = replicate 32 1, ac_authentication_salt = replicate 16 2,
      ac_argon2_memory_kib = 65536, ac_argon2_iterations = 3, ac_argon2_parallelism = 1,
      ac_random_challenge = replicate 32 4, ac_session_id = replicate 16 5\<rparr>"

text \<open>
  C20. A request message is accepted exactly when it is the encoding of a message within the
  limits: \<open>decode_client_message\<close> inverts \<open>encode_client_message\<close> on the messages
  whose fields obey the hard limits, and rejects every other byte sequence (trailing bytes,
  other versions, non-canonical spellings, over-long fields).
\<close>

theorem client_message_canonical:
  assumes "cbor_format C"
  shows "decode_client_message C input = Inr m \<longleftrightarrow>
    wf_request (cm_request m) \<and> encode_client_message C m = Inr input"
  by (rule cbor_format.client_message_law [OF assms])

theorem client_message_canonical_witness:
  "cbor_format rfc_cbor \<and>
   (decode_client_message rfc_cbor [0x83, 1, 7, 0x81, 9] = Inr \<lparr>cm_sequence = 7, cm_request = Ping\<rparr> \<longleftrightarrow>
    wf_request Ping \<and>
    encode_client_message rfc_cbor \<lparr>cm_sequence = 7, cm_request = Ping\<rparr> = Inr [0x83, 1, 7, 0x81, 9]) \<and>
   encode_client_message rfc_cbor \<lparr>cm_sequence = 7, cm_request = Ping\<rparr> = Inr [0x83, 1, 7, 0x81, 9]"
  using client_message_canonical [OF rfc.cbor_format_axioms,
      of "[0x83, 1, 7, 0x81, 9]" "\<lparr>cm_sequence = 7, cm_request = Ping\<rparr>"] rfc.cbor_format_axioms
  by (simp add: encode_client_message_def rfc_cbor_def cbor_head_def PROTOCOL_VERSION_def TYPE_PING_def)

text \<open>
  C21. The same for response messages: \<open>decode_server_message\<close> accepts exactly the
  encodings of responses within the limits.
\<close>

theorem server_message_canonical:
  assumes "cbor_format C"
  shows "decode_server_message C input = Inr m \<longleftrightarrow>
    wf_response (sm_response m) \<and> encode_server_message C m = Inr input"
  by (rule cbor_format.server_message_law [OF assms])

theorem server_message_canonical_witness:
  "cbor_format rfc_cbor \<and>
   (decode_server_message rfc_cbor [0x83, 1, 2, 0x82, 4, 9] = Inr \<lparr>sm_sequence = 2, sm_response = Pong\<rparr> \<longleftrightarrow>
    wf_response Pong \<and>
    encode_server_message rfc_cbor \<lparr>sm_sequence = 2, sm_response = Pong\<rparr> = Inr [0x83, 1, 2, 0x82, 4, 9]) \<and>
   encode_server_message rfc_cbor \<lparr>sm_sequence = 2, sm_response = Pong\<rparr> = Inr [0x83, 1, 2, 0x81, 9]"
  using server_message_canonical [OF rfc.cbor_format_axioms,
      of "[0x83, 1, 2, 0x82, 4, 9]" "\<lparr>sm_sequence = 2, sm_response = Pong\<rparr>"] rfc.cbor_format_axioms
  by (simp add: encode_server_message_def rfc_cbor_def cbor_head_def PROTOCOL_VERSION_def RESPONSE_PONG_def)

text \<open>
  The bootstrap document: the decoder accepts exactly the canonical encodings of documents
  of the supported version and Noise suite.
\<close>

theorem bootstrap_canonical:
  assumes "cbor_format C" and "wf_str (bs_server_fingerprint v)"
  shows "decode_bootstrap C input = Inr v \<longleftrightarrow>
    wf_bootstrap v \<and> bs_protocol_version v = PROTOCOL_VERSION \<and> bs_noise_suite v = NOISE_SUITE \<and>
    encode_bootstrap C v = Inr input"
  (is "?dec \<longleftrightarrow> ?wf")
proof
  assume ?dec
  then show ?wf
    by (auto simp: decode_bootstrap_def result_iffs Let_def ensure_deterministic_def wf_bootstrap_def
        split: if_splits dest!: decoded_lengths)
next
  assume ?wf
  then show ?dec
    using cbor_format.bootstrap_roundtrip [OF assms] by (auto simp: rbind_def split: sum.splits)
qed

theorem bootstrap_canonical_witness:
  "wf_bootstrap sample_bootstrap \<and>
   rbind (encode_bootstrap rfc_cbor sample_bootstrap) (decode_bootstrap rfc_cbor) = Inr sample_bootstrap"
proof -
  have "wf_str (bs_server_fingerprint sample_bootstrap)"
    by (simp add: sample_bootstrap_def wf_str_def ascii_def is_scalar_def utf8_char_def fits64_def)
  moreover obtain input where "encode_bootstrap rfc_cbor sample_bootstrap = Inr input"
    by (simp add: encode_bootstrap_def)
  ultimately show ?thesis
    using bootstrap_canonical [OF rfc.cbor_format_axioms, of sample_bootstrap input]
    by (simp add: sample_bootstrap_def wf_bootstrap_def PROTOCOL_VERSION_def)
qed

text \<open>
  The authentication challenge: the decoder accepts exactly the canonical encodings.
\<close>

theorem auth_challenge_canonical:
  assumes "cbor_format C"
  shows "decode_auth_challenge C input = Inr v \<longleftrightarrow>
    wf_challenge v \<and> encode_auth_challenge C v = Inr input"
  by (rule cbor_format.auth_challenge_law [OF assms])

theorem auth_challenge_canonical_witness:
  "wf_challenge sample_challenge \<and>
   rbind (encode_auth_challenge rfc_cbor sample_challenge) (decode_auth_challenge rfc_cbor) = Inr sample_challenge"
proof -
  obtain input where "encode_auth_challenge rfc_cbor sample_challenge = Inr input"
    by (simp add: encode_auth_challenge_def)
  then show ?thesis
    using auth_challenge_canonical [OF rfc.cbor_format_axioms, of input sample_challenge]
    by (simp add: sample_challenge_def wf_challenge_def)
qed

end
