(* ===== verification/Transport_Frame.thy ===== *)
theory Transport_Frame
  imports Protocol_Types Codec_Contract
begin

text \<open>
  The HTTP-carried transport frame, \<open>crates/ll-protocol/src/frame.rs\<close>: a four byte magic,
  the opaque session handle, a big-endian 32-bit length and the ciphertext.
\<close>

definition FRAME_MAGIC :: bytes where "FRAME_MAGIC = ascii_bytes ''LLP1''"

record transport_frame =
  tf_session_handle :: bytes
  tf_ciphertext :: bytes

datatype frame_error = FE_Truncated | FE_InvalidMagic | FE_InvalidLength | FE_TooLarge

definition encode_transport_frame :: "bytes \<Rightarrow> bytes \<Rightarrow> frame_error + bytes" where
  "encode_transport_frame session_handle ciphertext =
     (if length ciphertext > MAX_TRANSPORT_CIPHERTEXT_BYTES then Inl FE_TooLarge
      else if length ciphertext \<ge> 2 ^ 32 then Inl FE_TooLarge
      else Inr (FRAME_MAGIC @ session_handle @ be_bytes 4 (length ciphertext) @ ciphertext))"

definition decode_transport_frame :: "bytes \<Rightarrow> frame_error + transport_frame" where
  "decode_transport_frame input =
     (if length input < 40 then Inl FE_Truncated
      else if take 4 input \<noteq> FRAME_MAGIC then Inl FE_InvalidMagic
      else
        let session_handle = take 32 (drop 4 input);
            declared = be_nat (take 4 (drop 36 input)) in
        if declared > MAX_TRANSPORT_CIPHERTEXT_BYTES then Inl FE_TooLarge
        else if length input \<noteq> 40 + declared then Inl FE_InvalidLength
        else Inr \<lparr>tf_session_handle = session_handle, tf_ciphertext = drop 40 input\<rparr>)"

lemma length_FRAME_MAGIC [simp]: "length FRAME_MAGIC = 4"
  by (simp add: FRAME_MAGIC_def ascii_bytes_def)

lemma drop_FRAME_MAGIC [simp]: "4 \<le> n \<Longrightarrow> drop n (FRAME_MAGIC @ xs) = drop (n - 4) xs"
  by simp

lemma frame_parts:
  "40 \<le> length input \<Longrightarrow>
     input = take 4 input @ take 32 (drop 4 input) @ take 4 (drop 36 input) @ drop 40 input"
proof -
  have "input = take 4 input @ drop 4 input" by simp
  also have "drop 4 input = take 32 (drop 4 input) @ drop 32 (drop 4 input)" by (rule append_take_drop_id [symmetric])
  also have "drop 32 (drop 4 input) = drop 36 input" by simp
  also have "drop 36 input = take 4 (drop 36 input) @ drop 4 (drop 36 input)" by (rule append_take_drop_id [symmetric])
  also have "drop 4 (drop 36 input) = drop 40 input" by simp
  finally show ?thesis .
qed

lemma decode_transport_frame_InrD:
  "decode_transport_frame input = Inr f \<Longrightarrow>
     40 \<le> length input \<and> take 4 input = FRAME_MAGIC \<and>
     f = \<lparr>tf_session_handle = take 32 (drop 4 input), tf_ciphertext = drop 40 input\<rparr> \<and>
     length input = 40 + be_nat (take 4 (drop 36 input)) \<and>
     be_nat (take 4 (drop 36 input)) \<le> MAX_TRANSPORT_CIPHERTEXT_BYTES"
  unfolding decode_transport_frame_def Let_def
  by (simp only: if_Inl_Inr_iff sum.inject not_less not_not simp_thms)

lemma transport_frame_iff:
  "decode_transport_frame input = Inr f \<longleftrightarrow>
     is_array 32 (tf_session_handle f) \<and>
     encode_transport_frame (tf_session_handle f) (tf_ciphertext f) = Inr input"
  (is "?dec \<longleftrightarrow> ?enc")
proof
  have diff_eq: "m - 40 = k" if "m = 40 + k" for m k :: nat using that by simp
  assume ?dec
  note dec = decode_transport_frame_InrD [OF this]
  have len: "40 \<le> length input" and magic: "take 4 input = FRAME_MAGIC"
    and f: "f = \<lparr>tf_session_handle = take 32 (drop 4 input), tf_ciphertext = drop 40 input\<rparr>"
    and decl: "length input = 40 + be_nat (take 4 (drop 36 input))"
      "be_nat (take 4 (drop 36 input)) \<le> MAX_TRANSPORT_CIPHERTEXT_BYTES"
    using dec by blast+
  have "take 4 (drop 36 input) = be_bytes 4 (length (drop 40 input))"
  proof -
    have "length (take 4 (drop 36 input)) = 4" using len by simp
    note be_bytes_be_nat [OF this]
    moreover have "length (drop 40 input) = be_nat (take 4 (drop 36 input))"
      unfolding length_drop by (rule diff_eq [OF decl(1)])
    ultimately show ?thesis by (simp only:)
  qed
  then have "FRAME_MAGIC @ take 32 (drop 4 input) @ be_bytes 4 (length (drop 40 input)) @ drop 40 input = input"
    using frame_parts [OF len] magic by metis
  moreover have "length (drop 40 input) \<le> MAX_TRANSPORT_CIPHERTEXT_BYTES"
    unfolding length_drop diff_eq [OF decl(1)] by (rule decl(2))
  moreover have "length (drop 40 input) < 2 ^ 32" using calculation(2) by (simp add: protocol_limits)
  ultimately show ?enc unfolding f encode_transport_frame_def using len by simp
next
  assume ?enc
  then obtain n where n: "n = length (tf_ciphertext f)" "n \<le> MAX_TRANSPORT_CIPHERTEXT_BYTES"
    "n < 256 ^ 4" and h: "is_array 32 (tf_session_handle f)"
    and input: "input = FRAME_MAGIC @ tf_session_handle f @ be_bytes 4 n @ tf_ciphertext f"
    unfolding encode_transport_frame_def by (simp split: if_split_asm)
  have "be_nat (take 4 (drop 36 input)) = n"
    unfolding input using h n(3) by (simp add: be_nat_be_bytes)
  then show ?dec using n h unfolding decode_transport_frame_def by (simp add: input)
qed

interpretation frame: deterministic_codec
  "\<lambda>f. encode_transport_frame (tf_session_handle f) (tf_ciphertext f)" decode_transport_frame
  "\<lambda>f. is_array 32 (tf_session_handle f)"
  by unfold_locales (rule transport_frame_iff)

text \<open>
  The frame parser accepts exactly the frames the encoder can produce: a byte sequence
  parses into a session handle and a ciphertext if and only if it is the encoding of that
  ciphertext, within the transport limit, under a 32-byte handle. Everything else (short
  input, other magic, a declared length that differs from the body) is rejected.
\<close>

theorem transport_frame_canonical:
  "decode_transport_frame input = Inr f \<longleftrightarrow>
     is_array 32 (tf_session_handle f) \<and>
     encode_transport_frame (tf_session_handle f) (tf_ciphertext f) = Inr input"
  by (rule frame.canonical)

text \<open>
  Every input gets its documented error: fewer than 40 bytes are truncated, a wrong magic
  is next, then a declared length over the limit, then a length that is not the body's.
\<close>

theorem transport_frame_errors:
  "decode_transport_frame input = Inl e \<longleftrightarrow>
     (if length input < 40 then e = FE_Truncated
      else if take 4 input \<noteq> FRAME_MAGIC then e = FE_InvalidMagic
      else if be_nat (take 4 (drop 36 input)) > MAX_TRANSPORT_CIPHERTEXT_BYTES then e = FE_TooLarge
      else length input \<noteq> 40 + be_nat (take 4 (drop 36 input)) \<and> e = FE_InvalidLength)"
  unfolding decode_transport_frame_def Let_def
  by (simp only: sum.inject sum.distinct simp_thms split: if_split) blast

text \<open>A frame that is produced fits the HTTP body limit.\<close>

lemma transport_frame_fits_body:
  "encode_transport_frame h c = Inr f \<Longrightarrow> is_array 32 h \<Longrightarrow> length f \<le> MAX_HTTP_BODY_BYTES"
  by (auto simp: encode_transport_frame_def protocol_limits split: if_splits)

end
