(* ===== verification/Noise_Records.thy ===== *)
theory Noise_Records
  imports Protocol_Codec Transport_Frame
begin

text \<open>
  The Noise layer: \<open>crates/ll-crypto/src/noise.rs\<close> and \<open>error.rs\<close>. The snow crate is
  not part of the repository, so its handshake and transport objects are abstract states
  with the methods the code calls as parameters: \<open>read_message\<close> and \<open>write_message\<close> are given
  the message and the size of the output buffer and return the written bytes (or an error) with the
  successor state. \<open>noise_laws\<close> is what the code relies on: a message one side writes
  is read by the other side, in order, and is 16 bytes longer than its payload.
\<close>

section \<open>Errors and the crate\<close>

datatype crypto_error =
    XE_Random | XE_InvalidIdentity | XE_IdentityIo | XE_InvalidArgon2Policy | XE_Argon2
  | XE_AuthenticationFailed | XE_Noise | XE_InvalidTransportRecords | XE_Protocol codec_error
  | XE_KeyDerivation | XE_AuthenticatedEncryption | XE_InvalidEnvelope | XE_EnvelopeLimit
  | XE_EnvelopeEncode | XE_EnvelopeDecode | XE_InvalidDeviceSignature

record 't transport =
  t_write :: "'t \<Rightarrow> bytes \<Rightarrow> nat \<Rightarrow> bytes option \<times> 't"
  t_read :: "'t \<Rightarrow> bytes \<Rightarrow> nat \<Rightarrow> bytes option \<times> 't"

record ('h, 't) snow = "'t transport" +
  build_responder :: "ustr \<Rightarrow> bytes \<Rightarrow> bytes \<Rightarrow> 'h option"
    \<comment> \<open>suite, private key, prologue\<close>
  build_initiator_state :: "ustr \<Rightarrow> bytes \<Rightarrow> bytes \<Rightarrow> 'h option"
    \<comment> \<open>suite, remote public key, prologue\<close>
  h_read :: "'h \<Rightarrow> bytes \<Rightarrow> nat \<Rightarrow> bytes option \<times> 'h"
  h_write :: "'h \<Rightarrow> bytes \<Rightarrow> nat \<Rightarrow> bytes option \<times> 'h"
  h_hash :: "'h \<Rightarrow> bytes"
  into_transport_mode :: "'h \<Rightarrow> 't option"

definition NOISE_TAG_BYTES :: nat where "NOISE_TAG_BYTES = 16"
definition MAX_NOISE_MESSAGE_BYTES :: nat where "MAX_NOISE_MESSAGE_BYTES = 65535"
definition TRANSPORT_PLAINTEXT_RECORD_BYTES :: nat where
  "TRANSPORT_PLAINTEXT_RECORD_BYTES = 60 * 1024"
definition RECORD_LENGTH_BYTES :: nat where "RECORD_LENGTH_BYTES = 2"

lemmas noise_limits =
  NOISE_TAG_BYTES_def MAX_NOISE_MESSAGE_BYTES_def TRANSPORT_PLAINTEXT_RECORD_BYTES_def
  RECORD_LENGTH_BYTES_def

section \<open>Handshake\<close>

record 't accepted_handshake =
  ah_handshake_hash :: bytes
  ah_transport :: 't
  ah_response :: bytes

definition accept_handshake ::
  "cbor \<Rightarrow> ('h, 't) snow \<Rightarrow> bytes \<Rightarrow> bytes \<Rightarrow> bytes \<Rightarrow> bytes \<Rightarrow>
     crypto_error + 't accepted_handshake" where
  "accept_handshake C N private_key instance_id initiator_message response_payload =
     (if length initiator_message > MAX_HANDSHAKE_BYTES \<or>
         length response_payload > MAX_HANDSHAKE_BYTES div 2
      then Inl XE_Noise
      else
        rbind (map_err XE_Protocol (encode_noise_prologue C instance_id)) (\<lambda>prologue.
        rbind (ok_or XE_Noise (build_responder N NOISE_SUITE private_key prologue)) (\<lambda>h.
        let (payload, h) = h_read N h initiator_message MAX_HANDSHAKE_BYTES in
        rbind (ok_or XE_Noise payload) (\<lambda>payload.
          if length payload \<noteq> 0 then Inl XE_Noise
          else
            let (response, h) = h_write N h response_payload MAX_HANDSHAKE_BYTES in
            rbind (ok_or XE_Noise response) (\<lambda>response.
            rbind (ok_or XE_Noise (into_transport_mode N h)) (\<lambda>transport.
              Inr \<lparr>ah_handshake_hash = h_hash N h, ah_transport = transport,
                   ah_response = response\<rparr>))))))"

definition build_initiator ::
  "cbor \<Rightarrow> ('h, 't) snow \<Rightarrow> bytes \<Rightarrow> bytes \<Rightarrow> crypto_error + 'h" where
  "build_initiator C N server_public_key instance_id =
     rbind (map_err XE_Protocol (encode_noise_prologue C instance_id)) (\<lambda>prologue.
       ok_or XE_Noise (build_initiator_state N NOISE_SUITE server_public_key prologue))"

section \<open>Record streams\<close>

function chunks :: "nat \<Rightarrow> 'a list \<Rightarrow> 'a list list" where
  "chunks n xs = (if xs = [] \<or> n = 0 then [] else take n xs # chunks n (drop n xs))"
  by pat_completeness auto
termination by (relation "measure (\<lambda>(n, xs). length xs)") auto

declare chunks.simps [simp del]

fun encrypt_chunks ::
  "('t, 'm) transport_scheme \<Rightarrow> 't \<Rightarrow> bytes list \<Rightarrow> (crypto_error + bytes) \<times> 't" where
  "encrypt_chunks N t [] = (Inr [], t)"
| "encrypt_chunks N t (chunk # cs) =
     (let (encrypted, t) = t_write N t chunk (length chunk + NOISE_TAG_BYTES) in
      case encrypted of
        None \<Rightarrow> (Inl XE_Noise, t)
      | Some encrypted \<Rightarrow>
          if length encrypted \<ge> 2 ^ 16 then (Inl XE_InvalidTransportRecords, t)
          else
            let (records, t) = encrypt_chunks N t cs in
            (rmap (\<lambda>rest. be_bytes 2 (length encrypted) @ encrypted @ rest) records, t))"

definition record_stream_length :: "nat \<Rightarrow> nat" where
  "record_stream_length n =
     n + (n + TRANSPORT_PLAINTEXT_RECORD_BYTES - 1) div TRANSPORT_PLAINTEXT_RECORD_BYTES
       * (RECORD_LENGTH_BYTES + NOISE_TAG_BYTES)"

definition encrypt_transport_records ::
  "('t, 'm) transport_scheme \<Rightarrow> 't \<Rightarrow> bytes \<Rightarrow> (crypto_error + bytes) \<times> 't" where
  "encrypt_transport_records N t plaintext =
     (if plaintext = [] then (Inl XE_InvalidTransportRecords, t)
      else if record_stream_length (length plaintext) > MAX_TRANSPORT_CIPHERTEXT_BYTES
        then (Inl XE_InvalidTransportRecords, t)
      else encrypt_chunks N t (chunks TRANSPORT_PLAINTEXT_RECORD_BYTES plaintext))"

text \<open>
  The loop of \<open>decrypt_transport_records\<close> over the records after \<open>cursor\<close>; \<open>plaintext\<close> is
  what has been collected.
\<close>

function decrypt_loop ::
  "('t, 'm) transport_scheme \<Rightarrow> 't \<Rightarrow> bytes \<Rightarrow> bytes \<Rightarrow> (crypto_error + bytes) \<times> 't" where
  "decrypt_loop N t plaintext records =
     (if records = [] then (Inr plaintext, t)
      else if length records < RECORD_LENGTH_BYTES then (Inl XE_InvalidTransportRecords, t)
      else
        let len = be_nat (take RECORD_LENGTH_BYTES records);
            after = drop RECORD_LENGTH_BYTES records in
        if \<not> (NOISE_TAG_BYTES \<le> len \<and> len \<le> MAX_NOISE_MESSAGE_BYTES)
          then (Inl XE_InvalidTransportRecords, t)
        else if length after < len then (Inl XE_InvalidTransportRecords, t)
        else
          let (clear, t) = t_read N t (take len after) (len - NOISE_TAG_BYTES) in
          case clear of
            None \<Rightarrow> (Inl XE_Noise, t)
          | Some clear \<Rightarrow>
              if length (plaintext @ clear) > MAX_TRANSPORT_CIPHERTEXT_BYTES
              then (Inl XE_InvalidTransportRecords, t)
              else decrypt_loop N t (plaintext @ clear) (drop len after))"
  by pat_completeness auto
termination
  by (relation "measure (\<lambda>(N, t, plaintext, records). length records)")
    (auto simp: RECORD_LENGTH_BYTES_def)

declare decrypt_loop.simps [simp del]

definition decrypt_transport_records ::
  "('t, 'm) transport_scheme \<Rightarrow> 't \<Rightarrow> bytes \<Rightarrow> (crypto_error + bytes) \<times> 't" where
  "decrypt_transport_records N t records =
     (if records = [] \<or> length records > MAX_TRANSPORT_CIPHERTEXT_BYTES
      then (Inl XE_InvalidTransportRecords, t)
      else decrypt_loop N t [] records)"

section \<open>What the Noise crate promises\<close>

text \<open>
  \<open>paired k s r\<close>: sender state s and receiver state r are in step and at least k more
  messages can pass before the nonce is used up.
\<close>

definition noise_laws :: "('t, 'm) transport_scheme \<Rightarrow> (nat \<Rightarrow> 't \<Rightarrow> 't \<Rightarrow> bool) \<Rightarrow> bool" where
  "noise_laws N paired \<longleftrightarrow>
     (\<forall>k s r msg cap buf.
        paired (Suc k) s r \<longrightarrow> length msg + NOISE_TAG_BYTES \<le> MAX_NOISE_MESSAGE_BYTES \<longrightarrow>
        length msg + NOISE_TAG_BYTES \<le> cap \<longrightarrow> length msg \<le> buf \<longrightarrow>
        (\<exists>c s' r'. t_write N s msg cap = (Some c, s') \<and> length c = length msg + NOISE_TAG_BYTES \<and>
           t_read N r c buf = (Some msg, r') \<and> paired k s' r'))"

lemma noise_lawsD:
  assumes "noise_laws N paired" "paired (Suc k) s r"
    "length msg + NOISE_TAG_BYTES \<le> MAX_NOISE_MESSAGE_BYTES"
  obtains c s' r' where
    "t_write N s msg (length msg + NOISE_TAG_BYTES) = (Some c, s')"
    "length c = length msg + NOISE_TAG_BYTES"
    "t_read N r c (length msg) = (Some msg, r')" "paired k s' r'"
  using assms unfolding noise_laws_def by (meson order_refl)

text \<open>A transport whose state is the number of messages so far; the tag is that number.\<close>

definition counting_transport :: "nat transport" where
  "counting_transport =
     \<lparr>t_write = \<lambda>n msg cap.
        if length msg + 16 \<le> cap then (Some (be_bytes 16 n @ msg), n + 1) else (None, n),
      t_read = \<lambda>n c buf.
        if length c \<le> buf + 16 \<and> take 16 c = be_bytes 16 n then (Some (drop 16 c), n + 1) else (None, n)\<rparr>"

lemma counting_transport_laws: "noise_laws counting_transport (\<lambda>k s r. s = r)"
  by (simp add: noise_laws_def counting_transport_def NOISE_TAG_BYTES_def)

section \<open>Record streams are read back\<close>

lemma chunks_Nil [simp]: "chunks n [] = []"
  by (simp add: chunks.simps)

lemma concat_chunks: "n \<noteq> 0 \<Longrightarrow> concat (chunks n xs) = xs"
  by (induction n xs rule: chunks.induct) (subst chunks.simps, simp)

lemma chunks_bound: "c \<in> set (chunks n xs) \<Longrightarrow> length c \<le> n"
  by (induction n xs rule: chunks.induct) (subst (asm) (2) chunks.simps, auto split: if_splits)

lemma ceil_step: "n \<noteq> 0 \<Longrightarrow> Suc ((Suc m - n + n - 1) div n) = (Suc m + n - 1) div (n :: nat)"
proof (cases "n \<le> Suc m")
  case False
  then show ?thesis by (simp add: div_add_self2)
qed (simp add: div_add_self2)

lemma length_chunks: "n \<noteq> 0 \<Longrightarrow> length (chunks n xs) = (length xs + n - 1) div n"
proof (induction n xs rule: chunks.induct)
  case (1 n xs)
  show ?case
  proof (cases "xs = []")
    case False
    then obtain m where m: "length xs = Suc m" by (cases xs) auto
    have "length (chunks n xs) = Suc (length (chunks n (drop n xs)))"
      using False 1(2) by (subst chunks.simps) simp
    also have "\<dots> = Suc ((length (drop n xs) + n - 1) div n)"
      using 1(1) 1(2) False by simp
    also have "\<dots> = (length xs + n - 1) div n"
      using ceil_step [of n m] 1(2) m by simp
    finally show ?thesis .
  qed (use 1(2) in simp)
qed

lemma be_nat_take2 [simp]: "n < 65536 \<Longrightarrow> be_nat (take 2 (be_bytes 2 n @ xs)) = n"
  by (simp add: be_nat_be_bytes)

lemma decrypt_loop_record:
  assumes "length c = len" "NOISE_TAG_BYTES \<le> len" "len \<le> MAX_NOISE_MESSAGE_BYTES"
    and "t_read N r c (len - NOISE_TAG_BYTES) = (Some clear, r')"
    and "length (acc @ clear) \<le> MAX_TRANSPORT_CIPHERTEXT_BYTES"
  shows "decrypt_loop N r acc (be_bytes 2 len @ c @ rest) = decrypt_loop N r' (acc @ clear) rest"
proof -
  have "c \<noteq> []" using assms(1,2) by (auto simp: noise_limits)
  with assms show ?thesis
    by (subst decrypt_loop.simps) (simp add: noise_limits be_nat_be_bytes del: be_bytes.simps)
qed

lemma chunks_roundtrip:
  assumes "noise_laws N paired" "paired (length cs + k) s r"
    "\<forall>c \<in> set cs. length c \<le> TRANSPORT_PLAINTEXT_RECORD_BYTES"
    "length (acc @ concat cs) \<le> MAX_TRANSPORT_CIPHERTEXT_BYTES"
  shows "\<exists>records s' r'. encrypt_chunks N s cs = (Inr records, s') \<and>
    length records = length (concat cs) + length cs * (RECORD_LENGTH_BYTES + NOISE_TAG_BYTES) \<and>
    decrypt_loop N r acc records = (Inr (acc @ concat cs), r') \<and> paired k s' r'"
  using assms(2-)
proof (induction cs arbitrary: s r acc)
  case Nil
  then show ?case by (auto simp: decrypt_loop.simps)
next
  case (Cons c cs)
  have fit: "length c + NOISE_TAG_BYTES \<le> MAX_NOISE_MESSAGE_BYTES"
    using Cons.prems(2) by (simp add: noise_limits)
  from Cons.prems(1) have "paired (Suc (length cs + k)) s r" by simp
  from noise_lawsD [OF assms(1) this fit] obtain e s1 r1 where
    e: "t_write N s c (length c + NOISE_TAG_BYTES) = (Some e, s1)" "length e = length c + NOISE_TAG_BYTES"
      "t_read N r e (length c) = (Some c, r1)" "paired (length cs + k) s1 r1" by blast
  from Cons.IH [OF e(4), of "acc @ c"] Cons.prems(2,3) obtain records s' r' where
    ih: "encrypt_chunks N s1 cs = (Inr records, s')"
      "length records = length (concat cs) + length cs * (RECORD_LENGTH_BYTES + NOISE_TAG_BYTES)"
      "decrypt_loop N r1 (acc @ c) records = (Inr (acc @ c @ concat cs), r')" "paired k s' r'"
    by auto
  have len: "\<not> 2 ^ 16 \<le> length e" using fit e(2) by (simp add: noise_limits)
  have "encrypt_chunks N s (c # cs) = (Inr (be_bytes 2 (length e) @ e @ records), s')"
    using e(1) ih(1) len by simp
  moreover have "decrypt_loop N r acc (be_bytes 2 (length e) @ e @ records) =
      (Inr (acc @ c @ concat cs), r')"
    using decrypt_loop_record [of e "length e" N r c r1 acc records] e(2,3) fit ih(3) Cons.prems(3)
    by simp
  ultimately show ?case using ih(2,4) e(2) by (auto simp: noise_limits)
qed

lemma records_roundtrip:
  assumes "noise_laws N paired" and "paired (length (chunks TRANSPORT_PLAINTEXT_RECORD_BYTES msg) + k) s r"
    and "msg \<noteq> []" and "record_stream_length (length msg) \<le> MAX_TRANSPORT_CIPHERTEXT_BYTES"
  shows "\<exists>records s' r'. encrypt_transport_records N s msg = (Inr records, s') \<and>
    length records = record_stream_length (length msg) \<and>
    decrypt_transport_records N r records = (Inr msg, r') \<and> paired k s' r'"
proof -
  have n: "TRANSPORT_PLAINTEXT_RECORD_BYTES \<noteq> 0" by (simp add: noise_limits)
  let ?cs = "chunks TRANSPORT_PLAINTEXT_RECORD_BYTES msg"
  have "length msg \<le> MAX_TRANSPORT_CIPHERTEXT_BYTES"
    using assms(4) by (simp add: record_stream_length_def)
  with chunks_roundtrip [OF assms(1,2), of "[]"] obtain records s' r' where
    r: "encrypt_chunks N s ?cs = (Inr records, s')"
      "length records = length msg + length ?cs * (RECORD_LENGTH_BYTES + NOISE_TAG_BYTES)"
      "decrypt_loop N r [] records = (Inr msg, r')" "paired k s' r'"
    by (auto simp: concat_chunks n chunks_bound)
  have len: "length records = record_stream_length (length msg)"
    using r(2) by (simp add: record_stream_length_def length_chunks [OF n])
  moreover from r(2) assms(3) have "records \<noteq> []" by auto
  ultimately show ?thesis
    using r assms(3,4) by (simp add: encrypt_transport_records_def decrypt_transport_records_def)
qed

text \<open>
  C25. Transport records round trip. If the two ends are in step and the message is non-empty
  and its record stream fits the transport limit, encryption succeeds, its output has exactly
  the computed length (so it always fits one transport frame), the receiver gets the message
  back, and the two ends are in step again.
\<close>

theorem transport_records_roundtrip:
  assumes "noise_laws N paired" and "paired (length (chunks TRANSPORT_PLAINTEXT_RECORD_BYTES msg) + k) s r"
    and "msg \<noteq> []" and "record_stream_length (length msg) \<le> MAX_TRANSPORT_CIPHERTEXT_BYTES"
  shows "\<exists>records s' r'. encrypt_transport_records N s msg = (Inr records, s') \<and>
    length records = record_stream_length (length msg) \<and>
    decrypt_transport_records N r records = (Inr msg, r') \<and> paired k s' r'"
  using assms by (rule records_roundtrip)

theorem transport_records_roundtrip_witness:
  "\<exists>records s' r'. encrypt_transport_records counting_transport 5 [1, 2, 3] = (Inr records, s') \<and>
    length records = 21 \<and>
    decrypt_transport_records counting_transport 5 records = (Inr [1, 2, 3], r') \<and> s' = r'"
  using transport_records_roundtrip [where N = counting_transport and paired = "\<lambda>k s r. s = r"
      and s = 5 and r = 5 and msg = "[1, 2, 3]" and k = 0]
  by (simp add: counting_transport_laws record_stream_length_def noise_limits protocol_limits)

end
