(* ===== verification/Crypto_Primitives.thy ===== *)
theory Crypto_Primitives
  imports Noise_Records Codec_Contract
begin

text \<open>
  The cryptographic crates as parameters (one record, one field per function the code calls),
  what the code relies on, and the small pure functions of \<open>crates/ll-crypto\<close> built on them:
  signed contexts and device signatures (\<open>device.rs\<close>), password proofs and the server
  verifier (\<open>password.rs\<close>), vault subkeys and the client KDF policy (\<open>keys.rs\<close>).
  Secrets are plain byte strings; zeroization and constant-time comparison have no counterpart.
  Fresh randomness is an argument: \<open>None\<close> stands for an unavailable source.
\<close>

section \<open>The crates\<close>

record crypto =
  blake3 :: "bytes \<Rightarrow> bytes"
  hmac_sha256 :: "bytes \<Rightarrow> bytes \<Rightarrow> bytes" \<comment> \<open>key, message\<close>
  hkdf_sha256 :: "bytes \<Rightarrow> bytes \<Rightarrow> bytes \<Rightarrow> bytes option" \<comment> \<open>salt, key material, label\<close>
  argon2id :: "u32 \<times> u32 \<times> u32 \<Rightarrow> bytes \<Rightarrow> bytes \<Rightarrow> bytes option"
    \<comment> \<open>parameters, password, salt\<close>
  argon2_params_ok :: "u32 \<times> u32 \<times> u32 \<Rightarrow> bool"
  aead_encrypt :: "bytes \<Rightarrow> bytes \<Rightarrow> bytes \<Rightarrow> bytes \<Rightarrow> bytes option"
    \<comment> \<open>key, nonce, associated data, message\<close>
  aead_decrypt :: "bytes \<Rightarrow> bytes \<Rightarrow> bytes \<Rightarrow> bytes \<Rightarrow> bytes option"
  ed25519_key_ok :: "bytes \<Rightarrow> bool"
  ed25519_verify :: "bytes \<Rightarrow> bytes \<Rightarrow> bytes \<Rightarrow> bool" \<comment> \<open>key, message, signature\<close>
  ed25519_sign :: "bytes \<Rightarrow> bytes \<Rightarrow> bytes" \<comment> \<open>signing key, message\<close>
  ed25519_public :: "bytes \<Rightarrow> bytes"

text \<open>
  The documented behaviour of the crates: output sizes, AEAD decryption inverts encryption and
  adds a 16-byte tag, and a signature of a signing key verifies under its public key.
\<close>

definition crypto_laws :: "crypto \<Rightarrow> bool" where
  "crypto_laws X \<longleftrightarrow>
     (\<forall>m. length (blake3 X m) = 32) \<and>
     (\<forall>k m. length (hmac_sha256 X k m) = 32) \<and>
     (\<forall>s k l out. hkdf_sha256 X s k l = Some out \<longrightarrow> length out = 32) \<and>
     (\<forall>p pw s out. argon2id X p pw s = Some out \<longrightarrow> length out = 32) \<and>
     (\<forall>k n a m c. aead_encrypt X k n a m = Some c \<longrightarrow>
        length c = length m + 16 \<and> aead_decrypt X k n a c = Some m) \<and>
     (\<forall>k m. length k = 32 \<longrightarrow> length (ed25519_sign X k m) = 64 \<and>
        length (ed25519_public X k) = 32 \<and> ed25519_key_ok X (ed25519_public X k) \<and>
        ed25519_verify X (ed25519_public X k) m (ed25519_sign X k m))"

lemma crypto_lawsD:
  assumes "crypto_laws X"
  shows length_blake3: "length (blake3 X m) = 32"
    and length_hmac: "length (hmac_sha256 X k m) = 32"
    and length_hkdf: "hkdf_sha256 X s k l = Some out \<Longrightarrow> length out = 32"
    and length_argon2: "argon2id X p pw s = Some out \<Longrightarrow> length out = 32"
    and length_aead: "aead_encrypt X k n a m = Some c \<Longrightarrow> length c = length m + 16"
    and aead_inverse: "aead_encrypt X k n a m = Some c \<Longrightarrow> aead_decrypt X k n a c = Some m"
    and length_sign: "length k = 32 \<Longrightarrow> length (ed25519_sign X k m) = 64"
    and length_public: "length k = 32 \<Longrightarrow> length (ed25519_public X k) = 32"
    and key_public: "length k = 32 \<Longrightarrow> ed25519_key_ok X (ed25519_public X k)"
    and verify_sign: "length k = 32 \<Longrightarrow> ed25519_verify X (ed25519_public X k) m (ed25519_sign X k m)"
  using assms unfolding crypto_laws_def by blast+

text \<open>
  The parameters that the Argon2 crate documents as valid: at least one pass, between one and \<open>2 ^ 24 - 1\<close>
  lanes, and at least eight KiB of memory for each lane.
\<close>

definition argon2_valid :: "u32 \<times> u32 \<times> u32 \<Rightarrow> bool" where
  "argon2_valid = (\<lambda>(memory_kib, iterations, parallelism).
     0 < iterations \<and> 0 < parallelism \<and> unat parallelism < 2 ^ 24 \<and> 8 * unat parallelism \<le> unat memory_kib)"

lemma argon2_valid_eval [simp]:
  "argon2_valid (m, t, p) \<longleftrightarrow> 0 < t \<and> 0 < p \<and> unat p < 2 ^ 24 \<and> 8 * unat p \<le> unat m"
  by (simp add: argon2_valid_def)

text \<open>Concrete functions with these sizes and laws, for evaluation.\<close>

definition pad :: "nat \<Rightarrow> bytes \<Rightarrow> bytes" where
  "pad n bs = take n (bs @ replicate n 0)"

lemma length_pad [simp]: "length (pad n bs) = n"
  by (simp add: pad_def)

definition plain_crypto :: crypto where
  "plain_crypto = \<lparr>blake3 = pad 32, hmac_sha256 = \<lambda>k m. pad 32 k,
     hkdf_sha256 = \<lambda>s k l. Some (pad 32 k), argon2id = \<lambda>p pw s. Some (pad 32 pw),
     argon2_params_ok = argon2_valid,
     aead_encrypt = \<lambda>k n a m. Some (m @ pad 16 k),
     aead_decrypt = \<lambda>k n a c.
       if 16 \<le> length c \<and> drop (length c - 16) c = pad 16 k then Some (take (length c - 16) c) else None,
     ed25519_key_ok = \<lambda>k. length k = 32,
     ed25519_verify = \<lambda>k m s. s = pad 64 (k @ m),
     ed25519_sign = \<lambda>k m. pad 64 (k @ m), ed25519_public = \<lambda>k. k\<rparr>"

lemma plain_crypto_laws: "crypto_laws plain_crypto"
  by (simp add: crypto_laws_def plain_crypto_def)

section \<open>Device signatures\<close>

definition DEVICE_AUTH_LABEL :: bytes where
  "DEVICE_AUTH_LABEL = ascii_bytes ''learning-loop/device-auth/v1''"
definition DEVICE_REGISTRATION_LABEL :: bytes where
  "DEVICE_REGISTRATION_LABEL = ascii_bytes ''learning-loop/device-registration/v1''"

definition device_auth_signature_context :: "bytes \<Rightarrow> bytes" where
  "device_auth_signature_context authentication_context = DEVICE_AUTH_LABEL @ authentication_context"

definition registration_signature_context :: "bytes \<Rightarrow> bytes \<Rightarrow> bytes \<Rightarrow> bytes" where
  "registration_signature_context authentication_context device_id public_key =
     DEVICE_REGISTRATION_LABEL @ authentication_context @ device_id @ public_key"

definition verify_device_signature :: "crypto \<Rightarrow> bytes \<Rightarrow> bytes \<Rightarrow> bytes \<Rightarrow> crypto_error + unit" where
  "verify_device_signature X public_key message signature =
     (if \<not> ed25519_key_ok X public_key then Inl XE_InvalidDeviceSignature
      else if ed25519_verify X public_key message signature then Inr ()
      else Inl XE_InvalidDeviceSignature)"

section \<open>Password authentication\<close>

definition AUTH_CONTEXT_LABEL :: bytes where
  "AUTH_CONTEXT_LABEL = ascii_bytes ''learning-loop/server-auth/v1''"
definition VERIFIER_LABEL :: bytes where
  "VERIFIER_LABEL = ascii_bytes ''learning-loop/server-auth-verifier/v1''"

record argon2_policy =
  memory_kib :: u32
  iterations :: u32
  parallelism :: u32

abbreviation policy_triple :: "argon2_policy \<Rightarrow> u32 \<times> u32 \<times> u32" where
  "policy_triple p \<equiv> (memory_kib p, iterations p, parallelism p)"

text \<open>The checked parameters an \<open>Argon2\<close> instance is built from.\<close>

definition argon2 :: "crypto \<Rightarrow> argon2_policy \<Rightarrow> crypto_error + (u32 \<times> u32 \<times> u32)" where
  "argon2 X p =
     (if memory_kib p < 19456 \<or> memory_kib p > 262144 \<or> iterations p = 0 \<or> iterations p > 10
         \<or> parallelism p = 0 \<or> parallelism p > 4
      then Inl XE_InvalidArgon2Policy
      else if \<not> argon2_params_ok X (policy_triple p) then Inl XE_InvalidArgon2Policy
      else Inr (policy_triple p))"

definition derive_server_auth_key ::
  "crypto \<Rightarrow> bytes \<Rightarrow> bytes \<Rightarrow> argon2_policy \<Rightarrow> crypto_error + bytes" where
  "derive_server_auth_key X password salt policy =
     rbind (argon2 X policy) (\<lambda>params. ok_or XE_Argon2 (argon2id X params password salt))"

definition server_auth_verifier :: "crypto \<Rightarrow> bytes \<Rightarrow> bytes" where
  "server_auth_verifier X auth_key = blake3 X (VERIFIER_LABEL @ auth_key)"

definition verify_server_auth_verifier :: "crypto \<Rightarrow> bytes \<Rightarrow> bytes \<Rightarrow> crypto_error + unit" where
  "verify_server_auth_verifier X auth_key expected =
     (if server_auth_verifier X auth_key = expected then Inr () else Inl XE_AuthenticationFailed)"

definition authentication_context :: "bytes \<Rightarrow> bytes \<Rightarrow> bytes \<Rightarrow> bytes" where
  "authentication_context handshake_hash challenge session_id =
     AUTH_CONTEXT_LABEL @ handshake_hash @ challenge @ session_id"

definition password_proof :: "crypto \<Rightarrow> bytes \<Rightarrow> bytes \<Rightarrow> bytes" where
  "password_proof X auth_key context = hmac_sha256 X auth_key context"

text \<open>\<open>Hmac::verify_slice\<close> compares the tag of the context with the proof.\<close>

definition verify_password_proof :: "crypto \<Rightarrow> bytes \<Rightarrow> bytes \<Rightarrow> bytes \<Rightarrow> crypto_error + unit" where
  "verify_password_proof X auth_key context proof =
     (if hmac_sha256 X auth_key context = proof then Inr () else Inl XE_AuthenticationFailed)"

end
