(* ===== verification/Object_Envelope.thy ===== *)
theory Object_Envelope
  imports Crypto_Primitives
begin

text \<open>
  Vault subkeys (\<open>crates/ll-crypto/src/keys.rs\<close>) and encrypted object envelopes
  (\<open>object.rs\<close>): format, limits, encryption under a wrapped data key and decryption.
\<close>

section \<open>Vault subkeys\<close>

datatype object_type = Content | Path | Metadata | Commit | Attachment | Recovery

definition CONTENT_LABEL :: bytes where
  "CONTENT_LABEL = ascii_bytes ''learning-loop/vmk/content/v1''"
definition PATH_LABEL :: bytes where
  "PATH_LABEL = ascii_bytes ''learning-loop/vmk/path/v1''"
definition METADATA_LABEL :: bytes where
  "METADATA_LABEL = ascii_bytes ''learning-loop/vmk/metadata/v1''"
definition COMMIT_LABEL :: bytes where
  "COMMIT_LABEL = ascii_bytes ''learning-loop/vmk/commit/v1''"
definition ATTACHMENT_LABEL :: bytes where
  "ATTACHMENT_LABEL = ascii_bytes ''learning-loop/vmk/attachment/v1''"
definition RECOVERY_LABEL :: bytes where
  "RECOVERY_LABEL = ascii_bytes ''learning-loop/vmk/recovery/v1''"

record vault_subkeys =
  sk_content :: bytes
  sk_path :: bytes
  sk_metadata :: bytes
  sk_commit :: bytes
  sk_attachment :: bytes
  sk_recovery :: bytes

definition expand :: "crypto \<Rightarrow> bytes \<Rightarrow> bytes \<Rightarrow> bytes \<Rightarrow> crypto_error + bytes" where
  "expand X salt master label = ok_or XE_KeyDerivation (hkdf_sha256 X salt master label)"

definition derive_subkeys :: "crypto \<Rightarrow> bytes \<Rightarrow> bytes \<Rightarrow> crypto_error + vault_subkeys" where
  "derive_subkeys X master vault_id =
     rbind (expand X vault_id master CONTENT_LABEL) (\<lambda>content.
     rbind (expand X vault_id master PATH_LABEL) (\<lambda>path.
     rbind (expand X vault_id master METADATA_LABEL) (\<lambda>metadata.
     rbind (expand X vault_id master COMMIT_LABEL) (\<lambda>commit.
     rbind (expand X vault_id master ATTACHMENT_LABEL) (\<lambda>attachment.
     rbind (expand X vault_id master RECOVERY_LABEL) (\<lambda>recovery.
       Inr \<lparr>sk_content = content, sk_path = path, sk_metadata = metadata, sk_commit = commit,
            sk_attachment = attachment, sk_recovery = recovery\<rparr>))))))"

fun key_for :: "vault_subkeys \<Rightarrow> object_type \<Rightarrow> bytes" where
  "key_for k Content = sk_content k"
| "key_for k Path = sk_path k"
| "key_for k Metadata = sk_metadata k"
| "key_for k Commit = sk_commit k"
| "key_for k Attachment = sk_attachment k"
| "key_for k Recovery = sk_recovery k"

section \<open>Envelope format\<close>

definition CIPHER_SUITE :: ustr where
  "CIPHER_SUITE = ascii ''XChaCha20-Poly1305/HKDF-SHA-256/v1''"
definition MAX_OBJECT_CIPHERTEXT_BYTES :: nat where
  "MAX_OBJECT_CIPHERTEXT_BYTES = 512 * 1024 * 1024 + 16"
definition DEK_BYTES :: nat where "DEK_BYTES = 32"
definition NONCE_BYTES :: nat where "NONCE_BYTES = 24"
definition TAG_BYTES :: nat where "TAG_BYTES = 16"

lemmas object_limits =
  MAX_OBJECT_CIPHERTEXT_BYTES_def DEK_BYTES_def NONCE_BYTES_def TAG_BYTES_def

fun object_type_number :: "object_type \<Rightarrow> byte" where
  "object_type_number Content = 1"
| "object_type_number Path = 2"
| "object_type_number Metadata = 3"
| "object_type_number Commit = 4"
| "object_type_number Attachment = 5"
| "object_type_number Recovery = 6"

definition object_type_try_from :: "byte \<Rightarrow> crypto_error + object_type" where
  "object_type_try_from v =
     (if v = 1 then Inr Content
      else if v = 2 then Inr Path
      else if v = 3 then Inr Metadata
      else if v = 4 then Inr Commit
      else if v = 5 then Inr Attachment
      else if v = 6 then Inr Recovery
      else Inl XE_InvalidEnvelope)"

lemma object_type_try_from_number [simp]: "object_type_try_from (object_type_number t) = Inr t"
  by (cases t) (simp_all add: object_type_try_from_def)

record object_envelope =
  oe_vault_id :: bytes
  oe_object_id :: bytes
  oe_revision :: u64
  oe_object_type :: object_type
  oe_payload_nonce :: bytes
  oe_wrapped_dek_nonce :: bytes
  oe_wrapped_dek :: bytes
  oe_ciphertext :: bytes

definition encode_object_envelope :: "cbor \<Rightarrow> object_envelope \<Rightarrow> crypto_error + bytes" where
  "encode_object_envelope C v =
     Inr (e_map C 9
       @ e_u8 C 0 @ e_u16 C PROTOCOL_VERSION
       @ e_u8 C 1 @ e_bytes C (oe_vault_id v)
       @ e_u8 C 2 @ e_bytes C (oe_object_id v)
       @ e_u8 C 3 @ e_u64 C (oe_revision v)
       @ e_u8 C 4 @ e_u8 C (object_type_number (oe_object_type v))
       @ e_u8 C 5 @ e_bytes C (oe_payload_nonce v)
       @ e_u8 C 6 @ e_bytes C (oe_wrapped_dek_nonce v)
       @ e_u8 C 7 @ e_bytes C (oe_wrapped_dek v)
       @ e_u8 C 8 @ e_bytes C (oe_ciphertext v))"

definition object_aad :: "cbor \<Rightarrow> object_envelope \<Rightarrow> bytes \<Rightarrow> crypto_error + bytes" where
  "object_aad C v purpose =
     Inr (e_array C 7 @ e_u16 C PROTOCOL_VERSION @ e_bytes C (oe_vault_id v)
       @ e_bytes C (oe_object_id v) @ e_u64 C (oe_revision v)
       @ e_u8 C (object_type_number (oe_object_type v)) @ e_str C CIPHER_SUITE
       @ e_bytes C purpose)"

definition expect_key :: "cbor \<Rightarrow> byte \<Rightarrow> bytes \<Rightarrow> crypto_error + bytes" where
  "expect_key = take_key XE_EnvelopeDecode XE_InvalidEnvelope"

definition envelope_fixed :: "cbor \<Rightarrow> nat \<Rightarrow> bytes \<Rightarrow> crypto_error + (bytes \<times> bytes)" where
  "envelope_fixed = take_fixed XE_EnvelopeDecode XE_InvalidEnvelope"

abbreviation env_item :: "'a option \<Rightarrow> crypto_error + 'a" where
  "env_item \<equiv> ok_or XE_EnvelopeDecode"

definition decode_object_envelope :: "cbor \<Rightarrow> bytes \<Rightarrow> crypto_error + object_envelope" where
  "decode_object_envelope C encoded =
     (if length encoded > MAX_OBJECT_CIPHERTEXT_BYTES + 512 then Inl XE_EnvelopeLimit
      else
     rbind (env_item (d_map C encoded)) (\<lambda>(len, d).
     if len \<noteq> Some 9 then Inl XE_InvalidEnvelope else
     rbind (expect_key C 0 d) (\<lambda>d.
     rbind (env_item (d_u16 C d)) (\<lambda>(version, d).
     if version \<noteq> PROTOCOL_VERSION then Inl XE_InvalidEnvelope else
     rbind (expect_key C 1 d) (\<lambda>d.
     rbind (envelope_fixed C 16 d) (\<lambda>(vault_id, d).
     rbind (expect_key C 2 d) (\<lambda>d.
     rbind (envelope_fixed C 16 d) (\<lambda>(object_id, d).
     rbind (expect_key C 3 d) (\<lambda>d.
     rbind (env_item (d_u64 C d)) (\<lambda>(revision, d).
     if revision = 0 then Inl XE_InvalidEnvelope else
     rbind (expect_key C 4 d) (\<lambda>d.
     rbind (env_item (d_u8 C d)) (\<lambda>(type_number, d).
     rbind (object_type_try_from type_number) (\<lambda>object_type.
     rbind (expect_key C 5 d) (\<lambda>d.
     rbind (envelope_fixed C NONCE_BYTES d) (\<lambda>(payload_nonce, d).
     rbind (expect_key C 6 d) (\<lambda>d.
     rbind (envelope_fixed C NONCE_BYTES d) (\<lambda>(wrapped_dek_nonce, d).
     rbind (expect_key C 7 d) (\<lambda>d.
     rbind (env_item (d_bytes C d)) (\<lambda>(wrapped_dek, d).
     if length wrapped_dek \<noteq> DEK_BYTES + TAG_BYTES then Inl XE_InvalidEnvelope else
     rbind (expect_key C 8 d) (\<lambda>d.
     rbind (env_item (d_bytes C d)) (\<lambda>(ciphertext, d).
     if \<not> (TAG_BYTES \<le> length ciphertext \<and> length ciphertext \<le> MAX_OBJECT_CIPHERTEXT_BYTES)
     then Inl XE_EnvelopeLimit else
     let envelope = \<lparr>oe_vault_id = vault_id, oe_object_id = object_id, oe_revision = revision,
           oe_object_type = object_type, oe_payload_nonce = payload_nonce,
           oe_wrapped_dek_nonce = wrapped_dek_nonce, oe_wrapped_dek = wrapped_dek,
           oe_ciphertext = ciphertext\<rparr> in
     if position encoded d \<noteq> length encoded then Inl XE_InvalidEnvelope else
     rbind (encode_object_envelope C envelope) (\<lambda>again.
       if again \<noteq> encoded then Inl XE_InvalidEnvelope else Inr envelope))))))))))))))))))))))"

definition ciphertext_blob_id :: "crypto \<Rightarrow> bytes \<Rightarrow> bytes" where
  "ciphertext_blob_id X encoded = blake3 X encoded"

section \<open>Encryption\<close>

record object_identity =
  oi_vault_id :: bytes
  oi_object_id :: bytes
  oi_revision :: u64
  oi_object_type :: object_type

record encryption_material =
  em_dek :: bytes
  em_payload_nonce :: bytes
  em_wrapped_dek_nonce :: bytes

definition encrypt_object_with_material ::
  "cbor \<Rightarrow> crypto \<Rightarrow> vault_subkeys \<Rightarrow> object_identity \<Rightarrow> bytes \<Rightarrow> encryption_material \<Rightarrow>
     crypto_error + bytes" where
  "encrypt_object_with_material C X subkeys identity plaintext material =
     (let envelope = \<lparr>oe_vault_id = oi_vault_id identity, oe_object_id = oi_object_id identity,
           oe_revision = oi_revision identity, oe_object_type = oi_object_type identity,
           oe_payload_nonce = em_payload_nonce material,
           oe_wrapped_dek_nonce = em_wrapped_dek_nonce material,
           oe_wrapped_dek = [], oe_ciphertext = []\<rparr> in
     rbind (object_aad C envelope (ascii_bytes ''payload'')) (\<lambda>payload_aad.
     rbind (object_aad C envelope (ascii_bytes ''wrapped-dek'')) (\<lambda>wrapping_aad.
     rbind (ok_or XE_AuthenticatedEncryption
       (aead_encrypt X (em_dek material) (em_payload_nonce material) payload_aad plaintext)) (\<lambda>ciphertext.
     rbind (ok_or XE_AuthenticatedEncryption
       (aead_encrypt X (key_for subkeys (oi_object_type identity)) (em_wrapped_dek_nonce material)
          wrapping_aad (em_dek material))) (\<lambda>wrapped_dek.
       encode_object_envelope C
         (envelope\<lparr>oe_ciphertext := ciphertext, oe_wrapped_dek := wrapped_dek\<rparr>))))))"

definition encrypt_object ::
  "cbor \<Rightarrow> crypto \<Rightarrow> bytes option \<times> bytes option \<times> bytes option \<Rightarrow> vault_subkeys \<Rightarrow> bytes \<Rightarrow> bytes \<Rightarrow>
     u64 \<Rightarrow> object_type \<Rightarrow> bytes \<Rightarrow> crypto_error + bytes" where
  "encrypt_object C X randomness subkeys vault_id object_id revision object_type plaintext =
     (if revision = 0 \<or> length plaintext > MAX_OBJECT_CIPHERTEXT_BYTES - TAG_BYTES
      then Inl XE_EnvelopeLimit
      else case randomness of (dek, payload_nonce, wrapped_dek_nonce) \<Rightarrow>
        rbind (ok_or XE_Random dek) (\<lambda>dek.
        rbind (ok_or XE_Random payload_nonce) (\<lambda>payload_nonce.
        rbind (ok_or XE_Random wrapped_dek_nonce) (\<lambda>wrapped_dek_nonce.
          encrypt_object_with_material C X subkeys
            \<lparr>oi_vault_id = vault_id, oi_object_id = object_id, oi_revision = revision,
             oi_object_type = object_type\<rparr> plaintext
            \<lparr>em_dek = dek, em_payload_nonce = payload_nonce,
             em_wrapped_dek_nonce = wrapped_dek_nonce\<rparr>))))"

definition decrypt_object ::
  "cbor \<Rightarrow> crypto \<Rightarrow> vault_subkeys \<Rightarrow> bytes \<Rightarrow> crypto_error + (object_envelope \<times> bytes)" where
  "decrypt_object C X subkeys encoded =
     rbind (decode_object_envelope C encoded) (\<lambda>envelope.
     rbind (object_aad C envelope (ascii_bytes ''payload'')) (\<lambda>payload_aad.
     rbind (object_aad C envelope (ascii_bytes ''wrapped-dek'')) (\<lambda>wrapping_aad.
     rbind (ok_or XE_AuthenticatedEncryption
       (aead_decrypt X (key_for subkeys (oe_object_type envelope)) (oe_wrapped_dek_nonce envelope)
          wrapping_aad (oe_wrapped_dek envelope))) (\<lambda>dek.
     if length dek \<noteq> DEK_BYTES then Inl XE_InvalidEnvelope else
     rbind (ok_or XE_AuthenticatedEncryption
       (aead_decrypt X dek (oe_payload_nonce envelope) payload_aad (oe_ciphertext envelope)))
       (\<lambda>plaintext. Inr (envelope, plaintext))))))"

end
