(* ===== verification/Object_Crypto.thy ===== *)
theory Object_Crypto
  imports Object_Envelope
begin

text \<open>
  Correctness of object envelopes: the decoder accepts exactly the canonical encodings of
  envelopes within the limits, and what \<open>encrypt_object\<close> produces is decrypted to the same
  plaintext under the same subkeys, with the identity it was encrypted for.
\<close>

section \<open>Format\<close>

definition wf_object :: "object_envelope \<Rightarrow> bool" where
  "wf_object v \<longleftrightarrow> is_array 16 (oe_vault_id v) \<and> is_array 16 (oe_object_id v) \<and> oe_revision v \<noteq> 0 \<and>
     is_array 24 (oe_payload_nonce v) \<and> is_array 24 (oe_wrapped_dek_nonce v) \<and>
     is_array 48 (oe_wrapped_dek v) \<and> 16 \<le> length (oe_ciphertext v) \<and>
     length (oe_ciphertext v) \<le> MAX_OBJECT_CIPHERTEXT_BYTES"

lemma position_Nil [simp]: "position input [] = length input"
  by (simp add: position_def)

lemmas expect_defs = expect_key_def envelope_fixed_def

lemma decode_object_envelope_sound:
  assumes "decode_object_envelope C encoded = Inr v"
  shows "wf_object v \<and> encode_object_envelope C v = Inr encoded"
  using assms unfolding decode_object_envelope_def expect_defs
  by (auto simp: result_iffs Let_def wf_object_def object_limits
      split: if_splits dest!: take_fixed_length)

context cbor_format begin

lemma object_envelope_size:
  assumes "wf_object v" and "encode_object_envelope C v = Inr encoded"
  shows "length encoded \<le> length (oe_ciphertext v) + 400"
proof -
  let ?e = "e_map C 9 @ e_u8 C 0 @ e_u16 C PROTOCOL_VERSION
       @ e_u8 C 1 @ e_bytes C (oe_vault_id v) @ e_u8 C 2 @ e_bytes C (oe_object_id v)
       @ e_u8 C 3 @ e_u64 C (oe_revision v)
       @ e_u8 C 4 @ e_u8 C (object_type_number (oe_object_type v))
       @ e_u8 C 5 @ e_bytes C (oe_payload_nonce v)
       @ e_u8 C 6 @ e_bytes C (oe_wrapped_dek_nonce v)
       @ e_u8 C 7 @ e_bytes C (oe_wrapped_dek v) @ e_u8 C 8 @ e_bytes C (oe_ciphertext v)"
  have "length ?e \<le> length (oe_ciphertext v) + 400"
    using assms(1) head_sizes(2) [of 9] head_sizes(3) [of 0] head_sizes(4) [of PROTOCOL_VERSION]
      head_sizes(3) [of 1] head_sizes(3) [of 2] head_sizes(3) [of 3] head_sizes(3) [of 4]
      head_sizes(3) [of 5] head_sizes(3) [of 6] head_sizes(3) [of 7] head_sizes(3) [of 8]
      head_sizes(3) [of "object_type_number (oe_object_type v)"] head_sizes(6) [of "oe_revision v"]
      head_sizes(8) [of "oe_vault_id v"] head_sizes(8) [of "oe_object_id v"]
      head_sizes(8) [of "oe_payload_nonce v"] head_sizes(8) [of "oe_wrapped_dek_nonce v"]
      head_sizes(8) [of "oe_wrapped_dek v"] head_sizes(8) [of "oe_ciphertext v"]
    by (simp add: wf_object_def)
  moreover have "encoded = ?e" using assms(2) by (simp add: encode_object_envelope_def)
  ultimately show ?thesis by (simp only:)
qed

lemma object_envelope_decodes:
  assumes wf: "wf_object v" and enc: "encode_object_envelope C v = Inr encoded"
  shows "decode_object_envelope C encoded = Inr v"
proof -
  have "length encoded \<le> MAX_OBJECT_CIPHERTEXT_BYTES + 512"
    using object_envelope_size [OF assms] wf by (simp add: wf_object_def)
  moreover have "fits64 (length (oe_ciphertext v))"
    using wf by (intro fits64_small) (simp add: wf_object_def object_limits)
  ultimately show ?thesis
    using assms unfolding decode_object_envelope_def expect_defs
    by (auto simp: encode_object_envelope_def wf_object_def object_limits Let_def)
qed

end

sublocale cbor_format \<subseteq>
  object: deterministic_codec "encode_object_envelope C" "decode_object_envelope C" wf_object
proof
  fix input v
  show "decode_object_envelope C input = Inr v \<longleftrightarrow> wf_object v \<and> encode_object_envelope C v = Inr input"
    using decode_object_envelope_sound [of C input v] object_envelope_decodes [of v input] by blast
qed

context cbor_format begin

lemmas object_envelope_law = object.canonical

end

text \<open>
  An object envelope is accepted exactly when it is the canonical encoding of an envelope
  with 16-byte identifiers, a non-zero revision, 24-byte nonces, a 48-byte wrapped key and a
  ciphertext between the tag size and the object limit.
\<close>

theorem object_envelope_canonical:
  assumes "cbor_format C"
  shows "decode_object_envelope C input = Inr v \<longleftrightarrow>
    wf_object v \<and> encode_object_envelope C v = Inr input"
  by (rule cbor_format.object_envelope_law [OF assms])

definition sample_envelope :: object_envelope where
  "sample_envelope = \<lparr>oe_vault_id = replicate 16 1, oe_object_id = replicate 16 2, oe_revision = 1,
     oe_object_type = Commit, oe_payload_nonce = replicate 24 3, oe_wrapped_dek_nonce = replicate 24 4,
     oe_wrapped_dek = replicate 48 5, oe_ciphertext = replicate 20 6\<rparr>"

lemma wf_sample_envelope: "wf_object sample_envelope"
  by (simp add: wf_object_def sample_envelope_def object_limits)

theorem object_envelope_canonical_witness:
  "rbind (encode_object_envelope rfc_cbor sample_envelope) (decode_object_envelope rfc_cbor) =
     Inr sample_envelope"
proof -
  obtain input where "encode_object_envelope rfc_cbor sample_envelope = Inr input"
    by (simp add: encode_object_envelope_def)
  then show ?thesis
    using object_envelope_canonical [OF rfc.cbor_format_axioms, of input sample_envelope]
      wf_sample_envelope by simp
qed

section \<open>Encryption and decryption\<close>

lemma object_aad_ciphertext_free [simp]:
  "object_aad C (v\<lparr>oe_ciphertext := c, oe_wrapped_dek := w\<rparr>) p = object_aad C v p"
  by (simp add: object_aad_def)

lemma object_opens:
  assumes "cbor_format C" and "crypto_laws X"
    and "is_array 32 dek" "is_array 24 n1" "is_array 24 n2" "is_array 16 vault_id" "is_array 16 object_id"
    and "encrypt_object C X (Some dek, Some n1, Some n2) subkeys vault_id object_id revision ty plaintext
      = Inr encoded"
  shows "\<exists>v. decrypt_object C X subkeys encoded = Inr (v, plaintext) \<and>
    oe_vault_id v = vault_id \<and> oe_object_id v = object_id \<and> oe_revision v = revision \<and>
    oe_object_type v = ty"
proof -
  let ?e = "\<lparr>oe_vault_id = vault_id, oe_object_id = object_id, oe_revision = revision,
    oe_object_type = ty, oe_payload_nonce = n1, oe_wrapped_dek_nonce = n2,
    oe_wrapped_dek = [], oe_ciphertext = []\<rparr>"
  from assms(8) obtain pa wa c w where
    lim: "revision \<noteq> 0" "length plaintext \<le> MAX_OBJECT_CIPHERTEXT_BYTES - TAG_BYTES"
    and aad: "object_aad C ?e (ascii_bytes ''payload'') = Inr pa"
      "object_aad C ?e (ascii_bytes ''wrapped-dek'') = Inr wa"
    and c: "aead_encrypt X dek n1 pa plaintext = Some c"
    and w: "aead_encrypt X (key_for subkeys ty) n2 wa dek = Some w"
    and enc: "encode_object_envelope C (?e\<lparr>oe_ciphertext := c, oe_wrapped_dek := w\<rparr>) = Inr encoded"
    by (auto simp: encrypt_object_def encrypt_object_with_material_def Let_def result_iffs not_less
        split: if_splits)
  let ?v = "?e\<lparr>oe_ciphertext := c, oe_wrapped_dek := w\<rparr>"
  have "length c = length plaintext + 16" "length w = 48"
    using length_aead [OF assms(2) c] length_aead [OF assms(2) w] assms(3) by simp_all
  then have "wf_object ?v" using assms(3-7) lim by (simp add: wf_object_def object_limits)
  then have dec: "decode_object_envelope C encoded = Inr ?v"
    using cbor_format.object_envelope_law [OF assms(1)] enc by blast
  have "object_aad C ?v p = object_aad C ?e p" for p by (rule object_aad_ciphertext_free)
  with aad have "object_aad C ?v (ascii_bytes ''payload'') = Inr pa"
    "object_aad C ?v (ascii_bytes ''wrapped-dek'') = Inr wa" by (simp_all only:)
  with aead_inverse [OF assms(2) c] aead_inverse [OF assms(2) w] assms(3)
  have "decrypt_object C X subkeys encoded = Inr (?v, plaintext)"
    unfolding decrypt_object_def dec by (simp add: DEK_BYTES_def)
  then show ?thesis by simp
qed

text \<open>
  Objects round trip. Whatever \<open>encrypt_object\<close> returns for fresh randomness of the right
  sizes is decrypted under the same subkeys to the same plaintext, and the envelope it was
  decrypted from names the vault, object, revision and type it was encrypted for.
\<close>

theorem encrypt_decrypt_object:
  assumes "cbor_format C" and "crypto_laws X"
    and "is_array 32 dek" "is_array 24 n1" "is_array 24 n2" "is_array 16 vault_id" "is_array 16 object_id"
    and "encrypt_object C X (Some dek, Some n1, Some n2) subkeys vault_id object_id revision ty plaintext
      = Inr encoded"
  shows "\<exists>v. decrypt_object C X subkeys encoded = Inr (v, plaintext) \<and>
    oe_vault_id v = vault_id \<and> oe_object_id v = object_id \<and> oe_revision v = revision \<and>
    oe_object_type v = ty"
  by (rule object_opens [OF assms])

definition sample_subkeys :: vault_subkeys where
  "sample_subkeys = \<lparr>sk_content = replicate 32 1, sk_path = replicate 32 2, sk_metadata = replicate 32 3,
     sk_commit = replicate 32 4, sk_attachment = replicate 32 5, sk_recovery = replicate 32 6\<rparr>"

theorem encrypt_decrypt_object_witness:
  "\<exists>encoded v. encrypt_object rfc_cbor plain_crypto
      (Some (replicate 32 9), Some (replicate 24 8), Some (replicate 24 7)) sample_subkeys
      (replicate 16 1) (replicate 16 2) 1 Content [1, 2, 3] = Inr encoded \<and>
    decrypt_object rfc_cbor plain_crypto sample_subkeys encoded = Inr (v, [1, 2, 3])"
proof -
  obtain encoded where e: "encrypt_object rfc_cbor plain_crypto
      (Some (replicate 32 9), Some (replicate 24 8), Some (replicate 24 7)) sample_subkeys
      (replicate 16 1) (replicate 16 2) 1 Content [1, 2, 3] = Inr encoded"
    by (simp add: encrypt_object_def encrypt_object_with_material_def object_limits object_aad_def
        Let_def plain_crypto_def encode_object_envelope_def)
  from encrypt_decrypt_object [OF rfc.cbor_format_axioms plain_crypto_laws _ _ _ _ _ e] e
  show ?thesis by auto
qed

end
