(* ===== verification/Commit_Graph.thy ===== *)
theory Commit_Graph
  imports Prelude
begin

text \<open>
  The client-side commit graph: \<open>crates/ll-versioning/src/graph.rs\<close> and \<open>error.rs\<close>. The
  node map is its entries in key order, the head set a strictly sorted list; generations are
  64-bit words with the source's checked increment. Operations that mutate the graph return the new
  graph; every check of \<open>insert\<close> comes before its first mutation, so an error leaves the
  graph as it was.
\<close>

section \<open>State\<close>

datatype versioning_error =
    VE_Encode | VE_Decode | VE_LimitExceeded | VE_InvalidFormat | VE_InvalidCommitId
  | VE_InvalidSignature | VE_MissingParent | VE_InvalidRoot | VE_CommitCollision
  | VE_CommitNotFound | VE_InvalidEncryptedBody

record graph_node =
  n_parents :: "bytes list"
  n_generation :: u64

record commit_graph =
  g_nodes :: "(bytes \<times> graph_node) list"
  g_heads :: "bytes list"

definition empty_graph :: commit_graph where
  "empty_graph = \<lparr>g_nodes = [], g_heads = []\<rparr>"

abbreviation node_at :: "commit_graph \<Rightarrow> bytes \<Rightarrow> graph_node option" where
  "node_at g \<equiv> map_of (g_nodes g)"

text \<open>\<open>BTreeSet::insert\<close> and \<open>BTreeSet::remove\<close>.\<close>

definition bs_insert :: "'a :: linorder \<Rightarrow> 'a list \<Rightarrow> 'a list" where
  "bs_insert x s = (if x \<in> set s then s else insort x s)"

definition bs_remove :: "'a \<Rightarrow> 'a list \<Rightarrow> 'a list" where
  "bs_remove x s = filter (\<lambda>y. y \<noteq> x) s"

section \<open>Operations\<close>

definition checked_succ :: "u64 \<Rightarrow> u64 option" where
  "checked_succ n = (if n = - 1 then None else Some (n + 1))"

text \<open>Collecting the generations of the parents; the first absent parent is the error.\<close>

fun parent_generations :: "commit_graph \<Rightarrow> bytes list \<Rightarrow> versioning_error + u64 list" where
  "parent_generations g [] = Inr []"
| "parent_generations g (p # ps) =
     rbind (ok_or VE_MissingParent (map_option n_generation (node_at g p))) (\<lambda>n.
     rbind (parent_generations g ps) (\<lambda>ns. Inr (n # ns)))"

definition next_generation :: "commit_graph \<Rightarrow> bytes list \<Rightarrow> versioning_error + u64" where
  "next_generation g parents =
     (if parents = [] then Inr 0
      else rbind (parent_generations g parents) (\<lambda>ns.
             ok_or VE_LimitExceeded (checked_succ (if ns = [] then 0 else fold max ns 0))))"

definition insert_commit ::
  "commit_graph \<Rightarrow> bytes \<Rightarrow> bytes list \<Rightarrow> versioning_error + (bool \<times> commit_graph)" where
  "insert_commit g commit_id parents =
     (case node_at g commit_id of
        Some existing \<Rightarrow>
          if n_parents existing = parents then Inr (False, g) else Inl VE_CommitCollision
      | None \<Rightarrow>
          if parents = [] \<and> g_nodes g \<noteq> [] then Inl VE_InvalidRoot
          else if \<not> successively (<) parents then Inl VE_InvalidFormat
          else
            rbind (next_generation g parents) (\<lambda>generation.
              Inr (True,
                \<lparr>g_nodes = bt_entry commit_id
                   (\<lambda>_. \<lparr>n_parents = parents, n_generation = generation\<rparr>) (g_nodes g),
                 g_heads = bs_insert commit_id (fold bs_remove parents (g_heads g))\<rparr>)))"

definition heads :: "commit_graph \<Rightarrow> bytes list" where
  "heads g = g_heads g"

definition recovered_heads :: "commit_graph \<Rightarrow> bytes list" where
  "recovered_heads g =
     (let parents = concat (map (n_parents \<circ> snd) (g_nodes g)) in
      filter (\<lambda>c. c \<notin> set parents) (map fst (g_nodes g)))"

function ancestors_loop :: "commit_graph \<Rightarrow> bytes list \<Rightarrow> bytes list \<Rightarrow> bytes list" where
  "ancestors_loop g found [] = found"
| "ancestors_loop g found (commit # pending) =
     (if commit \<in> set found then ancestors_loop g found pending
      else case node_at g commit of
             Some node \<Rightarrow> ancestors_loop g (bs_insert commit found) (pending @ n_parents node)
           | None \<Rightarrow> ancestors_loop g (bs_insert commit found) pending)"
  by pat_completeness auto

lemma set_bs_insert [simp]: "set (bs_insert x s) = insert x (set s)"
  by (auto simp: bs_insert_def set_insort_key)

lemma set_bs_remove [simp]: "set (bs_remove x s) = set s - {x}"
  by (auto simp: bs_remove_def)

lemma set_fold_bs_remove [simp]: "set (fold bs_remove ps s) = set s - set ps"
  by (induction ps arbitrary: s) auto

lemma sorted_bs_insert [simp]: "sorted s \<Longrightarrow> sorted (bs_insert x s)"
  by (simp add: bs_insert_def sorted_insort)

lemma distinct_bs_insert [simp]: "distinct s \<Longrightarrow> distinct (bs_insert x s)"
  by (simp add: bs_insert_def distinct_insort)

lemma sorted_bs_remove [simp]: "sorted s \<Longrightarrow> sorted (fold bs_remove ps s)"
  by (induction ps arbitrary: s) (simp_all add: bs_remove_def sorted_wrt_filter)

lemma distinct_bs_remove [simp]: "distinct s \<Longrightarrow> distinct (fold bs_remove ps s)"
  by (induction ps arbitrary: s) (simp_all add: bs_remove_def)

lemma map_of_key: "map_of m k = Some v \<Longrightarrow> k \<in> set (map fst m)"
  by (induction m) (auto split: if_splits)

termination ancestors_loop
proof (relation "measures [\<lambda>(g, found, pending). card (set (map fst (g_nodes g)) - set found),
    \<lambda>(g, found, pending). length pending]", goal_cases)
  case (4 g found commit pending node)
  from 4(2) have "commit \<in> set (map fst (g_nodes g))" by (rule map_of_key)
  then have "card (set (map fst (g_nodes g)) - insert commit (set found)) <
      card (set (map fst (g_nodes g)) - set found)"
    using 4 by (intro psubset_card_mono) auto
  then show ?case by simp
next
  case (3 g found commit pending)
  have "commit \<notin> set (map fst (g_nodes g))" using 3 by (simp add: map_of_eq_None_iff)
  then have "set (map fst (g_nodes g)) - insert commit (set found) = set (map fst (g_nodes g)) - set found"
    by auto
  then show ?case by simp
qed auto

definition ancestors :: "commit_graph \<Rightarrow> bytes \<Rightarrow> bytes list" where
  "ancestors g start = ancestors_loop g [] [start]"

text \<open>\<open>Iterator::max_by_key\<close>: of several maxima the last one.\<close>

fun max_by_key :: "('a \<Rightarrow> 'k :: linorder) \<Rightarrow> 'a list \<Rightarrow> 'a option" where
  "max_by_key f [] = None"
| "max_by_key f (x # xs) =
     (case max_by_key f xs of
        None \<Rightarrow> Some x
      | Some y \<Rightarrow> if f y < f x then Some x else Some y)"

definition commit_order :: "commit_graph \<Rightarrow> bytes \<Rightarrow> u64 \<times> bytes" where
  "commit_order g commit =
     (case node_at g commit of None \<Rightarrow> 0 | Some node \<Rightarrow> n_generation node, commit)"

definition common_ancestor ::
  "commit_graph \<Rightarrow> bytes \<Rightarrow> bytes \<Rightarrow> versioning_error + bytes option" where
  "common_ancestor g left right =
     (if node_at g left = None \<or> node_at g right = None then Inl VE_CommitNotFound
      else
        let left_ancestors = ancestors g left; right_ancestors = ancestors g right in
        Inr (max_by_key (commit_order g)
          (filter (\<lambda>c. c \<in> set right_ancestors) left_ancestors)))"

definition missing_from :: "commit_graph \<Rightarrow> bytes set \<Rightarrow> bytes list" where
  "missing_from g known =
     sort_key (commit_order g) (filter (\<lambda>c. c \<notin> known) (map fst (g_nodes g)))"

end
