(* ===== verification/Commit_Graph_Correct.thy ===== *)
theory Commit_Graph_Correct
  imports Commit_Graph
begin

text \<open>
  Correctness of the commit graph: an invariant of every graph built by \<open>insert\<close>, the heads
  as the commits no commit names as parent, ancestor search as the reflexive-transitive closure of
  the parent relation, and the order of \<open>missing_from\<close>, from which a graph can be rebuilt.
\<close>

section \<open>Generations\<close>

lemma parent_generations_Inr:
  "parent_generations g ps = Inr ns \<longleftrightarrow>
     (\<forall>p \<in> set ps. node_at g p \<noteq> None) \<and> ns = map (\<lambda>p. n_generation (the (node_at g p))) ps"
  by (induction ps arbitrary: ns) (auto simp: rbind_Inr_iff ok_or_Inr_iff)

lemma parent_generations_Inl:
  "parent_generations g ps = Inl e \<longleftrightarrow> (\<exists>p \<in> set ps. node_at g p = None) \<and> e = VE_MissingParent"
  by (induction ps) (auto simp: rbind_Inl_iff ok_or_def ok_or_Inr_iff split: option.splits)

lemma parent_generations_cong:
  "(\<And>p. p \<in> set ps \<Longrightarrow> node_at g p = node_at g' p) \<Longrightarrow> parent_generations g ps = parent_generations g' ps"
  by (induction ps) simp_all

lemma next_generation_cong:
  "(\<And>p. p \<in> set ps \<Longrightarrow> node_at g p = node_at g' p) \<Longrightarrow> next_generation g ps = next_generation g' ps"
  using parent_generations_cong [of ps g g'] by (simp add: next_generation_def)

lemma fold_max_ge: "x \<in> set ns \<or> x = a \<Longrightarrow> x \<le> fold max ns (a :: 'a :: linorder)"
proof (induction ns arbitrary: a x)
  case (Cons n ns)
  have "max n a \<le> fold max ns (max n a)" using Cons.IH by blast
  then have "n \<le> fold max ns (max n a)" "a \<le> fold max ns (max n a)" by simp_all
  with Cons show ?case by auto
qed simp

lemma fold_max_mem: "fold max ns (a :: 'a :: linorder) \<in> insert a (set ns)"
proof (induction ns arbitrary: a)
  case (Cons n ns)
  from Cons.IH [of "max n a"] show ?case by (auto simp: max_def)
qed simp

lemma checked_succ_Some: "checked_succ n = Some m \<longleftrightarrow> n \<noteq> - 1 \<and> m = n + 1"
  by (auto simp: checked_succ_def)

lemma less_succ_word: "(a :: u64) \<noteq> - 1 \<Longrightarrow> b \<le> a \<Longrightarrow> b < a + 1"
proof -
  assume a: "a \<noteq> - 1" "b \<le> a"
  then have "1 + a \<noteq> 0" by (metis add.commute eq_neg_iff_add_eq_0)
  then have "unat (a + 1) = Suc (unat a)" by (metis add.commute unatSuc)
  with a(2) show "b < a + 1" by (simp add: word_less_nat_alt word_le_nat_alt)
qed

lemma next_generation_greater:
  assumes "next_generation g ps = Inr n" and "p \<in> set ps"
  shows "\<exists>m. node_at g p = Some m \<and> n_generation m < n"
proof -
  let ?ns = "map (\<lambda>p. n_generation (the (node_at g p))) ps"
  have ne: "ps \<noteq> []" using assms(2) by auto
  with assms(1) have all: "\<forall>p \<in> set ps. node_at g p \<noteq> None"
    and n: "checked_succ (fold max ?ns 0) = Some n"
    by (auto simp: next_generation_def rbind_Inr_iff ok_or_Inr_iff parent_generations_Inr)
  obtain m where m: "node_at g p = Some m" using all assms(2) by blast
  then have "n_generation m \<in> set ?ns" using assms(2) by force
  then have "n_generation m \<le> fold max ?ns 0" using fold_max_ge by blast
  with n m show ?thesis by (auto simp: checked_succ_Some intro: less_succ_word)
qed

lemma fold_max_top: "fold max ns (0 :: u64) = - 1 \<longleftrightarrow> - 1 \<in> set ns"
proof
  assume "fold max ns (0 :: u64) = - 1"
  with fold_max_mem [of ns "0 :: u64"] show "- 1 \<in> set ns" by auto
next
  assume "(- 1 :: u64) \<in> set ns"
  then have "- 1 \<le> fold max ns (0 :: u64)" using fold_max_ge by blast
  then show "fold max ns (0 :: u64) = - 1" by (simp add: word_order.extremum_unique)
qed

lemma next_generation_Inl:
  "next_generation g ps = Inl e \<longleftrightarrow>
     (if \<exists>p \<in> set ps. node_at g p = None then e = VE_MissingParent
      else (\<exists>p \<in> set ps. map_option n_generation (node_at g p) = Some (- 1)) \<and> e = VE_LimitExceeded)"
proof (cases "\<exists>p \<in> set ps. node_at g p = None")
  case True
  then have "parent_generations g ps = Inl VE_MissingParent" by (simp add: parent_generations_Inl)
  with True show ?thesis by (auto simp: next_generation_def)
next
  case False
  let ?ns = "map (\<lambda>p. n_generation (the (node_at g p))) ps"
  have ns: "parent_generations g ps = Inr ?ns" using False by (simp add: parent_generations_Inr)
  have "- 1 \<in> set ?ns \<longleftrightarrow> (\<exists>p \<in> set ps. map_option n_generation (node_at g p) = Some (- 1))"
    using False by (force simp: image_iff)
  with False show ?thesis
    by (auto simp: next_generation_def ns checked_succ_def fold_max_top)
qed

section \<open>The invariant\<close>

definition graph_inv :: "commit_graph \<Rightarrow> bool" where
  "graph_inv g \<longleftrightarrow>
     bt_wf (g_nodes g) \<and> sorted (g_heads g) \<and> distinct (g_heads g) \<and>
     set (g_heads g) = set (recovered_heads g) \<and>
     (\<forall>(c, n) \<in> set (g_nodes g). successively (<) (n_parents n) \<and>
        next_generation g (n_parents n) = Inr (n_generation n)) \<and>
     (\<forall>(c, n) \<in> set (g_nodes g). \<forall>(d, m) \<in> set (g_nodes g).
        n_parents n = [] \<longrightarrow> n_parents m = [] \<longrightarrow> c = d)"

lemma graph_invD:
  assumes "graph_inv g"
  shows "bt_wf (g_nodes g)" and "distinct (map fst (g_nodes g))"
    and "node_at g c = Some n \<Longrightarrow> next_generation g (n_parents n) = Inr (n_generation n)"
    and "node_at g c = Some n \<Longrightarrow> successively (<) (n_parents n)"
    and "node_at g c = Some n \<Longrightarrow> node_at g d = Some m \<Longrightarrow> n_parents n = [] \<Longrightarrow> n_parents m = [] \<Longrightarrow> c = d"
  using assms bt_wf_distinct by (fastforce simp: graph_inv_def dest: map_of_SomeD)+

lemma inv_parent:
  assumes "graph_inv g" "node_at g c = Some n" "p \<in> set (n_parents n)"
  shows "\<exists>m. node_at g p = Some m \<and> n_generation m < n_generation n"
  using next_generation_greater [OF graph_invD(3) [OF assms(1,2)] assms(3)] .

lemma recovered_heads_iff:
  assumes "distinct (map fst (g_nodes g))"
  shows "c \<in> set (recovered_heads g) \<longleftrightarrow>
    node_at g c \<noteq> None \<and> (\<forall>d n. node_at g d = Some n \<longrightarrow> c \<notin> set (n_parents n))"
proof -
  have "c \<in> set (map fst (g_nodes g)) \<longleftrightarrow> node_at g c \<noteq> None"
    by (metis map_of_eq_None_iff list.set_map)
  moreover have "(\<exists>n \<in> snd ` set (g_nodes g). c \<in> set (n_parents n)) \<longleftrightarrow>
      (\<exists>d n. node_at g d = Some n \<and> c \<in> set (n_parents n))"
    using assms by (force simp: map_of_eq_Some_iff)
  ultimately show ?thesis by (auto simp: recovered_heads_def)
qed

lemma sorted_recovered_heads:
  "bt_wf (g_nodes g) \<Longrightarrow> sorted (recovered_heads g) \<and> distinct (recovered_heads g)"
  by (simp add: recovered_heads_def bt_wf_def strict_sorted_iff sorted_wrt_filter)

lemma empty_graph_inv: "graph_inv empty_graph"
  by (simp add: graph_inv_def empty_graph_def recovered_heads_def)

text \<open>Every stored fact as a fact about the node map.\<close>

lemma graph_invI:
  assumes "bt_wf (g_nodes g)" "sorted (g_heads g)" "distinct (g_heads g)"
    and "\<And>c. c \<in> set (g_heads g) \<longleftrightarrow>
      node_at g c \<noteq> None \<and> (\<forall>d n. node_at g d = Some n \<longrightarrow> c \<notin> set (n_parents n))"
    and "\<And>c n. node_at g c = Some n \<Longrightarrow>
      successively (<) (n_parents n) \<and> next_generation g (n_parents n) = Inr (n_generation n)"
    and "\<And>c d n m. node_at g c = Some n \<Longrightarrow> node_at g d = Some m \<Longrightarrow>
      n_parents n = [] \<Longrightarrow> n_parents m = [] \<Longrightarrow> c = d"
  shows "graph_inv g"
proof -
  have d: "distinct (map fst (g_nodes g))" by (rule bt_wf_distinct [OF assms(1)])
  then have m: "(c, n) \<in> set (g_nodes g) \<longleftrightarrow> node_at g c = Some n" for c n
    by (simp add: map_of_eq_Some_iff)
  have "set (g_heads g) = set (recovered_heads g)"
    using assms(4) recovered_heads_iff [OF d] by blast
  with assms show ?thesis unfolding graph_inv_def by (auto simp: m)
qed

section \<open>Insertion\<close>

text \<open>The graph a successful insertion of a new commit produces.\<close>

definition grown :: "commit_graph \<Rightarrow> bytes \<Rightarrow> bytes list \<Rightarrow> u64 \<Rightarrow> commit_graph" where
  "grown g c ps n =
     \<lparr>g_nodes = bt_entry c (\<lambda>_. \<lparr>n_parents = ps, n_generation = n\<rparr>) (g_nodes g),
      g_heads = bs_insert c (fold bs_remove ps (g_heads g))\<rparr>"

lemma insert_commit_new:
  "node_at g c = None \<Longrightarrow> insert_commit g c ps = Inr (b, g') \<longleftrightarrow>
     (ps \<noteq> [] \<or> g_nodes g = []) \<and> successively (<) ps \<and>
     (\<exists>n. next_generation g ps = Inr n \<and> b \<and> g' = grown g c ps n)"
  by (auto simp: insert_commit_def grown_def rbind_Inr_iff)

lemma insert_commit_existing:
  "node_at g c = Some node \<Longrightarrow> insert_commit g c ps = Inr (b, g') \<longleftrightarrow>
     n_parents node = ps \<and> \<not> b \<and> g' = g"
  by (auto simp: insert_commit_def)

lemma node_at_grown:
  "bt_wf (g_nodes g) \<Longrightarrow>
     node_at (grown g c ps n) = (node_at g)(c \<mapsto> \<lparr>n_parents = ps, n_generation = n\<rparr>)"
  by (simp add: grown_def map_of_bt_entry)

lemma next_generation_parents:
  "next_generation g ps = Inr n \<Longrightarrow> p \<in> set ps \<Longrightarrow> node_at g p \<noteq> None"
  using next_generation_greater by blast

lemma grown_inv:
  assumes inv: "graph_inv g" and new: "node_at g c = None"
    and root: "ps \<noteq> [] \<or> g_nodes g = []" and sorted: "successively (<) ps"
    and gen: "next_generation g ps = Inr n"
  shows "graph_inv (grown g c ps n)"
proof -
  let ?g = "grown g c ps n" and ?node = "\<lparr>n_parents = ps, n_generation = n\<rparr>"
  note wf = graph_invD(1) [OF inv]
  note at = node_at_grown [OF wf, of c ps n]
  have parent: "node_at g p \<noteq> None" if "node_at g d = Some m" "p \<in> set (n_parents m)" for d m p
    using inv_parent [OF inv that] by blast
  have parents: "node_at g p \<noteq> None" if "p \<in> set ps" for p
    using next_generation_parents [OF gen that] .
  have same: "next_generation ?g qs = next_generation g qs" if "\<forall>q \<in> set qs. node_at g q \<noteq> None" for qs
    using that new by (intro next_generation_cong) (auto simp: at)
  have heads: "d \<in> set (g_heads g) \<longleftrightarrow>
      node_at g d \<noteq> None \<and> (\<forall>e m. node_at g e = Some m \<longrightarrow> d \<notin> set (n_parents m))" for d
    using inv recovered_heads_iff [OF graph_invD(2) [OF inv]] unfolding graph_inv_def by blast
  show ?thesis
  proof (rule graph_invI)
    show "bt_wf (g_nodes ?g)" using wf by (simp add: grown_def)
    show "sorted (g_heads ?g)" "distinct (g_heads ?g)"
      using inv by (simp_all add: grown_def graph_inv_def)
    fix d
    have h: "d \<in> set (g_heads ?g) \<longleftrightarrow> d = c \<or> d \<in> set (g_heads g) \<and> d \<notin> set ps"
      by (auto simp: grown_def)
    have q: "(\<forall>e m. node_at ?g e = Some m \<longrightarrow> d \<notin> set (n_parents m)) \<longleftrightarrow>
        d \<notin> set ps \<and> (\<forall>e m. node_at g e = Some m \<longrightarrow> d \<notin> set (n_parents m))" (is "?l \<longleftrightarrow> ?r")
    proof
      assume l: ?l
      have "d \<notin> set ps" using l [rule_format, of c ?node] by (simp add: at)
      moreover have "d \<notin> set (n_parents m)" if "node_at g e = Some m" for e m
      proof -
        have "node_at ?g e = Some m" using that new by (auto simp: at)
        with l show ?thesis by blast
      qed
      ultimately show ?r by blast
    qed (auto simp: at split: if_split_asm)
    have c1: "c \<notin> set ps" using parents new by blast
    have c2: "\<forall>e m. node_at g e = Some m \<longrightarrow> c \<notin> set (n_parents m)"
      using parent new by blast
    have pq: "d = c \<Longrightarrow> d \<notin> set ps \<and> (\<forall>e m. node_at g e = Some m \<longrightarrow> d \<notin> set (n_parents m))"
      using c1 c2 by (simp only: simp_thms)
    have c3: "node_at ?g d \<noteq> None \<longleftrightarrow> d = c \<or> node_at g d \<noteq> None" by (simp add: at)
    show "d \<in> set (g_heads ?g) \<longleftrightarrow>
      node_at ?g d \<noteq> None \<and> (\<forall>e m. node_at ?g e = Some m \<longrightarrow> d \<notin> set (n_parents m))"
      unfolding h q c3 heads [of d] using pq by argo
  next
    fix d m assume "node_at ?g d = Some m"
    then have "d = c \<and> m = ?node \<or> node_at g d = Some m" unfolding at by (cases "d = c") simp_all
    then consider "d = c" "m = ?node" | "node_at g d = Some m" by blast
    then show "successively (<) (n_parents m) \<and> next_generation ?g (n_parents m) = Inr (n_generation m)"
    proof cases
      case 1
      with sorted gen parents same [of ps] show ?thesis by simp
    next
      case 2
      with graph_invD(3,4) [OF inv 2] parent [OF 2] same [of "n_parents m"] show ?thesis by simp
    qed
  next
    fix d e m k
    assume "node_at ?g d = Some m" "node_at ?g e = Some k" "n_parents m = []" "n_parents k = []"
    then show "d = e" using root graph_invD(5) [OF inv] by (auto simp: at split: if_splits)
  qed
qed

lemma insert_commit_inv:
  "graph_inv g \<Longrightarrow> insert_commit g c ps = Inr (b, g') \<Longrightarrow> graph_inv g'"
  using grown_inv by (cases "node_at g c") (simp_all add: insert_commit_new insert_commit_existing, blast)

text \<open>The graphs the program can build.\<close>

inductive built :: "commit_graph \<Rightarrow> bool" where
  built_empty: "built empty_graph"
| built_insert: "built g \<Longrightarrow> insert_commit g c ps = Inr (b, g') \<Longrightarrow> built g'"

lemma built_inv: "built g \<Longrightarrow> graph_inv g"
  by (induction rule: built.induct) (auto intro: empty_graph_inv insert_commit_inv)

inductive_cases built_cases: "built g"

lemma built_heads: "built g \<Longrightarrow> heads g = recovered_heads g"
proof -
  assume "built g"
  then have inv: "graph_inv g" by (rule built_inv)
  show ?thesis unfolding heads_def
    using inv sorted_recovered_heads [of g] by (intro strict_sorted_eqI) (auto simp: graph_inv_def)
qed

text \<open>
  C13. Head recovery. In every graph that insertions build, the incrementally maintained head
  set is exactly what \<open>recovered_heads\<close> recomputes from the parent relation, in the same
  (lexicographic) order.
\<close>

theorem heads_recovered: "built g \<Longrightarrow> heads g = recovered_heads g"
  by (rule built_heads)

definition two_commits :: commit_graph where
  "two_commits = \<lparr>g_nodes = [([1], \<lparr>n_parents = [], n_generation = 0\<rparr>),
     ([2], \<lparr>n_parents = [[1]], n_generation = 1\<rparr>)], g_heads = [[2]]\<rparr>"

lemma built_two_commits: "built two_commits"
proof -
  let ?g = "\<lparr>g_nodes = [([1], \<lparr>n_parents = [], n_generation = 0\<rparr>)], g_heads = [[1]]\<rparr>"
  have "insert_commit empty_graph [1] [] = Inr (True, ?g)"
    by (simp add: insert_commit_def empty_graph_def next_generation_def bs_insert_def)
  moreover have "insert_commit ?g [2] [[1]] = Inr (True, two_commits)"
    by (simp add: insert_commit_def next_generation_def bs_insert_def bs_remove_def two_commits_def
        checked_succ_def)
  ultimately show ?thesis using built_empty by (blast intro: built_insert)
qed

theorem heads_recovered_witness: "built two_commits \<and> heads two_commits = [[2]] \<and> recovered_heads two_commits = [[2]]"
  using heads_recovered [OF built_two_commits] built_two_commits by (simp add: heads_def two_commits_def)

text \<open>
  Every rejected insertion has its documented reason. A known identifier is rejected only as a
  collision with other parents; for a new one a second root, unsorted or repeated
  parents, an absent parent and an exhausted generation counter are reported, in that order.
\<close>

theorem insert_commit_errors:
  "insert_commit g c ps = Inl e \<longleftrightarrow>
    (case node_at g c of
       Some n \<Rightarrow> n_parents n \<noteq> ps \<and> e = VE_CommitCollision
     | None \<Rightarrow>
         if ps = [] \<and> g_nodes g \<noteq> [] then e = VE_InvalidRoot
         else if \<not> (sorted ps \<and> distinct ps) then e = VE_InvalidFormat
         else if \<exists>p \<in> set ps. node_at g p = None then e = VE_MissingParent
         else (\<exists>p \<in> set ps. map_option n_generation (node_at g p) = Some (- 1)) \<and> e = VE_LimitExceeded)"
proof (cases "node_at g c")
  case None
  have gen: "next_generation g ps = Inl e \<longleftrightarrow>
      (if \<exists>p \<in> set ps. node_at g p = None then e = VE_MissingParent
       else (\<exists>p \<in> set ps. map_option n_generation (node_at g p) = Some (- 1)) \<and> e = VE_LimitExceeded)"
    by (rule next_generation_Inl)
  have "insert_commit g c ps = Inl e \<longleftrightarrow>
      (if ps = [] \<and> g_nodes g \<noteq> [] then e = VE_InvalidRoot
       else if \<not> successively (<) ps then e = VE_InvalidFormat
       else next_generation g ps = Inl e)"
    using None by (auto simp: insert_commit_def rbind_Inl_iff)
  with None show ?thesis unfolding gen successively_less_iff by simp
qed (auto simp: insert_commit_def)

end
