(* ===== verification/Commit_Graph_Queries.thy ===== *)
theory Commit_Graph_Queries
  imports Commit_Graph_Correct
begin

text \<open>
  The queries of the commit graph: the breadth-first ancestor search against the
  reflexive-transitive closure of the parent relation, the common ancestor it yields, and the
  parents-before-children list of missing commits, from which insertion rebuilds a graph.
\<close>

section \<open>Ancestors\<close>

definition parent_rel :: "commit_graph \<Rightarrow> (bytes \<times> bytes) set" where
  "parent_rel g = {(c, p). \<exists>n. node_at g c = Some n \<and> p \<in> set (n_parents n)}"

lemma ancestors_loop_sound:
  "set (ancestors_loop g found pending) \<subseteq> set found \<union> (parent_rel g)\<^sup>* `` set pending"
proof (induction g found pending rule: ancestors_loop.induct)
  case (2 g found commit pending)
  show ?case
  proof (cases "commit \<in> set found")
    case True
    with 2(1) show ?thesis by auto
  next
    case False
    show ?thesis
    proof (cases "node_at g commit")
      case None
      with 2(2) [OF False None] False show ?thesis by auto
    next
      case (Some n)
      then have "(commit, p) \<in> parent_rel g" if "p \<in> set (n_parents n)" for p
        using that by (auto simp: parent_rel_def)
      then have "(parent_rel g)\<^sup>* `` set (n_parents n) \<subseteq> (parent_rel g)\<^sup>* `` {commit}"
        by (blast intro: converse_rtrancl_into_rtrancl)
      with 2(3) [OF False Some] False Some show ?thesis by auto
    qed
  qed
qed simp

lemma ancestors_loop_grows: "set found \<union> set pending \<subseteq> set (ancestors_loop g found pending)"
proof (induction g found pending rule: ancestors_loop.induct)
  case (2 g found commit pending)
  then show ?case by (cases "commit \<in> set found"; cases "node_at g commit") auto
qed simp

lemma ancestors_loop_closed:
  "\<forall>(c, p) \<in> parent_rel g. c \<in> set found \<longrightarrow> p \<in> set found \<union> set pending \<Longrightarrow>
     (c, p) \<in> parent_rel g \<Longrightarrow> c \<in> set (ancestors_loop g found pending) \<Longrightarrow>
     p \<in> set (ancestors_loop g found pending)"
proof (induction g found pending rule: ancestors_loop.induct)
  case (1 g found)
  then show ?case by auto
next
  case (2 g found commit pending)
  show ?case
  proof (cases "commit \<in> set found")
    case True
    with 2(1) [OF True _ 2(5)] 2(4,6) show ?thesis by (simp add: insert_absorb)
  next
    case False
    show ?thesis
    proof (cases "node_at g commit")
      case None
      then have "\<forall>(c, p) \<in> parent_rel g. c \<in> set (bs_insert commit found) \<longrightarrow>
          p \<in> set (bs_insert commit found) \<union> set pending"
        using 2(4) by (auto simp: parent_rel_def)
      from 2(2) [OF False None this 2(5)] 2(6) show ?thesis using False None by simp
    next
      case (Some n)
      then have "\<forall>(c, p) \<in> parent_rel g. c \<in> set (bs_insert commit found) \<longrightarrow>
          p \<in> set (bs_insert commit found) \<union> set (pending @ n_parents n)"
        using 2(4) by (auto simp: parent_rel_def)
      from 2(3) [OF False Some this 2(5)] 2(6) show ?thesis using False Some by simp
    qed
  qed
qed

text \<open>
  C27. Ancestor search returns exactly the commits reachable over parent edges, the start included,
  whatever the graph (the search ends even on a cyclic one).
\<close>

theorem ancestors_closure: "set (ancestors g start) = {a. (start, a) \<in> (parent_rel g)\<^sup>*}"
proof
  show "set (ancestors g start) \<subseteq> {a. (start, a) \<in> (parent_rel g)\<^sup>*}"
    using ancestors_loop_sound [of g "[]" "[start]"] by (auto simp: ancestors_def)
  have "a \<in> set (ancestors g start)" if "(start, a) \<in> (parent_rel g)\<^sup>*" for a
    using that
  proof induction
    case base
    then show ?case using ancestors_loop_grows [of "[]" "[start]" g] by (simp add: ancestors_def)
  next
    case (step a b)
    then show ?case using ancestors_loop_closed [of g "[]" "[start]" a b] by (simp add: ancestors_def)
  qed
  then show "{a. (start, a) \<in> (parent_rel g)\<^sup>*} \<subseteq> set (ancestors g start)" by blast
qed

section \<open>Common ancestors\<close>

lemma max_by_key_None [simp]: "max_by_key f xs = None \<longleftrightarrow> xs = []"
  by (cases xs) (auto split: option.splits)

lemma max_by_key_Some:
  "max_by_key f xs = Some x \<Longrightarrow> x \<in> set xs \<and> (\<forall>y \<in> set xs. f y \<le> f x)"
proof (induction xs arbitrary: x)
  case (Cons a xs)
  then show ?case
  proof (cases "max_by_key f xs")
    case (Some y)
    with Cons show ?thesis by (fastforce split: if_splits)
  qed auto
qed simp

text \<open>Every commit of a built graph reaches the root.\<close>

lemma reaches_root:
  assumes inv: "graph_inv g" and "node_at g c = Some n"
  shows "\<exists>r m. (c, r) \<in> (parent_rel g)\<^sup>* \<and> node_at g r = Some m \<and> n_parents m = []"
  using assms(2)
proof (induction "unat (n_generation n)" arbitrary: c n rule: less_induct)
  case less
  show ?case
  proof (cases "n_parents n")
    case Nil
    with less.prems show ?thesis by blast
  next
    case (Cons p ps)
    then have p: "p \<in> set (n_parents n)" by simp
    from inv_parent [OF inv less.prems p] obtain m where
      m: "node_at g p = Some m" "n_generation m < n_generation n" by blast
    then have "unat (n_generation m) < unat (n_generation n)" by (simp add: word_less_nat_alt)
    from less.hyps [OF this m(1)] obtain r k where
      r: "(p, r) \<in> (parent_rel g)\<^sup>*" "node_at g r = Some k" "n_parents k = []" by blast
    have "(c, p) \<in> parent_rel g" using less.prems p by (auto simp: parent_rel_def)
    with r show ?thesis by (blast intro: converse_rtrancl_into_rtrancl)
  qed
qed

text \<open>
  C28. Any two commits of a graph built by insertions have a common ancestor, and
  \<open>common_ancestor\<close> returns one reachable from both such that no other common ancestor
  has a greater generation, or the same generation and a greater identifier.
\<close>

theorem common_ancestor_best:
  assumes "built g" and "node_at g left \<noteq> None" and "node_at g right \<noteq> None"
  shows "\<exists>a. common_ancestor g left right = Inr (Some a) \<and>
    (left, a) \<in> (parent_rel g)\<^sup>* \<and> (right, a) \<in> (parent_rel g)\<^sup>* \<and>
    (\<forall>b. (left, b) \<in> (parent_rel g)\<^sup>* \<and> (right, b) \<in> (parent_rel g)\<^sup>* \<longrightarrow>
       commit_order g b \<le> commit_order g a)"
proof -
  have inv: "graph_inv g" by (rule built_inv [OF assms(1)])
  let ?common = "filter (\<lambda>c. c \<in> set (ancestors g right)) (ancestors g left)"
  have common: "set ?common = {b. (left, b) \<in> (parent_rel g)\<^sup>* \<and> (right, b) \<in> (parent_rel g)\<^sup>*}"
    by (auto simp: ancestors_closure)
  obtain n m where nm: "node_at g left = Some n" "node_at g right = Some m" using assms(2,3) by auto
  from reaches_root [OF inv nm(1)] obtain r i where
    r: "(left, r) \<in> (parent_rel g)\<^sup>*" "node_at g r = Some i" "n_parents i = []" by blast
  from reaches_root [OF inv nm(2)] obtain q j where
    q: "(right, q) \<in> (parent_rel g)\<^sup>*" "node_at g q = Some j" "n_parents j = []" by blast
  have "r = q" using graph_invD(5) [OF inv r(2) q(2) r(3) q(3)] .
  with r(1) q(1) common have "?common \<noteq> []" by (metis (mono_tags, lifting) empty_iff list.set(1) mem_Collect_eq)
  then obtain a where a: "max_by_key (commit_order g) ?common = Some a"
    by (metis max_by_key_None option.exhaust)
  have "common_ancestor g left right = Inr (Some a)"
    using a nm by (simp add: common_ancestor_def Let_def)
  with max_by_key_Some [OF a] common show ?thesis by blast
qed

theorem common_ancestor_best_witness:
  "\<exists>a. common_ancestor two_commits [1] [2] = Inr (Some a) \<and> ([2], a) \<in> (parent_rel two_commits)\<^sup>*"
  using common_ancestor_best [OF built_two_commits, of "[1]" "[2]"]
  by (auto simp: two_commits_def)

section \<open>Missing commits\<close>

lemma sorted_missing:
  "sorted (map (commit_order g) (missing_from g known))"
  by (simp add: missing_from_def)

lemma set_missing: "c \<in> set (missing_from g known) \<longleftrightarrow> node_at g c \<noteq> None \<and> c \<notin> known"
  by (auto simp: missing_from_def map_of_eq_None_iff image_iff)

lemma distinct_missing: "graph_inv g \<Longrightarrow> distinct (missing_from g known)"
  using graph_invD(2) [of g] by (simp add: missing_from_def)

lemma missing_no_later_parent:
  assumes inv: "graph_inv g"
  shows "sorted_wrt (\<lambda>c d. (c, d) \<notin> parent_rel g) (missing_from g known)"
proof -
  have "sorted_wrt (\<lambda>c d. commit_order g c \<le> commit_order g d) (missing_from g known)"
    using sorted_missing [of g known] by (simp add: sorted_map)
  then show ?thesis
  proof (rule sorted_wrt_mono_rel [rotated])
    fix c d
    assume le: "commit_order g c \<le> commit_order g d"
    show "(c, d) \<notin> parent_rel g"
    proof
      assume "(c, d) \<in> parent_rel g"
      then obtain n where n: "node_at g c = Some n" "d \<in> set (n_parents n)"
        by (auto simp: parent_rel_def)
      from inv_parent [OF inv n] obtain m where "node_at g d = Some m" "n_generation m < n_generation n"
        by blast
      with n le show False by (auto simp: commit_order_def less_eq_prod_def)
    qed
  qed
qed

text \<open>
  The missing list: each commit of the graph that is not known, once, and every commit's
  missing parents stand before it.
\<close>

theorem missing_from_parents_first:
  assumes "built g"
  shows "distinct (missing_from g known) \<and>
    set (missing_from g known) = {c. node_at g c \<noteq> None \<and> c \<notin> known} \<and>
    (\<forall>i j. i < j \<longrightarrow> j < length (missing_from g known) \<longrightarrow>
       (missing_from g known ! i, missing_from g known ! j) \<notin> parent_rel g)"
  using distinct_missing [OF built_inv [OF assms]] set_missing [of _ g known]
    missing_no_later_parent [OF built_inv [OF assms], of known]
  by (auto simp: sorted_wrt_iff_nth_less)

theorem missing_from_parents_first_witness:
  "distinct (missing_from two_commits {}) \<and> ([2], [1]) \<in> parent_rel two_commits \<and>
   set (missing_from two_commits {}) = {c. node_at two_commits c \<noteq> None \<and> c \<notin> {}}"
  using missing_from_parents_first [OF built_two_commits, of "{}"]
  by (auto simp: parent_rel_def two_commits_def)

section \<open>Catching up\<close>

text \<open>
  A device that holds g' and learns of the commits of g inserts them in the order of
  \<open>missing_from\<close>, stopping at the first error.
\<close>

fun replay :: "commit_graph \<Rightarrow> commit_graph \<Rightarrow> bytes list \<Rightarrow> versioning_error + commit_graph" where
  "replay g g' [] = Inr g'"
| "replay g g' (c # cs) =
     (case node_at g c of
        None \<Rightarrow> Inl VE_CommitNotFound
      | Some n \<Rightarrow> rbind (insert_commit g' c (n_parents n)) (\<lambda>(_, g'). replay g g' cs))"

lemma graph_eqI:
  assumes "graph_inv g" "graph_inv g'" and eq: "node_at g = node_at g'"
  shows "g = g'"
proof -
  note d = graph_invD(2) [OF assms(1)] graph_invD(2) [OF assms(2)]
  have set_eq: "set (g_nodes g) = set (g_nodes g')"
    using eq d by (metis map_of_eq_Some_iff surj_pair subsetI subset_antisym)
  have "inj_on fst (set (g_nodes g) \<union> set (g_nodes g'))"
    using d set_eq by (simp add: distinct_map)
  moreover have "sorted (map fst (g_nodes g))" "sorted (map fst (g_nodes g'))"
    using assms(1,2) by (auto simp: graph_inv_def bt_wf_def strict_sorted_iff)
  ultimately have nodes: "g_nodes g = g_nodes g'"
    using d set_eq by (intro map_sorted_distinct_set_unique)
  then have "recovered_heads g = recovered_heads g'" by (simp add: recovered_heads_def)
  then have "g_heads g = g_heads g'"
    using assms(1,2) by (intro strict_sorted_eqI) (auto simp: graph_inv_def)
  with nodes show ?thesis by simp
qed

lemma root_first:
  assumes "graph_inv g" "graph_inv g'" "node_at g' \<subseteq>\<^sub>m node_at g"
    and "node_at g c = Some n" "n_parents n = []" "node_at g' c = None"
  shows "g_nodes g' = []"
proof (rule ccontr)
  assume "g_nodes g' \<noteq> []"
  then have "node_at g' (fst (hd (g_nodes g'))) = Some (snd (hd (g_nodes g')))"
    by (cases "g_nodes g'") simp_all
  from reaches_root [OF assms(2) this] obtain r k where
    r: "node_at g' r = Some k" "n_parents k = []" by blast
  then have "node_at g r = Some k" using assms(3) by (auto simp: map_le_def dom_def)
  from graph_invD(5) [OF assms(1) this assms(4) r(2) assms(5)] r(1) assms(6) show False by simp
qed

lemma replay_rest:
  assumes "graph_inv g"
  shows "graph_inv g' \<Longrightarrow> node_at g' \<subseteq>\<^sub>m node_at g \<Longrightarrow> distinct cs \<Longrightarrow>
    set cs = dom (node_at g) - dom (node_at g') \<Longrightarrow>
    sorted_wrt (\<lambda>c d. (c, d) \<notin> parent_rel g) cs \<Longrightarrow> replay g g' cs = Inr g"
proof (induction cs arbitrary: g')
  case Nil
  have "node_at g \<subseteq>\<^sub>m node_at g'"
    unfolding map_le_def
  proof
    fix x assume "x \<in> dom (node_at g)"
    then have "x \<in> dom (node_at g')" using Nil.prems(4) by auto
    with Nil.prems(2) show "node_at g x = node_at g' x" by (simp add: map_le_def)
  qed
  with Nil.prems(2) have "node_at g' = node_at g" by (rule map_le_antisym)
  with graph_eqI [OF Nil.prems(1) assms] show ?case by simp
next
  case (Cons c cs)
  have c: "c \<in> dom (node_at g)" "node_at g' c = None" using Cons.prems(4) by auto
  then obtain n where n: "node_at g c = Some n" by blast
  let ?ps = "n_parents n"
  have same: "node_at g' p = node_at g p" if p: "p \<in> set ?ps" for p
  proof -
    obtain m where m: "node_at g p = Some m" "n_generation m < n_generation n"
      using inv_parent [OF assms n p] by blast
    have "(c, p) \<in> parent_rel g" using n p by (auto simp: parent_rel_def)
    then have "p \<notin> set cs" using Cons.prems(5) by auto
    moreover have "p \<noteq> c" using m n by auto
    ultimately have "p \<in> dom (node_at g')" using m(1) Cons.prems(4) by auto
    with Cons.prems(2) show ?thesis by (simp add: map_le_def)
  qed
  have gen: "next_generation g' ?ps = Inr (n_generation n)"
    using next_generation_cong [of ?ps g' g] same graph_invD(3) [OF assms n] by simp
  have root: "?ps \<noteq> [] \<or> g_nodes g' = []"
    using root_first [OF assms Cons.prems(1,2) n _ c(2)] by blast
  note sorted = graph_invD(4) [OF assms n]
  let ?g = "grown g' c ?ps (n_generation n)"
  have ins: "insert_commit g' c ?ps = Inr (True, ?g)"
    using insert_commit_new [OF c(2)] root sorted gen by blast
  have at: "node_at ?g = (node_at g')(c \<mapsto> n)"
    using node_at_grown [OF graph_invD(1) [OF Cons.prems(1)], of c ?ps "n_generation n"] by (cases n) simp
  have "replay g ?g cs = Inr g"
  proof (rule Cons.IH)
    show "graph_inv ?g" by (rule grown_inv [OF Cons.prems(1) c(2) root sorted gen])
    show "node_at ?g \<subseteq>\<^sub>m node_at g" using Cons.prems(2) n by (simp add: at map_le_def)
    show "distinct cs" "sorted_wrt (\<lambda>c d. (c, d) \<notin> parent_rel g) cs" using Cons.prems(3,5) by simp_all
    show "set cs = dom (node_at g) - dom (node_at ?g)"
      using Cons.prems(3,4) by (auto simp: at)
  qed
  with n ins show ?case by simp
qed

text \<open>
  C26. Synchronisation. If every commit a device holds is a commit of g with the same metadata,
  then inserting the commits of g it misses, in the order \<open>missing_from\<close> lists them, never
  fails and ends in exactly g: the same nodes, generations and heads.
\<close>

theorem catch_up:
  assumes "built g" and "built g'" and "node_at g' \<subseteq>\<^sub>m node_at g"
  shows "replay g g' (missing_from g (set (map fst (g_nodes g')))) = Inr g"
proof (rule replay_rest [OF built_inv [OF assms(1)] built_inv [OF assms(2)] assms(3)])
  let ?known = "set (map fst (g_nodes g'))"
  have "?known = dom (node_at g')" by (simp add: dom_map_of_conv_image_fst)
  then show "set (missing_from g ?known) = dom (node_at g) - dom (node_at g')"
    using set_missing [of _ g ?known] by auto
  show "distinct (missing_from g ?known)" by (rule distinct_missing [OF built_inv [OF assms(1)]])
  show "sorted_wrt (\<lambda>c d. (c, d) \<notin> parent_rel g) (missing_from g ?known)"
    by (rule missing_no_later_parent [OF built_inv [OF assms(1)]])
qed

theorem catch_up_witness:
  "replay two_commits empty_graph (missing_from two_commits {}) = Inr two_commits \<and>
   missing_from two_commits {} \<noteq> []"
  using catch_up [OF built_two_commits built_empty]
  by (simp add: empty_graph_def missing_from_def two_commits_def)

end
