(* ===== verification/Signed_Commit.thy ===== *)
theory Signed_Commit
  imports Object_Crypto Commit_Graph
begin

text \<open>
  Signed commit records: \<open>crates/ll-versioning/src/commit.rs\<close>. The outer record is checked
  against the hash of its unsigned part, whose body must be a commit object envelope of
  the same vault.
\<close>

section \<open>Types and helpers\<close>

definition COMMIT_ID_LABEL :: bytes where
  "COMMIT_ID_LABEL = ascii_bytes ''learning-loop/commit-id/v1''"
definition COMMIT_SIGNATURE_LABEL :: bytes where
  "COMMIT_SIGNATURE_LABEL = ascii_bytes ''learning-loop/commit-signature/v1''"
definition MAX_COMMIT_BODY_BYTES :: nat where "MAX_COMMIT_BODY_BYTES = 256 * 1024"
definition MAX_COMMIT_PARENTS :: nat where "MAX_COMMIT_PARENTS = 16"

record unsigned_commit =
  uc_vault_id :: bytes
  uc_parents :: "bytes list"
  uc_device_id :: bytes
  uc_device_sequence :: u64
  uc_encrypted_body :: bytes

record signed_commit =
  sc_unsigned :: unsigned_commit
  sc_commit_id :: bytes
  sc_signature :: bytes

definition version_expect_map :: "cbor \<Rightarrow> nat \<Rightarrow> bytes \<Rightarrow> versioning_error + bytes" where
  "version_expect_map C expected d =
     rbind (ok_or VE_Decode (d_map C d)) (\<lambda>(len, d).
       if len = Some expected then Inr d else Inl VE_InvalidFormat)"

definition version_expect_key :: "cbor \<Rightarrow> byte \<Rightarrow> bytes \<Rightarrow> versioning_error + bytes" where
  "version_expect_key = take_key VE_Decode VE_InvalidFormat"

definition version_fixed :: "cbor \<Rightarrow> nat \<Rightarrow> bytes \<Rightarrow> versioning_error + (bytes \<times> bytes)" where
  "version_fixed = take_fixed VE_Decode VE_InvalidFormat"

definition version_array :: "cbor \<Rightarrow> bytes \<Rightarrow> versioning_error + (nat \<times> bytes)" where
  "version_array C d =
     rbind (ok_or VE_Decode (d_array C d)) (\<lambda>(len, d).
     rbind (ok_or VE_InvalidFormat len) (\<lambda>len.
       if fits64 len then Inr (len, d) else Inl VE_LimitExceeded))"

abbreviation ver_item :: "'a option \<Rightarrow> versioning_error + 'a" where
  "ver_item \<equiv> ok_or VE_Decode"

definition u64_try_from :: "nat \<Rightarrow> versioning_error + u64" where
  "u64_try_from n = (if fits64 n then Inr (of_nat n) else Inl VE_LimitExceeded)"

section \<open>Operations\<close>

definition commit_signature_context :: "bytes \<Rightarrow> bytes" where
  "commit_signature_context commit_id = COMMIT_SIGNATURE_LABEL @ commit_id"

definition commit_id_of :: "crypto \<Rightarrow> bytes \<Rightarrow> bytes" where
  "commit_id_of X unsigned_bytes = blake3 X (COMMIT_ID_LABEL @ unsigned_bytes)"

definition validate_unsigned :: "cbor \<Rightarrow> unsigned_commit \<Rightarrow> versioning_error + unit" where
  "validate_unsigned C u =
     (if uc_device_sequence u = 0 \<or> length (uc_parents u) > MAX_COMMIT_PARENTS
         \<or> length (uc_encrypted_body u) > MAX_COMMIT_BODY_BYTES
      then Inl VE_LimitExceeded
      else if \<not> successively (<) (uc_parents u) then Inl VE_InvalidFormat
      else
        rbind (map_err (\<lambda>_. VE_InvalidEncryptedBody) (decode_object_envelope C (uc_encrypted_body u)))
          (\<lambda>body.
            if oe_vault_id body \<noteq> uc_vault_id u \<or> oe_object_type body \<noteq> Commit
            then Inl VE_InvalidEncryptedBody else Inr ()))"

definition encode_unsigned :: "cbor \<Rightarrow> crypto \<Rightarrow> unsigned_commit \<Rightarrow> versioning_error + bytes" where
  "encode_unsigned C X u =
     rbind (validate_unsigned C u) (\<lambda>_.
     rbind (u64_try_from (length (uc_encrypted_body u))) (\<lambda>body_size.
       Inr (e_map C 8
         @ e_u8 C 0 @ e_u16 C PROTOCOL_VERSION
         @ e_u8 C 1 @ e_bytes C (uc_vault_id u)
         @ e_u8 C 2 @ e_array C (length (uc_parents u)) @ concat (map (e_bytes C) (uc_parents u))
         @ e_u8 C 3 @ e_bytes C (uc_device_id u)
         @ e_u8 C 4 @ e_u64 C (uc_device_sequence u)
         @ e_u8 C 5 @ e_u64 C body_size
         @ e_u8 C 6 @ e_bytes C (blake3 X (uc_encrypted_body u))
         @ e_u8 C 7 @ e_bytes C (uc_encrypted_body u))))"

definition decode_unsigned :: "cbor \<Rightarrow> crypto \<Rightarrow> bytes \<Rightarrow> versioning_error + unsigned_commit" where
  "decode_unsigned C X encoded =
     rbind (version_expect_map C 8 encoded) (\<lambda>d.
     rbind (version_expect_key C 0 d) (\<lambda>d.
     rbind (ver_item (d_u16 C d)) (\<lambda>(version, d).
     if version \<noteq> PROTOCOL_VERSION then Inl VE_InvalidFormat else
     rbind (version_expect_key C 1 d) (\<lambda>d.
     rbind (version_fixed C 16 d) (\<lambda>(vault_id, d).
     rbind (version_expect_key C 2 d) (\<lambda>d.
     rbind (version_array C d) (\<lambda>(parent_count, d).
     if parent_count > MAX_COMMIT_PARENTS then Inl VE_LimitExceeded else
     rbind (dec_times (version_fixed C 32) parent_count d) (\<lambda>(parents, d).
     rbind (version_expect_key C 3 d) (\<lambda>d.
     rbind (version_fixed C 16 d) (\<lambda>(device_id, d).
     rbind (version_expect_key C 4 d) (\<lambda>d.
     rbind (ver_item (d_u64 C d)) (\<lambda>(device_sequence, d).
     rbind (version_expect_key C 5 d) (\<lambda>d.
     rbind (ver_item (d_u64 C d)) (\<lambda>(declared_size, d).
     rbind (version_expect_key C 6 d) (\<lambda>d.
     rbind (version_fixed C 32 d) (\<lambda>(declared_hash, d).
     rbind (version_expect_key C 7 d) (\<lambda>d.
     rbind (ver_item (d_bytes C d)) (\<lambda>(encrypted_body, d).
     if length encrypted_body > MAX_COMMIT_BODY_BYTES then Inl VE_InvalidFormat else
     rbind (u64_try_from (length encrypted_body)) (\<lambda>size.
     if size \<noteq> declared_size \<or> blake3 X encrypted_body \<noteq> declared_hash
     then Inl VE_InvalidFormat else
     let u = \<lparr>uc_vault_id = vault_id, uc_parents = parents, uc_device_id = device_id,
           uc_device_sequence = device_sequence, uc_encrypted_body = encrypted_body\<rparr> in
     rbind (validate_unsigned C u) (\<lambda>_.
     if position encoded d \<noteq> length encoded then Inl VE_InvalidFormat else
     rbind (encode_unsigned C X u) (\<lambda>again.
     if again \<noteq> encoded then Inl VE_InvalidFormat else Inr u)))))))))))))))))))))"

definition create_commit :: "cbor \<Rightarrow> crypto \<Rightarrow> unsigned_commit \<Rightarrow> bytes \<Rightarrow> versioning_error + signed_commit" where
  "create_commit C X u signing_key =
     rbind (validate_unsigned C u) (\<lambda>_.
     rbind (encode_unsigned C X u) (\<lambda>encoded.
     let commit_id = commit_id_of X encoded in
       Inr \<lparr>sc_unsigned = u, sc_commit_id = commit_id,
            sc_signature = ed25519_sign X signing_key (commit_signature_context commit_id)\<rparr>))"

definition verify_signed_commit :: "crypto \<Rightarrow> signed_commit \<Rightarrow> bytes \<Rightarrow> versioning_error + unit" where
  "verify_signed_commit X commit public_key =
     (if \<not> ed25519_key_ok X public_key then Inl VE_InvalidSignature
      else if ed25519_verify X public_key (commit_signature_context (sc_commit_id commit))
                (sc_signature commit)
      then Inr () else Inl VE_InvalidSignature)"

definition encode_signed_commit :: "cbor \<Rightarrow> crypto \<Rightarrow> signed_commit \<Rightarrow> versioning_error + bytes" where
  "encode_signed_commit C X commit =
     rbind (validate_unsigned C (sc_unsigned commit)) (\<lambda>_.
     rbind (encode_unsigned C X (sc_unsigned commit)) (\<lambda>unsigned_bytes.
     if commit_id_of X unsigned_bytes \<noteq> sc_commit_id commit then Inl VE_InvalidCommitId
     else
       let output = e_map C 3 @ e_u8 C 0 @ e_bytes C unsigned_bytes
             @ e_u8 C 1 @ e_bytes C (sc_commit_id commit)
             @ e_u8 C 2 @ e_bytes C (sc_signature commit) in
       if length output > MAX_SIGNED_COMMIT_BYTES then Inl VE_LimitExceeded else Inr output))"

definition decode_signed_commit :: "cbor \<Rightarrow> crypto \<Rightarrow> bytes \<Rightarrow> versioning_error + signed_commit" where
  "decode_signed_commit C X encoded =
     (if length encoded > MAX_SIGNED_COMMIT_BYTES then Inl VE_LimitExceeded else
     rbind (version_expect_map C 3 encoded) (\<lambda>d.
     rbind (version_expect_key C 0 d) (\<lambda>d.
     rbind (ver_item (d_bytes C d)) (\<lambda>(unsigned_bytes, d).
     rbind (decode_unsigned C X unsigned_bytes) (\<lambda>u.
     rbind (version_expect_key C 1 d) (\<lambda>d.
     rbind (version_fixed C 32 d) (\<lambda>(supplied_id, d).
     let actual_id = commit_id_of X unsigned_bytes in
     if actual_id \<noteq> supplied_id then Inl VE_InvalidCommitId else
     rbind (version_expect_key C 2 d) (\<lambda>d.
     rbind (version_fixed C 64 d) (\<lambda>(signature, d).
     let commit = \<lparr>sc_unsigned = u, sc_commit_id = actual_id, sc_signature = signature\<rparr> in
     if position encoded d \<noteq> length encoded then Inl VE_InvalidFormat else
     rbind (encode_signed_commit C X commit) (\<lambda>again.
     if again \<noteq> encoded then Inl VE_InvalidFormat else Inr commit))))))))))"

end
