(* ===== verification/Signed_Commit_Correct.thy ===== *)
theory Signed_Commit_Correct
  imports Signed_Commit
begin

text \<open>
  Correctness of signed commit records: canonical decoding, validity of what is created, and
  what an accepted record guarantees. The locale \<open>sealed_format\<close> joins the two crates the
  versioning formats stand on.
\<close>

locale sealed_format = cbor_format C for C :: cbor +
  fixes X :: crypto
  assumes laws: "crypto_laws X"

interpretation plain: sealed_format rfc_cbor plain_crypto
  by unfold_locales (rule plain_crypto_laws)

definition wf_unsigned :: "unsigned_commit \<Rightarrow> bool" where
  "wf_unsigned u \<longleftrightarrow> is_array 16 (uc_vault_id u) \<and> is_array 16 (uc_device_id u) \<and>
     (\<forall>p \<in> set (uc_parents u). is_array 32 p)"

definition wf_commit :: "signed_commit \<Rightarrow> bool" where
  "wf_commit c \<longleftrightarrow> wf_unsigned (sc_unsigned c) \<and> is_array 64 (sc_signature c)"

section \<open>Decoding\<close>

lemmas version_defs = version_expect_map_def version_expect_key_def version_fixed_def

lemma version_fixed_length: "version_fixed C n d = Inr (v, d') \<Longrightarrow> length v = n"
  unfolding version_fixed_def by (rule take_fixed_length)

lemma version_fixed_items:
  assumes "dec_times (version_fixed C n) k d = Inr (vs, d')"
  shows "\<forall>v \<in> set vs. length v = n"
  using dec_times_Inr [OF assms] version_fixed_length by metis

lemma decode_unsigned_sound:
  assumes "decode_unsigned C X encoded = Inr u"
  shows "wf_unsigned u \<and> encode_unsigned C X u = Inr encoded"
  using assms unfolding decode_unsigned_def
  by (auto simp: result_iffs Let_def wf_unsigned_def
      split: if_splits dest!: version_fixed_length version_fixed_items)

lemma decode_signed_commit_sound:
  assumes "decode_signed_commit C X encoded = Inr c"
  shows "wf_commit c \<and> encode_signed_commit C X c = Inr encoded"
  using assms unfolding decode_signed_commit_def
  by (auto simp: result_iffs Let_def wf_commit_def
      split: if_splits dest!: version_fixed_length decode_unsigned_sound)

lemma validate_unsigned_Inr:
  "validate_unsigned C u = Inr () \<longleftrightarrow>
     uc_device_sequence u \<noteq> 0 \<and> length (uc_parents u) \<le> MAX_COMMIT_PARENTS \<and>
     length (uc_encrypted_body u) \<le> MAX_COMMIT_BODY_BYTES \<and>
     sorted (uc_parents u) \<and> distinct (uc_parents u) \<and>
     (\<exists>body. decode_object_envelope C (uc_encrypted_body u) = Inr body \<and>
        oe_vault_id body = uc_vault_id u \<and> oe_object_type body = Commit)"
  by (auto simp: validate_unsigned_def result_iffs successively_less_iff)

lemma unsigned_commit_collapse [simp]:
  "\<lparr>uc_vault_id = uc_vault_id u, uc_parents = uc_parents u, uc_device_id = uc_device_id u,
    uc_device_sequence = uc_device_sequence u, uc_encrypted_body = uc_encrypted_body u\<rparr> = u"
  by (cases u) simp

lemma signed_commit_collapse [simp]:
  "\<lparr>sc_unsigned = sc_unsigned c, sc_commit_id = sc_commit_id c, sc_signature = sc_signature c\<rparr> = c"
  by (cases c) simp

context cbor_format begin

lemma version_fixed_item [simp]:
  "length bs = n \<Longrightarrow> fits64 n \<Longrightarrow> version_fixed C n (e_bytes C bs @ r) = Inr (bs, r)"
  by (simp add: version_fixed_def)

lemma version_fixed_last [simp]:
  "length bs = n \<Longrightarrow> fits64 n \<Longrightarrow> version_fixed C n (e_bytes C bs) = Inr (bs, [])"
  by (simp add: version_fixed_def)

lemma version_array_item [simp]: "fits64 n \<Longrightarrow> version_array C (e_array C n @ r) = Inr (n, r)"
  by (simp add: version_array_def)

lemma version_key_item [simp]: "version_expect_key C k (e_u8 C k @ r) = Inr r"
  by (simp add: version_expect_key_def)

lemma version_map_item [simp]: "fits64 n \<Longrightarrow> version_expect_map C n (e_map C n @ r) = Inr r"
  by (simp add: version_expect_map_def)

lemma version_parents_items [simp]:
  "\<forall>p \<in> set ps. length p = n \<Longrightarrow> fits64 n \<Longrightarrow>
     dec_times (version_fixed C n) (length ps) (concat (map (e_bytes C) ps) @ r) = Inr (ps, r)"
  by (rule dec_times_encoded) simp

lemma size_parents: "\<forall>p \<in> set ps. length p = 32 \<Longrightarrow> length (concat (map (e_bytes C) ps)) \<le> 41 * length ps"
proof (induction ps)
  case (Cons p ps)
  then show ?case using head_sizes(8) [of p] by simp
qed simp

end

context sealed_format begin

lemma unsigned_decodes:
  assumes wf: "wf_unsigned u" and enc: "encode_unsigned C X u = Inr encoded"
  shows "decode_unsigned C X encoded = Inr u"
proof -
  have val: "validate_unsigned C u = Inr ()" and size: "fits64 (length (uc_encrypted_body u))"
    using enc by (auto simp: encode_unsigned_def rbind_Inr_iff u64_try_from_def split: if_splits)
  have "fits64 (length (uc_parents u))"
    using val by (intro fits64_small) (auto simp: validate_unsigned_Inr MAX_COMMIT_PARENTS_def)
  moreover have "length (blake3 X m) = 32" for m by (rule length_blake3 [OF laws])
  moreover have "length (uc_parents u) \<le> MAX_COMMIT_PARENTS"
    "length (uc_encrypted_body u) \<le> MAX_COMMIT_BODY_BYTES"
    using val by (auto simp: validate_unsigned_Inr)
  ultimately show ?thesis
    using wf val size enc unfolding decode_unsigned_def
    by (auto simp: encode_unsigned_def wf_unsigned_def u64_try_from_def Let_def)
qed

lemma unsigned_size:
  assumes wf: "wf_unsigned u" and enc: "encode_unsigned C X u = Inr encoded"
  shows "length encoded \<le> 1000 + length (uc_encrypted_body u)"
proof -
  let ?n = "of_nat (length (uc_encrypted_body u)) :: u64"
  have "length (uc_parents u) \<le> 16"
    using enc by (auto simp: encode_unsigned_def rbind_Inr_iff validate_unsigned_Inr MAX_COMMIT_PARENTS_def)
  moreover have "length (blake3 X m) = 32" for m by (rule length_blake3 [OF laws])
  moreover have "length (concat (map (e_bytes C) (uc_parents u))) \<le> 41 * length (uc_parents u)"
    using wf by (intro size_parents) (auto simp: wf_unsigned_def)
  ultimately show ?thesis
    using wf enc head_sizes(2) [of 8] head_sizes(3) [of 0] head_sizes(3) [of 1] head_sizes(3) [of 2]
      head_sizes(3) [of 3] head_sizes(3) [of 4] head_sizes(3) [of 5] head_sizes(3) [of 6]
      head_sizes(3) [of 7] head_sizes(4) [of PROTOCOL_VERSION] head_sizes(1) [of "length (uc_parents u)"]
      head_sizes(6) [of ?n] head_sizes(6) [of "uc_device_sequence u"] head_sizes(8) [of "uc_vault_id u"]
      head_sizes(8) [of "uc_device_id u"] head_sizes(8) [of "uc_encrypted_body u"]
      head_sizes(8) [of "blake3 X (uc_encrypted_body u)"]
    by (auto simp: encode_unsigned_def rbind_Inr_iff wf_unsigned_def u64_try_from_def split: if_splits)
qed

lemma signed_commit_decodes:
  assumes wf: "wf_commit c" and enc: "encode_signed_commit C X c = Inr encoded"
  shows "decode_signed_commit C X encoded = Inr c"
proof -
  obtain b where b: "encode_unsigned C X (sc_unsigned c) = Inr b"
    and id: "commit_id_of X b = sc_commit_id c" and size: "length encoded \<le> MAX_SIGNED_COMMIT_BYTES"
    and out: "encoded = e_map C 3 @ e_u8 C 0 @ e_bytes C b @ e_u8 C 1 @ e_bytes C (sc_commit_id c)
      @ e_u8 C 2 @ e_bytes C (sc_signature c)"
    using enc by (auto simp: encode_signed_commit_def rbind_Inr_iff Let_def split: if_splits)
  have wfu: "wf_unsigned (sc_unsigned c)" using wf by (simp add: wf_commit_def)
  have "length (uc_encrypted_body (sc_unsigned c)) \<le> MAX_COMMIT_BODY_BYTES"
    using b by (auto simp: encode_unsigned_def rbind_Inr_iff validate_unsigned_Inr)
  then have "fits64 (length b)"
    using unsigned_size [OF wfu b] by (intro fits64_small) (simp add: MAX_COMMIT_BODY_BYTES_def)
  moreover have "length (sc_commit_id c) = 32"
    using id length_blake3 [OF laws, of "COMMIT_ID_LABEL @ b"] by (simp add: commit_id_of_def)
  moreover have "length (sc_signature c) = 64" using wf by (simp add: wf_commit_def)
  moreover have "decode_unsigned C X b = Inr (sc_unsigned c)" by (rule unsigned_decodes [OF wfu b])
  ultimately show ?thesis
    using enc size id unfolding decode_signed_commit_def out by (simp add: Let_def)
qed

end

sublocale sealed_format \<subseteq>
  signed_commit: deterministic_codec "encode_signed_commit C X" "decode_signed_commit C X" wf_commit
proof
  fix input c
  show "decode_signed_commit C X input = Inr c \<longleftrightarrow> wf_commit c \<and> encode_signed_commit C X c = Inr input"
    using decode_signed_commit_sound [of C X input c] signed_commit_decodes [of c input] by blast
qed

context sealed_format begin

lemmas signed_commit_law = signed_commit.canonical
lemmas signed_commit_inj = signed_commit.encode_inj

end

section \<open>What records guarantee\<close>

text \<open>
  A signed commit record is accepted exactly when it is the canonical encoding of a record
  whose identifier is the hash of its unsigned part and whose fields pass validation.
\<close>

theorem signed_commit_canonical:
  assumes "sealed_format C X"
  shows "decode_signed_commit C X input = Inr c \<longleftrightarrow>
    wf_commit c \<and> encode_signed_commit C X c = Inr input"
  by (rule sealed_format.signed_commit_law [OF assms])

lemma encode_signed_commit_Inr:
  assumes "encode_signed_commit C X c = Inr encoded"
  obtains b where "encode_unsigned C X (sc_unsigned c) = Inr b" "validate_unsigned C (sc_unsigned c) = Inr ()"
    "commit_id_of X b = sc_commit_id c" "length encoded \<le> MAX_SIGNED_COMMIT_BYTES"
  using assms by (auto simp: encode_signed_commit_def rbind_Inr_iff Let_def split: if_splits)

text \<open>
  What the server and the clients may rely on after decoding a record: its identifier is
  the domain-separated hash of its unsigned part, its device sequence starts at one, its parents are
  at most sixteen, sorted and unique, and its body is a commit envelope of the same vault.
\<close>

theorem decoded_commit_valid:
  assumes "decode_signed_commit C X input = Inr c"
  shows "(\<exists>b. encode_unsigned C X (sc_unsigned c) = Inr b \<and> sc_commit_id c = commit_id_of X b) \<and>
    uc_device_sequence (sc_unsigned c) \<noteq> 0 \<and>
    length (uc_parents (sc_unsigned c)) \<le> 16 \<and>
    sorted (uc_parents (sc_unsigned c)) \<and> distinct (uc_parents (sc_unsigned c)) \<and>
    (\<exists>body. decode_object_envelope C (uc_encrypted_body (sc_unsigned c)) = Inr body \<and>
      oe_vault_id body = uc_vault_id (sc_unsigned c) \<and> oe_object_type body = Commit)"
proof -
  obtain b where "encode_unsigned C X (sc_unsigned c) = Inr b"
    "validate_unsigned C (sc_unsigned c) = Inr ()" "commit_id_of X b = sc_commit_id c"
    using decode_signed_commit_sound [OF assms] by (auto elim: encode_signed_commit_Inr)
  then show ?thesis by (auto simp: validate_unsigned_Inr MAX_COMMIT_PARENTS_def)
qed

context sealed_format begin

lemma created_encodes:
  assumes wf: "wf_unsigned u" and key: "length key = 32" and created: "create_commit C X u key = Inr c"
  shows "\<exists>encoded. encode_signed_commit C X c = Inr encoded \<and> wf_commit c"
proof -
  obtain b where val: "validate_unsigned C u = Inr ()" and b: "encode_unsigned C X u = Inr b"
    and c: "sc_unsigned c = u" "sc_commit_id c = commit_id_of X b"
      "sc_signature c = ed25519_sign X key (commit_signature_context (commit_id_of X b))"
    using created by (auto simp: create_commit_def rbind_Inr_iff Let_def)
  have "length b \<le> 1000 + MAX_COMMIT_BODY_BYTES"
    using unsigned_size [OF wf b] val by (auto simp: validate_unsigned_Inr)
  moreover have "length (sc_commit_id c) = 32" "length (sc_signature c) = 64"
    using c length_blake3 [OF laws] length_sign [OF laws key] by (simp_all add: commit_id_of_def)
  ultimately have "length (e_map C 3 @ e_u8 C 0 @ e_bytes C b @ e_u8 C 1 @ e_bytes C (sc_commit_id c)
      @ e_u8 C 2 @ e_bytes C (sc_signature c)) \<le> MAX_SIGNED_COMMIT_BYTES"
    using head_sizes(2) [of 3] head_sizes(3) [of 0] head_sizes(3) [of 1] head_sizes(3) [of 2]
      head_sizes(8) [of b] head_sizes(8) [of "sc_commit_id c"] head_sizes(8) [of "sc_signature c"]
    by (simp add: MAX_COMMIT_BODY_BYTES_def MAX_SIGNED_COMMIT_BYTES_def)
  with val b c \<open>length (sc_signature c) = 64\<close> wf show ?thesis
    by (simp add: encode_signed_commit_def Let_def wf_commit_def)
qed

lemma created_verifies:
  assumes "length key = 32" and "create_commit C X u key = Inr c"
  shows "verify_signed_commit X c (ed25519_public X key) = Inr ()"
  using assms key_public [OF laws] verify_sign [OF laws]
  by (auto simp: create_commit_def rbind_Inr_iff Let_def verify_signed_commit_def)

end

text \<open>
  A commit made by \<open>SignedCommit::create\<close> encodes, decodes to itself and verifies under the
  public key of the signing device.
\<close>

theorem created_commit_accepted:
  assumes "sealed_format C X" and "wf_unsigned u" and "is_array 32 key"
    and "create_commit C X u key = Inr c"
  shows "\<exists>encoded. encode_signed_commit C X c = Inr encoded \<and>
    decode_signed_commit C X encoded = Inr c \<and>
    verify_signed_commit X c (ed25519_public X key) = Inr ()"
  using sealed_format.created_encodes [OF assms] sealed_format.signed_commit_law [OF assms(1)]
    sealed_format.created_verifies [OF assms(1,3,4)] by blast

definition sample_body :: bytes where
  "sample_body = (case encode_object_envelope rfc_cbor sample_envelope of Inr b \<Rightarrow> b | Inl _ \<Rightarrow> [])"

lemma decode_sample_body: "decode_object_envelope rfc_cbor sample_body = Inr sample_envelope"
proof -
  obtain b where b: "encode_object_envelope rfc_cbor sample_envelope = Inr b"
    by (simp add: encode_object_envelope_def)
  then show ?thesis
    using rfc.object_envelope_law [of b sample_envelope] wf_sample_envelope
    by (simp add: sample_body_def)
qed

lemma length_sample_body: "length sample_body \<le> 1000"
proof -
  obtain b where b: "encode_object_envelope rfc_cbor sample_envelope = Inr b"
    by (simp add: encode_object_envelope_def)
  from rfc.object_envelope_size [OF wf_sample_envelope b] b show ?thesis
    by (simp add: sample_body_def sample_envelope_def)
qed

definition sample_unsigned :: unsigned_commit where
  "sample_unsigned = \<lparr>uc_vault_id = replicate 16 1, uc_parents = [], uc_device_id = replicate 16 3,
     uc_device_sequence = 1, uc_encrypted_body = sample_body\<rparr>"

lemma validate_sample: "validate_unsigned rfc_cbor sample_unsigned = Inr ()"
  using length_sample_body decode_sample_body
  by (simp add: validate_unsigned_Inr sample_unsigned_def MAX_COMMIT_BODY_BYTES_def)
    (simp add: sample_envelope_def)

lemma wf_sample_unsigned: "wf_unsigned sample_unsigned"
  by (simp add: wf_unsigned_def sample_unsigned_def)

lemma sample_created:
  obtains c where "create_commit rfc_cbor plain_crypto sample_unsigned (replicate 32 7) = Inr c"
proof -
  have "fits64 (length (uc_encrypted_body sample_unsigned))"
    using length_sample_body by (intro fits64_small) (simp add: sample_unsigned_def)
  with that validate_sample show ?thesis
    by (simp add: create_commit_def encode_unsigned_def u64_try_from_def Let_def)
qed

theorem created_commit_accepted_witness:
  "\<exists>c encoded. create_commit rfc_cbor plain_crypto sample_unsigned (replicate 32 7) = Inr c \<and>
     decode_signed_commit rfc_cbor plain_crypto encoded = Inr c"
proof (rule sample_created)
  fix c
  assume c: "create_commit rfc_cbor plain_crypto sample_unsigned (replicate 32 7) = Inr c"
  from created_commit_accepted [OF plain.sealed_format_axioms wf_sample_unsigned _ c] c
  show ?thesis by auto
qed

lemma sample_encoding:
  obtains c encoded where "decode_signed_commit rfc_cbor plain_crypto encoded = Inr c"
    "wf_commit c" "encode_signed_commit rfc_cbor plain_crypto c = Inr encoded"
proof (rule sample_created)
  fix c
  assume c: "create_commit rfc_cbor plain_crypto sample_unsigned (replicate 32 7) = Inr c"
  from plain.created_encodes [OF wf_sample_unsigned _ c] obtain encoded where
    "encode_signed_commit rfc_cbor plain_crypto c = Inr encoded" "wf_commit c" by auto
  with that plain.signed_commit_law show ?thesis by blast
qed

theorem signed_commit_canonical_witness:
  "\<exists>c encoded. wf_commit c \<and> encode_signed_commit rfc_cbor plain_crypto c = Inr encoded \<and>
     decode_signed_commit rfc_cbor plain_crypto encoded = Inr c"
proof (rule sample_encoding)
  fix c encoded
  assume "wf_commit c" "encode_signed_commit rfc_cbor plain_crypto c = Inr encoded"
  with signed_commit_canonical [OF plain.sealed_format_axioms, of encoded c] show ?thesis by blast
qed

theorem decoded_commit_valid_witness:
  "\<exists>c encoded. decode_signed_commit rfc_cbor plain_crypto encoded = Inr c \<and>
     uc_device_sequence (sc_unsigned c) \<noteq> 0"
proof (rule sample_encoding)
  fix c encoded
  assume d: "decode_signed_commit rfc_cbor plain_crypto encoded = Inr c"
  from decoded_commit_valid [OF d] d show ?thesis by blast
qed

text \<open>
  C35. An identifier names one commit: two accepted records with the same identifier have the
  same unsigned part, unless the encodings of their unsigned parts collide under the labelled hash.
\<close>

theorem commit_id_binds:
  assumes "decode_signed_commit C X i = Inr c" and "decode_signed_commit C X j = Inr d"
    and "sc_commit_id c = sc_commit_id d"
    and "sealed_format C X"
  shows "sc_unsigned c = sc_unsigned d \<or>
    (\<exists>a b. encode_unsigned C X (sc_unsigned c) = Inr a \<and> encode_unsigned C X (sc_unsigned d) = Inr b \<and>
      a \<noteq> b \<and> blake3 X (COMMIT_ID_LABEL @ a) = blake3 X (COMMIT_ID_LABEL @ b))"
proof -
  note s = decode_signed_commit_sound [OF assms(1)] decode_signed_commit_sound [OF assms(2)]
  obtain a where a: "encode_unsigned C X (sc_unsigned c) = Inr a" "commit_id_of X a = sc_commit_id c"
    using s(1) by (auto elim: encode_signed_commit_Inr)
  obtain b where b: "encode_unsigned C X (sc_unsigned d) = Inr b" "commit_id_of X b = sc_commit_id d"
    using s(2) by (auto elim: encode_signed_commit_Inr)
  show ?thesis
  proof (cases "a = b")
    case True
    have wf: "wf_unsigned (sc_unsigned c)" "wf_unsigned (sc_unsigned d)"
      using s by (simp_all add: wf_commit_def)
    note dec = sealed_format.unsigned_decodes [OF assms(4)]
    have "Inr (sc_unsigned c) = (Inr (sc_unsigned d) :: versioning_error + unsigned_commit)"
      using dec [OF wf(1) a(1)] dec [OF wf(2) b(1)] True by (simp only:)
    then show ?thesis by simp
  next
    case False
    have "blake3 X (COMMIT_ID_LABEL @ a) = blake3 X (COMMIT_ID_LABEL @ b)"
      using a(2) b(2) assms(3) by (simp add: commit_id_of_def)
    with False a(1) b(1) show ?thesis by blast
  qed
qed

theorem commit_id_binds_witness:
  "\<exists>c encoded. decode_signed_commit rfc_cbor plain_crypto encoded = Inr c \<and>
     (sc_unsigned c = sc_unsigned c \<or>
      (\<exists>a b. encode_unsigned rfc_cbor plain_crypto (sc_unsigned c) = Inr a \<and>
        encode_unsigned rfc_cbor plain_crypto (sc_unsigned c) = Inr b \<and> a \<noteq> b \<and>
        blake3 plain_crypto (COMMIT_ID_LABEL @ a) = blake3 plain_crypto (COMMIT_ID_LABEL @ b)))"
proof (rule sample_encoding)
  fix c encoded
  assume d: "decode_signed_commit rfc_cbor plain_crypto encoded = Inr c"
  from commit_id_binds [OF d d refl plain.sealed_format_axioms] d show ?thesis by blast
qed

end
