(* ===== verification/Rate_Limit.thy ===== *)
theory Rate_Limit
  imports Prelude "HOL-Library.AList"
begin

text \<open>
  The handshake rate limiter of the server: \<open>crates/ll-server/src/rate_limit.rs\<close>. The hash map
  under the mutex is an association list with one entry per address; an operation takes the current
  instant, in nanoseconds, and the map, and returns the new map. An address is its octets.
  Time is the monotonic clock, whose differences saturate at zero as natural subtraction does.
\<close>

section \<open>The limiter\<close>

definition seconds :: "nat \<Rightarrow> nat" where "seconds n = n * 10 ^ 9"

definition WINDOW :: nat where "WINDOW = seconds 60"
definition MAX_HANDSHAKES_PER_WINDOW :: nat where "MAX_HANDSHAKES_PER_WINDOW = 30"
definition MAX_TRACKED_ADDRESSES :: nat where "MAX_TRACKED_ADDRESSES = 4096"
definition MAX_BACKOFF_SECONDS :: nat where "MAX_BACKOFF_SECONDS = 256"
definition ENTRY_RETENTION :: nat where "ENTRY_RETENTION = seconds 3600"

record rate_entry =
  re_window_started :: nat
  re_handshakes :: nat
  re_failed_authentications :: nat
  re_blocked_until :: nat
  re_last_seen :: nat

type_synonym rate_limiter = "(bytes \<times> rate_entry) list"

definition new_entry :: "nat \<Rightarrow> rate_entry" where
  "new_entry now = \<lparr>re_window_started = now, re_handshakes = 0, re_failed_authentications = 0,
     re_blocked_until = now, re_last_seen = now\<rparr>"

text \<open>\<open>retain\<close>, and \<open>entry(address).or_insert(..)\<close>.\<close>

definition retain_recent :: "nat \<Rightarrow> rate_limiter \<Rightarrow> rate_limiter" where
  "retain_recent now entries = filter (\<lambda>(_, e). now - re_last_seen e < ENTRY_RETENTION) entries"

definition entry_or_new :: "nat \<Rightarrow> bytes \<Rightarrow> rate_limiter \<Rightarrow> rate_entry" where
  "entry_or_new now address entries =
     (case map_of entries address of Some e \<Rightarrow> e | None \<Rightarrow> new_entry now)"

text \<open>What a handshake does to the address's entry once it has one.\<close>

definition enter_handshake :: "nat \<Rightarrow> rate_entry \<Rightarrow> bool \<times> rate_entry" where
  "enter_handshake now entry =
     (let e1 = entry\<lparr>re_last_seen := now\<rparr> in
      if now < re_blocked_until e1 then (False, e1)
      else
        let e2 = (if now - re_window_started e1 \<ge> WINDOW
                  then e1\<lparr>re_window_started := now, re_handshakes := 0\<rparr> else e1) in
        if re_handshakes e2 \<ge> MAX_HANDSHAKES_PER_WINDOW then (False, e2)
        else (True, e2\<lparr>re_handshakes := re_handshakes e2 + 1\<rparr>))"

definition allow_handshake :: "nat \<Rightarrow> bytes \<Rightarrow> rate_limiter \<Rightarrow> bool \<times> rate_limiter" where
  "allow_handshake now address entries =
     (let kept = retain_recent now entries in
      if map_of kept address = None \<and> length kept \<ge> MAX_TRACKED_ADDRESSES then (False, kept)
      else
        let (allowed, entry) = enter_handshake now (entry_or_new now address kept) in
        (allowed, AList.update address entry kept))"

definition fail_entry :: "nat \<Rightarrow> rate_entry \<Rightarrow> rate_entry" where
  "fail_entry now entry =
     (let failed = min 8 (min 255 (re_failed_authentications entry + 1));
          delay = 2 ^ (failed - 1) in
      entry\<lparr>re_failed_authentications := failed,
        re_blocked_until := now + seconds (min delay MAX_BACKOFF_SECONDS), re_last_seen := now\<rparr>)"

definition record_authentication_failure :: "nat \<Rightarrow> bytes \<Rightarrow> rate_limiter \<Rightarrow> rate_limiter" where
  "record_authentication_failure now address entries =
     AList.update address (fail_entry now (entry_or_new now address entries)) entries"

definition record_authentication_success :: "nat \<Rightarrow> bytes \<Rightarrow> rate_limiter \<Rightarrow> rate_limiter" where
  "record_authentication_success now address entries =
     (case map_of entries address of
        None \<Rightarrow> entries
      | Some entry \<Rightarrow> AList.update address
          (entry\<lparr>re_failed_authentications := 0, re_blocked_until := now, re_last_seen := now\<rparr>) entries)"

lemmas rate_limits = WINDOW_def MAX_HANDSHAKES_PER_WINDOW_def MAX_TRACKED_ADDRESSES_def
  MAX_BACKOFF_SECONDS_def ENTRY_RETENTION_def seconds_def

section \<open>Lookups after each operation\<close>

lemma map_of_retain:
  "distinct (map fst entries) \<Longrightarrow> map_of (retain_recent now entries) a =
     (case map_of entries a of
        Some e \<Rightarrow> if now - re_last_seen e < ENTRY_RETENTION then Some e else None
      | None \<Rightarrow> None)"
  unfolding retain_recent_def by (rule map_of_filter_values)

lemma retain_distinct: "distinct (map fst entries) \<Longrightarrow> distinct (map fst (retain_recent now entries))"
  by (simp add: retain_recent_def distinct_map_filter)

lemma length_retain: "length (retain_recent now entries) \<le> length entries"
  by (simp add: retain_recent_def)

lemma limiter_distinct:
  assumes "distinct (map fst entries)"
  shows "distinct (map fst (snd (allow_handshake now a entries)))"
    and "distinct (map fst (record_authentication_failure now a entries))"
    and "distinct (map fst (record_authentication_success now a entries))"
  using assms retain_distinct [OF assms, of now]
  by (auto simp: allow_handshake_def record_authentication_failure_def distinct_update
      record_authentication_success_def Let_def split: prod.splits option.splits)

text \<open>A handshake of one address leaves the other addresses alone, up to forgetting stale ones.\<close>

lemma allow_handshake_other:
  "a \<noteq> b \<Longrightarrow> map_of (snd (allow_handshake now b entries)) a = map_of (retain_recent now entries) a"
  by (simp add: allow_handshake_def Let_def split_beta update_conv')

lemma allow_handshake_self:
  assumes "allow_handshake now a entries = (allowed, entries')"
  shows "\<not> allowed \<and> map_of entries' a = None \<or>
    (\<exists>e. map_of entries' a = Some e \<and>
       enter_handshake now (entry_or_new now a (retain_recent now entries)) = (allowed, e))"
  using assms by (auto simp: allow_handshake_def Let_def update_conv' split: if_splits prod.splits)

lemma failure_self:
  "map_of (record_authentication_failure now b entries) a =
     (if a = b then Some (fail_entry now (entry_or_new now a entries)) else map_of entries a)"
  by (simp add: record_authentication_failure_def update_conv')

lemma success_other:
  "a \<noteq> b \<Longrightarrow> map_of (record_authentication_success now b entries) a = map_of entries a"
  by (simp add: record_authentication_success_def update_conv' split: option.split)

end
