(* ===== verification/Session_Store.thy ===== *)
theory Session_Store
  imports Rate_Limit
begin

text \<open>
  Sessions and the session table: \<open>crates/ll-server/src/session.rs\<close>. A session is a shared object:
  the table maps a handle to a reference with an expiry, and a request that looked a session up
  holds the reference, not a copy. References are positions in the list of all objects ever created,
  so an object outlives its table entry as it does under \<open>Arc\<close>. The Noise transport of a
  session is a state of the abstract crate.
\<close>

definition MAX_SESSIONS :: nat where "MAX_SESSIONS = 1024"
definition SESSION_LIFETIME :: nat where "SESSION_LIFETIME = seconds 1800"
definition MAX_SESSION_MESSAGES :: nat where "MAX_SESSION_MESSAGES = 10000"

datatype session_phase = AwaitingPassword | PasswordAuthenticated | DeviceAuthenticated bytes

record 't session =
  ss_peer_ip :: bytes
  ss_transport :: 't
  ss_authentication_context :: bytes
  ss_phase :: session_phase
  ss_next_client_sequence :: u64
  ss_next_server_sequence :: u64
  ss_message_count :: u64

definition password_authenticated :: "('t, 'm) session_scheme \<Rightarrow> bool" where
  "password_authenticated s = (case ss_phase s of AwaitingPassword \<Rightarrow> False | _ \<Rightarrow> True)"

record stored_session =
  sn_session :: nat
  sn_expires_at :: nat

record 't session_store =
  sr_sessions :: "(bytes \<times> stored_session) list"
  sr_objects :: "'t session list"

definition retain_live :: "nat \<Rightarrow> (bytes \<times> stored_session) list \<Rightarrow> (bytes \<times> stored_session) list" where
  "retain_live now sessions = filter (\<lambda>(_, s). now < sn_expires_at s) sessions"

definition insert_session :: "nat \<Rightarrow> bytes \<Rightarrow> 't session \<Rightarrow> 't session_store \<Rightarrow> bool \<times> 't session_store" where
  "insert_session now handle session S =
     (let live = retain_live now (sr_sessions S); S1 = S\<lparr>sr_sessions := live\<rparr> in
      if length live \<ge> MAX_SESSIONS \<or> map_of live handle \<noteq> None then (False, S1)
      else (True, S1\<lparr>sr_objects := sr_objects S @ [session],
             sr_sessions := AList.update handle
               \<lparr>sn_session = length (sr_objects S), sn_expires_at = now + SESSION_LIFETIME\<rparr> live\<rparr>))"

definition get_session :: "nat \<Rightarrow> bytes \<Rightarrow> 't session_store \<Rightarrow> nat option \<times> 't session_store" where
  "get_session now handle S =
     (let live = retain_live now (sr_sessions S) in
      (map_option sn_session (map_of live handle), S\<lparr>sr_sessions := live\<rparr>))"

definition remove_session :: "bytes \<Rightarrow> 't session_store \<Rightarrow> 't session_store" where
  "remove_session handle S = S\<lparr>sr_sessions := AList.delete handle (sr_sessions S)\<rparr>"

text \<open>
  The guard of a request in flight: dropping it while armed removes the session, whether the
  request failed or was cancelled.
\<close>

record cancellation_guard =
  cg_handle :: bytes
  cg_armed :: bool

definition new_guard :: "bytes \<Rightarrow> cancellation_guard" where
  "new_guard handle = \<lparr>cg_handle = handle, cg_armed = True\<rparr>"

definition disarm :: "cancellation_guard \<Rightarrow> cancellation_guard" where
  "disarm g = g\<lparr>cg_armed := False\<rparr>"

definition drop_guard :: "cancellation_guard \<Rightarrow> 't session_store \<Rightarrow> 't session_store" where
  "drop_guard g S = (if cg_armed g then remove_session (cg_handle g) S else S)"

section \<open>The table invariant\<close>

definition store_inv :: "('t, 'm) session_store_scheme \<Rightarrow> bool" where
  "store_inv S \<longleftrightarrow> distinct (map fst (sr_sessions S)) \<and> length (sr_sessions S) \<le> MAX_SESSIONS \<and>
     (\<forall>(h, s) \<in> set (sr_sessions S). sn_session s < length (sr_objects S)) \<and>
     distinct (map (sn_session \<circ> snd) (sr_sessions S))"

lemma store_invD:
  assumes "store_inv S"
  shows "distinct (map fst (sr_sessions S))" and "length (sr_sessions S) \<le> MAX_SESSIONS"
    and "(h, s) \<in> set (sr_sessions S) \<Longrightarrow> sn_session s < length (sr_objects S)"
    and "distinct (map (sn_session \<circ> snd) (sr_sessions S))"
  using assms by (auto simp: store_inv_def)

lemma store_inv_filter:
  assumes "store_inv S"
  shows "store_inv (S\<lparr>sr_sessions := filter P (sr_sessions S)\<rparr>)"
proof -
  have "length (filter P (sr_sessions S)) \<le> MAX_SESSIONS"
    using length_filter_le [of P "sr_sessions S"] store_invD(2) [OF assms] by (rule order_trans)
  with assms show ?thesis by (auto simp: store_inv_def distinct_map_filter)
qed

lemma delete_eq_filter: "AList.delete k xs = filter (\<lambda>(k', v). k' \<noteq> k) xs"
  unfolding AList.delete_eq split_def by (rule filter_cong) auto

lemma remove_session_inv: "store_inv S \<Longrightarrow> store_inv (remove_session h S)"
  by (simp add: remove_session_def delete_eq_filter store_inv_filter)

lemma drop_guard_inv: "store_inv S \<Longrightarrow> store_inv (drop_guard g S)"
  by (simp add: drop_guard_def remove_session_inv)

lemma get_session_inv:
  "store_inv S \<Longrightarrow> get_session now h S = (r, S') \<Longrightarrow> store_inv S' \<and> sr_objects S' = sr_objects S \<and>
     (\<forall>i. r = Some i \<longrightarrow> i < length (sr_objects S))"
  using store_inv_filter [of S "\<lambda>(_, s). now < sn_expires_at s"]
  by (auto simp: get_session_def Let_def retain_live_def store_inv_def dest!: map_of_SomeD)

lemma update_new: "map_of xs k = None \<Longrightarrow> AList.update k v xs = xs @ [(k, v)]"
  by (induction xs) (auto split: if_splits)

lemma insert_session_inv:
  assumes inv: "store_inv S" and run: "insert_session now h s S = (ok, S')"
  shows "store_inv S'"
proof -
  let ?live = "retain_live now (sr_sessions S)"
  have live: "store_inv (S\<lparr>sr_sessions := ?live\<rparr>)"
    unfolding retain_live_def by (rule store_inv_filter [OF inv])
  show ?thesis
  proof (cases "length ?live \<ge> MAX_SESSIONS \<or> map_of ?live h \<noteq> None")
    case False
    then have S': "S' = S\<lparr>sr_sessions := ?live @ [(h, \<lparr>sn_session = length (sr_objects S),
        sn_expires_at = now + SESSION_LIFETIME\<rparr>)], sr_objects := sr_objects S @ [s]\<rparr>"
      using run by (auto simp: insert_session_def Let_def update_new)
    have "h \<notin> fst ` set ?live" using False by (auto simp: map_of_eq_None_iff)
    with live False show ?thesis
      unfolding S' by (auto simp: store_inv_def less_Suc_eq)
  qed (use run live in \<open>auto simp: insert_session_def Let_def\<close>)
qed

end
