(* ===== verification/Storage_State.thy ===== *)
theory Storage_State
  imports Crypto_Primitives "HOL-Library.AList"
begin

text \<open>
  The durable state of the server: \<open>crates/ll-server/src/storage/mod.rs\<close>, the tables of
  \<open>storage/schema.rs\<close> and the errors of \<open>error.rs\<close>. A table is the list of its rows in insertion
  order: SELECT of a key is \<open>find\<close>, COUNT the length of a filter, UPDATE a map, DELETE a filter, ORDER BY a
  \<open>sort_key\<close>. The data directory is an association list from paths, relative to it,
  to contents. An operation takes the state and returns its result with the new state; a
  transaction that is not committed leaves the state as it was. SQLite and the file
  system do what they are asked: of their failures only those that follow from the
  modelled state (an absent file, a file that already exists) are branches of the model.
  Clock, disk space, fresh identifiers and randomness are arguments.
\<close>

section \<open>Errors\<close>

datatype storage_error =
    SE_Database | SE_Io | SE_Join | SE_CorruptMetadata | SE_DeviceNotFound | SE_DeviceRevoked
  | SE_UploadNotFound | SE_BlobNotFound | SE_OffsetMismatch | SE_LimitExceeded
  | SE_InsufficientStorage | SE_IntegrityFailure | SE_MissingParent | SE_CommitNotFound
  | SE_CommitConflict | SE_VaultKeyEnvelopeNotFound | SE_VaultKeyEnvelopeConflict
  | SE_InvalidCommit | SE_PasswordMismatch | SE_Crypto crypto_error

fun protocol_code :: "storage_error \<Rightarrow> error_code" where
  "protocol_code SE_DeviceNotFound = EC_DeviceNotFound"
| "protocol_code SE_DeviceRevoked = EC_DeviceRevoked"
| "protocol_code SE_UploadNotFound = EC_UploadNotFound"
| "protocol_code SE_BlobNotFound = EC_BlobNotFound"
| "protocol_code SE_OffsetMismatch = EC_SequenceMismatch"
| "protocol_code SE_InvalidCommit = EC_SequenceMismatch"
| "protocol_code SE_LimitExceeded = EC_RequestTooLarge"
| "protocol_code SE_InsufficientStorage = EC_InsufficientStorage"
| "protocol_code SE_IntegrityFailure = EC_IntegrityFailure"
| "protocol_code SE_CorruptMetadata = EC_IntegrityFailure"
| "protocol_code SE_MissingParent = EC_MissingParent"
| "protocol_code SE_CommitNotFound = EC_CommitNotFound"
| "protocol_code SE_CommitConflict = EC_CommitConflict"
| "protocol_code SE_VaultKeyEnvelopeNotFound = EC_VaultKeyEnvelopeNotFound"
| "protocol_code SE_VaultKeyEnvelopeConflict = EC_VaultKeyEnvelopeConflict"
| "protocol_code SE_PasswordMismatch = EC_AuthenticationFailed"
| "protocol_code SE_Database = EC_TemporarilyUnavailable"
| "protocol_code SE_Io = EC_TemporarilyUnavailable"
| "protocol_code SE_Join = EC_TemporarilyUnavailable"
| "protocol_code (SE_Crypto e) = EC_TemporarilyUnavailable"

section \<open>Tables and files\<close>

record device_row =
  dv_device_id :: bytes
  dv_public_key :: bytes
  dv_encrypted_name :: bytes
  dv_registered_at :: int
  dv_revoked_at :: "int option"

record blob_row =
  bl_blob_id :: bytes
  bl_ciphertext_size :: nat
  bl_created_at :: int

record upload_row =
  up_upload_id :: bytes
  up_device_id :: bytes
  up_expected_size :: nat
  up_expected_hash :: bytes
  up_received_size :: nat
  up_created_at :: int

record commit_row =
  co_commit_id :: bytes
  co_vault_id :: bytes
  co_device_id :: bytes
  co_device_sequence :: nat
  co_generation :: nat
  co_signed_record :: bytes
  co_inserted_at :: int

record storage =
  st_vault_id :: bytes
  st_metadata :: "(string \<times> bytes) list"
  st_devices :: "device_row list"
  st_blobs :: "blob_row list"
  st_uploads :: "upload_row list"
  st_commits :: "commit_row list"
  st_commit_parents :: "(bytes \<times> bytes) list" \<comment> \<open>commit, parent\<close>
  st_heads :: "(bytes \<times> bytes) list" \<comment> \<open>vault, commit\<close>
  st_files :: "(string \<times> bytes) list"

type_synonym 'a st_result = "(storage_error + 'a) \<times> storage"

abbreviation file_at :: "storage \<Rightarrow> string \<Rightarrow> bytes option" where
  "file_at st \<equiv> map_of (st_files st)"

text \<open>Writing or removing one file.\<close>

definition put_file :: "string \<Rightarrow> bytes \<Rightarrow> storage \<Rightarrow> storage" where
  "put_file path contents st = st\<lparr>st_files := AList.update path contents (st_files st)\<rparr>"

definition remove_file :: "string \<Rightarrow> storage \<Rightarrow> storage" where
  "remove_file path st = st\<lparr>st_files := AList.delete path (st_files st)\<rparr>"

text \<open>A 64-bit signed column holds the values below \<open>2^63\<close>.\<close>

definition i64_try_from :: "nat \<Rightarrow> storage_error + nat" where
  "i64_try_from n = (if n < 2 ^ 63 then Inr n else Inl SE_LimitExceeded)"

definition i64_checked_succ :: "nat \<Rightarrow> nat option" where
  "i64_checked_succ n = (if n + 1 < 2 ^ 63 then Some (n + 1) else None)"

section \<open>Metadata\<close>

definition META_VAULT_KEY_ENVELOPE :: string where
  "META_VAULT_KEY_ENVELOPE = ''vault_key_envelope''"

definition get_meta :: "storage \<Rightarrow> string \<Rightarrow> bytes option" where
  "get_meta st key = map_of (st_metadata st) key"

definition set_meta :: "string \<Rightarrow> bytes \<Rightarrow> storage \<Rightarrow> storage" where
  "set_meta key value st = st\<lparr>st_metadata := AList.update key value (st_metadata st)\<rparr>"

definition put_vault_key_envelope :: "bytes \<Rightarrow> storage \<Rightarrow> unit st_result" where
  "put_vault_key_envelope envelope st =
     (if envelope = [] \<or> length envelope > MAX_VAULT_KEY_ENVELOPE_BYTES then (Inl SE_LimitExceeded, st)
      else case get_meta st META_VAULT_KEY_ENVELOPE of
        Some existing \<Rightarrow>
          if existing = envelope then (Inr (), st) else (Inl SE_VaultKeyEnvelopeConflict, st)
      | None \<Rightarrow> (Inr (), set_meta META_VAULT_KEY_ENVELOPE envelope st))"

definition vault_key_envelope :: "storage \<Rightarrow> storage_error + bytes" where
  "vault_key_envelope st = ok_or SE_VaultKeyEnvelopeNotFound (get_meta st META_VAULT_KEY_ENVELOPE)"

section \<open>Devices\<close>

record stored_device =
  sd_device_id :: bytes
  sd_public_key :: bytes
  sd_encrypted_name :: bytes
  sd_revoked :: bool

definition device_row_of :: "storage \<Rightarrow> bytes \<Rightarrow> device_row option" where
  "device_row_of st device_id = find (\<lambda>r. dv_device_id r = device_id) (st_devices st)"

definition get_device :: "storage \<Rightarrow> bytes \<Rightarrow> storage_error + stored_device" where
  "get_device st device_id =
     (case device_row_of st device_id of
        None \<Rightarrow> Inl SE_DeviceNotFound
      | Some r \<Rightarrow>
          if length (dv_public_key r) \<noteq> 32 then Inl SE_CorruptMetadata
          else Inr \<lparr>sd_device_id = device_id, sd_public_key = dv_public_key r,
                    sd_encrypted_name = dv_encrypted_name r, sd_revoked = (dv_revoked_at r \<noteq> None)\<rparr>)"

text \<open>The upsert: a row with the identifier is overwritten, revocation cleared.\<close>

definition register_device :: "int \<Rightarrow> bytes \<Rightarrow> bytes \<Rightarrow> bytes \<Rightarrow> storage \<Rightarrow> unit st_result" where
  "register_device now device_id public_key encrypted_name st =
     (let row = \<lparr>dv_device_id = device_id, dv_public_key = public_key,
           dv_encrypted_name = encrypted_name, dv_registered_at = now, dv_revoked_at = None\<rparr> in
      if device_row_of st device_id = None
      then (Inr (), st\<lparr>st_devices := st_devices st @ [row]\<rparr>)
      else (Inr (), st\<lparr>st_devices :=
             map (\<lambda>r. if dv_device_id r = device_id then row else r) (st_devices st)\<rparr>))"

fun device_records :: "device_row list \<Rightarrow> storage_error + device_record list" where
  "device_records [] = Inr []"
| "device_records (r # rs) =
     (if length (dv_device_id r) \<noteq> 16 \<or> length (dv_public_key r) \<noteq> 32 then Inl SE_CorruptMetadata
      else rmap (\<lambda>ds. \<lparr>dr_device_id = dv_device_id r, dr_public_key = dv_public_key r,
             dr_encrypted_name = dv_encrypted_name r, dr_revoked = (dv_revoked_at r \<noteq> None)\<rparr> # ds)
             (device_records rs))"

definition list_devices :: "storage \<Rightarrow> storage_error + device_record list" where
  "list_devices st = device_records (sort_key dv_device_id (st_devices st))"

definition revoke_device :: "int \<Rightarrow> bytes \<Rightarrow> storage \<Rightarrow> unit st_result" where
  "revoke_device now device_id st =
     (let hit = (\<lambda>r. dv_device_id r = device_id \<and> dv_revoked_at r = None) in
      if length (filter hit (st_devices st)) = 0 then (Inl SE_DeviceNotFound, st)
      else (Inr (), st\<lparr>st_devices :=
             map (\<lambda>r. if hit r then r\<lparr>dv_revoked_at := Some now\<rparr> else r) (st_devices st)\<rparr>))"

definition require_active_device :: "storage \<Rightarrow> bytes \<Rightarrow> storage_error + stored_device" where
  "require_active_device st device_id =
     rbind (get_device st device_id) (\<lambda>device.
       if sd_revoked device then Inl SE_DeviceRevoked else Inr device)"

section \<open>Device facts\<close>

definition devices_wf :: "storage \<Rightarrow> bool" where
  "devices_wf st \<longleftrightarrow> distinct (map dv_device_id (st_devices st)) \<and>
     (\<forall>r \<in> set (st_devices st). is_array 16 (dv_device_id r) \<and> is_array 32 (dv_public_key r))"

definition active :: "storage \<Rightarrow> bytes \<Rightarrow> bool" where
  "active st device_id \<longleftrightarrow>
     (\<exists>r. device_row_of st device_id = Some r \<and> dv_revoked_at r = None)"

lemma device_row_of_iff:
  "devices_wf st \<Longrightarrow> device_row_of st i = Some r \<longleftrightarrow> r \<in> set (st_devices st) \<and> dv_device_id r = i"
proof
  assume wf: "devices_wf st" and "r \<in> set (st_devices st) \<and> dv_device_id r = i"
  then have r: "r \<in> set (st_devices st)" "dv_device_id r = i" by auto
  then obtain s where s: "device_row_of st i = Some s"
    by (cases "device_row_of st i") (auto simp: device_row_of_def find_None_iff)
  then have "s \<in> set (st_devices st)" "dv_device_id s = i"
    by (auto simp: device_row_of_def dest: find_Some_iff_mem)
  with r wf have "s = r" by (simp add: devices_wf_def distinct_map inj_on_def)
  with s show "device_row_of st i = Some r" by simp
qed (auto simp: device_row_of_def dest: find_Some_iff_mem)

lemma device_row_key: "devices_wf st \<Longrightarrow> device_row_of st i = Some r \<Longrightarrow> length (dv_public_key r) = 32"
  by (simp add: device_row_of_iff devices_wf_def)

lemma require_active_device_Inr:
  assumes "devices_wf st"
  shows "(\<exists>d. require_active_device st i = Inr d) \<longleftrightarrow> active st i"
proof (cases "device_row_of st i")
  case (Some r)
  with device_row_key [OF assms Some] show ?thesis
    by (simp add: require_active_device_def get_device_def active_def)
qed (simp add: require_active_device_def get_device_def active_def)

lemma require_active_device_fields:
  "require_active_device st i = Inr d \<Longrightarrow> \<exists>r. device_row_of st i = Some r \<and>
     dv_revoked_at r = None \<and> sd_public_key d = dv_public_key r \<and> sd_device_id d = i"
  by (auto simp: require_active_device_def get_device_def rbind_Inr_iff split: option.splits if_splits)

lemma require_active_device_Inl:
  assumes "devices_wf st" and "\<not> active st i"
  shows "require_active_device st i =
    Inl (if device_row_of st i = None then SE_DeviceNotFound else SE_DeviceRevoked)"
proof (cases "device_row_of st i")
  case (Some r)
  with device_row_key [OF assms(1) Some] assms(2) show ?thesis
    by (simp add: require_active_device_def get_device_def active_def)
qed (simp add: require_active_device_def get_device_def)

text \<open>What registration and revocation do to the device table, seen through lookups.\<close>

lemma find_append_None: "find P xs = None \<Longrightarrow> find P (xs @ ys) = find P ys"
  by (induction xs) (auto split: if_splits)

lemma find_append_Some: "find P xs = Some x \<Longrightarrow> find P (xs @ ys) = Some x"
  by (induction xs) (auto split: if_splits)

lemma find_map_same_key:
  "(\<And>r. dv_device_id (f r) = dv_device_id r) \<Longrightarrow>
     find (\<lambda>r. dv_device_id r = i) (map f rs) = map_option f (find (\<lambda>r. dv_device_id r = i) rs)"
  by (induction rs) auto

lemma register_device_row:
  assumes "register_device now i k n st = (res, st')"
  shows "device_row_of st' j =
    (if j = i then Some \<lparr>dv_device_id = i, dv_public_key = k, dv_encrypted_name = n,
       dv_registered_at = now, dv_revoked_at = None\<rparr> else device_row_of st j) \<and> res = Inr ()"
proof (cases "device_row_of st i")
  case None
  then have st': "st_devices st' = st_devices st @ [\<lparr>dv_device_id = i, dv_public_key = k,
      dv_encrypted_name = n, dv_registered_at = now, dv_revoked_at = None\<rparr>]" and "res = Inr ()"
    using assms by (auto simp: register_device_def)
  with None show ?thesis
    by (cases "device_row_of st j")
      (auto simp: device_row_of_def find_append_None find_append_Some)
next
  case (Some r)
  let ?row = "\<lparr>dv_device_id = i, dv_public_key = k, dv_encrypted_name = n,
      dv_registered_at = now, dv_revoked_at = None\<rparr>"
  have "st_devices st' = map (\<lambda>r. if dv_device_id r = i then ?row else r) (st_devices st)"
    and "res = Inr ()" using assms Some by (auto simp: register_device_def)
  then show ?thesis
    using Some find_map_same_key [of "\<lambda>r. if dv_device_id r = i then ?row else r" j "st_devices st"]
    by (auto simp: device_row_of_def map_option_case split: option.splits dest: find_Some_iff_mem)
qed

lemma devices_wf_map:
  assumes "devices_wf st" and "\<And>r. dv_device_id (f r) = dv_device_id r"
    and "\<And>r. is_array 32 (dv_public_key r) \<Longrightarrow> is_array 32 (dv_public_key (f r))"
    and "st_devices st' = map f (st_devices st)"
  shows "devices_wf st'"
proof -
  have "dv_device_id \<circ> f = dv_device_id" using assms(2) by (simp add: fun_eq_iff)
  with assms show ?thesis by (auto simp: devices_wf_def)
qed

lemma register_device_wf:
  assumes "devices_wf st" "register_device now i k n st = (res, st')" "is_array 16 i" "is_array 32 k"
  shows "devices_wf st'"
proof (cases "device_row_of st i")
  case None
  then have "i \<notin> dv_device_id ` set (st_devices st)"
    by (auto simp: device_row_of_def find_None_iff)
  then show ?thesis using None assms by (auto simp: register_device_def devices_wf_def)
next
  case (Some r)
  let ?row = "\<lparr>dv_device_id = i, dv_public_key = k, dv_encrypted_name = n,
      dv_registered_at = now, dv_revoked_at = None\<rparr>"
  have "st_devices st' = map (\<lambda>r. if dv_device_id r = i then ?row else r) (st_devices st)"
    using assms(2) Some by (auto simp: register_device_def)
  then show ?thesis by (rule devices_wf_map [OF assms(1), rotated 2]) (use assms(4) in simp_all)
qed

lemma revoke_device_row:
  assumes "devices_wf st" "revoke_device now i st = (Inr u, st')"
  shows "active st i \<and> device_row_of st' j = map_option
    (\<lambda>r. if j = i then r\<lparr>dv_revoked_at := Some now\<rparr> else r) (device_row_of st j)"
proof -
  let ?f = "\<lambda>r. if dv_device_id r = i \<and> dv_revoked_at r = None then r\<lparr>dv_revoked_at := Some now\<rparr> else r"
  have hit: "\<exists>r \<in> set (st_devices st). dv_device_id r = i \<and> dv_revoked_at r = None"
    and st': "st_devices st' = map ?f (st_devices st)"
    using assms(2) by (auto simp: revoke_device_def Let_def filter_empty_conv split: if_splits)
  from hit obtain r where r: "device_row_of st i = Some r" "dv_revoked_at r = None"
    using device_row_of_iff [OF assms(1)] by blast
  have "device_row_of st' j = map_option ?f (device_row_of st j)"
    unfolding device_row_of_def st' by (rule find_map_same_key) simp
  also have "\<dots> = map_option (\<lambda>r. if j = i then r\<lparr>dv_revoked_at := Some now\<rparr> else r) (device_row_of st j)"
    using r by (cases "device_row_of st j") (auto simp: device_row_of_def dest: find_Some_iff_mem)
  finally show ?thesis using r by (auto simp: active_def)
qed

lemma revoke_device_wf:
  assumes "devices_wf st" "revoke_device now i st = (res, st')"
  shows "devices_wf st'"
proof -
  let ?f = "\<lambda>r. if dv_device_id r = i \<and> dv_revoked_at r = None then r\<lparr>dv_revoked_at := Some now\<rparr> else r"
  have "st_devices st' = st_devices st \<or> st_devices st' = map ?f (st_devices st)"
    using assms(2) by (auto simp: revoke_device_def Let_def split: if_splits)
  then show ?thesis
  proof
    assume "st_devices st' = map ?f (st_devices st)"
    then show ?thesis by (rule devices_wf_map [OF assms(1), rotated 2]) simp_all
  qed (use assms(1) in \<open>simp add: devices_wf_def\<close>)
qed

end
