(* ===== verification/Storage_Blobs.thy ===== *)
theory Storage_Blobs
  imports Storage_State
begin

text \<open>
  Resumable uploads and ciphertext blobs: \<open>crates/ll-server/src/storage/blob.rs\<close>. An
  operation that touches the file system before its transaction commits is the composition
  of a file step and a database step, so that a crash between the two is a state of the model. The
  upload lock makes each operation atomic with respect to others on the same upload.
\<close>

section \<open>Limits, paths and rows\<close>

definition MINIMUM_FREE_DISK_BYTES :: nat where "MINIMUM_FREE_DISK_BYTES = 64 * 1024 * 1024"
definition MAX_ACTIVE_UPLOADS :: nat where "MAX_ACTIVE_UPLOADS = 1024"
definition MAX_ACTIVE_UPLOADS_PER_DEVICE :: nat where "MAX_ACTIVE_UPLOADS_PER_DEVICE = 32"

definition upload_path :: "bytes \<Rightarrow> string" where
  "upload_path upload_id = ''uploads/'' @ hex_encode upload_id @ ''.part''"

definition object_path :: "bytes \<Rightarrow> string" where
  "object_path blob_id =
     (let encoded = hex_encode blob_id in ''objects/'' @ take 2 encoded @ ''/'' @ encoded)"

record upload_record =
  ur_upload_id :: bytes
  ur_expected_size :: nat
  ur_expected_hash :: bytes
  ur_received_size :: nat

definition load_upload :: "storage \<Rightarrow> bytes \<Rightarrow> bytes \<Rightarrow> storage_error + upload_record" where
  "load_upload st upload_id device_id =
     (case find (\<lambda>r. up_upload_id r = upload_id \<and> up_device_id r = device_id) (st_uploads st) of
        None \<Rightarrow> Inl SE_UploadNotFound
      | Some r \<Rightarrow>
          if length (up_expected_hash r) \<noteq> 32 then Inl SE_CorruptMetadata
          else Inr \<lparr>ur_upload_id = upload_id, ur_expected_size = up_expected_size r,
                    ur_expected_hash = up_expected_hash r, ur_received_size = up_received_size r\<rparr>)"

definition verify_file :: "crypto \<Rightarrow> storage \<Rightarrow> string \<Rightarrow> nat \<Rightarrow> bytes \<Rightarrow> storage_error + unit" where
  "verify_file X st path expected_size expected_hash =
     (case file_at st path of
        None \<Rightarrow> Inl SE_Io
      | Some contents \<Rightarrow>
          if length contents \<noteq> expected_size then Inl SE_IntegrityFailure
          else if blake3 X contents \<noteq> expected_hash then Inl SE_IntegrityFailure
          else Inr ())"

section \<open>Beginning an upload\<close>

text \<open>The columns of \<open>uploads\<close> that must be unique.\<close>

definition upload_insert_fails :: "storage \<Rightarrow> upload_row \<Rightarrow> bool" where
  "upload_insert_fails st row \<longleftrightarrow>
     (\<exists>r \<in> set (st_uploads st). up_upload_id r = up_upload_id row \<or>
        up_device_id r = up_device_id row \<and> up_expected_size r = up_expected_size row \<and>
        up_expected_hash r = up_expected_hash row) \<or>
     device_row_of st (up_device_id row) = None"

definition begin_upload ::
  "nat option \<Rightarrow> bytes \<Rightarrow> int \<Rightarrow> bytes \<Rightarrow> nat \<Rightarrow> bytes \<Rightarrow> storage \<Rightarrow> (bytes \<times> nat) st_result" where
  "begin_upload available upload_id now device_id expected_size expected_hash st =
     (if expected_size > MAX_OBJECT_BYTES then (Inl SE_LimitExceeded, st)
      else case require_active_device st device_id of
        Inl e \<Rightarrow> (Inl e, st)
      | Inr _ \<Rightarrow>
      (case available of
        None \<Rightarrow> (Inl SE_Io, st)
      | Some free \<Rightarrow>
        if free < min (expected_size + MINIMUM_FREE_DISK_BYTES) (2 ^ 64 - 1)
        then (Inl SE_InsufficientStorage, st)
        else case find (\<lambda>r. up_device_id r = device_id \<and> up_expected_size r = expected_size \<and>
                    up_expected_hash r = expected_hash) (st_uploads st) of
          Some r \<Rightarrow>
            if length (up_upload_id r) \<noteq> 16 then (Inl SE_CorruptMetadata, st)
            else (Inr (up_upload_id r, up_received_size r), st)
        | None \<Rightarrow>
            if length (st_uploads st) \<ge> MAX_ACTIVE_UPLOADS \<or>
               length (filter (\<lambda>r. up_device_id r = device_id) (st_uploads st))
                 \<ge> MAX_ACTIVE_UPLOADS_PER_DEVICE
            then (Inl SE_LimitExceeded, st)
            else if file_at st (upload_path upload_id) \<noteq> None then (Inl SE_Io, st)
            else
              let st1 = put_file (upload_path upload_id) [] st;
                  row = \<lparr>up_upload_id = upload_id, up_device_id = device_id,
                         up_expected_size = expected_size, up_expected_hash = expected_hash,
                         up_received_size = 0, up_created_at = now\<rparr> in
              if upload_insert_fails st1 row
              then (Inl SE_Database, remove_file (upload_path upload_id) st1)
              else (Inr (upload_id, 0), st1\<lparr>st_uploads := st_uploads st1 @ [row]\<rparr>)))"

section \<open>Appending a chunk\<close>

text \<open>Truncate a longer file to the durable offset, then write the chunk there.\<close>

definition append_file :: "bytes \<Rightarrow> nat \<Rightarrow> bytes \<Rightarrow> storage \<Rightarrow> unit st_result" where
  "append_file upload_id offset chunk st =
     (case file_at st (upload_path upload_id) of
        None \<Rightarrow> (Inl SE_Io, st)
      | Some contents \<Rightarrow>
          if length contents < offset then (Inl SE_IntegrityFailure, st)
          else (Inr (), put_file (upload_path upload_id) (take offset contents @ chunk) st))"

definition append_record :: "bytes \<Rightarrow> nat \<Rightarrow> nat \<Rightarrow> storage \<Rightarrow> nat st_result" where
  "append_record upload_id offset new_offset st =
     (let hit = (\<lambda>r. up_upload_id r = upload_id \<and> up_received_size r = offset) in
      case rbind (i64_try_from offset) (\<lambda>_. i64_try_from new_offset) of
        Inl e \<Rightarrow> (Inl e, st)
      | Inr _ \<Rightarrow>
          if length (filter hit (st_uploads st)) \<noteq> 1 then (Inl SE_OffsetMismatch, st)
          else (Inr new_offset, st\<lparr>st_uploads :=
                 map (\<lambda>r. if hit r then r\<lparr>up_received_size := new_offset\<rparr> else r) (st_uploads st)\<rparr>))"

definition append_locked :: "bytes \<Rightarrow> bytes \<Rightarrow> nat \<Rightarrow> bytes \<Rightarrow> storage \<Rightarrow> nat st_result" where
  "append_locked device_id upload_id offset chunk st =
     (case load_upload st upload_id device_id of
        Inl e \<Rightarrow> (Inl e, st)
      | Inr record \<Rightarrow>
          if ur_received_size record \<noteq> offset then (Inl SE_OffsetMismatch, st)
          else if offset + length chunk \<ge> 2 ^ 64 then (Inl SE_LimitExceeded, st)
          else if offset + length chunk > ur_expected_size record then (Inl SE_LimitExceeded, st)
          else case append_file upload_id offset chunk st of
            (Inl e, st1) \<Rightarrow> (Inl e, st1)
          | (Inr _, st1) \<Rightarrow> append_record upload_id offset (offset + length chunk) st1)"

definition append_upload_chunk :: "bytes \<Rightarrow> bytes \<Rightarrow> nat \<Rightarrow> bytes \<Rightarrow> storage \<Rightarrow> nat st_result" where
  "append_upload_chunk device_id upload_id offset chunk st =
     (if chunk = [] \<or> length chunk > MAX_CHUNK_BYTES then (Inl SE_LimitExceeded, st)
      else case require_active_device st device_id of
        Inl e \<Rightarrow> (Inl e, st)
      | Inr _ \<Rightarrow> append_locked device_id upload_id offset chunk st)"

section \<open>Committing an upload\<close>

definition publish_file :: "crypto \<Rightarrow> upload_record \<Rightarrow> storage \<Rightarrow> unit st_result" where
  "publish_file X record st =
     (let destination = object_path (ur_expected_hash record);
          temporary = upload_path (ur_upload_id record) in
      if file_at st destination \<noteq> None
      then (verify_file X st destination (ur_expected_size record) (ur_expected_hash record), st)
      else case verify_file X st temporary (ur_expected_size record) (ur_expected_hash record) of
        Inl e \<Rightarrow> (Inl e, st)
      | Inr _ \<Rightarrow>
          (case file_at st temporary of
             None \<Rightarrow> (Inl SE_Io, st)
           | Some contents \<Rightarrow> (Inr (), put_file destination contents (remove_file temporary st))))"

definition record_blob :: "int \<Rightarrow> upload_record \<Rightarrow> storage \<Rightarrow> bytes st_result" where
  "record_blob now record st =
     (case i64_try_from (ur_expected_size record) of
        Inl e \<Rightarrow> (Inl e, st)
      | Inr stored_size \<Rightarrow>
          let row = \<lparr>bl_blob_id = ur_expected_hash record, bl_ciphertext_size = stored_size,
                bl_created_at = now\<rparr>;
              blobs = (if \<exists>b \<in> set (st_blobs st). bl_blob_id b = bl_blob_id row then st_blobs st
                       else st_blobs st @ [row]);
              st1 = st\<lparr>st_blobs := blobs,
                st_uploads := filter (\<lambda>r. up_upload_id r \<noteq> ur_upload_id record) (st_uploads st)\<rparr> in
          (Inr (ur_expected_hash record), remove_file (upload_path (ur_upload_id record)) st1))"

definition commit_locked :: "crypto \<Rightarrow> int \<Rightarrow> bytes \<Rightarrow> bytes \<Rightarrow> storage \<Rightarrow> bytes st_result" where
  "commit_locked X now device_id upload_id st =
     (case load_upload st upload_id device_id of
        Inl e \<Rightarrow> (Inl e, st)
      | Inr record \<Rightarrow>
          if ur_received_size record \<noteq> ur_expected_size record then (Inl SE_IntegrityFailure, st)
          else case publish_file X record st of
            (Inl e, st1) \<Rightarrow> (Inl e, st1)
          | (Inr _, st1) \<Rightarrow> record_blob now record st1)"

definition commit_upload :: "crypto \<Rightarrow> int \<Rightarrow> bytes \<Rightarrow> bytes \<Rightarrow> storage \<Rightarrow> bytes st_result" where
  "commit_upload X now device_id upload_id st =
     (case require_active_device st device_id of
        Inl e \<Rightarrow> (Inl e, st)
      | Inr _ \<Rightarrow> commit_locked X now device_id upload_id st)"

section \<open>Reading a blob\<close>

definition read_blob_chunk :: "storage \<Rightarrow> bytes \<Rightarrow> nat \<Rightarrow> nat \<Rightarrow> storage_error + (nat \<times> bool \<times> bytes)" where
  "read_blob_chunk st blob_id offset maximum =
     (if maximum = 0 \<or> maximum > MAX_CHUNK_BYTES then Inl SE_LimitExceeded
      else case find (\<lambda>b. bl_blob_id b = blob_id) (st_blobs st) of
        None \<Rightarrow> Inl SE_BlobNotFound
      | Some b \<Rightarrow>
          let total_size = bl_ciphertext_size b in
          if offset > total_size then Inl SE_OffsetMismatch
          else case file_at st (object_path blob_id) of
            None \<Rightarrow> Inl SE_IntegrityFailure
          | Some contents \<Rightarrow>
              let count = min (total_size - offset) maximum in
              if length (drop offset contents) < count then Inl SE_Io
              else Inr (total_size, offset + count = total_size, take count (drop offset contents)))"

end
