(* ===== verification/Storage_Commits.thy ===== *)
theory Storage_Commits
  imports Storage_State Signed_Commit
begin

text \<open>
  The commit store of the server: \<open>crates/ll-server/src/storage/version.rs\<close>. The tables
  \<open>commits\<close>, \<open>commit_parents\<close> and \<open>heads\<close> are row lists; a transaction that fails
  returns the state it started from. Signed 64-bit columns are natural numbers below \<open>2^63\<close>.
\<close>

definition MAX_COMMITS_PER_VAULT :: nat where "MAX_COMMITS_PER_VAULT = 1000000"

definition repair_heads :: "bytes \<Rightarrow> storage \<Rightarrow> storage" where
  "repair_heads vault_id st =
     (let is_child = (\<lambda>c. \<exists>r \<in> set (st_commits st). co_commit_id r = c \<and> co_vault_id r = vault_id);
          kept = filter (\<lambda>(v, c). v \<noteq> vault_id) (st_heads st);
          found = filter (\<lambda>r. co_vault_id r = vault_id \<and>
            \<not> (\<exists>(child, parent) \<in> set (st_commit_parents st). parent = co_commit_id r \<and> is_child child))
            (st_commits st) in
      st\<lparr>st_heads := kept @ map (\<lambda>r. (vault_id, co_commit_id r)) found\<rparr>)"

definition require_active_in_transaction :: "storage \<Rightarrow> bytes \<Rightarrow> storage_error + unit" where
  "require_active_in_transaction st device_id =
     (case device_row_of st device_id of
        None \<Rightarrow> Inl SE_DeviceNotFound
      | Some r \<Rightarrow> if dv_revoked_at r = None then Inr () else Inl SE_DeviceRevoked)"

definition device_sequences :: "storage \<Rightarrow> bytes \<Rightarrow> bytes \<Rightarrow> nat list" where
  "device_sequences st vault_id device_id =
     map co_device_sequence
       (filter (\<lambda>r. co_vault_id r = vault_id \<and> co_device_id r = device_id) (st_commits st))"

definition validate_next_device_sequence ::
  "storage \<Rightarrow> bytes \<Rightarrow> bytes \<Rightarrow> u64 \<Rightarrow> storage_error + unit" where
  "validate_next_device_sequence st vault_id device_id supplied =
     (let previous = fold max (device_sequences st vault_id device_id) 0 in
      rbind (ok_or SE_LimitExceeded (i64_checked_succ previous)) (\<lambda>expected.
      rbind (i64_try_from (unat supplied)) (\<lambda>n.
        if n = expected then Inr () else Inl SE_InvalidCommit)))"

definition commit_row_of :: "storage \<Rightarrow> bytes \<Rightarrow> bytes \<Rightarrow> commit_row option" where
  "commit_row_of st vault_id commit_id =
     find (\<lambda>r. co_vault_id r = vault_id \<and> co_commit_id r = commit_id) (st_commits st)"

text \<open>The loop over the parents; \<open>maximum\<close> starts at -1.\<close>

fun parent_maximum :: "storage \<Rightarrow> bytes \<Rightarrow> int \<Rightarrow> bytes list \<Rightarrow> storage_error + int" where
  "parent_maximum st vault_id maximum [] = Inr maximum"
| "parent_maximum st vault_id maximum (p # ps) =
     rbind (ok_or SE_MissingParent (map_option co_generation (commit_row_of st vault_id p)))
       (\<lambda>generation. parent_maximum st vault_id (max maximum (int generation)) ps)"

definition load_parent_generation :: "storage \<Rightarrow> bytes \<Rightarrow> bytes list \<Rightarrow> storage_error + nat" where
  "load_parent_generation st vault_id parents =
     (if parents = [] then Inr 0
      else rbind (parent_maximum st vault_id (- 1) parents) (\<lambda>maximum.
             if maximum + 1 < 2 ^ 63 then Inr (nat (maximum + 1)) else Inl SE_LimitExceeded))"

fun take_heads :: "nat \<Rightarrow> bytes list \<Rightarrow> storage_error + bytes list" where
  "take_heads n [] = Inr []"
| "take_heads n (h # hs) =
     (if n \<ge> MAX_HEADS then Inl SE_LimitExceeded
      else if length h \<noteq> 32 then Inl SE_CorruptMetadata
      else rmap (\<lambda>rest. h # rest) (take_heads (n + 1) hs))"

definition load_heads :: "storage \<Rightarrow> bytes \<Rightarrow> storage_error + bytes list" where
  "load_heads st vault_id =
     take_heads 0 (sort (map snd (filter (\<lambda>(v, c). v = vault_id) (st_heads st))))"

text \<open>The rows that inserting a commit adds and removes.\<close>

definition insert_commit_rows :: "int \<Rightarrow> bytes \<Rightarrow> bytes \<Rightarrow> signed_commit \<Rightarrow> nat \<Rightarrow> nat \<Rightarrow> bytes \<Rightarrow> storage \<Rightarrow> storage" where
  "insert_commit_rows now vault_id device_id commit sequence generation signed_record st =
     st\<lparr>st_commits := st_commits st @ [\<lparr>co_commit_id = sc_commit_id commit, co_vault_id = vault_id,
           co_device_id = device_id, co_device_sequence = sequence, co_generation = generation,
           co_signed_record = signed_record, co_inserted_at = now\<rparr>],
        st_commit_parents := st_commit_parents st @
           map (\<lambda>p. (sc_commit_id commit, p)) (uc_parents (sc_unsigned commit)),
        st_heads := filter (\<lambda>(v, c). \<not> (v = vault_id \<and> c \<in> set (uc_parents (sc_unsigned commit))))
             (st_heads st) @ [(vault_id, sc_commit_id commit)]\<rparr>"

text \<open>The body of the transaction of \<open>accept_commit\<close>.\<close>

definition accept_transaction ::
  "int \<Rightarrow> bytes \<Rightarrow> signed_commit \<Rightarrow> bytes \<Rightarrow> storage \<Rightarrow> (bytes \<times> bytes list) st_result" where
  "accept_transaction now device_id commit signed_record st =
     (let vault_id = st_vault_id st;
          u = sc_unsigned commit;
          abort = (\<lambda>e. (Inl e, st));
          in_vault = filter (\<lambda>r. co_vault_id r = vault_id) (st_commits st) in
      case require_active_in_transaction st device_id of
        Inl e \<Rightarrow> abort e
      | Inr _ \<Rightarrow>
      (case find (\<lambda>r. co_commit_id r = sc_commit_id commit) (st_commits st) of
        Some existing \<Rightarrow>
          if co_signed_record existing \<noteq> signed_record then abort SE_CommitConflict
          else (case load_heads st vault_id of
                  Inl e \<Rightarrow> abort e
                | Inr hs \<Rightarrow> (Inr (sc_commit_id commit, hs), st))
      | None \<Rightarrow>
          if length in_vault \<ge> MAX_COMMITS_PER_VAULT then abort SE_LimitExceeded
          else if (length in_vault = 0) \<noteq> (uc_parents u = []) then abort SE_InvalidCommit
          else
            (case rbind (validate_next_device_sequence st vault_id device_id (uc_device_sequence u))
                   (\<lambda>_. rbind (load_parent_generation st vault_id (uc_parents u)) (\<lambda>generation.
                        rmap (\<lambda>sequence. (generation, sequence)) (i64_try_from (unat (uc_device_sequence u))))) of
               Inl e \<Rightarrow> abort e
             | Inr (generation, sequence) \<Rightarrow>
                 let st1 = insert_commit_rows now vault_id device_id commit sequence generation signed_record st in
                 (case load_heads st1 vault_id of
                    Inl e \<Rightarrow> abort e
                  | Inr hs \<Rightarrow> (Inr (sc_commit_id commit, hs), st1)))))"

definition accept_commit ::
  "int \<Rightarrow> bytes \<Rightarrow> signed_commit \<Rightarrow> bytes \<Rightarrow> storage \<Rightarrow> (bytes \<times> bytes list) st_result" where
  "accept_commit now session_device_id commit signed_record st =
     (case require_active_device st session_device_id of
        Inl e \<Rightarrow> (Inl e, st)
      | Inr _ \<Rightarrow>
          if uc_device_id (sc_unsigned commit) \<noteq> session_device_id
             \<or> uc_vault_id (sc_unsigned commit) \<noteq> st_vault_id st
          then (Inl SE_InvalidCommit, st)
          else accept_transaction now session_device_id commit signed_record st)"

definition get_commit :: "storage \<Rightarrow> bytes \<Rightarrow> storage_error + bytes" where
  "get_commit st commit_id =
     ok_or SE_CommitNotFound
       (map_option co_signed_record (commit_row_of st (st_vault_id st) commit_id))"

definition storage_heads :: "storage \<Rightarrow> storage_error + bytes list" where
  "storage_heads st = load_heads st (st_vault_id st)"

text \<open>The loop of \<open>changes\<close> over the rows in graph order.\<close>

fun collect_changes ::
  "bytes set \<Rightarrow> nat \<Rightarrow> bytes list \<Rightarrow> commit_row list \<Rightarrow> storage_error + (bytes list \<times> bool)" where
  "collect_changes known requested commits [] = Inr (commits, False)"
| "collect_changes known requested commits (r # rs) =
     (if length (co_commit_id r) \<noteq> 32 then Inl SE_CorruptMetadata
      else if co_commit_id r \<in> known then collect_changes known requested commits rs
      else if length commits = requested then Inr (commits, True)
      else collect_changes known requested (commits @ [co_signed_record r]) rs)"

definition changes :: "storage \<Rightarrow> bytes list \<Rightarrow> u16 \<Rightarrow> storage_error + (bytes list \<times> bool)" where
  "changes st known maximum =
     (if length known > MAX_KNOWN_COMMITS \<or> maximum = 0 \<or> unat maximum > MAX_CHANGES_PER_RESPONSE
      then Inl SE_LimitExceeded
      else collect_changes (set known) (unat maximum) []
        (sort_key (\<lambda>r. (co_generation r, co_commit_id r))
          (filter (\<lambda>r. co_vault_id r = st_vault_id st) (st_commits st))))"

end
