(* ===== verification/Application.thy ===== *)
theory Application
  imports Session_Store Storage_Blobs Storage_Commits
begin

text \<open>
  The request handlers of the server: \<open>crates/ll-server/src/application.rs\<close>. A handler gets the
  application state (storage and rate limiter), the session and the request, and returns the
  response with the new state; \<open>authenticate\<close> and \<open>register_device\<close> also change the session. What a
  handler takes from its surroundings, the two clocks, a fresh upload identifier and the free disk
  space, is the record \<open>env\<close>. A handler runs to its end before the next one starts.
\<close>

record env =
  en_now :: nat \<comment> \<open>monotonic clock\<close>
  en_clock :: int \<comment> \<open>seconds since 1970\<close>
  en_upload_id :: bytes
  en_free_space :: "nat option"

record application =
  ap_storage :: storage
  ap_authentication_key :: bytes
  ap_rate_limiter :: rate_limiter

record application_result =
  ar_response :: response
  ar_close_session :: bool

definition success :: "response \<Rightarrow> application_result" where
  "success r = \<lparr>ar_response = r, ar_close_session = False\<rparr>"

definition app_error :: "error_code \<Rightarrow> bool \<Rightarrow> application_result" where
  "app_error code close = \<lparr>ar_response = Error code, ar_close_session = close\<rparr>"

definition app_storage_error :: "storage_error \<Rightarrow> application_result" where
  "app_storage_error e = \<lparr>ar_response = Error (protocol_code e),
     ar_close_session = (e \<in> {SE_DeviceNotFound, SE_DeviceRevoked, SE_CorruptMetadata})\<rparr>"

definition from_storage :: "storage_error + response \<Rightarrow> application_result" where
  "from_storage r = (case r of Inr response \<Rightarrow> success response | Inl e \<Rightarrow> app_storage_error e)"

text \<open>Run a storage operation and put its new state back.\<close>

definition run_storage :: "('a \<Rightarrow> response) \<Rightarrow> 'a st_result \<Rightarrow> application \<Rightarrow> application_result \<times> application" where
  "run_storage f r A = (from_storage (rmap f (fst r)), A\<lparr>ap_storage := snd r\<rparr>)"

section \<open>Operations that need an active device\<close>

definition require_device :: "application \<Rightarrow> ('t, 'm) session_scheme \<Rightarrow> application_result + bytes" where
  "require_device A s =
     (case ss_phase s of
        DeviceAuthenticated device_id \<Rightarrow>
          (case require_active_device (ap_storage A) device_id of
             Inr _ \<Rightarrow> Inr device_id
           | Inl e \<Rightarrow> Inl (app_error (protocol_code e) True))
      | _ \<Rightarrow> Inl (app_error EC_DeviceRequired False))"

definition with_device ::
  "application \<Rightarrow> ('t, 'm) session_scheme \<Rightarrow> (bytes \<Rightarrow> application_result \<times> application) \<Rightarrow>
     application_result \<times> application" where
  "with_device A s f = (case require_device A s of Inl r \<Rightarrow> (r, A) | Inr d \<Rightarrow> f d)"

definition app_list_devices ::
  "application \<Rightarrow> ('t, 'm) session_scheme \<Rightarrow> application_result \<times> application" where
  "app_list_devices A s = with_device A s (\<lambda>_.
     (from_storage (rmap Devices (list_devices (ap_storage A))), A))"

definition app_revoke_device ::
  "env \<Rightarrow> application \<Rightarrow> ('t, 'm) session_scheme \<Rightarrow> bytes \<Rightarrow> application_result \<times> application" where
  "app_revoke_device E A s device_id = with_device A s (\<lambda>current.
     case revoke_device (en_clock E) device_id (ap_storage A) of
       (Inr _, st) \<Rightarrow> (\<lparr>ar_response = DeviceRevoked, ar_close_session = (current = device_id)\<rparr>, A\<lparr>ap_storage := st\<rparr>)
     | (Inl e, st) \<Rightarrow> (app_storage_error e, A\<lparr>ap_storage := st\<rparr>))"

definition app_begin_upload ::
  "env \<Rightarrow> application \<Rightarrow> ('t, 'm) session_scheme \<Rightarrow> u64 \<Rightarrow> bytes \<Rightarrow> application_result \<times> application" where
  "app_begin_upload E A s expected_size expected_hash = with_device A s (\<lambda>device_id.
     run_storage (\<lambda>(upload_id, offset). UploadReady upload_id (of_nat offset))
       (begin_upload (en_free_space E) (en_upload_id E) (en_clock E) device_id (unat expected_size)
          expected_hash (ap_storage A)) A)"

definition app_upload_chunk ::
  "application \<Rightarrow> ('t, 'm) session_scheme \<Rightarrow> bytes \<Rightarrow> u64 \<Rightarrow> bytes \<Rightarrow> application_result \<times> application" where
  "app_upload_chunk A s upload_id offset chunk = with_device A s (\<lambda>device_id.
     run_storage (\<lambda>offset. ChunkAccepted (of_nat offset))
       (append_upload_chunk device_id upload_id (unat offset) chunk (ap_storage A)) A)"

definition app_commit_upload ::
  "crypto \<Rightarrow> env \<Rightarrow> application \<Rightarrow> ('t, 'm) session_scheme \<Rightarrow> bytes \<Rightarrow> application_result \<times> application" where
  "app_commit_upload X E A s upload_id = with_device A s (\<lambda>device_id.
     run_storage UploadCommitted (commit_upload X (en_clock E) device_id upload_id (ap_storage A)) A)"

definition app_get_blob ::
  "application \<Rightarrow> ('t, 'm) session_scheme \<Rightarrow> bytes \<Rightarrow> u64 \<Rightarrow> u32 \<Rightarrow> application_result \<times> application" where
  "app_get_blob A s blob_id offset maximum_bytes = with_device A s (\<lambda>_.
     (from_storage (rmap (\<lambda>(total_size, complete, chunk). BlobChunk offset (of_nat total_size) complete chunk)
        (read_blob_chunk (ap_storage A) blob_id (unat offset) (unat maximum_bytes))), A))"

definition app_ping ::
  "application \<Rightarrow> ('t, 'm) session_scheme \<Rightarrow> application_result \<times> application" where
  "app_ping A s = with_device A s (\<lambda>_. (success Pong, A))"

definition app_put_commit ::
  "cbor \<Rightarrow> crypto \<Rightarrow> env \<Rightarrow> application \<Rightarrow> ('t, 'm) session_scheme \<Rightarrow> bytes \<Rightarrow> application_result \<times> application" where
  "app_put_commit C X E A s signed_record = with_device A s (\<lambda>device_id.
     case decode_signed_commit C X signed_record of
       Inl _ \<Rightarrow> (app_error EC_IntegrityFailure False, A)
     | Inr commit \<Rightarrow>
         (case require_active_device (ap_storage A) device_id of
            Inl e \<Rightarrow> (app_storage_error e, A)
          | Inr device \<Rightarrow>
              (case verify_signed_commit X commit (sd_public_key device) of
                 Inl _ \<Rightarrow> (app_error EC_InvalidSignature False, A)
               | Inr _ \<Rightarrow>
                   run_storage (\<lambda>(commit_id, hs). CommitStored commit_id hs)
                     (accept_commit (en_clock E) device_id commit signed_record (ap_storage A)) A)))"

definition app_get_commit ::
  "application \<Rightarrow> ('t, 'm) session_scheme \<Rightarrow> bytes \<Rightarrow> application_result \<times> application" where
  "app_get_commit A s commit_id = with_device A s (\<lambda>_.
     (from_storage (rmap CommitRecord (get_commit (ap_storage A) commit_id)), A))"

definition app_get_heads ::
  "application \<Rightarrow> ('t, 'm) session_scheme \<Rightarrow> application_result \<times> application" where
  "app_get_heads A s = with_device A s (\<lambda>_.
     (from_storage (rmap Heads (storage_heads (ap_storage A))), A))"

definition app_get_changes ::
  "application \<Rightarrow> ('t, 'm) session_scheme \<Rightarrow> bytes list \<Rightarrow> u16 \<Rightarrow> application_result \<times> application" where
  "app_get_changes A s known_commit_ids maximum_commits = with_device A s (\<lambda>_.
     (from_storage (rmap (\<lambda>(commits, has_more). Changes commits has_more)
        (changes (ap_storage A) known_commit_ids maximum_commits)), A))"

section \<open>Operations that need the password\<close>

definition app_put_vault_key_envelope ::
  "application \<Rightarrow> ('t, 'm) session_scheme \<Rightarrow> bytes \<Rightarrow> application_result \<times> application" where
  "app_put_vault_key_envelope A s envelope =
     (if \<not> password_authenticated s then (app_error EC_InvalidState True, A)
      else run_storage (\<lambda>_. VaultKeyEnvelopeStored) (put_vault_key_envelope envelope (ap_storage A)) A)"

definition app_get_vault_key_envelope ::
  "application \<Rightarrow> ('t, 'm) session_scheme \<Rightarrow> application_result \<times> application" where
  "app_get_vault_key_envelope A s =
     (if \<not> password_authenticated s then (app_error EC_InvalidState True, A)
      else (from_storage (rmap VaultKeyEnvelope (vault_key_envelope (ap_storage A))), A))"

section \<open>Operations that change the session\<close>

definition note_failure :: "env \<Rightarrow> ('t, 'm) session_scheme \<Rightarrow> application \<Rightarrow> application" where
  "note_failure E s A = A\<lparr>ap_rate_limiter :=
     record_authentication_failure (en_now E) (ss_peer_ip s) (ap_rate_limiter A)\<rparr>"

definition note_success :: "env \<Rightarrow> ('t, 'm) session_scheme \<Rightarrow> application \<Rightarrow> application" where
  "note_success E s A = A\<lparr>ap_rate_limiter :=
     record_authentication_success (en_now E) (ss_peer_ip s) (ap_rate_limiter A)\<rparr>"

definition authenticate ::
  "crypto \<Rightarrow> env \<Rightarrow> application \<Rightarrow> 't session \<Rightarrow> bytes \<Rightarrow> bytes option \<Rightarrow> bytes option \<Rightarrow>
     application_result \<times> 't session \<times> application" where
  "authenticate X E A s proof device_id device_signature =
     (if ss_phase s \<noteq> AwaitingPassword then (app_error EC_InvalidState True, s, A)
      else if verify_password_proof X (ap_authentication_key A) (ss_authentication_context s) proof \<noteq> Inr ()
      then (app_error EC_AuthenticationFailed True, s, note_failure E s A)
      else case (device_id, device_signature) of
        (None, None) \<Rightarrow>
          (success (Authenticated False (st_vault_id (ap_storage A))),
           s\<lparr>ss_phase := PasswordAuthenticated\<rparr>, note_success E s A)
      | (Some d, Some signature) \<Rightarrow>
          (case require_active_device (ap_storage A) d of
             Inl _ \<Rightarrow> (app_error EC_AuthenticationFailed True, s, note_failure E s A)
           | Inr device \<Rightarrow>
               if verify_device_signature X (sd_public_key device)
                    (device_auth_signature_context (ss_authentication_context s)) signature \<noteq> Inr ()
               then (app_error EC_AuthenticationFailed True, s, note_failure E s A)
               else (success (Authenticated True (st_vault_id (ap_storage A))),
                     s\<lparr>ss_phase := DeviceAuthenticated d\<rparr>, note_success E s A))
      | _ \<Rightarrow> (app_error EC_AuthenticationFailed True, s, A))"

definition app_register_device ::
  "crypto \<Rightarrow> env \<Rightarrow> application \<Rightarrow> 't session \<Rightarrow> bytes \<Rightarrow> bytes \<Rightarrow> bytes \<Rightarrow> bytes \<Rightarrow>
     application_result \<times> 't session \<times> application" where
  "app_register_device X E A s device_id public_key encrypted_name signature =
     (if \<not> password_authenticated s then (app_error EC_InvalidState True, s, A)
      else if verify_device_signature X public_key
          (registration_signature_context (ss_authentication_context s) device_id public_key) signature \<noteq> Inr ()
      then (app_error EC_AuthenticationFailed True, s, A)
      else case register_device (en_clock E) device_id public_key encrypted_name (ap_storage A) of
        (Inr _, st) \<Rightarrow>
          (success DeviceRegistered, s\<lparr>ss_phase := DeviceAuthenticated device_id\<rparr>, A\<lparr>ap_storage := st\<rparr>)
      | (Inl e, st) \<Rightarrow> (app_storage_error e, s, A\<lparr>ap_storage := st\<rparr>))"

section \<open>Dispatch\<close>

definition keep :: "'t session \<Rightarrow> application_result \<times> application \<Rightarrow>
    application_result \<times> 't session \<times> application" where
  "keep s r = (fst r, s, snd r)"

fun dispatch ::
  "cbor \<Rightarrow> crypto \<Rightarrow> env \<Rightarrow> application \<Rightarrow> 't session \<Rightarrow> request \<Rightarrow>
     application_result \<times> 't session \<times> application" where
  "dispatch C X E A s (Authenticate proof device_id device_signature) =
     authenticate X E A s proof device_id device_signature"
| "dispatch C X E A s (RegisterDevice device_id public_key encrypted_name signature) =
     app_register_device X E A s device_id public_key encrypted_name signature"
| "dispatch C X E A s ListDevices = keep s (app_list_devices A s)"
| "dispatch C X E A s (RevokeDevice device_id) = keep s (app_revoke_device E A s device_id)"
| "dispatch C X E A s (BeginUpload expected_size expected_hash) =
     keep s (app_begin_upload E A s expected_size expected_hash)"
| "dispatch C X E A s (UploadChunk upload_id offset chunk) =
     keep s (app_upload_chunk A s upload_id offset chunk)"
| "dispatch C X E A s (CommitUpload upload_id) = keep s (app_commit_upload X E A s upload_id)"
| "dispatch C X E A s (GetBlob blob_id offset maximum_bytes) =
     keep s (app_get_blob A s blob_id offset maximum_bytes)"
| "dispatch C X E A s (PutCommit signed_commit) = keep s (app_put_commit C X E A s signed_commit)"
| "dispatch C X E A s (GetCommit commit_id) = keep s (app_get_commit A s commit_id)"
| "dispatch C X E A s GetHeads = keep s (app_get_heads A s)"
| "dispatch C X E A s (GetChanges known_commit_ids maximum_commits) =
     keep s (app_get_changes A s known_commit_ids maximum_commits)"
| "dispatch C X E A s (PutVaultKeyEnvelope envelope) = keep s (app_put_vault_key_envelope A s envelope)"
| "dispatch C X E A s GetVaultKeyEnvelope = keep s (app_get_vault_key_envelope A s)"
| "dispatch C X E A s Ping = keep s (app_ping A s)"

end
