(* ===== verification/Storage_Blobs_Correct.thy ===== *)
theory Storage_Blobs_Correct
  imports Storage_Blobs
begin

text \<open>
  Correctness of uploads and blobs. The invariant \<open>blobs_inv\<close> holds in every state the operations
  reach, with crashes between their file and database steps: what is stored under an
  object path has the hash in that path, every recorded blob is there in full, and every
  upload row is backed by at least the bytes it claims.
\<close>

section \<open>Paths and files\<close>

lemma upload_path_inj [simp]: "upload_path a = upload_path b \<longleftrightarrow> a = b"
  by (auto simp: upload_path_def dest: hex_encode_inj)

lemma object_path_inj [simp]:
  "is_array 32 a \<Longrightarrow> is_array 32 b \<Longrightarrow> object_path a = object_path b \<longleftrightarrow> a = b"
proof
  assume l: "is_array 32 a" "is_array 32 b" and eq: "object_path a = object_path b"
  have "drop 11 (object_path x) = hex_encode x" if "is_array 32 x" for x
    using that by (simp add: object_path_def Let_def)
  with l eq have "hex_encode a = hex_encode b" by metis
  then show "a = b" by (rule hex_encode_inj)
qed simp

lemma paths_differ [simp]: "object_path a \<noteq> upload_path b" "upload_path b \<noteq> object_path a"
  by (simp_all add: object_path_def upload_path_def Let_def)

lemma file_at_put [simp]: "file_at (put_file p c st) q = (if q = p then Some c else file_at st q)"
  by (simp add: put_file_def update_conv')

lemma file_at_remove [simp]: "file_at (remove_file p st) q = (if q = p then None else file_at st q)"
  by (simp add: remove_file_def delete_conv')

lemma put_file_fields [simp]:
  "st_uploads (put_file p c st) = st_uploads st" "st_blobs (put_file p c st) = st_blobs st"
  "st_devices (put_file p c st) = st_devices st"
  "st_uploads (remove_file p st) = st_uploads st" "st_blobs (remove_file p st) = st_blobs st"
  "st_devices (remove_file p st) = st_devices st"
  by (simp_all add: put_file_def remove_file_def)

section \<open>The invariant\<close>

definition upload_ok :: "storage \<Rightarrow> upload_row \<Rightarrow> bool" where
  "upload_ok st r \<longleftrightarrow> is_array 16 (up_upload_id r) \<and> is_array 32 (up_expected_hash r) \<and>
     up_received_size r \<le> up_expected_size r \<and> up_expected_size r \<le> MAX_OBJECT_BYTES \<and>
     ((\<exists>c. file_at st (upload_path (up_upload_id r)) = Some c \<and> up_received_size r \<le> length c) \<or>
      up_received_size r = up_expected_size r \<and> file_at st (object_path (up_expected_hash r)) \<noteq> None)"

definition uploads_ok :: "storage \<Rightarrow> bool" where
  "uploads_ok st \<longleftrightarrow> distinct (map up_upload_id (st_uploads st)) \<and>
     length (st_uploads st) \<le> MAX_ACTIVE_UPLOADS \<and>
     (\<forall>d. length (filter (\<lambda>r. up_device_id r = d) (st_uploads st)) \<le> MAX_ACTIVE_UPLOADS_PER_DEVICE) \<and>
     (\<forall>r \<in> set (st_uploads st). upload_ok st r)"

definition blob_ok :: "crypto \<Rightarrow> storage \<Rightarrow> blob_row \<Rightarrow> bool" where
  "blob_ok X st b \<longleftrightarrow> is_array 32 (bl_blob_id b) \<and>
     (\<exists>c. file_at st (object_path (bl_blob_id b)) = Some c \<and> length c = bl_ciphertext_size b)"

definition blobs_inv :: "crypto \<Rightarrow> storage \<Rightarrow> bool" where
  "blobs_inv X st \<longleftrightarrow>
     (\<forall>h c. is_array 32 h \<longrightarrow> file_at st (object_path h) = Some c \<longrightarrow> blake3 X c = h) \<and>
     distinct (map bl_blob_id (st_blobs st)) \<and> (\<forall>b \<in> set (st_blobs st). blob_ok X st b) \<and>
     uploads_ok st"

lemma blobs_invD:
  assumes "blobs_inv X st"
  shows "is_array 32 h \<Longrightarrow> file_at st (object_path h) = Some c \<Longrightarrow> blake3 X c = h"
    and "b \<in> set (st_blobs st) \<Longrightarrow> blob_ok X st b" and "uploads_ok st"
    and "distinct (map bl_blob_id (st_blobs st))"
  using assms by (auto simp: blobs_inv_def)

lemma uploads_okD:
  assumes "uploads_ok st" and "r \<in> set (st_uploads st)"
  shows "upload_ok st r"
    and "s \<in> set (st_uploads st) \<Longrightarrow> up_upload_id s = up_upload_id r \<Longrightarrow> s = r"
  using assms by (auto simp: uploads_ok_def distinct_map inj_on_def)

lemma load_upload_Inr:
  "load_upload st u d = Inr rec \<Longrightarrow> \<exists>r \<in> set (st_uploads st). up_upload_id r = u \<and> up_device_id r = d \<and>
     length (up_expected_hash r) = 32 \<and>
     rec = \<lparr>ur_upload_id = u, ur_expected_size = up_expected_size r,
        ur_expected_hash = up_expected_hash r, ur_received_size = up_received_size r\<rparr>"
  by (auto simp: load_upload_def split: option.splits if_splits dest!: find_Some_iff_mem)

text \<open>A state with the same rows in which the object files grew and no upload file was touched.\<close>

lemma upload_ok_mono:
  assumes "upload_ok st r"
    and "file_at st' (upload_path (up_upload_id r)) = file_at st (upload_path (up_upload_id r))"
    and "file_at st (object_path (up_expected_hash r)) \<noteq> None \<Longrightarrow>
      file_at st' (object_path (up_expected_hash r)) \<noteq> None"
  shows "upload_ok st' r"
  using assms by (auto simp: upload_ok_def)

section \<open>Each step keeps it\<close>

abbreviation new_upload :: "bytes \<Rightarrow> int \<Rightarrow> bytes \<Rightarrow> nat \<Rightarrow> bytes \<Rightarrow> upload_row" where
  "new_upload u now d sz h \<equiv> \<lparr>up_upload_id = u, up_device_id = d, up_expected_size = sz,
     up_expected_hash = h, up_received_size = 0, up_created_at = now\<rparr>"

lemma begin_upload_cases:
  assumes "begin_upload free u now d sz h st = (res, st')"
  shows "st' = st \<or>
    file_at st (upload_path u) = None \<and>
      st' = remove_file (upload_path u) (put_file (upload_path u) [] st) \<or>
    file_at st (upload_path u) = None \<and>
      st' = (put_file (upload_path u) [] st)\<lparr>st_uploads := st_uploads st @ [new_upload u now d sz h]\<rparr> \<and>
      \<not> upload_insert_fails (put_file (upload_path u) [] st) (new_upload u now d sz h) \<and>
      length (st_uploads st) < MAX_ACTIVE_UPLOADS \<and>
      length (filter (\<lambda>r. up_device_id r = d) (st_uploads st)) < MAX_ACTIVE_UPLOADS_PER_DEVICE \<and>
      sz \<le> MAX_OBJECT_BYTES \<and> res = Inr (u, 0)"
  using assms
  by (simp add: begin_upload_def Let_def not_le not_less
      split: if_split_asm sum.split_asm option.split_asm)

lemma begin_upload_inv:
  assumes inv: "blobs_inv X st" and run: "begin_upload free u now d sz h st = (res, st')"
    and len: "is_array 16 u" "is_array 32 h"
  shows "blobs_inv X st'"
proof -
  let ?row = "\<lparr>up_upload_id = u, up_device_id = d, up_expected_size = sz, up_expected_hash = h,
      up_received_size = 0, up_created_at = now\<rparr>"
  let ?st1 = "put_file (upload_path u) [] st"
  from begin_upload_cases [OF run] consider "st' = st"
    | "file_at st (upload_path u) = None" "st' = remove_file (upload_path u) ?st1"
    | "file_at st (upload_path u) = None" "st' = ?st1\<lparr>st_uploads := st_uploads st @ [?row]\<rparr>"
      "\<not> upload_insert_fails ?st1 ?row" "length (st_uploads st) < MAX_ACTIVE_UPLOADS"
      "length (filter (\<lambda>r. up_device_id r = d) (st_uploads st)) < MAX_ACTIVE_UPLOADS_PER_DEVICE"
      "sz \<le> MAX_OBJECT_BYTES" by metis
  then show ?thesis
  proof cases
    case 2
    then have same: "file_at st' = file_at st" "st_uploads st' = st_uploads st" "st_blobs st' = st_blobs st"
      by auto
    with inv show ?thesis by (auto simp: blobs_inv_def uploads_ok_def upload_ok_def blob_ok_def)
  next
    case 3
    have files: "file_at st' p = (if p = upload_path u then Some [] else file_at st p)" for p
      using 3(2) by (simp add: put_file_def update_conv')
    note uok = blobs_invD(3) [OF inv]
    have new: "u \<notin> up_upload_id ` set (st_uploads st)"
      using 3(3) by (auto simp: upload_insert_fails_def)
    have "upload_ok st' r" if "r \<in> set (st_uploads st)" for r
      using uploads_okD(1) [OF uok that] new that
      by (intro upload_ok_mono [of st r st']) (auto simp: files)
    moreover have "upload_ok st' ?row" using len 3(6) by (simp add: upload_ok_def files)
    ultimately have "uploads_ok st'"
      using uok new 3 by (auto simp: uploads_ok_def)
    moreover have "blob_ok X st' b" if "b \<in> set (st_blobs st)" for b
      using blobs_invD(2) [OF inv that] by (auto simp: blob_ok_def files)
    ultimately show ?thesis using inv 3(2) by (auto simp: blobs_inv_def files)
  qed (use inv in simp)
qed

lemma append_file_inv:
  assumes inv: "blobs_inv X st" and run: "append_file u offset chunk st = (res, st')"
    and row: "r \<in> set (st_uploads st)" "up_upload_id r = u" "up_received_size r = offset"
  shows "blobs_inv X st'"
proof -
  consider "st' = st" | c where "file_at st (upload_path u) = Some c" "offset \<le> length c"
      "st' = put_file (upload_path u) (take offset c @ chunk) st"
    using run by (auto simp: append_file_def not_less split: option.splits if_splits)
  then show ?thesis
  proof cases
    case 2
    note uok = blobs_invD(3) [OF inv]
    have "upload_ok st' s" if s: "s \<in> set (st_uploads st)" for s
    proof (cases "up_upload_id s = u")
      case True
      then have "s = r" using uploads_okD(2) [OF uok row(1) s] row(2) by simp
      with uploads_okD(1) [OF uok row(1)] row 2 show ?thesis by (auto simp: upload_ok_def)
    next
      case False
      with uploads_okD(1) [OF uok s] 2 show ?thesis by (intro upload_ok_mono [of st s st']) auto
    qed
    with uok have "uploads_ok st'" using 2 by (simp add: uploads_ok_def)
    moreover have "blob_ok X st' b" if "b \<in> set (st_blobs st)" for b
      using blobs_invD(2) [OF inv that] 2 by (auto simp: blob_ok_def)
    ultimately show ?thesis using inv 2 by (auto simp: blobs_inv_def)
  qed (use inv in simp)
qed

lemma append_file_result:
  assumes "append_file u offset chunk st = (Inr x, st')"
  obtains c where "file_at st (upload_path u) = Some c" "offset \<le> length c"
    "st' = put_file (upload_path u) (take offset c @ chunk) st"
  using assms by (auto simp: append_file_def not_less split: option.splits if_splits)

lemma append_record_inv:
  assumes inv: "blobs_inv X st" and run: "append_record u offset n st = (res, st')"
    and row: "r \<in> set (st_uploads st)" "up_upload_id r = u" "up_received_size r = offset"
      "n \<le> up_expected_size r" "offset \<le> n"
    and stored: "file_at st (upload_path u) = Some c" "n \<le> length c"
  shows "blobs_inv X st'"
proof -
  let ?f = "\<lambda>r. if up_upload_id r = u \<and> up_received_size r = offset then r\<lparr>up_received_size := n\<rparr> else r"
  consider "st' = st" | "st' = st\<lparr>st_uploads := map ?f (st_uploads st)\<rparr>"
    using run by (auto simp: append_record_def Let_def split: sum.splits if_splits)
  then show ?thesis
  proof cases
    case 2
    note uok = blobs_invD(3) [OF inv]
    have ids: "up_upload_id \<circ> ?f = up_upload_id" "up_device_id \<circ> ?f = up_device_id"
      by (auto simp: fun_eq_iff)
    have ok: "upload_ok st' (?f s)" if s: "s \<in> set (st_uploads st)" for s
    proof (cases "up_upload_id s = u")
      case True
      then have "s = r" using uploads_okD(2) [OF uok row(1) s] row(2) by simp
      with uploads_okD(1) [OF uok row(1)] row stored 2 show ?thesis by (simp add: upload_ok_def)
    next
      case False
      with uploads_okD(1) [OF uok s] 2 show ?thesis by (simp add: upload_ok_def)
    qed
    have rows: "st_uploads st' = map ?f (st_uploads st)" using 2 by simp
    have count: "length (filter (\<lambda>r. up_device_id r = d) (map ?f rs)) =
        length (filter (\<lambda>r. up_device_id r = d) rs)" for d rs
      by (induction rs) auto
    have ids': "map up_upload_id (map ?f rs) = map up_upload_id rs" for rs
      by (simp only: map_map ids)
    have "uploads_ok st'"
      unfolding uploads_ok_def rows count ids' length_map
      using uok ok by (auto simp only: uploads_ok_def set_map ball_simps)
    moreover have "file_at st' = file_at st" "st_blobs st' = st_blobs st" using 2 by simp_all
    ultimately show ?thesis using inv by (simp add: blobs_inv_def blob_ok_def)
  qed (use inv in simp)
qed

lemma append_locked_inv:
  assumes inv: "blobs_inv X st" and run: "append_locked d u offset chunk st = (res, st')"
  shows "blobs_inv X st'"
proof (cases "load_upload st u d")
  case (Inr rec)
  from load_upload_Inr [OF this] obtain r where
    r: "r \<in> set (st_uploads st)" "up_upload_id r = u" "ur_received_size rec = up_received_size r"
      "ur_expected_size rec = up_expected_size r" by auto
  show ?thesis
  proof (cases "up_received_size r = offset \<and> offset + length chunk \<le> up_expected_size r \<and>
      \<not> offset + length chunk \<ge> 2 ^ 64")
    case False
    then have "st' = st" using run Inr r by (auto simp: append_locked_def split: if_splits)
    with inv show ?thesis by simp
  next
    case True
    obtain res1 st1 where a: "append_file u offset chunk st = (res1, st1)" by fastforce
    have inv1: "blobs_inv X st1" using append_file_inv [OF inv a r(1,2)] True by simp
    show ?thesis
    proof (cases res1)
      case (Inl e)
      then have "st' = st1" using run Inr True r a by (simp add: append_locked_def not_le)
      with inv1 show ?thesis by simp
    next
      case res1: (Inr x)
      from append_file_result [OF a [unfolded res1]] obtain c where
        c: "offset \<le> length c" "st1 = put_file (upload_path u) (take offset c @ chunk) st" by metis
      have rec: "append_record u offset (offset + length chunk) st1 = (res, st')"
        using run Inr True r a res1 by (simp add: append_locked_def not_le)
      show ?thesis
        by (rule append_record_inv [OF inv1 rec, of r "take offset c @ chunk"])
          (use r True c in simp_all)
    qed
  qed
qed (use assms in \<open>simp add: append_locked_def\<close>)

lemma verify_file_Inr:
  "verify_file X st p n h = Inr x \<Longrightarrow> \<exists>c. file_at st p = Some c \<and> length c = n \<and> blake3 X c = h"
  by (auto simp: verify_file_def split: option.splits if_splits)

lemma publish_file_cases:
  assumes "publish_file X rec st = (res, st')"
  shows "st' = st \<or>
    (\<exists>c. file_at st (object_path (ur_expected_hash rec)) = None \<and>
       file_at st (upload_path (ur_upload_id rec)) = Some c \<and> length c = ur_expected_size rec \<and>
       blake3 X c = ur_expected_hash rec \<and> res = Inr () \<and>
       st' = put_file (object_path (ur_expected_hash rec)) c (remove_file (upload_path (ur_upload_id rec)) st))"
  using assms
  by (auto simp: publish_file_def Let_def split: if_splits sum.splits option.splits
      dest: verify_file_Inr verify_file_Inr [OF sym])

lemma publish_file_published:
  assumes "publish_file X rec st = (Inr x, st')"
  shows "\<exists>c. file_at st' (object_path (ur_expected_hash rec)) = Some c \<and>
    length c = ur_expected_size rec \<and> blake3 X c = ur_expected_hash rec"
  using assms
  by (auto simp: publish_file_def Let_def split: if_splits sum.splits option.splits
      dest!: verify_file_Inr verify_file_Inr [OF sym])

lemma publish_file_inv:
  assumes inv: "blobs_inv X st" and run: "publish_file X rec st = (res, st')"
    and row: "r \<in> set (st_uploads st)" "ur_upload_id rec = up_upload_id r"
      "ur_expected_hash rec = up_expected_hash r" "up_received_size r = up_expected_size r"
  shows "blobs_inv X st'"
  using publish_file_cases [OF run]
proof (elim disjE exE conjE)
  fix c
  let ?h = "up_expected_hash r" and ?u = "up_upload_id r"
  assume dest: "file_at st (object_path (ur_expected_hash rec)) = None"
    and c: "blake3 X c = ur_expected_hash rec"
    and st': "st' = put_file (object_path (ur_expected_hash rec)) c (remove_file (upload_path (ur_upload_id rec)) st)"
  note uok = blobs_invD(3) [OF inv]
  have h: "is_array 32 ?h" using uploads_okD(1) [OF uok row(1)] by (simp add: upload_ok_def)
  have files: "file_at st' p = (if p = object_path ?h then Some c
      else if p = upload_path ?u then None else file_at st p)" for p
    by (simp add: st' row)
  have ok: "upload_ok st' s" if s: "s \<in> set (st_uploads st)" for s
  proof (cases "s = r")
    case True
    with uploads_okD(1) [OF uok row(1)] row(4) show ?thesis by (simp add: upload_ok_def files)
  next
    case False
    then have "up_upload_id s \<noteq> ?u" using uploads_okD(2) [OF uok row(1) s] by auto
    with uploads_okD(1) [OF uok s] show ?thesis
      by (intro upload_ok_mono [of st s st']) (auto simp: files)
  qed
  have rows: "st_uploads st' = st_uploads st" "st_blobs st' = st_blobs st" by (simp_all add: st')
  have "uploads_ok st'" using uok ok by (simp add: uploads_ok_def rows)
  moreover have "blob_ok X st' b" if "b \<in> set (st_blobs st)" for b
  proof -
    have b: "blob_ok X st b" using inv that by (simp add: blobs_inv_def)
    then have "object_path (bl_blob_id b) \<noteq> object_path ?h"
      using dest by (auto simp: blob_ok_def row)
    with b show ?thesis by (auto simp: blob_ok_def files)
  qed
  moreover have "blake3 X d = k" if "is_array 32 k" "file_at st' (object_path k) = Some d" for k d
    using that c h blobs_invD(1) [OF inv that(1)] by (auto simp: files row split: if_splits)
  ultimately show ?thesis using inv by (auto simp: blobs_inv_def rows)
qed (use inv in simp)

lemma filter_length_le: "length (filter P (filter Q xs)) \<le> length (filter P xs)"
  by (induction xs) auto

lemma record_blob_inv:
  assumes inv: "blobs_inv X st" and run: "record_blob now rec st = (res, st')"
    and len: "is_array 32 (ur_expected_hash rec)" and size: "ur_expected_size rec \<le> MAX_OBJECT_BYTES"
    and stored: "file_at st (object_path (ur_expected_hash rec)) = Some c" "length c = ur_expected_size rec"
  shows "blobs_inv X st'"
proof -
  let ?u = "ur_upload_id rec" and ?h = "ur_expected_hash rec"
  let ?row = "\<lparr>bl_blob_id = ?h, bl_ciphertext_size = ur_expected_size rec, bl_created_at = now\<rparr>"
  let ?blobs = "if \<exists>b \<in> set (st_blobs st). bl_blob_id b = ?h then st_blobs st else st_blobs st @ [?row]"
  have st': "st' = remove_file (upload_path ?u) (st\<lparr>st_blobs := ?blobs,
      st_uploads := filter (\<lambda>r. up_upload_id r \<noteq> ?u) (st_uploads st)\<rparr>)"
    using run size by (auto simp: record_blob_def i64_try_from_def Let_def MAX_OBJECT_BYTES_def)
  have files: "file_at st' p = (if p = upload_path ?u then None else file_at st p)" for p
    by (simp add: st' remove_file_def delete_conv')
  note uok = blobs_invD(3) [OF inv]
  have "upload_ok st' s" if "s \<in> set (st_uploads st)" "up_upload_id s \<noteq> ?u" for s
    using uploads_okD(1) [OF uok that(1)] that(2)
    by (intro upload_ok_mono [of st s st']) (auto simp: files)
  moreover have "length (filter (\<lambda>r. up_upload_id r \<noteq> ?u) (st_uploads st)) \<le> MAX_ACTIVE_UPLOADS"
    using uok by (auto simp: uploads_ok_def intro: order.trans [OF length_filter_le])
  moreover have "length (filter (\<lambda>r. up_device_id r = d) (filter (\<lambda>r. up_upload_id r \<noteq> ?u) (st_uploads st)))
      \<le> MAX_ACTIVE_UPLOADS_PER_DEVICE" for d
    using uok by (auto simp: uploads_ok_def simp del: filter_filter intro: order.trans [OF filter_length_le])
  moreover have "distinct (map up_upload_id (filter (\<lambda>r. up_upload_id r \<noteq> ?u) (st_uploads st)))"
    using uok by (simp add: uploads_ok_def distinct_map_filter)
  ultimately have "uploads_ok st'" by (auto simp: uploads_ok_def st')
  moreover have blobs: "st_blobs st' = ?blobs" by (simp add: st')
  have "distinct (map bl_blob_id (st_blobs st'))"
    using blobs_invD(4) [OF inv] unfolding blobs by auto
  moreover have "blob_ok X st' b" if b: "b \<in> set (st_blobs st')" for b
  proof (cases "b \<in> set (st_blobs st)")
    case True
    with blobs_invD(2) [OF inv True] show ?thesis by (auto simp: blob_ok_def files)
  next
    case False
    then have "b = ?row" using b unfolding blobs by (auto split: if_splits)
    with stored len show ?thesis by (simp add: blob_ok_def files)
  qed
  ultimately show ?thesis using inv by (auto simp: blobs_inv_def files)
qed

end
