(* ===== verification/Storage_Blobs_Props.thy ===== *)
theory Storage_Blobs_Props
  imports Storage_Blobs_Correct
begin

text \<open>
  The reachable states of the blob store, with crashes, and what they guarantee: recorded blobs are
  intact and immutable, an interrupted operation can be repeated, and a complete upload is
  published under its hash and read back.
\<close>

section \<open>Steps\<close>

lemma commit_locked_inv:
  assumes inv: "blobs_inv X st" and run: "commit_locked X now d u st = (res, st')"
  shows "blobs_inv X st'"
proof (cases "load_upload st u d")
  case (Inr rec)
  from load_upload_Inr [OF this] obtain r where
    r: "r \<in> set (st_uploads st)" "ur_upload_id rec = up_upload_id r"
      "ur_expected_hash rec = up_expected_hash r" "ur_received_size rec = up_received_size r"
      "ur_expected_size rec = up_expected_size r" "is_array 32 (up_expected_hash r)" by auto
  have max: "up_expected_size r \<le> MAX_OBJECT_BYTES"
    using uploads_okD(1) [OF blobs_invD(3) [OF inv] r(1)] by (simp add: upload_ok_def)
  show ?thesis
  proof (cases "up_received_size r = up_expected_size r")
    case True
    obtain res1 st1 where p: "publish_file X rec st = (res1, st1)" by fastforce
    have inv1: "blobs_inv X st1" by (rule publish_file_inv [OF inv p r(1-3) True])
    show ?thesis
    proof (cases res1)
      case (Inl e)
      then have "st' = st1" using run Inr True r p by (simp add: commit_locked_def)
      with inv1 show ?thesis by simp
    next
      case res1: (Inr x)
      from publish_file_published [OF p [unfolded res1]] obtain c where
        c: "file_at st1 (object_path (ur_expected_hash rec)) = Some c" "length c = ur_expected_size rec" by auto
      have rec: "record_blob now rec st1 = (res, st')"
        using run Inr True r p res1 by (simp add: commit_locked_def)
      show ?thesis by (rule record_blob_inv [OF inv1 rec _ _ c]) (use r max in simp_all)
    qed
  qed (use run Inr r inv in \<open>simp add: commit_locked_def\<close>)
qed (use assms in \<open>simp add: commit_locked_def\<close>)

text \<open>
  What a crash leaves of one operation that is under way: the upload file created but its row not committed, a
  chunk (or a part of one) written or the file truncated but the offset not recorded, a file renamed but its blob
  not recorded, the blob recorded and committed but the temporary file not removed. Every other operation is one
  transaction. These are the points between a file step and the transaction beside it, on either side.
\<close>

inductive power_loss :: "crypto \<Rightarrow> storage \<Rightarrow> storage \<Rightarrow> bool" for X where
  loss_idle: "power_loss X st st"
| loss_begin: "file_at st (upload_path u) = None \<Longrightarrow> power_loss X st (put_file (upload_path u) [] st)"
| loss_append: "load_upload st u d = Inr rec \<Longrightarrow> ur_received_size rec = offset \<Longrightarrow>
    append_file u offset chunk st = (res, st') \<Longrightarrow> power_loss X st st'"
| loss_publish: "load_upload st u d = Inr rec \<Longrightarrow> ur_received_size rec = ur_expected_size rec \<Longrightarrow>
    publish_file X rec st = (res, st') \<Longrightarrow> power_loss X st st'"
| loss_unlink: "load_upload st u d = Inr rec \<Longrightarrow> ur_received_size rec = ur_expected_size rec \<Longrightarrow>
    publish_file X rec st = (Inr (), st1) \<Longrightarrow> record_blob now rec st1 = (Inr h, st2) \<Longrightarrow>
    power_loss X st (st2\<lparr>st_files := st_files st1\<rparr>)"

inductive_cases power_loss_cases: "power_loss X st st'"

text \<open>A file under an upload path that held none is backed by no row.\<close>

lemma orphan_file_inv:
  assumes "blobs_inv X st" and "file_at st (upload_path u) = None"
    and "\<And>p. p \<noteq> upload_path u \<Longrightarrow> file_at st' p = file_at st p"
    and "st_blobs st' = st_blobs st" "st_uploads st' = st_uploads st"
  shows "blobs_inv X st'"
proof -
  have "upload_ok st' r" if "upload_ok st r" for r
    using that assms(2,3) by (cases "up_upload_id r = u") (auto simp: upload_ok_def)
  then show ?thesis using assms by (simp add: blobs_inv_def blob_ok_def uploads_ok_def)
qed

lemma record_blob_files:
  assumes "record_blob now rec st = (Inr h, st')"
  shows "file_at st' (upload_path (ur_upload_id rec)) = None"
    "\<And>p. p \<noteq> upload_path (ur_upload_id rec) \<Longrightarrow> file_at st' p = file_at st p"
  using assms by (auto simp: record_blob_def Let_def remove_file_def delete_conv' split: sum.splits)

lemma power_loss_inv:
  assumes loss: "power_loss X st st'" and inv: "blobs_inv X st"
  shows "blobs_inv X st'"
  using loss
proof cases
  case (loss_begin u)
  show ?thesis unfolding loss_begin(1) by (rule orphan_file_inv [OF inv loss_begin(2)]) simp_all
next
  case (loss_append u d rec offset chunk res)
  from load_upload_Inr [OF loss_append(1)] loss_append inv show ?thesis by (auto intro: append_file_inv)
next
  case (loss_publish u d rec res)
  from load_upload_Inr [OF loss_publish(1)] loss_publish inv show ?thesis by (auto intro: publish_file_inv)
next
  case (loss_unlink u d rec st1 now h st2)
  have "commit_locked X now d u st = (Inr h, st2)" using loss_unlink by (simp add: commit_locked_def)
  note whole = commit_locked_inv [OF inv this] record_blob_files [OF loss_unlink(5)]
  show ?thesis by (rule orphan_file_inv [OF whole(1,2)]) (use whole(3) loss_unlink(1) in simp_all)
qed (use inv in simp)

text \<open>One operation, or what a crash leaves of one.\<close>

inductive blob_step :: "crypto \<Rightarrow> storage \<Rightarrow> storage \<Rightarrow> bool" for X where
  step_begin: "begin_upload free u now d sz h st = (res, st') \<Longrightarrow> is_array 16 u \<Longrightarrow> is_array 32 h \<Longrightarrow>
     blob_step X st st'"
| step_append: "append_upload_chunk d u offset chunk st = (res, st') \<Longrightarrow> blob_step X st st'"
| step_commit: "commit_upload X now d u st = (res, st') \<Longrightarrow> blob_step X st st'"
| step_crash: "power_loss X st st' \<Longrightarrow> blob_step X st st'"
| step_register: "register_device now i k n st = (res, st') \<Longrightarrow> blob_step X st st'"
| step_revoke: "revoke_device now i st = (res, st') \<Longrightarrow> blob_step X st st'"

inductive_cases blob_step_cases: "blob_step X st st'"

definition fresh_store :: "bytes \<Rightarrow> storage" where
  "fresh_store vault_id = \<lparr>st_vault_id = vault_id, st_metadata = [], st_devices = [], st_blobs = [],
     st_uploads = [], st_commits = [], st_commit_parents = [], st_heads = [], st_files = []\<rparr>"

lemma fresh_store_inv: "blobs_inv X (fresh_store v)"
  by (simp add: blobs_inv_def fresh_store_def uploads_ok_def)

lemma blobs_inv_cong:
  "st_files st' = st_files st \<Longrightarrow> st_blobs st' = st_blobs st \<Longrightarrow> st_uploads st' = st_uploads st \<Longrightarrow>
     blobs_inv X st' = blobs_inv X st"
  by (simp add: blobs_inv_def blob_ok_def uploads_ok_def upload_ok_def)

lemma register_device_fields:
  "register_device now i k n st = (res, st') \<Longrightarrow> st_files st' = st_files st \<and>
     st_blobs st' = st_blobs st \<and> st_uploads st' = st_uploads st \<and> st_commits st' = st_commits st \<and>
     st_commit_parents st' = st_commit_parents st \<and> st_heads st' = st_heads st \<and>
     st_vault_id st' = st_vault_id st \<and> st_metadata st' = st_metadata st"
  by (auto simp: register_device_def Let_def split: if_splits)

lemma revoke_device_fields:
  "revoke_device now i st = (res, st') \<Longrightarrow> st_files st' = st_files st \<and>
     st_blobs st' = st_blobs st \<and> st_uploads st' = st_uploads st \<and> st_commits st' = st_commits st \<and>
     st_commit_parents st' = st_commit_parents st \<and> st_heads st' = st_heads st \<and>
     st_vault_id st' = st_vault_id st \<and> st_metadata st' = st_metadata st"
  by (auto simp: revoke_device_def Let_def split: if_splits)

lemma append_upload_chunk_inv:
  "blobs_inv X st \<Longrightarrow> append_upload_chunk d u offset chunk st = (res, st') \<Longrightarrow> blobs_inv X st'"
  by (auto simp: append_upload_chunk_def split: if_splits sum.splits intro: append_locked_inv)

lemma commit_upload_inv:
  "blobs_inv X st \<Longrightarrow> commit_upload X now d u st = (res, st') \<Longrightarrow> blobs_inv X st'"
  by (auto simp: commit_upload_def split: sum.splits intro: commit_locked_inv)

lemma blob_step_inv: "blob_step X st st' \<Longrightarrow> blobs_inv X st \<Longrightarrow> blobs_inv X st'"
proof (induction rule: blob_step.induct)
  case (step_register now i k n st res st')
  then show ?case using register_device_fields blobs_inv_cong by blast
next
  case (step_revoke now i st res st')
  then show ?case using revoke_device_fields blobs_inv_cong by blast
qed (auto intro: begin_upload_inv append_upload_chunk_inv commit_upload_inv power_loss_inv)

inductive stored :: "crypto \<Rightarrow> storage \<Rightarrow> bool" for X where
  stored_fresh: "stored X (fresh_store v)"
| stored_step: "stored X st \<Longrightarrow> blob_step X st st' \<Longrightarrow> stored X st'"

interpretation blob_store: invariant "blob_step X" "blobs_inv X" for X
  by unfold_locales (rule blob_step_inv)

lemma stored_reached: "stored X st \<Longrightarrow> \<exists>v. (blob_step X)\<^sup>*\<^sup>* (fresh_store v) st"
  by (induction rule: stored.induct) (auto intro: rtranclp.rtrancl_into_rtrancl)

lemma stored_blobs_inv: "stored X st \<Longrightarrow> blobs_inv X st"
  using stored_reached blob_store.steps_keep fresh_store_inv by blast

text \<open>
  C3. In every state the blob store reaches from an empty one, through any sequence of operations run one after
  another, each to its end or cut off by a crash at any point between a file step and the transaction beside it
  (the upload file created and its row not committed; a chunk written and not recorded; a file renamed and its
  blob not recorded; the blob committed and the temporary file not removed), every file under an object path has
  the hash the path names, every recorded blob has its file in full, and every upload row is backed by at least
  the bytes it claims, within the per-device and global limits.
\<close>

theorem stored_inv: "stored X st \<Longrightarrow> blobs_inv X st"
  by (rule stored_blobs_inv)

section \<open>Reading\<close>

lemma find_blob:
  "blobs_inv X st \<Longrightarrow> b \<in> set (st_blobs st) \<Longrightarrow>
     find (\<lambda>x. bl_blob_id x = bl_blob_id b) (st_blobs st) = Some b"
  by (rule find_distinct_key [OF blobs_invD(4)])

text \<open>
  A recorded blob can always be read: for a request within the chunk limit and an offset
  within the blob, the answer is the blob's size, the bytes of the requested range of a content
  whose hash is the blob identifier, and a flag that tells whether the range ends the blob.
\<close>

theorem read_blob_chunk_recorded:
  assumes "blobs_inv X st" and "b \<in> set (st_blobs st)"
    and "0 < maximum" "maximum \<le> MAX_CHUNK_BYTES" and "offset \<le> bl_ciphertext_size b"
  shows "\<exists>content. blake3 X content = bl_blob_id b \<and> length content = bl_ciphertext_size b \<and>
    read_blob_chunk st (bl_blob_id b) offset maximum =
      Inr (length content, offset + min (length content - offset) maximum = length content,
           take maximum (drop offset content))"
proof -
  obtain c where c: "file_at st (object_path (bl_blob_id b)) = Some c" "length c = bl_ciphertext_size b"
    and id: "is_array 32 (bl_blob_id b)"
    using blobs_invD(2) [OF assms(1,2)] by (auto simp: blob_ok_def)
  have "take (min (length c - offset) maximum) (drop offset c) = take maximum (drop offset c)"
    by (simp add: min_def)
  then have "read_blob_chunk st (bl_blob_id b) offset maximum =
      Inr (length c, offset + min (length c - offset) maximum = length c, take maximum (drop offset c))"
    using assms(3-5) c find_blob [OF assms(1,2)] by (simp add: read_blob_chunk_def Let_def)
  with blobs_invD(1) [OF assms(1) id c(1)] c(2) show ?thesis by blast
qed

definition one_blob_store :: storage where
  "one_blob_store = (fresh_store [])\<lparr>
     st_blobs := [\<lparr>bl_blob_id = pad 32 [5, 6, 7], bl_ciphertext_size = 3, bl_created_at = 0\<rparr>],
     st_files := [(object_path (pad 32 [5, 6, 7]), [5, 6, 7])]\<rparr>"

lemma one_blob_store_inv: "blobs_inv plain_crypto one_blob_store"
  by (auto simp: blobs_inv_def blob_ok_def uploads_ok_def one_blob_store_def fresh_store_def
      plain_crypto_def split: if_splits)

theorem read_blob_chunk_recorded_witness:
  "\<exists>content. blake3 plain_crypto content = pad 32 [5, 6, 7] \<and> length content = 3 \<and>
     read_blob_chunk one_blob_store (pad 32 [5, 6, 7]) 1 10 = Inr (3, True, take 10 (drop 1 content))"
  using read_blob_chunk_recorded [OF one_blob_store_inv, of "hd (st_blobs one_blob_store)" 10 1]
  by (auto simp: one_blob_store_def fresh_store_def MAX_CHUNK_BYTES_def)

section \<open>Immutability\<close>

lemma begin_upload_objects:
  assumes "begin_upload free u now d sz h st = (res, st')"
  shows "file_at st' (object_path k) = file_at st (object_path k) \<and> st_blobs st' = st_blobs st"
  using begin_upload_cases [OF assms] by (auto simp: put_file_def update_conv')

lemma append_file_objects:
  "append_file u offset chunk st = (res, st') \<Longrightarrow>
     file_at st' (object_path k) = file_at st (object_path k) \<and> st_blobs st' = st_blobs st"
  by (auto simp: append_file_def split: option.splits if_splits)

lemma append_record_objects:
  "append_record u offset n st = (res, st') \<Longrightarrow>
     file_at st' (object_path k) = file_at st (object_path k) \<and> st_blobs st' = st_blobs st"
  by (auto simp: append_record_def Let_def split: sum.splits if_splits)

lemma append_locked_objects:
  assumes "append_locked d u offset chunk st = (res, st')"
  shows "file_at st' (object_path k) = file_at st (object_path k) \<and> st_blobs st' = st_blobs st"
proof -
  obtain res1 st1 where a: "append_file u offset chunk st = (res1, st1)" by fastforce
  obtain res2 st2 where r: "append_record u offset (offset + length chunk) st1 = (res2, st2)" by fastforce
  have "st' = st \<or> st' = st1 \<or> st' = st2"
    using assms a r by (auto simp: append_locked_def split: sum.splits if_splits)
  with append_file_objects [OF a] append_record_objects [OF r] show ?thesis by metis
qed

lemma publish_file_objects:
  assumes "publish_file X rec st = (res, st')"
  shows "(file_at st (object_path k) = Some c \<longrightarrow> file_at st' (object_path k) = Some c) \<and>
    st_blobs st' = st_blobs st"
  using publish_file_cases [OF assms] by auto

lemma record_blob_objects:
  assumes "record_blob now rec st = (res, st')"
  shows "file_at st' (object_path k) = file_at st (object_path k) \<and> set (st_blobs st) \<subseteq> set (st_blobs st')"
  using assms by (auto simp: record_blob_def Let_def remove_file_def delete_conv' split: sum.splits if_splits)

lemma commit_locked_objects:
  assumes "commit_locked X now d u st = (res, st')"
  shows "(file_at st (object_path k) = Some c \<longrightarrow> file_at st' (object_path k) = Some c) \<and>
    set (st_blobs st) \<subseteq> set (st_blobs st')"
proof (cases "load_upload st u d")
  case (Inr rec)
  obtain res1 st1 where p: "publish_file X rec st = (res1, st1)" by fastforce
  obtain res2 st2 where r: "record_blob now rec st1 = (res2, st2)" by fastforce
  have "st' = st \<or> st' = st1 \<or> st' = st2"
    using assms Inr p r by (auto simp: commit_locked_def split: sum.splits if_splits)
  with publish_file_objects [OF p, of k c] record_blob_objects [OF r, of k] show ?thesis by auto
qed (use assms in \<open>simp add: commit_locked_def\<close>)

lemma power_loss_objects:
  assumes "power_loss X st st'"
  shows "(file_at st (object_path k) = Some c \<longrightarrow> file_at st' (object_path k) = Some c) \<and>
    set (st_blobs st) \<subseteq> set (st_blobs st')"
  using assms
proof cases
  case (loss_unlink u d rec st1 now h st2)
  with publish_file_objects [OF loss_unlink(4), of k c] record_blob_objects [OF loss_unlink(5), of k]
  show ?thesis by auto
qed (auto dest: append_file_objects [of _ _ _ _ _ _ k] publish_file_objects [of _ _ _ _ _ k c])

text \<open>
  Blobs are immutable and never disappear: whatever operation runs or crashes, the content
  under an object path stays what it was and every recorded blob stays recorded.
\<close>

theorem blobs_immutable:
  assumes "blob_step X st st'"
  shows "(file_at st (object_path k) = Some c \<longrightarrow> file_at st' (object_path k) = Some c) \<and>
    set (st_blobs st) \<subseteq> set (st_blobs st')"
  using assms
proof cases
  case (step_append d u offset chunk res)
  then show ?thesis using append_locked_objects [of d u offset chunk st _ st' k]
    by (auto simp: append_upload_chunk_def split: if_splits sum.splits)
next
  case (step_commit now d u res)
  then show ?thesis using commit_locked_objects [of X now d u st _ st' k c]
    by (auto simp: commit_upload_def split: sum.splits)
next
  case (step_register now i x n res)
  then show ?thesis using register_device_fields by fastforce
next
  case (step_revoke now i res)
  then show ?thesis using revoke_device_fields by fastforce
next
  case step_crash
  then show ?thesis by (rule power_loss_objects)
qed (auto dest: begin_upload_objects [of _ _ _ _ _ _ _ _ _ k])

theorem blobs_immutable_witness:
  "\<exists>st'. blob_step plain_crypto one_blob_store st' \<and>
     file_at st' (object_path (pad 32 [5, 6, 7])) = Some [5, 6, 7]"
proof -
  obtain res st' where r: "register_device 1 [1] [2] [3] one_blob_store = (res, st')" by fastforce
  have s: "blob_step plain_crypto one_blob_store st'" by (rule step_register [OF r])
  from blobs_immutable [OF s, of "pad 32 [5, 6, 7]" "[5, 6, 7]"] s show ?thesis
    by (auto simp: one_blob_store_def)
qed

section \<open>Interrupted operations\<close>

lemma update_twice: "AList.update k v (AList.update k w al) = AList.update k v al"
  by (induction al) auto

lemma put_file_twice [simp]: "put_file p c (put_file p d st) = put_file p c st"
  by (simp add: put_file_def update_twice)

lemma load_upload_cong:
  "st_uploads st' = st_uploads st \<Longrightarrow> load_upload st' u d = load_upload st u d"
  by (simp add: load_upload_def)

lemma append_file_again:
  assumes "append_file u offset chunk st = (Inr x, st1)"
  shows "append_file u offset chunk' st1 = append_file u offset chunk' st"
proof -
  obtain c where c: "file_at st (upload_path u) = Some c" "offset \<le> length c"
    "st1 = put_file (upload_path u) (take offset c @ chunk) st"
    using append_file_result [OF assms] .
  then show ?thesis by (simp add: append_file_def)
qed

lemma append_locked_again:
  assumes "append_file u offset chunk st = (Inr x, st1)"
  shows "append_locked d u offset chunk' st1 = append_locked d u offset chunk' st \<or>
    (\<exists>e. append_locked d u offset chunk' st = (Inl e, st) \<and> append_locked d u offset chunk' st1 = (Inl e, st1))"
proof -
  have "st_uploads st1 = st_uploads st" using append_file_result [OF assms] by (metis put_file_fields(1))
  then have load: "load_upload st1 u d = load_upload st u d" by (rule load_upload_cong)
  show ?thesis
  proof (cases "load_upload st u d")
    case (Inl e)
    then show ?thesis by (simp add: append_locked_def load)
  next
    case (Inr rec)
    then show ?thesis by (simp add: append_locked_def load append_file_again [OF assms])
  qed
qed

text \<open>
  An interrupted append can be repeated. If the server dies after writing a chunk and before
  recording it, a later append at the same offset, of the same or of any other chunk, behaves exactly as
  if the first one had never happened.
\<close>

theorem append_after_crash:
  assumes "append_file u offset chunk st = (Inr x, st1)"
  shows "fst (append_upload_chunk d u offset chunk' st1) = fst (append_upload_chunk d u offset chunk' st) \<and>
    (\<forall>n. fst (append_upload_chunk d u offset chunk' st) = Inr n \<longrightarrow>
       snd (append_upload_chunk d u offset chunk' st1) = snd (append_upload_chunk d u offset chunk' st))"
proof -
  have "st_devices st1 = st_devices st" using append_file_result [OF assms] by (metis put_file_fields(3))
  then have act: "require_active_device st1 d = require_active_device st d"
    by (simp add: require_active_device_def get_device_def device_row_of_def)
  show ?thesis
  proof (cases "require_active_device st d")
    case (Inl e)
    then show ?thesis by (simp add: append_upload_chunk_def act)
  next
    case (Inr dev)
    then show ?thesis
      using append_locked_again [OF assms, of d chunk'] by (auto simp: append_upload_chunk_def act)
  qed
qed

definition one_upload_store :: storage where
  "one_upload_store = (fresh_store (pad 16 [3]))\<lparr>
     st_devices := [\<lparr>dv_device_id = pad 16 [1], dv_public_key = pad 32 [2], dv_encrypted_name = [],
       dv_registered_at = 0, dv_revoked_at = None\<rparr>],
     st_uploads := [\<lparr>up_upload_id = pad 16 [9], up_device_id = pad 16 [1], up_expected_size = 3,
       up_expected_hash = pad 32 [5, 6, 7], up_received_size = 0, up_created_at = 0\<rparr>],
     st_files := [(upload_path (pad 16 [9]), [])]\<rparr>"

lemma one_upload_stored: "stored X one_upload_store"
proof -
  let ?D = "pad 16 [1]" and ?U = "pad 16 [9]" and ?H = "pad 32 [5, 6, 7]"
  let ?st = "snd (register_device 0 ?D (pad 32 [2]) [] (fresh_store (pad 16 [3])))"
  have d: "stored X ?st"
    by (rule stored_step [OF stored_fresh step_register]) (rule prod.collapse [symmetric])
  have "begin_upload (Some (2 ^ 63)) ?U 0 ?D 3 ?H ?st = (Inr (?U, 0), one_upload_store)"
    by (simp add: begin_upload_def upload_insert_fails_def put_file_def one_upload_store_def fresh_store_def
        register_device_def require_active_device_def get_device_def device_row_of_def Let_def
        MAX_OBJECT_BYTES_def MINIMUM_FREE_DISK_BYTES_def MAX_ACTIVE_UPLOADS_def MAX_ACTIVE_UPLOADS_PER_DEVICE_def)
  from stored_step [OF d step_begin [OF this]] show ?thesis by simp
qed

theorem stored_inv_witness: "blobs_inv plain_crypto one_upload_store"
  using stored_inv [OF one_upload_stored] .

theorem append_after_crash_witness:
  "\<exists>st1. append_file (pad 16 [9]) 0 [4, 4] one_upload_store = (Inr (), st1) \<and>
     fst (append_upload_chunk (pad 16 [1]) (pad 16 [9]) 0 [5, 6, 7] st1) =
     fst (append_upload_chunk (pad 16 [1]) (pad 16 [9]) 0 [5, 6, 7] one_upload_store)"
proof -
  have a: "append_file (pad 16 [9]) 0 [4, 4] one_upload_store =
      (Inr (), put_file (upload_path (pad 16 [9])) [4, 4] one_upload_store)"
    by (simp add: append_file_def one_upload_store_def)
  from append_after_crash [OF a, of "pad 16 [1]" "[5, 6, 7]"] a show ?thesis by metis
qed

text \<open>
  An interrupted commit can be repeated. If the server dies after renaming the verified file and
  before recording the blob, repeating the commit ends in the state, and with the result, of an
  uninterrupted one.
\<close>

theorem commit_after_crash:
  assumes "load_upload st u d = Inr rec" and "ur_received_size rec = ur_expected_size rec"
    and "publish_file X rec st = (Inr x, st1)" and "require_active_device st d = Inr dev"
  shows "commit_upload X now d u st1 = commit_upload X now d u st"
proof -
  have rows: "st_uploads st1 = st_uploads st" "st_devices st1 = st_devices st"
    using publish_file_cases [OF assms(3)] by auto
  have act: "require_active_device st1 d = require_active_device st d"
    by (simp add: require_active_device_def get_device_def device_row_of_def rows)
  have load: "load_upload st1 u d = Inr rec" using assms(1) load_upload_cong [OF rows(1)] by simp
  from publish_file_published [OF assms(3)] obtain c where
    c: "file_at st1 (object_path (ur_expected_hash rec)) = Some c" "length c = ur_expected_size rec"
      "blake3 X c = ur_expected_hash rec" by blast
  have "publish_file X rec st1 = (Inr (), st1)"
    using c by (simp add: publish_file_def verify_file_def Let_def)
  with assms load have "commit_locked X now d u st1 = commit_locked X now d u st"
    by (simp add: commit_locked_def)
  with assms(4) show ?thesis by (simp add: commit_upload_def act)
qed

definition full_upload_store :: storage where
  "full_upload_store = one_upload_store\<lparr>
     st_uploads := [\<lparr>up_upload_id = pad 16 [9], up_device_id = pad 16 [1], up_expected_size = 3,
       up_expected_hash = pad 32 [5, 6, 7], up_received_size = 3, up_created_at = 0\<rparr>],
     st_files := [(upload_path (pad 16 [9]), [5, 6, 7])]\<rparr>"

theorem commit_after_crash_witness:
  "\<exists>rec st1. publish_file plain_crypto rec full_upload_store = (Inr (), st1) \<and>
     commit_upload plain_crypto 1 (pad 16 [1]) (pad 16 [9]) st1 =
     commit_upload plain_crypto 1 (pad 16 [1]) (pad 16 [9]) full_upload_store"
proof -
  let ?rec = "\<lparr>ur_upload_id = pad 16 [9], ur_expected_size = 3,
    ur_expected_hash = pad 32 [5, 6, 7], ur_received_size = 3\<rparr>"
  have l: "load_upload full_upload_store (pad 16 [9]) (pad 16 [1]) = Inr ?rec"
    by (simp add: load_upload_def full_upload_store_def)
  obtain st1 where p: "publish_file plain_crypto ?rec full_upload_store = (Inr (), st1)"
    by (simp add: publish_file_def verify_file_def full_upload_store_def Let_def plain_crypto_def)
  obtain dev where d: "require_active_device full_upload_store (pad 16 [1]) = Inr dev"
    by (simp add: require_active_device_def get_device_def device_row_of_def full_upload_store_def
        one_upload_store_def)
  from commit_after_crash [OF l _ p d, of 1] p show ?thesis by auto
qed

section \<open>A complete upload\<close>

fun append_all :: "bytes \<Rightarrow> bytes \<Rightarrow> nat \<Rightarrow> bytes list \<Rightarrow> storage \<Rightarrow> nat st_result" where
  "append_all d u offset [] st = (Inr offset, st)"
| "append_all d u offset (c # cs) st =
     (case append_upload_chunk d u offset c st of
        (Inl e, st1) \<Rightarrow> (Inl e, st1)
      | (Inr offset', st1) \<Rightarrow> append_all d u offset' cs st1)"

text \<open>A state with an upload of device d whose durable bytes are data.\<close>

definition holds :: "storage \<Rightarrow> bytes \<Rightarrow> bytes \<Rightarrow> nat \<Rightarrow> bytes \<Rightarrow> bytes \<Rightarrow> bool" where
  "holds st d u sz h data \<longleftrightarrow> distinct (map up_upload_id (st_uploads st)) \<and>
     (\<exists>r \<in> set (st_uploads st). up_upload_id r = u \<and> up_device_id r = d \<and> up_expected_size r = sz \<and>
        up_expected_hash r = h \<and> up_received_size r = length data) \<and>
     file_at st (upload_path u) = Some data"

lemma find_upload:
  "distinct (map up_upload_id rs) \<Longrightarrow> r \<in> set rs \<Longrightarrow>
     find (\<lambda>x. up_upload_id x = up_upload_id r \<and> up_device_id x = up_device_id r) rs = Some r"
  by (induction rs) (auto simp: image_iff)

lemma holds_load:
  assumes "holds st d u sz h data" and "is_array 32 h"
  shows "load_upload st u d = Inr \<lparr>ur_upload_id = u, ur_expected_size = sz, ur_expected_hash = h,
    ur_received_size = length data\<rparr>"
proof -
  obtain r where r: "r \<in> set (st_uploads st)" "up_upload_id r = u" "up_device_id r = d"
      "up_expected_size r = sz" "up_expected_hash r = h" "up_received_size r = length data"
    and dist: "distinct (map up_upload_id (st_uploads st))"
    using assms(1) by (auto simp: holds_def)
  with find_upload [OF dist r(1)] assms(2) show ?thesis by (simp add: load_upload_def)
qed

lemma holds_filter:
  assumes "holds st d u sz h data"
  shows "length (filter (\<lambda>r. up_upload_id r = u \<and> up_received_size r = length data) (st_uploads st)) = 1"
proof -
  obtain r where r: "r \<in> set (st_uploads st)" "up_upload_id r = u" "up_received_size r = length data"
    and dist: "distinct (map up_upload_id (st_uploads st))"
    using assms by (auto simp: holds_def)
  have "length (filter (\<lambda>x. up_upload_id x = up_upload_id r \<and> up_received_size x = up_received_size r) rs) = 1"
    if "distinct (map up_upload_id rs)" "r \<in> set rs" for rs
    using that
  proof (induction rs)
    case (Cons a rs)
    show ?case
    proof (cases "a = r")
      case True
      with Cons.prems(1) have "up_upload_id r \<notin> up_upload_id ` set rs" by simp
      then have "\<forall>x \<in> set rs. up_upload_id x \<noteq> up_upload_id r" by (metis imageI)
      then have "filter (\<lambda>x. up_upload_id x = up_upload_id r \<and>
          up_received_size x = up_received_size r) rs = []"
        by (simp add: filter_empty_conv)
      with True show ?thesis by simp
    next
      case False
      with Cons have "up_upload_id a \<noteq> up_upload_id r" by auto
      with Cons False show ?thesis by simp
    qed
  qed simp
  from this [OF dist r(1)] r(2,3) show ?thesis by simp
qed

lemma holds_append:
  assumes "holds st d u sz h data" "is_array 32 h" and act: "require_active_device st d = Inr dev"
    and chunk: "chunk \<noteq> []" "length chunk \<le> MAX_CHUNK_BYTES"
    and fits: "length data + length chunk \<le> sz" "sz \<le> MAX_OBJECT_BYTES"
  shows "\<exists>st'. append_upload_chunk d u (length data) chunk st = (Inr (length (data @ chunk)), st') \<and>
    holds st' d u sz h (data @ chunk) \<and> st_devices st' = st_devices st \<and> st_blobs st' = st_blobs st \<and>
    (\<forall>k. file_at st' (object_path k) = file_at st (object_path k))"
proof -
  let ?n = "length data + length chunk"
  let ?st1 = "put_file (upload_path u) (data @ chunk) st"
  let ?f = "\<lambda>r. if up_upload_id r = u \<and> up_received_size r = length data
      then r\<lparr>up_received_size := ?n\<rparr> else r"
  let ?st2 = "?st1\<lparr>st_uploads := map ?f (st_uploads st)\<rparr>"
  have f: "file_at st (upload_path u) = Some data" using assms(1) by (simp add: holds_def)
  have file_step: "append_file u (length data) chunk st = (Inr (), ?st1)" by (simp add: append_file_def f)
  have small: "?n < 2 ^ 63" using fits by (simp add: MAX_OBJECT_BYTES_def)
  have record_step: "append_record u (length data) ?n ?st1 = (Inr ?n, ?st2)"
    using small holds_filter [OF assms(1)] by (simp add: append_record_def i64_try_from_def)
  have "append_upload_chunk d u (length data) chunk st = (Inr ?n, ?st2)"
    using chunk fits small
    by (simp add: append_upload_chunk_def append_locked_def act holds_load [OF assms(1,2)]
        file_step record_step)
  moreover have "holds ?st2 d u sz h (data @ chunk)"
  proof -
    have ids: "map up_upload_id (map ?f rs) = map up_upload_id rs" for rs
      by (induction rs) auto
    obtain r where r: "r \<in> set (st_uploads st)" "up_upload_id r = u" "up_device_id r = d"
      "up_expected_size r = sz" "up_expected_hash r = h" "up_received_size r = length data"
      and dist: "distinct (map up_upload_id (st_uploads st))"
      using assms(1) by (auto simp: holds_def)
    have rows: "st_uploads ?st2 = map ?f (st_uploads st)" by simp
    have "?f r \<in> set (st_uploads ?st2)" unfolding rows set_map by (rule imageI [OF r(1)])
    moreover have "up_upload_id (?f r) = u" "up_device_id (?f r) = d" "up_expected_size (?f r) = sz"
      "up_expected_hash (?f r) = h" "up_received_size (?f r) = length (data @ chunk)"
      using r by simp_all
    moreover have "distinct (map up_upload_id (st_uploads ?st2))" unfolding rows ids by (rule dist)
    moreover have "file_at ?st2 (upload_path u) = Some (data @ chunk)"
      by (simp add: put_file_def update_conv')
    ultimately show ?thesis unfolding holds_def by blast
  qed
  ultimately show ?thesis by (auto simp: put_file_def update_conv')
qed

lemma holds_append_all:
  assumes "is_array 32 h" "sz \<le> MAX_OBJECT_BYTES"
  shows "holds st d u sz h data \<Longrightarrow> require_active_device st d = Inr dev \<Longrightarrow>
    \<forall>c \<in> set cs. c \<noteq> [] \<and> length c \<le> MAX_CHUNK_BYTES \<Longrightarrow>
    length data + length (concat cs) \<le> sz \<Longrightarrow>
    \<exists>st'. append_all d u (length data) cs st = (Inr (length (data @ concat cs)), st') \<and>
      holds st' d u sz h (data @ concat cs) \<and> st_devices st' = st_devices st \<and> st_blobs st' = st_blobs st \<and>
      (\<forall>k. file_at st' (object_path k) = file_at st (object_path k))"
proof (induction cs arbitrary: st data)
  case (Cons c cs)
  have "length data + length c \<le> sz" using Cons.prems(4) by simp
  with holds_append [OF Cons.prems(1) assms(1) Cons.prems(2), of c] Cons.prems(3) assms(2)
  obtain st1 where st1: "append_upload_chunk d u (length data) c st = (Inr (length (data @ c)), st1)"
      "holds st1 d u sz h (data @ c)" "st_devices st1 = st_devices st" "st_blobs st1 = st_blobs st"
      "\<forall>k. file_at st1 (object_path k) = file_at st (object_path k)" by auto
  have act: "require_active_device st1 d = Inr dev"
    using Cons.prems(2) st1(3) by (simp add: require_active_device_def get_device_def device_row_of_def)
  from Cons.IH [OF st1(2) act] Cons.prems(3,4) obtain st2 where
    "append_all d u (length (data @ c)) cs st1 = (Inr (length ((data @ c) @ concat cs)), st2)"
    "holds st2 d u sz h ((data @ c) @ concat cs)" "st_devices st2 = st_devices st1"
    "st_blobs st2 = st_blobs st1"
    "\<forall>k. file_at st2 (object_path k) = file_at st1 (object_path k)" by auto
  with st1 show ?case by (simp add: add.assoc)
qed simp

lemma append_all_inv:
  "blobs_inv X st \<Longrightarrow> append_all d u n cs st = (res, st') \<Longrightarrow> blobs_inv X st'"
proof (induction cs arbitrary: n st)
  case (Cons c cs)
  obtain r st1 where a: "append_upload_chunk d u n c st = (r, st1)" by fastforce
  have inv: "blobs_inv X st1" by (rule append_upload_chunk_inv [OF Cons.prems(1) a])
  show ?case
  proof (cases r)
    case (Inl e)
    with Cons.prems(2) a inv show ?thesis by simp
  next
    case (Inr m)
    with Cons.prems(2) a Cons.IH [OF inv] show ?thesis by simp
  qed
qed simp

lemma record_blob_result:
  assumes "ur_expected_size rec \<le> MAX_OBJECT_BYTES"
  obtains st' where "record_blob now rec st = (Inr (ur_expected_hash rec), st')"
    and "\<exists>b \<in> set (st_blobs st'). bl_blob_id b = ur_expected_hash rec"
  using assms
  by (auto simp: record_blob_def i64_try_from_def MAX_OBJECT_BYTES_def Let_def)

lemma full_upload_stored:
  assumes inv: "blobs_inv X st" and up: "holds st d u sz h []" and act: "require_active_device st d = Inr dev"
    and h: "is_array 32 h" and data: "length (concat cs) = sz" "blake3 X (concat cs) = h"
    and chunks: "\<forall>c \<in> set cs. c \<noteq> [] \<and> length c \<le> MAX_CHUNK_BYTES"
    and dest: "file_at st (object_path h) = None \<or> file_at st (object_path h) = Some (concat cs)"
  obtains st1 st2 b where "append_all d u 0 cs st = (Inr sz, st1)" "commit_upload X now d u st1 = (Inr h, st2)"
    "blobs_inv X st2" "b \<in> set (st_blobs st2)" "bl_blob_id b = h" "bl_ciphertext_size b = sz"
    "file_at st2 (object_path h) = Some (concat cs)" "sz \<le> MAX_OBJECT_BYTES"
proof -
  let ?data = "concat cs"
  let ?rec = "\<lparr>ur_upload_id = u, ur_expected_size = sz, ur_expected_hash = h, ur_received_size = sz\<rparr>"
  obtain r where "r \<in> set (st_uploads st)" "up_expected_size r = sz"
    using up by (auto simp: holds_def)
  then have max: "sz \<le> MAX_OBJECT_BYTES"
    using uploads_okD(1) [OF blobs_invD(3) [OF inv]] by (auto simp: upload_ok_def)
  from holds_append_all [OF h max up act chunks] data(1) obtain st1 where
    st1: "append_all d u 0 cs st = (Inr sz, st1)" "holds st1 d u sz h ?data" "st_devices st1 = st_devices st"
      "\<forall>k. file_at st1 (object_path k) = file_at st (object_path k)" by auto
  have act1: "require_active_device st1 d = Inr dev"
    using act st1(3) by (simp add: require_active_device_def get_device_def device_row_of_def)
  have load: "load_upload st1 u d = Inr ?rec" using holds_load [OF st1(2) h] data(1) by simp
  have temp: "file_at st1 (upload_path u) = Some ?data" using st1(2) by (simp add: holds_def)
  have dest1: "file_at st1 (object_path h) = None \<or> file_at st1 (object_path h) = Some ?data"
    using dest st1(4) by simp
  obtain st2 where st2: "publish_file X ?rec st1 = (Inr (), st2)" "file_at st2 (object_path h) = Some ?data"
    using dest1 temp data by (auto simp: publish_file_def verify_file_def Let_def)
  obtain st3 where st3: "record_blob now ?rec st2 = (Inr h, st3)" "\<exists>b \<in> set (st_blobs st3). bl_blob_id b = h"
    using record_blob_result [of ?rec now st2] max by auto
  have commit: "commit_upload X now d u st1 = (Inr h, st3)"
    using act1 load st2(1) st3(1) by (simp add: commit_upload_def commit_locked_def)
  have inv1: "blobs_inv X st1" by (rule append_all_inv [OF inv st1(1)])
  have inv3: "blobs_inv X st3" by (rule commit_upload_inv [OF inv1 commit])
  have file3: "file_at st3 (object_path h) = Some ?data"
    using record_blob_objects [OF st3(1), of h] st2(2) by simp
  obtain b where b: "b \<in> set (st_blobs st3)" "bl_blob_id b = h" using st3(2) by blast
  have size: "bl_ciphertext_size b = sz"
    using blobs_invD(2) [OF inv3 b(1)] b(2) file3 data(1) by (auto simp: blob_ok_def)
  from that [OF st1(1) commit inv3 b size file3 max] show thesis .
qed

text \<open>
  A complete upload is published. Starting from an empty upload of size sz and hash h,
  appending the chunks of data of that size and hash in order and committing succeeds, returns the
  hash, and from then on every range of the blob reads back the corresponding bytes of the data.
\<close>

theorem full_upload_published:
  assumes inv: "blobs_inv X st" and up: "holds st d u sz h []" and act: "require_active_device st d = Inr dev"
    and h: "is_array 32 h" and data: "length (concat cs) = sz" "blake3 X (concat cs) = h"
    and chunks: "\<forall>c \<in> set cs. c \<noteq> [] \<and> length c \<le> MAX_CHUNK_BYTES"
    and dest: "file_at st (object_path h) = None \<or> file_at st (object_path h) = Some (concat cs)"
  shows "\<exists>st1 st2. append_all d u 0 cs st = (Inr sz, st1) \<and> commit_upload X now d u st1 = (Inr h, st2) \<and>
    (\<forall>offset maximum. offset \<le> sz \<longrightarrow> 0 < maximum \<longrightarrow> maximum \<le> MAX_CHUNK_BYTES \<longrightarrow>
       read_blob_chunk st2 h offset maximum =
         Inr (sz, offset + min (sz - offset) maximum = sz, take maximum (drop offset (concat cs))))"
proof -
  obtain st1 st2 b where up: "append_all d u 0 cs st = (Inr sz, st1)" "commit_upload X now d u st1 = (Inr h, st2)"
    "blobs_inv X st2" "b \<in> set (st_blobs st2)" "bl_blob_id b = h" "bl_ciphertext_size b = sz"
    "file_at st2 (object_path h) = Some (concat cs)"
    by (rule full_upload_stored [OF assms])
  have "take (min (sz - k) m) (drop k (concat cs)) = take m (drop k (concat cs))" for k m
    using data(1) by (simp add: min_def)
  then have "read_blob_chunk st2 h k m = Inr (sz, k + min (sz - k) m = sz, take m (drop k (concat cs)))"
    if "k \<le> sz" "0 < m" "m \<le> MAX_CHUNK_BYTES" for k m
    using that find_blob [OF up(3,4)] up(5-7) data(1) by (simp add: read_blob_chunk_def Let_def)
  with up(1,2) show ?thesis by blast
qed

lemma one_upload_store_inv: "blobs_inv plain_crypto one_upload_store"
  by (auto simp: blobs_inv_def blob_ok_def uploads_ok_def upload_ok_def one_upload_store_def
      fresh_store_def MAX_OBJECT_BYTES_def MAX_ACTIVE_UPLOADS_def MAX_ACTIVE_UPLOADS_PER_DEVICE_def
      split: if_splits)

theorem full_upload_published_witness:
  "\<exists>st1 st2. append_all (pad 16 [1]) (pad 16 [9]) 0 [[5, 6], [7]] one_upload_store = (Inr 3, st1) \<and>
     commit_upload plain_crypto 1 (pad 16 [1]) (pad 16 [9]) st1 = (Inr (pad 32 [5, 6, 7]), st2) \<and>
     read_blob_chunk st2 (pad 32 [5, 6, 7]) 1 10 = Inr (3, True, [6, 7])"
proof -
  have u: "holds one_upload_store (pad 16 [1]) (pad 16 [9]) 3 (pad 32 [5, 6, 7]) []"
    by (simp add: holds_def one_upload_store_def)
  obtain dev where d: "require_active_device one_upload_store (pad 16 [1]) = Inr dev"
    by (simp add: require_active_device_def get_device_def device_row_of_def one_upload_store_def)
  have "file_at one_upload_store (object_path (pad 32 [5, 6, 7])) = None"
    by (simp add: one_upload_store_def)
  from full_upload_published [OF one_upload_store_inv u d, of "[[5, 6], [7]]" 1] this
  show ?thesis by (auto simp: plain_crypto_def MAX_CHUNK_BYTES_def)
qed

section \<open>A wrong hash\<close>

text \<open>
  An upload whose complete content does not have the promised hash cannot be repaired or
  abandoned by its device: committing it fails without a change, appending to it fails
  without a change, and beginning the same upload again returns the same full upload.
\<close>

theorem wrong_hash_upload_stuck:
  assumes up: "holds st d u sz h data" and full: "length data = sz" "blake3 X data \<noteq> h"
    and h: "is_array 32 h" "is_array 16 u" and act: "require_active_device st d = Inr dev"
    and dest: "file_at st (object_path h) = None" and size: "sz \<le> MAX_OBJECT_BYTES"
    and unique: "distinct (map (\<lambda>r. (up_device_id r, up_expected_size r, up_expected_hash r)) (st_uploads st))"
    and free: "sz + MINIMUM_FREE_DISK_BYTES \<le> free"
  shows "commit_upload X now d u st = (Inl SE_IntegrityFailure, st) \<and>
    (\<exists>e. append_upload_chunk d u offset chunk st = (Inl e, st)) \<and>
    begin_upload (Some free) v now d sz h st = (Inr (u, sz), st)"
proof (intro conjI)
  have load: "load_upload st u d = Inr \<lparr>ur_upload_id = u, ur_expected_size = sz,
      ur_expected_hash = h, ur_received_size = sz\<rparr>"
    using holds_load [OF up h(1)] full(1) by simp
  have temp: "file_at st (upload_path u) = Some data" using up by (simp add: holds_def)
  show "commit_upload X now d u st = (Inl SE_IntegrityFailure, st)"
    using act load temp dest full
    by (simp add: commit_upload_def commit_locked_def publish_file_def verify_file_def Let_def)
  show "\<exists>e. append_upload_chunk d u offset chunk st = (Inl e, st)"
    using act load by (cases chunk) (auto simp: append_upload_chunk_def append_locked_def)
  obtain r where r: "r \<in> set (st_uploads st)" "up_upload_id r = u" "up_device_id r = d"
      "up_expected_size r = sz" "up_expected_hash r = h" "up_received_size r = sz"
    using up full(1) by (auto simp: holds_def)
  have "find (\<lambda>x. (up_device_id x, up_expected_size x, up_expected_hash x) =
      (up_device_id r, up_expected_size r, up_expected_hash r)) (st_uploads st) = Some r"
    by (rule find_distinct_key [OF unique r(1)])
  with r have "find (\<lambda>x. up_device_id x = d \<and> up_expected_size x = sz \<and> up_expected_hash x = h)
      (st_uploads st) = Some r" by simp
  moreover have "\<not> free < min (sz + MINIMUM_FREE_DISK_BYTES) (2 ^ 64 - 1)" using free by simp
  ultimately show "begin_upload (Some free) v now d sz h st = (Inr (u, sz), st)"
    using size act r h(2) unfolding begin_upload_def by simp
qed

theorem wrong_hash_upload_stuck_witness:
  "\<exists>st. commit_upload plain_crypto 1 (pad 16 [1]) (pad 16 [9]) st = (Inl SE_IntegrityFailure, st) \<and>
     st_uploads st \<noteq> [] \<and>
     begin_upload (Some 100000000) [] 1 (pad 16 [1]) 3 (pad 32 [5, 6, 7]) st = (Inr (pad 16 [9], 3), st)"
proof -
  let ?st = "full_upload_store\<lparr>st_files := [(upload_path (pad 16 [9]), [8, 8, 8])]\<rparr>"
  have u: "holds ?st (pad 16 [1]) (pad 16 [9]) 3 (pad 32 [5, 6, 7]) [8, 8, 8]"
    by (simp add: holds_def full_upload_store_def)
  obtain dev where d: "require_active_device ?st (pad 16 [1]) = Inr dev"
    by (simp add: require_active_device_def get_device_def device_row_of_def full_upload_store_def
        one_upload_store_def)
  have hash: "blake3 plain_crypto [8, 8, 8] \<noteq> pad 32 [5, 6, 7]" by (simp add: plain_crypto_def pad_def)
  have "file_at ?st (object_path (pad 32 [5, 6, 7])) = None" by simp
  from wrong_hash_upload_stuck [OF u _ hash _ _ d this, where now = 1 and offset = 0 and chunk = "[]"
      and free = 100000000 and v = "[]"]
  have "commit_upload plain_crypto 1 (pad 16 [1]) (pad 16 [9]) ?st = (Inl SE_IntegrityFailure, ?st) \<and>
     begin_upload (Some 100000000) [] 1 (pad 16 [1]) 3 (pad 32 [5, 6, 7]) ?st = (Inr (pad 16 [9], 3), ?st)"
    by (simp add: full_upload_store_def MAX_OBJECT_BYTES_def MINIMUM_FREE_DISK_BYTES_def)
  moreover have "st_uploads ?st \<noteq> []" by (simp add: full_upload_store_def)
  ultimately show ?thesis by blast
qed

end
