(* ===== verification/Storage_Commits_Correct.thy ===== *)
theory Storage_Commits_Correct
  imports Storage_Commits Commit_Graph_Queries
begin

text \<open>
  The commit tables of the server refine the client's commit graph: \<open>abs_graph\<close> reads a graph
  off the tables, and accepting a commit is inserting it into that graph. Head maintenance, head
  repair and the order of changes follow from the graph's theorems.
\<close>

section \<open>The graph of the tables\<close>

definition row_parents :: "storage \<Rightarrow> bytes \<Rightarrow> bytes list" where
  "row_parents st c = map snd (filter (\<lambda>e. fst e = c) (st_commit_parents st))"

definition row_node :: "storage \<Rightarrow> commit_row \<Rightarrow> graph_node" where
  "row_node st r = \<lparr>n_parents = row_parents st (co_commit_id r), n_generation = of_nat (co_generation r)\<rparr>"

definition abs_graph :: "storage \<Rightarrow> commit_graph" where
  "abs_graph st =
     \<lparr>g_nodes = fold (\<lambda>r. bt_entry (co_commit_id r) (\<lambda>_. row_node st r)) (st_commits st) [],
      g_heads = sort (map snd (st_heads st))\<rparr>"

definition commits_wf :: "storage \<Rightarrow> bool" where
  "commits_wf st \<longleftrightarrow>
     (\<forall>r \<in> set (st_commits st). co_vault_id r = st_vault_id st \<and> is_array 32 (co_commit_id r) \<and>
        co_generation r < 2 ^ 63) \<and>
     distinct (map co_commit_id (st_commits st)) \<and>
     (\<forall>(c, p) \<in> set (st_commit_parents st). c \<in> co_commit_id ` set (st_commits st)) \<and>
     (\<forall>(v, c) \<in> set (st_heads st). v = st_vault_id st \<and> c \<in> co_commit_id ` set (st_commits st)) \<and>
     distinct (map snd (st_heads st)) \<and> length (st_heads st) \<le> MAX_HEADS"

lemma commits_wfD:
  assumes "commits_wf st"
  shows "r \<in> set (st_commits st) \<Longrightarrow> co_vault_id r = st_vault_id st"
    and "r \<in> set (st_commits st) \<Longrightarrow> is_array 32 (co_commit_id r)"
    and "r \<in> set (st_commits st) \<Longrightarrow> co_generation r < 2 ^ 63"
    and "distinct (map co_commit_id (st_commits st))"
    and "(c, p) \<in> set (st_commit_parents st) \<Longrightarrow> c \<in> co_commit_id ` set (st_commits st)"
    and "(v, c) \<in> set (st_heads st) \<Longrightarrow> v = st_vault_id st"
    and "(v, c) \<in> set (st_heads st) \<Longrightarrow> c \<in> co_commit_id ` set (st_commits st)"
    and "distinct (map snd (st_heads st))"
  using assms by (auto simp: commits_wf_def)

lemma fold_bt_entry_wf: "bt_wf m \<Longrightarrow> bt_wf (fold (\<lambda>r. bt_entry (k r) (\<lambda>_. v r)) rs m)"
  by (induction rs arbitrary: m) simp_all

lemma map_of_fold_bt_entry:
  "bt_wf m \<Longrightarrow> distinct (map k rs) \<Longrightarrow> map_of (fold (\<lambda>r. bt_entry (k r) (\<lambda>_. v r)) rs m) c =
     (case find (\<lambda>r. k r = c) rs of Some r \<Rightarrow> Some (v r) | None \<Rightarrow> map_of m c)"
proof (induction rs arbitrary: m)
  case (Cons r rs)
  have "k r \<notin> k ` set rs" using Cons.prems(2) by simp
  then have "\<forall>s \<in> set rs. k s \<noteq> k r" by (metis imageI)
  then have "find (\<lambda>s. k s = k r) rs = None" by (simp add: find_None_iff)
  with Cons show ?case by (auto simp: map_of_bt_entry split: option.splits)
qed simp

lemma abs_node_at:
  "distinct (map co_commit_id (st_commits st)) \<Longrightarrow> node_at (abs_graph st) c =
     map_option (row_node st) (find (\<lambda>r. co_commit_id r = c) (st_commits st))"
  by (simp add: abs_graph_def map_of_fold_bt_entry split: option.splits)

lemma abs_empty_iff: "g_nodes (abs_graph st) = [] \<longleftrightarrow> st_commits st = []"
proof -
  have "fold (\<lambda>r. bt_entry (co_commit_id r) (\<lambda>_. row_node st r)) rs m \<noteq> []" if "m \<noteq> []" for rs m
    using that by (induction rs arbitrary: m) simp_all
  then show ?thesis by (cases "st_commits st") (simp_all add: abs_graph_def)
qed

lemma commit_row_of_find:
  assumes "commits_wf st"
  shows "commit_row_of st (st_vault_id st) c = find (\<lambda>r. co_commit_id r = c) (st_commits st)"
proof -
  have "find (\<lambda>r. co_vault_id r = st_vault_id st \<and> co_commit_id r = c) rs = find (\<lambda>r. co_commit_id r = c) rs"
    if "\<forall>r \<in> set rs. co_vault_id r = st_vault_id st" for rs
    using that by (induction rs) auto
  moreover have "\<forall>r \<in> set (st_commits st). co_vault_id r = st_vault_id st"
    using commits_wfD(1) [OF assms] by blast
  ultimately show ?thesis unfolding commit_row_of_def by blast
qed

section \<open>Generations\<close>

lemma parent_maximum_Inr:
  "parent_maximum st v m ps = Inr k \<longleftrightarrow>
     (\<forall>p \<in> set ps. commit_row_of st v p \<noteq> None) \<and>
     k = fold max (map (\<lambda>p. int (co_generation (the (commit_row_of st v p)))) ps) m"
  by (induction ps arbitrary: m k) (auto simp: rbind_Inr_iff ok_or_Inr_iff max.commute)

lemma fold_max_int: "fold max (map int ns) (int m) = int (fold max ns m)"
  by (induction ns arbitrary: m) (simp_all flip: of_nat_max)

lemma fold_max_first: "ns \<noteq> [] \<Longrightarrow> fold max (map int ns) (- 1) = int (fold max ns 0)"
proof (cases ns)
  case (Cons n ms)
  then show ?thesis using fold_max_int [of ms n] by simp
qed simp

lemma unat_u64_of_nat: "n < 2 ^ 64 \<Longrightarrow> unat (of_nat n :: u64) = n"
  by (simp add: unat_of_nat)

lemma small_not_top: "n < 2 ^ 63 \<Longrightarrow> (of_nat n :: u64) \<noteq> - 1"
proof
  assume n: "n < 2 ^ 63" and eq: "(of_nat n :: u64) = - 1"
  from eq have "(of_nat (Suc n) :: u64) = 0" by simp
  then have "2 ^ 64 dvd Suc n" by (simp only: word_of_nat_eq_0_iff) simp
  then have "2 ^ 64 \<le> Suc n" by (rule dvd_imp_le) simp
  with n show False by simp
qed

lemma word_max_of_nat:
  "a < 2 ^ 64 \<Longrightarrow> b < 2 ^ 64 \<Longrightarrow> max (of_nat a :: u64) (of_nat b) = of_nat (max a b)"
  by (simp add: max_def word_le_nat_alt unat_u64_of_nat)

lemma fold_max_word:
  "\<forall>n \<in> set ns. n < 2 ^ 64 \<Longrightarrow> m < 2 ^ 64 \<Longrightarrow>
     fold max (map of_nat ns) (of_nat m :: u64) = of_nat (fold max ns m)"
  by (induction ns arbitrary: m) (simp_all add: word_max_of_nat)

lemma generations_agree:
  assumes wf: "commits_wf st" and "load_parent_generation st (st_vault_id st) ps = Inr n"
  shows "next_generation (abs_graph st) ps = Inr (of_nat n) \<and> n < 2 ^ 63"
proof (cases "ps = []")
  case True
  then show ?thesis using assms(2) by (simp add: load_parent_generation_def next_generation_def)
next
  case False
  let ?row = "\<lambda>p. the (commit_row_of st (st_vault_id st) p)"
  let ?gs = "map (\<lambda>p. co_generation (?row p)) ps"
  have rows: "\<forall>p \<in> set ps. commit_row_of st (st_vault_id st) p \<noteq> None"
    and n: "n = fold max ?gs 0 + 1" "n < 2 ^ 63"
    using assms(2) False fold_max_first [of ?gs]
    by (auto simp: load_parent_generation_def rbind_Inr_iff parent_maximum_Inr comp_def nat_add_distrib
        split: if_splits)
  have row: "?row p \<in> set (st_commits st) \<and> node_at (abs_graph st) p = Some (row_node st (?row p))"
    if "p \<in> set ps" for p
  proof -
    from rows that have "commit_row_of st (st_vault_id st) p \<noteq> None" by (rule bspec)
    then obtain r where r: "commit_row_of st (st_vault_id st) p = Some r" by (metis option.exhaust)
    then have f: "find (\<lambda>r. co_commit_id r = p) (st_commits st) = Some r"
      using commit_row_of_find [OF wf, of p] by simp
    with r abs_node_at [OF commits_wfD(4) [OF wf], of p] find_Some_iff_mem [OF f]
    show ?thesis by simp
  qed
  have "co_generation (?row p) < 2 ^ 64" if "p \<in> set ps" for p
    using row [OF that] commits_wfD(3) [OF wf, of "?row p"] by simp
  then have small: "\<forall>g \<in> set ?gs. g < 2 ^ 64" by (simp only: set_map ball_simps) simp
  have "parent_generations (abs_graph st) ps = Inr (map of_nat ?gs)"
    using row by (simp add: parent_generations_Inr comp_def row_node_def)
  moreover have "fold max (map of_nat ?gs) (0 :: u64) = of_nat (fold max ?gs 0)"
    using fold_max_word [OF small, of 0] by simp
  moreover have "(of_nat (fold max ?gs 0) :: u64) \<noteq> - 1"
  proof (rule small_not_top)
    show "fold max ?gs 0 < 2 ^ 63" using n by simp
  qed
  ultimately show ?thesis
    using False n by (simp add: next_generation_def checked_succ_def add.commute)
qed

section \<open>Heads\<close>

lemma vault_heads:
  assumes "commits_wf st"
  shows "map snd (filter (\<lambda>(v, c). v = st_vault_id st) (st_heads st)) = map snd (st_heads st)"
proof -
  have "filter (\<lambda>(v, c). v = st_vault_id st) (st_heads st) = st_heads st"
    using assms by (intro filter_True) (auto simp: commits_wf_def)
  then show ?thesis by simp
qed

lemma take_heads_ok:
  "\<forall>h \<in> set hs. length h = 32 \<Longrightarrow> n + length hs \<le> MAX_HEADS \<Longrightarrow> take_heads n hs = Inr hs"
  by (induction hs arbitrary: n) auto

lemma take_heads_Inr:
  "take_heads n hs = Inr ks \<Longrightarrow> ks = hs \<and> (hs \<noteq> [] \<longrightarrow> n + length hs \<le> MAX_HEADS)"
  by (induction n hs arbitrary: ks rule: take_heads.induct)
    (auto simp: rmap_Inr_iff split: if_splits)

lemma load_heads_abs:
  assumes "commits_wf st"
  shows "load_heads st (st_vault_id st) = Inr (heads (abs_graph st))"
proof -
  have "\<forall>h \<in> set (map snd (st_heads st)). length h = 32"
    using commits_wfD(2,7) [OF assms] by fastforce
  moreover have "length (st_heads st) \<le> MAX_HEADS" using assms by (simp add: commits_wf_def)
  ultimately show ?thesis
    unfolding load_heads_def vault_heads [OF assms]
    by (simp add: take_heads_ok heads_def abs_graph_def)
qed

section \<open>Accepting is inserting\<close>

definition accepted_rows :: "int \<Rightarrow> bytes \<Rightarrow> signed_commit \<Rightarrow> nat \<Rightarrow> nat \<Rightarrow> bytes \<Rightarrow> storage \<Rightarrow> storage" where
  "accepted_rows now device_id commit sequence generation signed_record st =
     insert_commit_rows now (st_vault_id st) device_id commit sequence generation signed_record st"

lemma accept_transaction_new:
  assumes "accept_transaction now d commit rec st = (Inr (c, hs), st')"
    and "find (\<lambda>r. co_commit_id r = sc_commit_id commit) (st_commits st) = None"
  obtains generation where
    "c = sc_commit_id commit"
    "load_heads st' (st_vault_id st) = Inr hs"
    "st' = insert_commit_rows now (st_vault_id st) d commit (unat (uc_device_sequence (sc_unsigned commit)))
       generation rec st"
    "load_parent_generation st (st_vault_id st) (uc_parents (sc_unsigned commit)) = Inr generation"
    "validate_next_device_sequence st (st_vault_id st) d (uc_device_sequence (sc_unsigned commit)) = Inr ()"
    "(length (filter (\<lambda>r. co_vault_id r = st_vault_id st) (st_commits st)) = 0) =
       (uc_parents (sc_unsigned commit) = [])"
    "active st d"
  using assms
  by (auto simp: accept_transaction_def Let_def rbind_def rmap_def i64_try_from_def
      require_active_in_transaction_def active_def
      split: sum.splits if_splits option.splits prod.splits)

lemma accept_transaction_known:
  assumes "accept_transaction now d commit rec st = (Inr (c, hs), st')"
    and "find (\<lambda>r. co_commit_id r = sc_commit_id commit) (st_commits st) = Some row"
  shows "st' = st \<and> c = sc_commit_id commit \<and> co_signed_record row = rec \<and>
    load_heads st (st_vault_id st) = Inr hs"
  using assms
  by (auto simp: accept_transaction_def Let_def split: sum.splits if_splits)

lemma find_append_key:
  "find P (xs @ [y]) = (case find P xs of Some x \<Rightarrow> Some x | None \<Rightarrow> if P y then Some y else None)"
  by (induction xs) auto

lemma graph_of_insert:
  assumes wf: "commits_wf st" and new: "find (\<lambda>r. co_commit_id r = sc_commit_id commit) (st_commits st) = None"
    and len: "is_array 32 (sc_commit_id commit)"
    and gen: "load_parent_generation st (st_vault_id st) (uc_parents (sc_unsigned commit)) = Inr n"
    and st': "st' = insert_commit_rows now (st_vault_id st) d commit sequence n rec st"
  shows "abs_graph st' = grown (abs_graph st) (sc_commit_id commit) (uc_parents (sc_unsigned commit)) (of_nat n)"
proof -
  let ?c = "sc_commit_id commit" and ?ps = "uc_parents (sc_unsigned commit)"
  have fresh: "?c \<notin> co_commit_id ` set (st_commits st)" using new by (force simp: find_None_iff)
  have old: "row_node st' r = row_node st r" if "r \<in> set (st_commits st)" for r
  proof -
    have "co_commit_id r \<noteq> ?c" using fresh that by (metis imageI)
    then show ?thesis by (simp add: row_node_def row_parents_def st' insert_commit_rows_def comp_def)
  qed
  have "filter (\<lambda>e. fst e = ?c) (st_commit_parents st) = []"
    using fresh commits_wfD(5) [OF wf] by (force simp: filter_empty_conv)
  then have own: "row_parents st' ?c = ?ps"
    by (simp add: row_parents_def st' insert_commit_rows_def comp_def)
  have "fold (\<lambda>r. bt_entry (co_commit_id r) (\<lambda>_. row_node st' r)) rs m =
      fold (\<lambda>r. bt_entry (co_commit_id r) (\<lambda>_. row_node st r)) rs m"
    if "set rs \<subseteq> set (st_commits st)" for rs m
    using that by (induction rs arbitrary: m) (simp_all add: old)
  then have nodes: "g_nodes (abs_graph st') = bt_entry ?c (\<lambda>_. \<lparr>n_parents = ?ps, n_generation = of_nat n\<rparr>)
      (g_nodes (abs_graph st))"
    using own by (simp add: abs_graph_def st' insert_commit_rows_def row_node_def)
  have "g_heads (abs_graph st') = bs_insert ?c (fold bs_remove ?ps (g_heads (abs_graph st)))"
  proof (rule strict_sorted_eqI)
    have hd: "distinct (map snd (st_heads st))" by (rule commits_wfD(8) [OF wf])
    have fresh_head: "?c \<notin> snd ` set (st_heads st)"
      using fresh commits_wfD(7) [OF wf] by force
    have keep: "filter (\<lambda>(v, c). \<not> (v = st_vault_id st \<and> c \<in> set ?ps)) (st_heads st) =
        filter (\<lambda>h. snd h \<notin> set ?ps) (st_heads st)"
    proof (rule filter_cong [OF refl])
      fix e assume "e \<in> set (st_heads st)"
      then have "fst e = st_vault_id st" using commits_wfD(6) [OF wf, of "fst e" "snd e"] by simp
      then show "(case e of (v, c) \<Rightarrow> \<not> (v = st_vault_id st \<and> c \<in> set ?ps)) = (snd e \<notin> set ?ps)"
        by (simp add: case_prod_beta)
    qed
    show "distinct (g_heads (abs_graph st'))"
      using hd fresh_head by (auto simp: abs_graph_def st' insert_commit_rows_def keep distinct_map_filter)
    show "set (g_heads (abs_graph st')) = set (bs_insert ?c (fold bs_remove ?ps (g_heads (abs_graph st))))"
      by (auto simp: abs_graph_def st' insert_commit_rows_def image_iff dest: commits_wfD(6) [OF wf])
    show "sorted (g_heads (abs_graph st'))" by (simp add: abs_graph_def)
    show "sorted (bs_insert ?c (fold bs_remove ?ps (g_heads (abs_graph st))))"
      by (simp add: abs_graph_def)
    show "distinct (bs_insert ?c (fold bs_remove ?ps (g_heads (abs_graph st))))"
      using hd by (simp add: abs_graph_def)
  qed
  with nodes show ?thesis by (simp add: grown_def)
qed

lemma wf_of_insert:
  assumes wf: "commits_wf st" and new: "find (\<lambda>r. co_commit_id r = sc_commit_id commit) (st_commits st) = None"
    and len: "is_array 32 (sc_commit_id commit)" and gen: "n < 2 ^ 63"
    and st': "st' = insert_commit_rows now (st_vault_id st) d commit sequence n rec st"
    and heads: "load_heads st' (st_vault_id st) = Inr hs"
  shows "commits_wf st'"
proof -
  let ?c = "sc_commit_id commit" and ?ps = "uc_parents (sc_unsigned commit)"
  have fresh: "?c \<notin> co_commit_id ` set (st_commits st)" using new by (force simp: find_None_iff)
  have fresh_head: "?c \<notin> snd ` set (st_heads st)"
    using fresh commits_wfD(7) [OF wf] by force
  have vault: "\<forall>(v, c) \<in> set (st_heads st'). v = st_vault_id st"
    using commits_wfD(6) [OF wf] by (auto simp: st' insert_commit_rows_def)
  have count: "length (st_heads st') \<le> MAX_HEADS"
  proof -
    have "filter (\<lambda>(v, c). v = st_vault_id st) (st_heads st') = st_heads st'"
      using vault by (intro filter_True) auto
    with heads have "take_heads 0 (sort (map snd (st_heads st'))) = Inr hs" by (simp add: load_heads_def)
    moreover have "st_heads st' \<noteq> []" by (simp add: st' insert_commit_rows_def)
    ultimately show ?thesis using take_heads_Inr [of 0 "sort (map snd (st_heads st'))" hs]
      by (auto dest!: arg_cong [where f = length])
  qed
  have dist: "distinct (map snd (st_heads st'))"
    using commits_wfD(8) [OF wf] fresh_head
    by (auto simp: st' insert_commit_rows_def distinct_map_filter)
  have rows: "st_commits st' = st_commits st @ [\<lparr>co_commit_id = ?c, co_vault_id = st_vault_id st,
      co_device_id = d, co_device_sequence = sequence, co_generation = n, co_signed_record = rec,
      co_inserted_at = now\<rparr>]" and v: "st_vault_id st' = st_vault_id st"
    and edges: "st_commit_parents st' = st_commit_parents st @ map (\<lambda>p. (?c, p)) ?ps"
    by (simp_all add: st' insert_commit_rows_def)
  show ?thesis
    unfolding commits_wf_def
  proof (intro conjI)
    show "\<forall>r \<in> set (st_commits st'). co_vault_id r = st_vault_id st' \<and> is_array 32 (co_commit_id r) \<and>
        co_generation r < 2 ^ 63"
      using wf len gen by (auto simp: rows v commits_wf_def)
    show "distinct (map co_commit_id (st_commits st'))" using wf fresh by (simp add: rows commits_wf_def)
    show "\<forall>(c, p) \<in> set (st_commit_parents st'). c \<in> co_commit_id ` set (st_commits st')"
      using wf by (auto simp: rows edges commits_wf_def)
    show "\<forall>(v, c) \<in> set (st_heads st'). v = st_vault_id st' \<and> c \<in> co_commit_id ` set (st_commits st')"
      using wf by (auto simp: st' insert_commit_rows_def commits_wf_def)
    show "distinct (map snd (st_heads st'))" by (rule dist)
    show "length (st_heads st') \<le> MAX_HEADS" by (rule count)
  qed
qed

end
