(* ===== verification/Storage_Commits_Props.thy ===== *)
theory Storage_Commits_Props
  imports Storage_Commits_Correct "HOL-Library.Multiset"
begin

text \<open>
  What the commit store guarantees in every state that accepted commits lead to: it is a
  commit graph of the client's kind, its head table is the set of childless commits, devices number
  their commits without gaps, changes come parents first, and a repeated submission changes nothing.
\<close>

section \<open>Reachable commit tables\<close>

definition submittable :: "signed_commit \<Rightarrow> bool" where
  "submittable commit \<longleftrightarrow>
     is_array 32 (sc_commit_id commit) \<and> successively (<) (uc_parents (sc_unsigned commit))"

text \<open>The same commit tables; the head table is a set of rows, so its row order is left open.\<close>

definition same_commits :: "storage \<Rightarrow> storage \<Rightarrow> bool" where
  "same_commits st st' \<longleftrightarrow> st_vault_id st' = st_vault_id st \<and> st_commits st' = st_commits st \<and>
     st_commit_parents st' = st_commit_parents st \<and> mset (st_heads st') = mset (st_heads st)"

inductive committed :: "storage \<Rightarrow> bool" where
  committed_empty: "st_commits st = [] \<Longrightarrow> st_commit_parents st = [] \<Longrightarrow> st_heads st = [] \<Longrightarrow> committed st"
| committed_accept: "committed st \<Longrightarrow> submittable commit \<Longrightarrow>
     accept_commit now d commit rec st = (res, st') \<Longrightarrow> committed st'"
| committed_other: "committed st \<Longrightarrow> same_commits st st' \<Longrightarrow> committed st'"

lemma accept_commit_cases:
  assumes "accept_commit now d commit rec st = (res, st')"
  shows "st' = st \<or> (\<exists>c hs. res = Inr (c, hs) \<and> uc_device_id (sc_unsigned commit) = d \<and>
    uc_vault_id (sc_unsigned commit) = st_vault_id st \<and>
    accept_transaction now d commit rec st = (Inr (c, hs), st'))"
proof (cases "accept_transaction now d commit rec st")
  case (Pair r s)
  have err: "s = st" if "r = Inl e" for e
    using Pair that
    by (auto simp: accept_transaction_def Let_def split: sum.splits if_splits option.splits prod.splits)
  show ?thesis using assms Pair err
    by (cases r) (auto simp: accept_commit_def split: sum.splits if_splits)
qed

lemma accept_commit_inserts:
  assumes wf: "commits_wf st" and sub: "submittable commit"
    and run: "accept_commit now d commit rec st = (res, st')" and changed: "st' \<noteq> st"
  obtains n hs where "res = Inr (sc_commit_id commit, hs)"
    "find (\<lambda>r. co_commit_id r = sc_commit_id commit) (st_commits st) = None"
    "load_parent_generation st (st_vault_id st) (uc_parents (sc_unsigned commit)) = Inr n" "n < 2 ^ 63"
    "validate_next_device_sequence st (st_vault_id st) d (uc_device_sequence (sc_unsigned commit)) = Inr ()"
    "st' = insert_commit_rows now (st_vault_id st) d commit (unat (uc_device_sequence (sc_unsigned commit)))
       n rec st"
    "load_heads st' (st_vault_id st) = Inr hs"
    "(st_commits st = []) = (uc_parents (sc_unsigned commit) = [])" "active st d"
proof -
  from accept_commit_cases [OF run] changed obtain c hs where
    res: "res = Inr (c, hs)" and tr: "accept_transaction now d commit rec st = (Inr (c, hs), st')" by blast
  have new: "find (\<lambda>r. co_commit_id r = sc_commit_id commit) (st_commits st) = None"
    using accept_transaction_known [OF tr] changed by (cases "find (\<lambda>r. co_commit_id r = sc_commit_id commit) (st_commits st)") auto
  have "filter (\<lambda>r. co_vault_id r = st_vault_id st) (st_commits st) = st_commits st"
    using commits_wfD(1) [OF wf] by (intro filter_True) auto
  with accept_transaction_new [OF tr new] that [of hs] new res generations_agree [OF wf] show thesis
    by (metis length_0_conv)
qed

lemma accept_commit_grows:
  assumes wf: "commits_wf st" and sub: "submittable commit"
    and run: "accept_commit now d commit rec st = (res, st')" and changed: "st' \<noteq> st"
  shows "commits_wf st' \<and>
    insert_commit (abs_graph st) (sc_commit_id commit) (uc_parents (sc_unsigned commit)) =
      Inr (True, abs_graph st') \<and>
    res = Inr (sc_commit_id commit, heads (abs_graph st'))"
proof (rule accept_commit_inserts [OF assms])
  fix n hs
  assume a: "res = Inr (sc_commit_id commit, hs)"
    "find (\<lambda>r. co_commit_id r = sc_commit_id commit) (st_commits st) = None"
    "load_parent_generation st (st_vault_id st) (uc_parents (sc_unsigned commit)) = Inr n" "n < 2 ^ 63"
    "st' = insert_commit_rows now (st_vault_id st) d commit (unat (uc_device_sequence (sc_unsigned commit)))
       n rec st" "load_heads st' (st_vault_id st) = Inr hs"
    "(st_commits st = []) = (uc_parents (sc_unsigned commit) = [])"
  have id: "is_array 32 (sc_commit_id commit)" using sub by (simp add: submittable_def)
  have wf': "commits_wf st'" by (rule wf_of_insert [OF wf a(2) id a(4,5,6)])
  have g: "abs_graph st' = grown (abs_graph st) (sc_commit_id commit) (uc_parents (sc_unsigned commit)) (of_nat n)"
    by (rule graph_of_insert [OF wf a(2) id a(3,5)])
  have "node_at (abs_graph st) (sc_commit_id commit) = None"
    using a(2) by (simp add: abs_node_at [OF commits_wfD(4) [OF wf]])
  moreover have "uc_parents (sc_unsigned commit) \<noteq> [] \<or> g_nodes (abs_graph st) = []"
    using a(7) by (auto simp: abs_empty_iff)
  ultimately have "insert_commit (abs_graph st) (sc_commit_id commit) (uc_parents (sc_unsigned commit)) =
      Inr (True, abs_graph st')"
    using insert_commit_new generations_agree [OF wf a(3)] g sub by (simp add: submittable_def)
  moreover have "st_vault_id st' = st_vault_id st" by (simp add: a(5) insert_commit_rows_def)
  ultimately show ?thesis using wf' load_heads_abs [OF wf'] a(1,6) by simp
qed

lemma same_commits_abs:
  assumes "same_commits st st'"
  shows "abs_graph st' = abs_graph st \<and> commits_wf st' = commits_wf st"
proof -
  have heads: "mset (st_heads st') = mset (st_heads st)" using assms by (simp add: same_commits_def)
  then have snd_heads: "mset (map snd (st_heads st')) = mset (map snd (st_heads st))" by simp
  then have "sort (map snd (st_heads st')) = sort (map snd (st_heads st))"
    by (intro properties_for_sort) simp_all
  moreover note mset_eq_setD [OF heads] mset_eq_length [OF heads] mset_eq_imp_distinct_iff [OF snd_heads]
  ultimately show ?thesis
    using assms by (simp add: same_commits_def abs_graph_def commits_wf_def row_node_def [abs_def] row_parents_def)
qed

lemma committed_built: "committed st \<Longrightarrow> commits_wf st \<and> built (abs_graph st)"
proof (induction rule: committed.induct)
  case (committed_empty st)
  then have "abs_graph st = empty_graph" by (simp add: abs_graph_def empty_graph_def)
  with committed_empty show ?case by (simp add: commits_wf_def built_empty)
next
  case (committed_accept st commit now d rec res st')
  show ?case
  proof (cases "st' = st")
    case False
    from accept_commit_grows [OF _ committed_accept(2,3) False] committed_accept(4)
    show ?thesis by (blast intro: built_insert)
  qed (use committed_accept(4) in simp)
next
  case (committed_other st st')
  then show ?case using same_commits_abs by simp
qed

lemma accept_commit_answers:
  assumes wf: "commits_wf st" and sub: "submittable commit"
    and run: "accept_commit now d commit rec st = (Inr (c, hs), st')"
  shows "c = sc_commit_id commit \<and> hs = heads (abs_graph st') \<and>
    (case find (\<lambda>r. co_commit_id r = sc_commit_id commit) (st_commits st) of
       Some row \<Rightarrow> st' = st \<and> co_signed_record row = rec
     | None \<Rightarrow> (\<exists>row. st_commits st' = st_commits st @ [row] \<and> co_commit_id row = sc_commit_id commit \<and>
           co_device_id row = d \<and> co_signed_record row = rec) \<and>
         insert_commit (abs_graph st) (sc_commit_id commit) (uc_parents (sc_unsigned commit)) = Inr (True, abs_graph st'))"
proof -
  have tr: "accept_transaction now d commit rec st = (Inr (c, hs), st')"
    using run by (auto simp: accept_commit_def split: sum.splits if_splits)
  show ?thesis
  proof (cases "find (\<lambda>r. co_commit_id r = sc_commit_id commit) (st_commits st)")
    case (Some row)
    from accept_transaction_known [OF tr Some] load_heads_abs [OF wf] Some show ?thesis by simp
  next
    case None
    from accept_transaction_new [OF tr None] obtain n where st': "st' = insert_commit_rows now (st_vault_id st) d commit
        (unat (uc_device_sequence (sc_unsigned commit))) n rec st" by blast
    then have "length (st_commits st') = Suc (length (st_commits st))" by (simp add: insert_commit_rows_def)
    then have "st' \<noteq> st" by auto
    from accept_commit_grows [OF wf sub run this] None st' show ?thesis by (simp add: insert_commit_rows_def)
  qed
qed

text \<open>
  C2. The commit store refines the commit graph. In every store that submissions lead to, the tables are a graph the
  client's insertions could have built. A refused submission leaves the store as it is. An accepted one
  answers its own identifier and the heads of the resulting graph, and the signed bytes are stored
  under that identifier: either the identifier was new, and the step is exactly the graph's insertion of the same
  identifier and parents with one row added, or it was stored with the same bytes (a resubmission)
  and nothing changes.
\<close>

theorem accept_refines_insert:
  assumes "committed st" and "submittable commit"
    and "accept_commit now d commit rec st = (res, st')"
  shows "built (abs_graph st) \<and> built (abs_graph st') \<and> (\<forall>e. res = Inl e \<longrightarrow> st' = st) \<and>
    (\<forall>c hs. res = Inr (c, hs) \<longrightarrow> c = sc_commit_id commit \<and> hs = heads (abs_graph st') \<and>
      (case find (\<lambda>r. co_commit_id r = sc_commit_id commit) (st_commits st) of
         Some row \<Rightarrow> st' = st \<and> co_signed_record row = rec
       | None \<Rightarrow> (\<exists>row. st_commits st' = st_commits st @ [row] \<and> co_commit_id row = sc_commit_id commit \<and>
             co_device_id row = d \<and> co_signed_record row = rec) \<and>
           insert_commit (abs_graph st) (sc_commit_id commit) (uc_parents (sc_unsigned commit)) =
             Inr (True, abs_graph st')))"
proof -
  have "commits_wf st" "built (abs_graph st)" "built (abs_graph st')"
    using committed_built [OF assms(1)] committed_built [OF committed_accept [OF assms]] by blast+
  moreover have "st' = st" if "res = Inl e" for e
    using accept_commit_cases [OF assms(3)] that by auto
  ultimately show ?thesis using accept_commit_answers [OF _ assms(2)] assms(3) by blast
qed

definition one_device_store :: storage where
  "one_device_store = \<lparr>st_vault_id = pad 16 [3], st_metadata = [],
     st_devices = [\<lparr>dv_device_id = pad 16 [1], dv_public_key = pad 32 [2], dv_encrypted_name = [],
       dv_registered_at = 0, dv_revoked_at = None\<rparr>],
     st_blobs = [], st_uploads = [], st_commits = [], st_commit_parents = [], st_heads = [], st_files = []\<rparr>"

definition root_commit :: signed_commit where
  "root_commit = \<lparr>sc_unsigned = \<lparr>uc_vault_id = pad 16 [3], uc_parents = [], uc_device_id = pad 16 [1],
     uc_device_sequence = 1, uc_encrypted_body = []\<rparr>, sc_commit_id = pad 32 [7], sc_signature = []\<rparr>"

definition root_store :: storage where
  "root_store = insert_commit_rows 5 (pad 16 [3]) (pad 16 [1]) root_commit 1 0 [9] one_device_store"

lemma one_device_committed: "committed one_device_store"
  by (rule committed_empty) (simp_all add: one_device_store_def)

lemma root_submittable: "submittable root_commit"
  by (simp add: submittable_def root_commit_def)

lemma root_accepted:
  "accept_commit 5 (pad 16 [1]) root_commit [9] one_device_store = (Inr (pad 32 [7], [pad 32 [7]]), root_store)"
  by (simp add: accept_commit_def require_active_device_def get_device_def device_row_of_def
      one_device_store_def root_commit_def accept_transaction_def require_active_in_transaction_def
      validate_next_device_sequence_def device_sequences_def i64_checked_succ_def i64_try_from_def
      load_parent_generation_def insert_commit_rows_def load_heads_def root_store_def Let_def
      MAX_COMMITS_PER_VAULT_def MAX_HEADS_def)

lemma root_committed: "committed root_store"
  by (rule committed_accept [OF one_device_committed root_submittable root_accepted])

theorem accept_refines_insert_witness:
  "built (abs_graph root_store) \<and>
   insert_commit (abs_graph one_device_store) (pad 32 [7]) [] = Inr (True, abs_graph root_store) \<and>
   heads (abs_graph root_store) = [pad 32 [7]]"
  using accept_refines_insert [OF one_device_committed root_submittable root_accepted]
  by (simp add: root_commit_def one_device_store_def)

section \<open>Heads\<close>

lemma node_at_abs_row:
  assumes "commits_wf st"
  shows "node_at (abs_graph st) c = Some n \<longleftrightarrow>
    (\<exists>r \<in> set (st_commits st). co_commit_id r = c \<and> n = row_node st r)"
proof -
  have "find (\<lambda>r. co_commit_id r = c) (st_commits st) = Some r \<longleftrightarrow> r \<in> set (st_commits st) \<and> co_commit_id r = c"
    for r
    using find_distinct_key [OF commits_wfD(4) [OF assms], of r] find_Some_iff_mem by fastforce
  then show ?thesis by (auto simp: abs_node_at [OF commits_wfD(4) [OF assms]])
qed

lemma row_parents_mem: "p \<in> set (row_parents st c) \<longleftrightarrow> (c, p) \<in> set (st_commit_parents st)"
  by (force simp: row_parents_def)

lemma pairs_eq: "(\<And>v c. (v, c) \<in> H \<Longrightarrow> v = a) \<Longrightarrow> H = (\<lambda>c. (a, c)) ` snd ` H"
  by force

lemma repair_rows:
  assumes "\<And>r. r \<in> set (st_commits st) \<Longrightarrow> co_vault_id r = v"
    and "\<And>c p. (c, p) \<in> set (st_commit_parents st) \<Longrightarrow>
      \<exists>r \<in> set (st_commits st). co_commit_id r = c \<and> co_vault_id r = v"
    and "filter (\<lambda>(w, c). w \<noteq> v) (st_heads st) = []"
  shows "st_heads (repair_heads v st) = map (\<lambda>r. (v, co_commit_id r))
    (filter (\<lambda>r. \<forall>c. (c, co_commit_id r) \<notin> set (st_commit_parents st)) (st_commits st))"
proof -
  have "(\<exists>(child, parent) \<in> set (st_commit_parents st). parent = p \<and>
      (\<exists>r \<in> set (st_commits st). co_commit_id r = child \<and> co_vault_id r = v)) \<longleftrightarrow>
      (\<exists>c. (c, p) \<in> set (st_commit_parents st))" for p
    using assms(2) by fast
  then have "filter (\<lambda>r. co_vault_id r = v \<and> \<not> (\<exists>(child, parent) \<in> set (st_commit_parents st).
      parent = co_commit_id r \<and> (\<exists>r \<in> set (st_commits st). co_commit_id r = child \<and> co_vault_id r = v)))
      (st_commits st) =
    filter (\<lambda>r. \<forall>c. (c, co_commit_id r) \<notin> set (st_commit_parents st)) (st_commits st)"
    using assms(1) by (intro filter_cong) auto
  then show ?thesis by (simp add: repair_heads_def Let_def assms(3))
qed

lemma repaired_rows:
  assumes wf: "commits_wf st"
  shows "st_heads (repair_heads (st_vault_id st) st) = map (\<lambda>r. (st_vault_id st, co_commit_id r))
    (filter (\<lambda>r. \<forall>c. (c, co_commit_id r) \<notin> set (st_commit_parents st)) (st_commits st))"
proof (rule repair_rows)
  show "co_vault_id r = st_vault_id st" if "r \<in> set (st_commits st)" for r by (rule commits_wfD(1) [OF wf that])
  show "\<exists>r \<in> set (st_commits st). co_commit_id r = c \<and> co_vault_id r = st_vault_id st"
    if "(c, p) \<in> set (st_commit_parents st)" for c p
    using commits_wfD(5) [OF wf that] commits_wfD(1) [OF wf] by auto
  show "filter (\<lambda>(v, c). v \<noteq> st_vault_id st) (st_heads st) = []"
    using commits_wfD(6) [OF wf] by (auto simp: filter_empty_conv)
qed

lemma repaired_heads:
  assumes "committed st"
  shows "set (st_heads (repair_heads (st_vault_id st) st)) = set (st_heads st) \<and>
    storage_heads st = Inr (recovered_heads (abs_graph st))"
proof -
  note wf = conjunct1 [OF committed_built [OF assms]] and b = conjunct2 [OF committed_built [OF assms]]
  let ?g = "abs_graph st" and ?v = "st_vault_id st"
  have "set (heads ?g) = snd ` set (st_heads st)" by (simp add: heads_def abs_graph_def)
  then have snd_heads: "snd ` set (st_heads st) = set (recovered_heads ?g)" using built_heads [OF b] by simp
  have heads: "set (st_heads st) = (\<lambda>c. (?v, c)) ` set (recovered_heads ?g)"
    unfolding snd_heads [symmetric] by (rule pairs_eq) (use commits_wfD(6) [OF wf] in blast)
  have child: "\<exists>r \<in> set (st_commits st). co_commit_id r = c \<and> co_vault_id r = ?v"
    if "(c, p) \<in> set (st_commit_parents st)" for c p
    using commits_wfD(5) [OF wf that] commits_wfD(1) [OF wf] by auto
  note rows = repaired_rows [OF wf]
  have "set (st_heads (repair_heads ?v st)) = (\<lambda>r. (?v, co_commit_id r)) `
      {r \<in> set (st_commits st). \<forall>c. (c, co_commit_id r) \<notin> set (st_commit_parents st)}"
    unfolding rows by auto
  also have "\<dots> = (\<lambda>c. (?v, c)) ` set (recovered_heads ?g)"
  proof -
    have "c \<in> set (recovered_heads ?g) \<longleftrightarrow> (\<exists>r \<in> set (st_commits st). co_commit_id r = c) \<and>
        (\<forall>d. (d, c) \<notin> set (st_commit_parents st))" for c
      unfolding recovered_heads_iff [OF graph_invD(2) [OF built_inv [OF b]]]
    proof -
      have 1: "node_at ?g c \<noteq> None \<longleftrightarrow> (\<exists>r \<in> set (st_commits st). co_commit_id r = c)"
        using node_at_abs_row [OF wf] by (metis not_None_eq)
      have "c \<in> set (n_parents n) \<longleftrightarrow> (d, c) \<in> set (st_commit_parents st)"
        if "node_at ?g d = Some n" for d n
        using that by (auto simp: node_at_abs_row [OF wf] row_node_def row_parents_mem)
      moreover have "\<exists>n. node_at ?g d = Some n" if "(d, c) \<in> set (st_commit_parents st)" for d
        using child [OF that] by (auto simp: node_at_abs_row [OF wf])
      ultimately have 2: "(\<forall>d n. node_at ?g d = Some n \<longrightarrow> c \<notin> set (n_parents n)) \<longleftrightarrow>
          (\<forall>d. (d, c) \<notin> set (st_commit_parents st))" by blast
      show "(node_at ?g c \<noteq> None \<and> (\<forall>d n. node_at ?g d = Some n \<longrightarrow> c \<notin> set (n_parents n))) \<longleftrightarrow>
          (\<exists>r \<in> set (st_commits st). co_commit_id r = c) \<and> (\<forall>d. (d, c) \<notin> set (st_commit_parents st))"
        unfolding 1 2 ..
    qed
    then show ?thesis by auto
  qed
  finally have "set (st_heads (repair_heads ?v st)) = set (st_heads st)" using heads by simp
  moreover have "storage_heads st = Inr (recovered_heads ?g)"
    using load_heads_abs [OF wf] built_heads [OF b] by (simp add: storage_heads_def)
  ultimately show ?thesis by blast
qed

text \<open>Repair leaves a reachable store's commit tables the same.\<close>

lemma same_commits_repair:
  assumes "committed st"
  shows "same_commits st (repair_heads (st_vault_id st) st)"
proof -
  let ?st = "repair_heads (st_vault_id st) st"
  have wf: "commits_wf st" using committed_built [OF assms] by blast
  have "distinct (map snd (st_heads st))" using wf by (simp add: commits_wf_def)
  then have d: "distinct (st_heads st)" by (simp add: distinct_map)
  have "distinct (map snd (st_heads ?st))"
    using commits_wfD(4) [OF wf] unfolding repaired_rows [OF wf] by (simp add: comp_def distinct_map_filter)
  then have d': "distinct (st_heads ?st)" by (simp add: distinct_map)
  have "mset (st_heads ?st) = mset (st_heads st)"
    using repaired_heads [OF assms] set_eq_iff_mset_eq_distinct [OF d' d] by blast
  then show ?thesis by (simp add: same_commits_def) (simp add: repair_heads_def Let_def)
qed

text \<open>
  C30. Head repair at start-up is a no-op on a consistent store: recomputing the heads of the vault from the
  parent edges gives the set the incremental updates maintained, and the head query answers
  that set in identifier order.
\<close>

theorem repair_heads_consistent:
  assumes "committed st"
  shows "set (st_heads (repair_heads (st_vault_id st) st)) = set (st_heads st) \<and>
    storage_heads st = Inr (recovered_heads (abs_graph st))"
  by (rule repaired_heads [OF assms])

theorem repair_heads_consistent_witness:
  "set (st_heads (repair_heads (pad 16 [3]) root_store)) = set (st_heads root_store) \<and>
   st_heads root_store \<noteq> []"
  using repair_heads_consistent [OF root_committed]
  by (simp add: root_store_def insert_commit_rows_def one_device_store_def)

section \<open>Changes\<close>

abbreviation row_order :: "commit_row \<Rightarrow> nat \<times> bytes" where
  "row_order r \<equiv> (co_generation r, co_commit_id r)"

lemma collect_changes_eq:
  assumes "\<forall>r \<in> set rows. length (co_commit_id r) = 32"
  shows "length commits \<le> requested \<Longrightarrow> collect_changes known requested commits rows =
    (let rest = filter (\<lambda>r. co_commit_id r \<notin> known) rows; room = requested - length commits in
     Inr (commits @ map co_signed_record (take room rest), room < length rest))"
  using assms
proof (induction known requested commits rows rule: collect_changes.induct)
  case (2 known requested commits r rs)
  show ?case
  proof (cases "length commits = requested")
    case False
    with 2(3) have "requested - length commits = Suc (requested - Suc (length commits))" by simp
    with 2 False show ?thesis by (simp add: Let_def)
  qed (use 2 in \<open>auto simp: Let_def\<close>)
qed (simp add: Let_def)

lemma of_nat_u64_less: "a < 2 ^ 63 \<Longrightarrow> b < 2 ^ 63 \<Longrightarrow> (of_nat a :: u64) \<le> of_nat b \<longleftrightarrow> a \<le> b"
  by (simp add: word_le_nat_alt unat_u64_of_nat)

lemma row_order_commit_order:
  assumes wf: "commits_wf st" and "r \<in> set (st_commits st)" "s \<in> set (st_commits st)"
  shows "commit_order (abs_graph st) (co_commit_id r) \<le> commit_order (abs_graph st) (co_commit_id s) \<longleftrightarrow>
    row_order r \<le> row_order s"
proof -
  have at: "node_at (abs_graph st) (co_commit_id x) = Some (row_node st x)" if "x \<in> set (st_commits st)" for x
    using that node_at_abs_row [OF wf] by blast
  have "(of_nat (co_generation r) :: u64) = of_nat (co_generation s) \<longleftrightarrow> co_generation r = co_generation s"
    using commits_wfD(3) [OF wf] assms(2,3) of_nat_u64_less order_antisym by (metis order_refl)
  then show ?thesis
    using of_nat_u64_less [OF commits_wfD(3) [OF wf assms(2)] commits_wfD(3) [OF wf assms(3)]]
    by (auto simp: commit_order_def at [OF assms(2)] at [OF assms(3)] row_node_def less_eq_prod_def
        order_less_le)
qed

lemma changes_order:
  assumes wf: "commits_wf st" and b: "built (abs_graph st)"
  shows "map co_commit_id (filter (\<lambda>r. co_commit_id r \<notin> known) (sort_key row_order (st_commits st))) =
    missing_from (abs_graph st) known"
proof -
  let ?g = "abs_graph st" and ?rows = "sort_key row_order (st_commits st)"
  let ?ids = "map co_commit_id (filter (\<lambda>r. co_commit_id r \<notin> known) ?rows)"
  have inj: "inj_on (commit_order ?g) A" for A by (auto simp: inj_on_def commit_order_def)
  have "sorted_wrt (\<lambda>r s. row_order r \<le> row_order s) ?rows"
    using sorted_sort_key [of row_order "st_commits st"] by (simp only: sorted_map)
  then have "sorted_wrt (\<lambda>r s. row_order r \<le> row_order s) (filter (\<lambda>r. co_commit_id r \<notin> known) ?rows)"
    by (rule sorted_wrt_filter)
  then have "sorted_wrt (\<lambda>r s. commit_order ?g (co_commit_id r) \<le> commit_order ?g (co_commit_id s))
      (filter (\<lambda>r. co_commit_id r \<notin> known) ?rows)"
    by (rule sorted_wrt_mono_rel [rotated]) (simp add: row_order_commit_order [OF wf])
  then have "sorted (map (commit_order ?g) ?ids)" by (simp add: sorted_map sorted_wrt_map comp_def)
  moreover have "distinct ?ids"
  proof -
    have "distinct (map co_commit_id ?rows)"
      using commits_wfD(4) [OF wf] by (simp add: distinct_map)
    then show ?thesis by (rule distinct_map_filter)
  qed
  moreover have "set ?ids = set (missing_from ?g known)"
  proof -
    have "node_at ?g c \<noteq> None \<longleftrightarrow> c \<in> co_commit_id ` set (st_commits st)" for c
    proof -
      have "node_at ?g c \<noteq> None \<longleftrightarrow> (\<exists>r \<in> set (st_commits st). co_commit_id r = c)"
        using node_at_abs_row [OF wf, of c] by (metis not_None_eq)
      then show ?thesis by blast
    qed
    then show ?thesis using set_missing [of _ ?g known] by auto
  qed
  ultimately show ?thesis
    using sorted_missing [of ?g known] distinct_missing [OF built_inv [OF b], of known] inj
    by (intro map_sorted_distinct_set_unique [of "commit_order ?g"]) (simp_all only: distinct_map simp_thms)
qed

text \<open>
  C29. A page of changes is the beginning of the missing list. For a request within the limits, the
  records returned are those of the first commits of \<open>missing_from\<close>, at most as many as
  requested, in its parents-before-children order, and the flag tells whether there are more.
\<close>

theorem changes_first_missing:
  assumes "committed st" and "length known \<le> MAX_KNOWN_COMMITS"
    and "maximum \<noteq> 0" "unat maximum \<le> MAX_CHANGES_PER_RESPONSE"
  shows "\<exists>rows. map co_commit_id rows = missing_from (abs_graph st) (set known) \<and>
    set rows \<subseteq> set (st_commits st) \<and>
    changes st known maximum =
      Inr (map co_signed_record (take (unat maximum) rows), unat maximum < length rows)"
proof -
  note wf = conjunct1 [OF committed_built [OF assms(1)]] and b = conjunct2 [OF committed_built [OF assms(1)]]
  let ?rows = "filter (\<lambda>r. co_commit_id r \<notin> set known) (sort_key row_order (st_commits st))"
  have "filter (\<lambda>r. co_vault_id r = st_vault_id st) (st_commits st) = st_commits st"
    using commits_wfD(1) [OF wf] by (intro filter_True) auto
  then have "changes st known maximum =
      Inr (map co_signed_record (take (unat maximum) ?rows), unat maximum < length ?rows)"
    using assms(2-4) commits_wfD(2) [OF wf]
    by (simp add: changes_def collect_changes_eq Let_def)
  with changes_order [OF wf b, of "set known"] show ?thesis by (intro exI [of _ ?rows]) auto
qed

theorem changes_first_missing_witness:
  "\<exists>rows :: commit_row list. map co_commit_id rows = missing_from (abs_graph root_store) {} \<and>
     changes root_store [] 1 = Inr (map co_signed_record (take 1 rows), 1 < length rows)"
proof -
  have "\<exists>rows. map co_commit_id rows = missing_from (abs_graph root_store) (set []) \<and>
    set rows \<subseteq> set (st_commits root_store) \<and>
    changes root_store [] 1 =
      Inr (map co_signed_record (take (unat (1 :: u16)) rows), unat (1 :: u16) < length rows)"
    by (rule changes_first_missing [OF root_committed]) (simp_all add: MAX_CHANGES_PER_RESPONSE_def)
  then show ?thesis unfolding list.set(1) unsigned_1 by blast
qed

section \<open>Device sequences\<close>

lemma fold_max_upt: "fold max [1..<Suc n] 0 = n"
  by (induction n) simp_all

lemma sequence_next:
  assumes "device_sequences st v d = [1..<Suc k]" and "validate_next_device_sequence st v d supplied = Inr ()"
  shows "unat supplied = Suc k"
  using assms fold_max_upt [of k]
  by (auto simp: validate_next_device_sequence_def rbind_Inr_iff ok_or_Inr_iff i64_checked_succ_def
      i64_try_from_def simp del: upt_Suc split: if_splits)

lemma committed_sequences: "committed st \<Longrightarrow> \<exists>k. device_sequences st (st_vault_id st) d = [1..<Suc k]"
proof (induction rule: committed.induct)
  case (committed_empty st)
  then show ?case by (intro exI [of _ 0]) (simp add: device_sequences_def)
next
  case (committed_accept st commit now d' rec res st')
  note wf = conjunct1 [OF committed_built [OF committed_accept(1)]]
  show ?case
  proof (cases "st' = st")
    case False
    show ?thesis
    proof (rule accept_commit_inserts [OF wf committed_accept(2,3) False])
      fix n hs
      assume val: "validate_next_device_sequence st (st_vault_id st) d' (uc_device_sequence (sc_unsigned commit)) = Inr ()"
        and st': "st' = insert_commit_rows now (st_vault_id st) d' commit
          (unat (uc_device_sequence (sc_unsigned commit))) n rec st"
      obtain k where k: "device_sequences st (st_vault_id st) d = [1..<Suc k]" using committed_accept(4) by blast
      have step: "device_sequences st' (st_vault_id st') d = [1..<Suc k] @
          (if d' = d then [unat (uc_device_sequence (sc_unsigned commit))] else [])"
        unfolding k [symmetric] by (simp add: device_sequences_def st' insert_commit_rows_def)
      show ?thesis
      proof (cases "d' = d")
        case True
        with sequence_next [OF _ val, of k] k have "unat (uc_device_sequence (sc_unsigned commit)) = Suc k"
          by blast
        with step True have "device_sequences st' (st_vault_id st') d = [1..<Suc (Suc k)]" by simp
        then show ?thesis by blast
      next
        case False
        with step have "device_sequences st' (st_vault_id st') d = [1..<Suc k]" by (simp only: if_False append_Nil2)
        then show ?thesis by blast
      qed
    qed
  qed (use committed_accept(4) in simp)
next
  case (committed_other st st')
  then show ?case by (simp add: device_sequences_def same_commits_def)
qed

text \<open>
  C14. Every device's commits are numbered 1, 2, 3, ... in the order of acceptance: no gap, no
  repetition, in every reachable store.
\<close>

theorem device_sequences_gap_free:
  assumes "committed st"
  shows "device_sequences st (st_vault_id st) d = [1..<Suc (length (device_sequences st (st_vault_id st) d))]"
  using committed_sequences [OF assms, of d] by (metis diff_Suc_1 length_upt)

theorem device_sequences_gap_free_witness:
  "device_sequences root_store (pad 16 [3]) (pad 16 [1]) =
     [1..<Suc (length (device_sequences root_store (pad 16 [3]) (pad 16 [1])))]"
  using device_sequences_gap_free [OF root_committed, of "pad 16 [1]"]
  by (simp add: root_store_def insert_commit_rows_def one_device_store_def)

section \<open>Repeated submission\<close>

text \<open>
  Submitting a commit again is harmless: after a successful submission, the same submission answers
  the same identifier and heads and leaves the store unchanged.
\<close>

theorem accept_commit_idempotent:
  assumes "committed st" and "submittable commit"
    and "accept_commit now d commit rec st = (Inr (c, hs), st')"
  shows "accept_commit later d commit rec st' = (Inr (c, hs), st')"
proof -
  note wf = conjunct1 [OF committed_built [OF assms(1)]]
  have "committed st'" by (rule committed_accept [OF assms])
  note wf' = conjunct1 [OF committed_built [OF this]]
  let ?id = "sc_commit_id commit"
  have ids: "uc_device_id (sc_unsigned commit) = d" "uc_vault_id (sc_unsigned commit) = st_vault_id st"
    and act: "\<exists>dev. require_active_device st d = Inr dev"
    and tr: "accept_transaction now d commit rec st = (Inr (c, hs), st')"
    using assms(3) by (auto simp: accept_commit_def split: sum.splits if_splits)
  have inv: "active st d" using act require_active_device_fields by (fastforce simp: active_def)
  have same: "st_devices st' = st_devices st \<and> st_vault_id st' = st_vault_id st \<and> c = ?id \<and>
      load_heads st' (st_vault_id st) = Inr hs \<and>
      (\<exists>row. find (\<lambda>r. co_commit_id r = ?id) (st_commits st') = Some row \<and> co_signed_record row = rec)"
  proof (cases "find (\<lambda>r. co_commit_id r = ?id) (st_commits st)")
    case None
    show ?thesis
      by (rule accept_transaction_new [OF tr None])
        (simp add: insert_commit_rows_def find_append_key None)
  next
    case (Some row)
    from accept_transaction_known [OF tr Some] Some show ?thesis by simp
  qed
  then have act': "require_active_device st' d = require_active_device st d" "active st' d"
    using inv by (auto simp: require_active_device_def get_device_def device_row_of_def active_def)
  from same obtain row where row: "find (\<lambda>r. co_commit_id r = ?id) (st_commits st') = Some row"
    "co_signed_record row = rec" by blast
  have "require_active_in_transaction st' d = Inr ()"
    using act'(2) by (auto simp: require_active_in_transaction_def active_def)
  then have "accept_transaction later d commit rec st' = (Inr (c, hs), st')"
    using same row by (simp add: accept_transaction_def Let_def)
  with act' act ids same show ?thesis by (auto simp: accept_commit_def)
qed

theorem accept_commit_idempotent_witness:
  "accept_commit 99 (pad 16 [1]) root_commit [9] root_store = (Inr (pad 32 [7], [pad 32 [7]]), root_store)"
  by (rule accept_commit_idempotent [OF one_device_committed root_submittable root_accepted])

end
