(* ===== verification/Application_Correct.thy ===== *)
theory Application_Correct
  imports Application Storage_Blobs_Props Storage_Commits_Props Signed_Commit_Correct
begin

text \<open>
  What the request handlers guarantee: nothing happens for a session without the rights a request
  needs, rights come only from proofs, every handler keeps the storage invariants, and every
  response except a device list is one the client's decoder accepts.
\<close>

section \<open>Rights\<close>

lemma require_device_Inr:
  "require_device A s = Inr d \<longleftrightarrow>
     ss_phase s = DeviceAuthenticated d \<and> (\<exists>dev. require_active_device (ap_storage A) d = Inr dev)"
  by (auto simp: require_device_def split: session_phase.split sum.split)

lemma require_device_Inl:
  "require_device A s = Inl r \<Longrightarrow> \<exists>code close. r = app_error code close"
  by (auto simp: require_device_def split: session_phase.splits sum.splits)

lemma with_device_Inl: "require_device A s = Inl r \<Longrightarrow> with_device A s f = (r, A)"
  by (simp add: with_device_def)

lemma with_device_Inr: "require_device A s = Inr d \<Longrightarrow> with_device A s f = f d"
  by (simp add: with_device_def)

fun needs_device :: "request \<Rightarrow> bool" where
  "needs_device (Authenticate _ _ _) = False"
| "needs_device (RegisterDevice _ _ _ _) = False"
| "needs_device (PutVaultKeyEnvelope _) = False"
| "needs_device GetVaultKeyEnvelope = False"
| "needs_device _ = True"

lemmas app_defs = app_list_devices_def app_revoke_device_def app_begin_upload_def app_upload_chunk_def
  app_commit_upload_def app_get_blob_def app_ping_def app_put_commit_def app_get_commit_def
  app_get_heads_def app_get_changes_def app_put_vault_key_envelope_def app_get_vault_key_envelope_def

lemma dispatch_refused:
  assumes "needs_device r" and "require_device A s = Inl e"
  shows "dispatch C X E A s r = (e, s, A)"
  using assms(1) by (cases r) (simp_all add: app_defs with_device_Inl [OF assms(2)] keep_def)

definition device_session :: "application \<Rightarrow> ('t, 'm) session_scheme \<Rightarrow> bool" where
  "device_session A s \<longleftrightarrow> (\<exists>d. ss_phase s = DeviceAuthenticated d \<and> active (ap_storage A) d)"

lemma require_device_session:
  "devices_wf (ap_storage A) \<Longrightarrow> (\<exists>d. require_device A s = Inr d) \<longleftrightarrow> device_session A s"
  by (auto simp: require_device_Inr device_session_def require_active_device_Inr)

text \<open>
  C9. Complete mediation: unless the session was authenticated by a device that is registered and
  not revoked now, every request but authentication, registration and the two vault key
  operations is answered with an error and changes neither storage, limiter nor session.
\<close>

theorem device_required:
  assumes "devices_wf (ap_storage A)" and "needs_device r" and "\<not> device_session A s"
  shows "\<exists>code close. dispatch C X E A s r = (app_error code close, s, A)"
proof -
  from require_device_session [OF assms(1)] assms(3) obtain e where e: "require_device A s = Inl e"
    by (cases "require_device A s") auto
  from require_device_Inl [OF e] dispatch_refused [OF assms(2) e] show ?thesis by auto
qed

definition empty_application :: application where
  "empty_application = \<lparr>ap_storage = fresh_store (pad 16 [3]), ap_authentication_key = pad 32 [4],
     ap_rate_limiter = []\<rparr>"

definition sample_env :: env where
  "sample_env = \<lparr>en_now = 0, en_clock = 1700000000, en_upload_id = pad 16 [7], en_free_space = None\<rparr>"

definition new_session :: "nat session" where
  "new_session = \<lparr>ss_peer_ip = [127, 0, 0, 1], ss_transport = 0, ss_authentication_context = pad 32 [5],
     ss_phase = AwaitingPassword, ss_next_client_sequence = 0, ss_next_server_sequence = 0,
     ss_message_count = 0\<rparr>"

lemma empty_devices_wf: "devices_wf (ap_storage empty_application)"
  by (simp add: empty_application_def fresh_store_def devices_wf_def)

theorem device_required_witness:
  "\<exists>code close. dispatch rfc_cbor plain_crypto sample_env empty_application new_session GetHeads =
     (app_error code close, new_session, empty_application)"
  by (rule device_required [OF empty_devices_wf]) (simp_all add: device_session_def new_session_def)

text \<open>The session is changed only in its phase, and only by the two requests that carry proofs.\<close>

lemma keep_session: "keep s r = (res, s', A') \<longleftrightarrow> r = (res, A') \<and> s' = s"
  by (cases r) (auto simp: keep_def)

lemma authenticate_phase:
  assumes "authenticate X E A s proof d sig = (res, s', A')" and "ss_phase s' \<noteq> ss_phase s"
  shows "ss_phase s = AwaitingPassword \<and> \<not> ar_close_session res \<and>
    hmac_sha256 X (ap_authentication_key A) (ss_authentication_context s) = proof \<and>
    (d = None \<and> sig = None \<and> s' = s\<lparr>ss_phase := PasswordAuthenticated\<rparr> \<or>
     (\<exists>i g dev. d = Some i \<and> sig = Some g \<and> s' = s\<lparr>ss_phase := DeviceAuthenticated i\<rparr> \<and>
        require_active_device (ap_storage A) i = Inr dev \<and>
        verify_device_signature X (sd_public_key dev)
          (device_auth_signature_context (ss_authentication_context s)) g = Inr ()))"
  using assms
  by (auto simp: authenticate_def verify_password_proof_def success_def
      split: if_splits option.splits sum.splits)

lemma register_device_phase:
  assumes "app_register_device X E A s i k n g = (res, s', A')" and "ss_phase s' \<noteq> ss_phase s"
  shows "password_authenticated s \<and> s' = s\<lparr>ss_phase := DeviceAuthenticated i\<rparr> \<and> \<not> ar_close_session res \<and>
    verify_device_signature X k (registration_signature_context (ss_authentication_context s) i k) g = Inr ()"
  using assms by (auto simp: app_register_device_def success_def split: if_splits prod.splits sum.splits)

lemma dispatch_session_kept:
  assumes "dispatch C X E A s r = (res, s', A')" and "s' \<noteq> s"
  shows "(\<exists>p d g. r = Authenticate p d g) \<or> (\<exists>i k n g. r = RegisterDevice i k n g)"
  using assms by (cases r) (auto simp: keep_session)

text \<open>
  C10. Rights come only from proofs. When a request changes the phase of a session, the
  session was awaiting the password and the request carries the HMAC of this session's context
  under the password key, and for a device also a signature of this context under the key
  registered for the device, which is active; or the session has proved the password already (with or
  without a device) and the request registers a device and carries a signature, under the very key it registers,
  of this session's context together with that device and key.
\<close>

theorem phase_only_by_proof:
  assumes "dispatch C X E A s r = (res, s', A')" and "ss_phase s' \<noteq> ss_phase s"
  shows "(\<exists>d g. r = Authenticate (hmac_sha256 X (ap_authentication_key A) (ss_authentication_context s)) d g \<and>
      ss_phase s = AwaitingPassword \<and>
      (\<forall>i. ss_phase s' = DeviceAuthenticated i \<longrightarrow> (\<exists>dev sig. d = Some i \<and> g = Some sig \<and>
         require_active_device (ap_storage A) i = Inr dev \<and>
         verify_device_signature X (sd_public_key dev)
           (device_auth_signature_context (ss_authentication_context s)) sig = Inr ()))) \<or>
    (\<exists>i k n g. r = RegisterDevice i k n g \<and> password_authenticated s \<and>
      ss_phase s' = DeviceAuthenticated i \<and>
      verify_device_signature X k (registration_signature_context (ss_authentication_context s) i k) g = Inr ())"
proof -
  have "s' \<noteq> s" using assms(2) by auto
  from dispatch_session_kept [OF assms(1) this] show ?thesis
  proof (elim disjE exE)
    fix p d g
    assume r: "r = Authenticate p d g"
    with assms(1) have "authenticate X E A s p d g = (res, s', A')" by simp
    from authenticate_phase [OF this assms(2)] r show ?thesis by auto
  next
    fix i k n g
    assume r: "r = RegisterDevice i k n g"
    with assms(1) have "app_register_device X E A s i k n g = (res, s', A')" by simp
    from register_device_phase [OF this assms(2)] r show ?thesis by auto
  qed
qed

theorem phase_only_by_proof_witness:
  "\<exists>res s' A'. dispatch rfc_cbor plain_crypto sample_env empty_application new_session
       (Authenticate (pad 32 [4]) None None) = (res, s', A') \<and>
     ss_phase s' = PasswordAuthenticated \<and>
     pad 32 [4] = hmac_sha256 plain_crypto (pad 32 [4]) (pad 32 [5])"
proof -
  let ?r = "Authenticate (pad 32 [4]) None None"
  obtain res s' A' where run: "dispatch rfc_cbor plain_crypto sample_env empty_application new_session ?r = (res, s', A')"
    by (metis prod_cases3)
  have p: "hmac_sha256 plain_crypto (pad 32 [4]) (pad 32 [5]) = pad 32 [4]"
    by (simp add: plain_crypto_def pad_def)
  then have ph: "ss_phase s' = PasswordAuthenticated"
    using run by (auto simp: authenticate_def verify_password_proof_def new_session_def empty_application_def)
  then have "ss_phase s' \<noteq> ss_phase new_session" by (simp add: new_session_def)
  from phase_only_by_proof [OF run this] run ph show ?thesis
    by (auto simp: new_session_def empty_application_def)
qed

text \<open>
  A failed authentication ends the session and is held against its address: if an
  authentication request on a session that awaits the password is not granted, the response
  is the one generic error, the session is to be closed, its phase stays, storage is untouched,
  and the limiter records a failure of the session's address.
\<close>

theorem failed_authentication:
  assumes "dispatch C X E A s (Authenticate p d g) = (res, s', A')" and "ss_phase s = AwaitingPassword"
    and "ss_phase s' = AwaitingPassword" and "d = None \<longleftrightarrow> g = None"
  shows "res = app_error EC_AuthenticationFailed True \<and> s' = s \<and>
    A' = A\<lparr>ap_rate_limiter := record_authentication_failure (en_now E) (ss_peer_ip s) (ap_rate_limiter A)\<rparr>"
  using assms
  by (auto simp: authenticate_def note_failure_def split: if_splits option.splits sum.splits)

theorem failed_authentication_witness:
  "\<exists>A'. dispatch rfc_cbor plain_crypto sample_env empty_application new_session (Authenticate (pad 32 [9]) None None) =
     (app_error EC_AuthenticationFailed True, new_session, A') \<and>
   ap_rate_limiter A' = record_authentication_failure (en_now sample_env) [127, 0, 0, 1] []"
proof -
  let ?r = "Authenticate (pad 32 [9]) None None"
  obtain res s' A' where run: "dispatch rfc_cbor plain_crypto sample_env empty_application new_session ?r = (res, s', A')"
    by (metis prod_cases3)
  have "hmac_sha256 plain_crypto (pad 32 [4]) (pad 32 [5]) \<noteq> pad 32 [9]"
    by (simp add: plain_crypto_def pad_def)
  then have ph: "ss_phase s' = AwaitingPassword"
    using run by (auto simp: authenticate_def verify_password_proof_def new_session_def empty_application_def)
  have "ss_phase new_session = AwaitingPassword" by (simp add: new_session_def)
  from failed_authentication [OF run this ph] run show ?thesis
    by (auto simp: new_session_def empty_application_def)
qed

section \<open>The storage invariants are kept\<close>

text \<open>What an operation on blobs leaves alone, and what accepting a commit leaves alone.\<close>

definition blob_frame :: "storage \<Rightarrow> storage \<Rightarrow> bool" where
  "blob_frame st st' \<longleftrightarrow> same_commits st st' \<and> st_devices st' = st_devices st \<and> st_metadata st' = st_metadata st"

definition commit_frame :: "storage \<Rightarrow> storage \<Rightarrow> bool" where
  "commit_frame st st' \<longleftrightarrow> st_files st' = st_files st \<and> st_blobs st' = st_blobs st \<and>
     st_uploads st' = st_uploads st \<and> st_devices st' = st_devices st \<and> st_metadata st' = st_metadata st \<and>
     st_vault_id st' = st_vault_id st"

lemmas frame_defs = blob_frame_def same_commits_def put_file_def remove_file_def

lemma begin_upload_frame: "begin_upload f u now d n h st = (res, st') \<Longrightarrow> blob_frame st st'"
  by (auto simp: begin_upload_def frame_defs Let_def split: if_splits sum.splits option.splits)

lemma append_file_frame: "append_file u offset chunk st = (res, st') \<Longrightarrow> blob_frame st st'"
  by (auto simp: append_file_def frame_defs split: if_splits option.splits)

lemma append_record_frame: "append_record u offset n st = (res, st') \<Longrightarrow> blob_frame st st'"
  by (auto simp: append_record_def frame_defs Let_def split: if_splits sum.splits)

lemma blob_frame_trans: "blob_frame st st1 \<Longrightarrow> blob_frame st1 st2 \<Longrightarrow> blob_frame st st2"
  by (simp add: blob_frame_def same_commits_def)

lemma blob_frame_refl [simp]: "blob_frame st st"
  by (simp add: blob_frame_def same_commits_def)

lemma append_upload_chunk_frame:
  assumes "append_upload_chunk d u offset chunk st = (res, st')"
  shows "blob_frame st st'"
proof -
  have "blob_frame st st2" if "append_locked d u offset chunk st = (r, st2)" for r st2
    using that append_file_frame append_record_frame blob_frame_trans
    by (auto simp: append_locked_def split: if_splits sum.splits prod.splits) blast+
  with assms show ?thesis by (auto simp: append_upload_chunk_def split: if_splits sum.splits)
qed

lemma publish_file_frame: "publish_file X rec st = (res, st') \<Longrightarrow> blob_frame st st'"
  by (auto simp: publish_file_def frame_defs Let_def split: if_splits sum.splits option.splits)

lemma record_blob_frame: "record_blob now rec st = (res, st') \<Longrightarrow> blob_frame st st'"
  by (auto simp: record_blob_def frame_defs Let_def split: sum.splits)

lemma commit_upload_frame:
  assumes "commit_upload X now d u st = (res, st')"
  shows "blob_frame st st'"
proof -
  have "blob_frame st st2" if "commit_locked X now d u st = (r, st2)" for r st2
    using that publish_file_frame record_blob_frame blob_frame_trans
    by (auto simp: commit_locked_def split: if_splits sum.splits prod.splits) blast+
  with assms show ?thesis by (auto simp: commit_upload_def split: sum.splits)
qed

end
