(* ===== verification/Service_Invariant.thy ===== *)
theory Service_Invariant
  imports Application_Correct
begin

text \<open>
  The invariant of the service's storage, the conjunction of the blob store's, the commit store's and
  the device table's with the size limits of what the tables hold, and its preservation by every
  request. From it every response, except a device list, is one the protocol allows.
\<close>

section \<open>The invariant\<close>

definition rows_ok :: "storage \<Rightarrow> bool" where
  "rows_ok st \<longleftrightarrow> is_array 16 (st_vault_id st) \<and>
     (\<forall>r \<in> set (st_devices st). length (dv_encrypted_name r) \<le> MAX_ENCRYPTED_DEVICE_NAME_BYTES) \<and>
     (\<forall>r \<in> set (st_commits st). length (co_signed_record r) \<le> MAX_SIGNED_COMMIT_BYTES) \<and>
     (\<forall>e. get_meta st META_VAULT_KEY_ENVELOPE = Some e \<longrightarrow> length e \<le> MAX_VAULT_KEY_ENVELOPE_BYTES)"

definition service_inv :: "crypto \<Rightarrow> storage \<Rightarrow> bool" where
  "service_inv X st \<longleftrightarrow> blobs_inv X st \<and> committed st \<and> devices_wf st \<and> rows_ok st"

lemma service_invD:
  assumes "service_inv X st"
  shows "blobs_inv X st" "committed st" "devices_wf st" "rows_ok st"
  using assms by (auto simp: service_inv_def)

lemma fresh_service: "is_array 16 v \<Longrightarrow> service_inv X (fresh_store v)"
  unfolding service_inv_def
  by (intro conjI fresh_store_inv committed_empty)
    (auto simp: fresh_store_def devices_wf_def rows_ok_def get_meta_def)

lemma devices_wf_cong: "devices_wf st \<Longrightarrow> st_devices st' = st_devices st \<Longrightarrow> devices_wf st'"
  by (simp add: devices_wf_def)

lemma blobs_inv_keep:
  "blobs_inv X st \<Longrightarrow> st_files st' = st_files st \<Longrightarrow> st_blobs st' = st_blobs st \<Longrightarrow>
     st_uploads st' = st_uploads st \<Longrightarrow> blobs_inv X st'"
  using blobs_inv_cong by blast

lemma rows_okI:
  assumes "rows_ok st" "st_vault_id st' = st_vault_id st"
    and "\<And>r. r \<in> set (st_devices st') \<Longrightarrow> length (dv_encrypted_name r) \<le> MAX_ENCRYPTED_DEVICE_NAME_BYTES"
    and "\<And>r. r \<in> set (st_commits st') \<Longrightarrow> length (co_signed_record r) \<le> MAX_SIGNED_COMMIT_BYTES"
    and "st_metadata st' = st_metadata st"
  shows "rows_ok st'"
  using assms by (simp add: rows_ok_def get_meta_def)

lemma rows_okD:
  assumes "rows_ok st"
  shows "r \<in> set (st_devices st) \<Longrightarrow> length (dv_encrypted_name r) \<le> MAX_ENCRYPTED_DEVICE_NAME_BYTES"
    and "c \<in> set (st_commits st) \<Longrightarrow> length (co_signed_record c) \<le> MAX_SIGNED_COMMIT_BYTES"
    and "is_array 16 (st_vault_id st)"
    and "get_meta st META_VAULT_KEY_ENVELOPE = Some e \<Longrightarrow> length e \<le> MAX_VAULT_KEY_ENVELOPE_BYTES"
  using assms by (simp_all add: rows_ok_def)

lemma service_invI:
  "blobs_inv X st \<Longrightarrow> committed st \<Longrightarrow> devices_wf st \<Longrightarrow> rows_ok st \<Longrightarrow> service_inv X st"
  by (simp add: service_inv_def)

lemma service_inv_blob:
  assumes "service_inv X st" "blob_frame st st'" "blobs_inv X st'"
  shows "service_inv X st'"
proof (rule service_invI)
  note inv = service_invD [OF assms(1)]
  have same: "same_commits st st'" "st_devices st' = st_devices st" "st_metadata st' = st_metadata st"
    using assms(2) by (auto simp: blob_frame_def)
  show "committed st'" by (rule committed_other [OF inv(2) same(1)])
  show "devices_wf st'" by (rule devices_wf_cong [OF inv(3) same(2)])
  show "rows_ok st'"
    by (rule rows_okI [OF inv(4)]) (use same rows_okD(1,2) [OF inv(4)] in \<open>simp_all add: same_commits_def\<close>)
qed (rule assms(3))

lemma accept_commit_frame:
  assumes "accept_commit now d commit rec st = (res, st')"
  shows "commit_frame st st' \<and>
    (\<forall>r \<in> set (st_commits st'). r \<in> set (st_commits st) \<or> co_signed_record r = rec)"
  using accept_commit_cases [OF assms]
proof (elim disjE exE conjE)
  fix c hs
  assume tr: "accept_transaction now d commit rec st = (Inr (c, hs), st')"
  show ?thesis
  proof (cases "find (\<lambda>r. co_commit_id r = sc_commit_id commit) (st_commits st)")
    case None
    show ?thesis
      by (rule accept_transaction_new [OF tr None]) (auto simp: commit_frame_def insert_commit_rows_def)
  next
    case (Some row)
    from accept_transaction_known [OF tr Some] show ?thesis by (simp add: commit_frame_def)
  qed
qed (simp add: commit_frame_def)

lemma decode_signed_commit_submittable:
  assumes "decode_signed_commit C X input = Inr c"
  shows "submittable c \<and> length input \<le> MAX_SIGNED_COMMIT_BYTES"
proof -
  have id: "is_array 32 (sc_commit_id c)"
    using assms by (auto simp: decode_signed_commit_def result_iffs Let_def split: if_splits
        dest!: version_fixed_length)
  have "encode_signed_commit C X c = Inr input" using decode_signed_commit_sound [OF assms] by blast
  then have "validate_unsigned C (sc_unsigned c) = Inr () \<and> length input \<le> MAX_SIGNED_COMMIT_BYTES"
    by (auto elim: encode_signed_commit_Inr)
  with id show ?thesis by (simp add: submittable_def validate_unsigned_Inr successively_less_iff)
qed

lemma service_inv_accept:
  assumes "service_inv X st" "accept_commit now d commit rec st = (res, st')" "submittable commit"
    and "length rec \<le> MAX_SIGNED_COMMIT_BYTES"
  shows "service_inv X st'"
proof (rule service_invI)
  note inv = service_invD [OF assms(1)]
  from accept_commit_frame [OF assms(2)] have fr: "commit_frame st st'"
    and rows: "\<And>r. r \<in> set (st_commits st') \<Longrightarrow> r \<in> set (st_commits st) \<or> co_signed_record r = rec" by auto
  show "blobs_inv X st'" by (rule blobs_inv_keep [OF inv(1)]) (use fr in \<open>simp_all add: commit_frame_def\<close>)
  show "committed st'" by (rule committed_accept [OF inv(2) assms(3,2)])
  show "devices_wf st'" by (rule devices_wf_cong [OF inv(3)]) (use fr in \<open>simp add: commit_frame_def\<close>)
  show "rows_ok st'"
  proof (rule rows_okI [OF inv(4)])
    fix r
    assume "r \<in> set (st_commits st')"
    with rows [OF this] rows_okD(2) [OF inv(4)] assms(4)
    show "length (co_signed_record r) \<le> MAX_SIGNED_COMMIT_BYTES" by blast
  qed (use fr rows_okD(1) [OF inv(4)] in \<open>simp_all add: commit_frame_def\<close>)
qed

lemma register_device_names:
  "register_device now i k n st = (res, st') \<Longrightarrow>
     \<forall>r \<in> set (st_devices st'). r \<in> set (st_devices st) \<or> dv_encrypted_name r = n"
  by (auto simp: register_device_def Let_def split: if_splits)

lemma service_inv_register:
  assumes "service_inv X st" "register_device now i k n st = (res, st')" "is_array 16 i" "is_array 32 k"
    and "length n \<le> MAX_ENCRYPTED_DEVICE_NAME_BYTES"
  shows "service_inv X st'"
proof (rule service_invI)
  note f = register_device_fields [OF assms(2)] and inv = service_invD [OF assms(1)]
  show "blobs_inv X st'" by (rule blobs_inv_keep [OF inv(1)]) (use f in simp_all)
  show "committed st'" by (rule committed_other [OF inv(2)]) (use f in \<open>simp add: same_commits_def\<close>)
  show "devices_wf st'" by (rule register_device_wf [OF inv(3) assms(2,3,4)])
  show "rows_ok st'"
  proof (rule rows_okI [OF inv(4)])
    fix r
    assume "r \<in> set (st_devices st')"
    with register_device_names [OF assms(2)] rows_okD(1) [OF inv(4)] assms(5)
    show "length (dv_encrypted_name r) \<le> MAX_ENCRYPTED_DEVICE_NAME_BYTES" by blast
  qed (use f rows_okD(2) [OF inv(4)] in simp_all)
qed

lemma revoke_device_names:
  "revoke_device now i st = (res, st') \<Longrightarrow>
     dv_encrypted_name ` set (st_devices st') \<subseteq> dv_encrypted_name ` set (st_devices st)"
  by (auto simp: revoke_device_def Let_def split: if_splits)

lemma service_inv_revoke:
  assumes "service_inv X st" "revoke_device now i st = (res, st')"
  shows "service_inv X st'"
proof (rule service_invI)
  note f = revoke_device_fields [OF assms(2)] and inv = service_invD [OF assms(1)]
  show "blobs_inv X st'" by (rule blobs_inv_keep [OF inv(1)]) (use f in simp_all)
  show "committed st'" by (rule committed_other [OF inv(2)]) (use f in \<open>simp add: same_commits_def\<close>)
  show "devices_wf st'" by (rule revoke_device_wf [OF inv(3) assms(2)])
  show "rows_ok st'"
  proof (rule rows_okI [OF inv(4)])
    fix r
    assume "r \<in> set (st_devices st')"
    then obtain q where "q \<in> set (st_devices st)" "dv_encrypted_name r = dv_encrypted_name q"
      using revoke_device_names [OF assms(2)] by blast
    then show "length (dv_encrypted_name r) \<le> MAX_ENCRYPTED_DEVICE_NAME_BYTES"
      using rows_okD(1) [OF inv(4)] by simp
  qed (use f rows_okD(2) [OF inv(4)] in simp_all)
qed

lemma put_envelope_fields:
  "put_vault_key_envelope e st = (res, st') \<Longrightarrow>
     st' = st \<or> length e \<le> MAX_VAULT_KEY_ENVELOPE_BYTES \<and> st' = set_meta META_VAULT_KEY_ENVELOPE e st"
  by (auto simp: put_vault_key_envelope_def split: if_splits option.splits)

lemma service_inv_put_envelope:
  assumes "service_inv X st" "put_vault_key_envelope e st = (res, st')"
  shows "service_inv X st'"
  using put_envelope_fields [OF assms(2)]
proof
  assume a: "length e \<le> MAX_VAULT_KEY_ENVELOPE_BYTES \<and> st' = set_meta META_VAULT_KEY_ENVELOPE e st"
  then have f: "st_files st' = st_files st" "st_blobs st' = st_blobs st" "st_uploads st' = st_uploads st"
    "st_devices st' = st_devices st" "same_commits st st'" by (simp_all add: set_meta_def same_commits_def)
  note inv = service_invD [OF assms(1)]
  have "rows_ok st'"
    using inv(4) a f(4,5) by (simp add: rows_ok_def same_commits_def get_meta_def set_meta_def update_conv')
  then show ?thesis
    using blobs_inv_keep [OF inv(1) f(1,2,3)] committed_other [OF inv(2) f(5)]
      devices_wf_cong [OF inv(3) f(4)] by (intro service_invI)
qed (use assms(1) in simp)

section \<open>Every request keeps it\<close>

text \<open>What one request does to the storage, if it does anything: one storage operation.\<close>

inductive storage_step :: "cbor \<Rightarrow> crypto \<Rightarrow> storage \<Rightarrow> storage \<Rightarrow> bool" for C X where
  does_register: "register_device now i k n st = (q, st') \<Longrightarrow> is_array 16 i \<Longrightarrow> is_array 32 k \<Longrightarrow>
    length n \<le> MAX_ENCRYPTED_DEVICE_NAME_BYTES \<Longrightarrow> storage_step C X st st'"
| does_revoke: "revoke_device now i st = (q, st') \<Longrightarrow> storage_step C X st st'"
| does_begin: "begin_upload f u now d n h st = (q, st') \<Longrightarrow> is_array 16 u \<Longrightarrow> is_array 32 h \<Longrightarrow>
    storage_step C X st st'"
| does_append: "append_upload_chunk d u offset chunk st = (q, st') \<Longrightarrow> storage_step C X st st'"
| does_commit: "commit_upload X now d u st = (q, st') \<Longrightarrow> storage_step C X st st'"
| does_accept: "accept_commit now d c rec st = (q, st') \<Longrightarrow> decode_signed_commit C X rec = Inr c \<Longrightarrow>
    storage_step C X st st'"
| does_envelope: "put_vault_key_envelope e st = (q, st') \<Longrightarrow> storage_step C X st st'"

inductive_cases storage_step_cases: "storage_step C X st st'"

lemma storage_step_inv:
  assumes step: "storage_step C X st st'" and inv: "service_inv X st"
  shows "service_inv X st'"
  using step
proof cases
  case (does_register now i k n q)
  then show ?thesis by (rule service_inv_register [OF inv])
next
  case (does_revoke now i q)
  then show ?thesis by (rule service_inv_revoke [OF inv])
next
  case (does_begin f u now d n h q)
  have "blobs_inv X st'"
    by (rule begin_upload_inv [OF service_invD(1) [OF inv] does_begin(1)]) (fact does_begin)+
  then show ?thesis by (rule service_inv_blob [OF inv begin_upload_frame [OF does_begin(1)]])
next
  case (does_append d u offset chunk q)
  show ?thesis
    by (rule service_inv_blob [OF inv append_upload_chunk_frame [OF does_append]
        append_upload_chunk_inv [OF service_invD(1) [OF inv] does_append]])
next
  case (does_commit now d u q)
  show ?thesis
    by (rule service_inv_blob [OF inv commit_upload_frame [OF does_commit]
        commit_upload_inv [OF service_invD(1) [OF inv] does_commit]])
next
  case (does_accept now d c rec q)
  show ?thesis
    using service_inv_accept [OF inv does_accept(1)] decode_signed_commit_submittable [OF does_accept(2)] by blast
next
  case (does_envelope e q)
  then show ?thesis by (rule service_inv_put_envelope [OF inv])
qed

interpretation served: invariant "storage_step C X" "service_inv X" for C X
  by unfold_locales (rule storage_step_inv)

definition touched :: "cbor \<Rightarrow> crypto \<Rightarrow> application \<Rightarrow> application \<Rightarrow> bool" where
  "touched C X A A' \<longleftrightarrow> ap_storage A' = ap_storage A \<or> storage_step C X (ap_storage A) (ap_storage A')"

lemma touched_run:
  assumes "run_storage f op A = (res, A')" and "\<And>q st'. op = (q, st') \<Longrightarrow> storage_step C X (ap_storage A) st'"
  shows "touched C X A A'"
  using assms by (cases op) (auto simp: run_storage_def touched_def)

lemma touched_device:
  assumes "with_device A s f = (res, A')" and "\<And>d. f d = (res, A') \<Longrightarrow> touched C X A A'"
  shows "touched C X A A'"
  using assms by (auto simp: with_device_def touched_def split: sum.splits)

lemma put_commit_touched:
  assumes run: "app_put_commit C X E A s record = (res, A')"
  shows "touched C X A A'"
  using run unfolding app_put_commit_def
proof (rule touched_device)
  fix d
  assume r: "(case decode_signed_commit C X record of
       Inl _ \<Rightarrow> (app_error EC_IntegrityFailure False, A)
     | Inr commit \<Rightarrow>
         (case require_active_device (ap_storage A) d of
            Inl e \<Rightarrow> (app_storage_error e, A)
          | Inr device \<Rightarrow>
              (case verify_signed_commit X commit (sd_public_key device) of
                 Inl _ \<Rightarrow> (app_error EC_InvalidSignature False, A)
               | Inr _ \<Rightarrow>
                   run_storage (\<lambda>(commit_id, hs). CommitStored commit_id hs)
                     (accept_commit (en_clock E) d commit record (ap_storage A)) A))) = (res, A')"
  show "touched C X A A'"
  proof (cases "decode_signed_commit C X record")
    case (Inr c)
    have "A' = A \<or> run_storage (\<lambda>(commit_id, hs). CommitStored commit_id hs)
        (accept_commit (en_clock E) d c record (ap_storage A)) A = (res, A')"
      using r Inr by (auto split: sum.splits)
    then show ?thesis
    proof
      assume "run_storage (\<lambda>(commit_id, hs). CommitStored commit_id hs)
        (accept_commit (en_clock E) d c record (ap_storage A)) A = (res, A')"
      then show ?thesis by (rule touched_run) (rule does_accept [OF _ Inr])
    qed (simp add: touched_def)
  qed (use r in \<open>simp add: touched_def\<close>)
qed

lemma dispatch_storage:
  assumes wf: "wf_request r" and u: "is_array 16 (en_upload_id E)" and run: "dispatch C X E A s r = (res, s', A')"
  shows "touched C X A A'"
proof (cases r)
  case (Authenticate p d g)
  with run show ?thesis
    by (auto simp: touched_def authenticate_def note_failure_def note_success_def
        split: if_splits option.splits sum.splits)
next
  case (RegisterDevice i k n g)
  obtain q st' where reg: "register_device (en_clock E) i k n (ap_storage A) = (q, st')" by fastforce
  have "storage_step C X (ap_storage A) st'" by (rule does_register [OF reg]) (use wf RegisterDevice in simp_all)
  with run RegisterDevice reg show ?thesis
    by (auto simp: touched_def app_register_device_def split: if_splits sum.splits)
next
  case (RevokeDevice i)
  obtain q st' where rev: "revoke_device (en_clock E) i (ap_storage A) = (q, st')" by fastforce
  with run RevokeDevice does_revoke [OF rev] show ?thesis
    by (auto simp: touched_def keep_session app_revoke_device_def with_device_def split: sum.splits)
next
  case (BeginUpload n h)
  then have "app_begin_upload E A s n h = (res, A')" using run by (simp add: keep_session)
  then show ?thesis unfolding app_begin_upload_def
    by (elim touched_device touched_run) (rule does_begin, use u wf BeginUpload in simp_all)
next
  case (UploadChunk i off c)
  then have "app_upload_chunk A s i off c = (res, A')" using run by (simp add: keep_session)
  then show ?thesis unfolding app_upload_chunk_def by (elim touched_device touched_run) (rule does_append)
next
  case (CommitUpload i)
  then have "app_commit_upload X E A s i = (res, A')" using run by (simp add: keep_session)
  then show ?thesis unfolding app_commit_upload_def by (elim touched_device touched_run) (rule does_commit)
next
  case (PutCommit rec)
  with run put_commit_touched show ?thesis by (auto simp: keep_session)
next
  case (PutVaultKeyEnvelope e)
  obtain q st' where op: "put_vault_key_envelope e (ap_storage A) = (q, st')" by fastforce
  with run PutVaultKeyEnvelope does_envelope [OF op] show ?thesis
    by (auto simp: touched_def keep_session app_put_vault_key_envelope_def run_storage_def split: if_splits)
qed (use run in \<open>auto simp: touched_def keep_session app_defs with_device_def split: sum.splits if_splits\<close>)

lemma dispatch_keeps_invariant_aux:
  assumes inv: "service_inv X (ap_storage A)" and wf: "wf_request r" and u: "is_array 16 (en_upload_id E)"
    and run: "dispatch C X E A s r = (res, s', A')"
  shows "service_inv X (ap_storage A')"
  using dispatch_storage [OF wf u run] served.step_keeps [OF _ inv] inv by (auto simp: touched_def)

text \<open>
  Every request keeps the service invariant: blobs intact under their hashes, the commit tables
  a graph with gap-free device sequences, the device table keyed, and every stored record
  within the protocol's limits, whatever the session, the request and the outcome.
\<close>

theorem dispatch_keeps_invariant:
  assumes "service_inv X (ap_storage A)" and "wf_request r" and "is_array 16 (en_upload_id E)"
    and "dispatch C X E A s r = (res, s', A')"
  shows "service_inv X (ap_storage A')"
  by (rule dispatch_keeps_invariant_aux [OF assms])

theorem dispatch_keeps_invariant_witness:
  "\<exists>res s' A'. dispatch rfc_cbor plain_crypto \<lparr>en_now = 0, en_clock = 0, en_upload_id = pad 16 [1],
       en_free_space = None\<rparr> empty_application new_session (PutVaultKeyEnvelope [1]) = (res, s', A') \<and>
     service_inv plain_crypto (ap_storage A')"
proof -
  have inv: "service_inv plain_crypto (ap_storage empty_application)"
    by (simp add: empty_application_def fresh_service)
  obtain res s' A' where run: "dispatch rfc_cbor plain_crypto \<lparr>en_now = 0, en_clock = 0, en_upload_id = pad 16 [1],
       en_free_space = None\<rparr> empty_application new_session (PutVaultKeyEnvelope [1]) = (res, s', A')"
    by (metis prod_cases3)
  have "wf_request (PutVaultKeyEnvelope [1])" by (simp add: MAX_VAULT_KEY_ENVELOPE_BYTES_def)
  from dispatch_keeps_invariant [OF inv this _ run] run show ?thesis by auto
qed

end
