(* ===== verification/Upload_Locks.thy ===== *)
theory Upload_Locks
  imports Service_Invariant
begin

text \<open>
  Uploads served side by side: the lock table of \<open>Storage::lock_upload\<close> in
  \<open>crates/ll-server/src/storage/mod.rs\<close>, and \<open>append_upload_chunk\<close> and \<open>commit_upload\<close> of \<open>blob.rs\<close> cut where another
  request can run: while they wait for the lock, between their checks, their file step and their
  transaction. A lock is its address; the table holds weak references, a request in
  the server a strong one from the lookup to its end. A request may be dropped: then its guard
  is released, but a blocking job it has started runs on.
\<close>

section \<open>Requests and their jobs\<close>

datatype upload_request =
    AppendRequest bytes bytes nat bytes \<comment> \<open>device, upload, offset, chunk\<close>
  | CommitRequest bytes bytes \<comment> \<open>device, upload\<close>

fun request_upload :: "upload_request \<Rightarrow> bytes" where
  "request_upload (AppendRequest d u offset chunk) = u"
| "request_upload (CommitRequest d u) = u"

text \<open>What is checked before the lock is asked for.\<close>

fun admit_request :: "upload_request \<Rightarrow> storage \<Rightarrow> storage_error + unit" where
  "admit_request (AppendRequest d u offset chunk) st =
     (if chunk = [] \<or> length chunk > MAX_CHUNK_BYTES then Inl SE_LimitExceeded
      else rmap (\<lambda>_. ()) (require_active_device st d))"
| "admit_request (CommitRequest d u) st = rmap (\<lambda>_. ()) (require_active_device st d)"

text \<open>Where a job is: what it has read, and which of its steps it has done.\<close>

datatype upload_job =
    AppendLoaded bytes nat bytes
  | AppendWritten bytes nat nat
  | CommitLoaded upload_record
  | CommitPublished upload_record

fun job_upload :: "upload_job \<Rightarrow> bytes" where
  "job_upload (AppendLoaded u offset chunk) = u"
| "job_upload (AppendWritten u offset n) = u"
| "job_upload (CommitLoaded r) = ur_upload_id r"
| "job_upload (CommitPublished r) = ur_upload_id r"

text \<open>The checks at the start of the blocking job.\<close>

fun start_job :: "upload_request \<Rightarrow> storage \<Rightarrow> storage_error + upload_job" where
  "start_job (AppendRequest d u offset chunk) st =
     rbind (load_upload st u d) (\<lambda>record.
       if ur_received_size record \<noteq> offset then Inl SE_OffsetMismatch
       else if offset + length chunk \<ge> 2 ^ 64 then Inl SE_LimitExceeded
       else if offset + length chunk > ur_expected_size record then Inl SE_LimitExceeded
       else Inr (AppendLoaded u offset chunk))"
| "start_job (CommitRequest d u) st =
     rbind (load_upload st u d) (\<lambda>record.
       if ur_received_size record \<noteq> ur_expected_size record then Inl SE_IntegrityFailure
       else Inr (CommitLoaded record))"

datatype upload_result = Appended nat | Committed bytes | Refused storage_error

text \<open>One step of a job: it is finished with a result, or goes on.\<close>

fun job_step :: "crypto \<Rightarrow> int \<Rightarrow> upload_job \<Rightarrow> storage \<Rightarrow> (upload_result + upload_job) \<times> storage" where
  "job_step X now (AppendLoaded u offset chunk) st =
     (case append_file u offset chunk st of
        (Inl e, st) \<Rightarrow> (Inl (Refused e), st)
      | (Inr _, st) \<Rightarrow> (Inr (AppendWritten u offset (offset + length chunk)), st))"
| "job_step X now (AppendWritten u offset n) st =
     (case append_record u offset n st of
        (Inl e, st) \<Rightarrow> (Inl (Refused e), st)
      | (Inr n, st) \<Rightarrow> (Inl (Appended n), st))"
| "job_step X now (CommitLoaded record) st =
     (case publish_file X record st of
        (Inl e, st) \<Rightarrow> (Inl (Refused e), st)
      | (Inr _, st) \<Rightarrow> (Inr (CommitPublished record), st))"
| "job_step X now (CommitPublished record) st =
     (case record_blob now record st of
        (Inl e, st) \<Rightarrow> (Inl (Refused e), st)
      | (Inr h, st) \<Rightarrow> (Inl (Committed h), st))"

section \<open>The lock table\<close>

record upload_task =
  tk_request :: upload_request
  tk_lock :: nat
  tk_guard :: bool
  tk_job :: "upload_job option"

abbreviation tk_upload :: "upload_task \<Rightarrow> bytes" where
  "tk_upload k \<equiv> request_upload (tk_request k)"

record upload_server =
  us_store :: storage
  us_table :: "(bytes \<times> nat) list"
  us_next_lock :: nat
  us_tasks :: "(nat \<times> upload_task) list"
  us_detached :: "upload_job list"

definition strong_count :: "nat \<Rightarrow> (nat \<times> upload_task) list \<Rightarrow> nat" where
  "strong_count a tasks = length (filter (\<lambda>(i, k). tk_lock k = a) tasks)"

definition retain_locks :: "(nat \<times> upload_task) list \<Rightarrow> (bytes \<times> nat) list \<Rightarrow> (bytes \<times> nat) list" where
  "retain_locks tasks table = filter (\<lambda>(u, a). strong_count a tasks > 0) table"

text \<open>\<open>get\<close> and \<open>Weak::upgrade\<close>.\<close>

definition upgrade_lock :: "bytes \<Rightarrow> (nat \<times> upload_task) list \<Rightarrow> (bytes \<times> nat) list \<Rightarrow> nat option" where
  "upgrade_lock upload_id tasks table =
     (case map_of table upload_id of
        None \<Rightarrow> None
      | Some a \<Rightarrow> if strong_count a tasks > 0 then Some a else None)"

text \<open>
  The table is locked during this lookup. A reference that goes away in the middle of it makes
  \<open>upgrade\<close> fail, as if it had gone before.
\<close>

definition lock_upload :: "bytes \<Rightarrow> upload_server \<Rightarrow> nat \<times> upload_server" where
  "lock_upload upload_id S =
     (let locks = retain_locks (us_tasks S) (us_table S) in
      case upgrade_lock upload_id (us_tasks S) locks of
        Some lock \<Rightarrow> (lock, S\<lparr>us_table := locks\<rparr>)
      | None \<Rightarrow>
          let lock = us_next_lock S in
          (lock, S\<lparr>us_table := AList.update upload_id lock locks, us_next_lock := lock + 1\<rparr>))"

section \<open>Interleaving\<close>

definition set_task :: "nat \<Rightarrow> upload_task \<Rightarrow> upload_server \<Rightarrow> upload_server" where
  "set_task i k S = S\<lparr>us_tasks := AList.update i k (us_tasks S)\<rparr>"

definition end_task :: "nat \<Rightarrow> upload_server \<Rightarrow> upload_server" where
  "end_task i S = S\<lparr>us_tasks := AList.delete i (us_tasks S)\<rparr>"

text \<open>A task after a step of its job; its end releases the guard.\<close>

fun job_done :: "nat \<Rightarrow> upload_task \<Rightarrow> (upload_result + upload_job) \<Rightarrow> upload_server \<Rightarrow> upload_server" where
  "job_done i k (Inl r) S = end_task i S"
| "job_done i k (Inr j) S = set_task i (k\<lparr>tk_job := Some j\<rparr>) S"

text \<open>
  A request whose checks fail in \<open>start_job\<close> ends as one that is dropped before its job. D says
  whether requests are dropped while their job runs. Beginning an upload is one transaction that
  holds the database; device operations, commits and the key envelope are transactions without a file step.
\<close>

inductive upload_step :: "cbor \<Rightarrow> crypto \<Rightarrow> bool \<Rightarrow> upload_server \<Rightarrow> upload_server \<Rightarrow> bool" for C X D where
  up_enter: "map_of (us_tasks S) i = None \<Longrightarrow> admit_request q (us_store S) = Inr () \<Longrightarrow>
    lock_upload (request_upload q) S = (a, S') \<Longrightarrow>
    upload_step C X D S (set_task i \<lparr>tk_request = q, tk_lock = a, tk_guard = False, tk_job = None\<rparr> S')"
| up_acquire: "map_of (us_tasks S) i = Some k \<Longrightarrow>
    \<forall>(j, l) \<in> set (us_tasks S). tk_lock l = tk_lock k \<longrightarrow> \<not> tk_guard l \<Longrightarrow>
    upload_step C X D S (set_task i (k\<lparr>tk_guard := True\<rparr>) S)"
| up_start: "map_of (us_tasks S) i = Some k \<Longrightarrow> tk_guard k \<Longrightarrow> tk_job k = None \<Longrightarrow>
    start_job (tk_request k) (us_store S) = Inr j \<Longrightarrow>
    upload_step C X D S (set_task i (k\<lparr>tk_job := Some j\<rparr>) S)"
| up_run: "map_of (us_tasks S) i = Some k \<Longrightarrow> tk_job k = Some j \<Longrightarrow>
    job_step X now j (us_store S) = (r, st) \<Longrightarrow>
    upload_step C X D S (job_done i k r (S\<lparr>us_store := st\<rparr>))"
| up_drop: "map_of (us_tasks S) i = Some k \<Longrightarrow> tk_job k = None \<Longrightarrow> upload_step C X D S (end_task i S)"
| up_detach: "D \<Longrightarrow> map_of (us_tasks S) i = Some k \<Longrightarrow> tk_job k = Some j \<Longrightarrow>
    upload_step C X D S (end_task i (S\<lparr>us_detached := j # us_detached S\<rparr>))"
| up_run_detached: "j \<in> set (us_detached S) \<Longrightarrow> job_step X now j (us_store S) = (r, st) \<Longrightarrow>
    upload_step C X D S (S\<lparr>us_store := st,
      us_detached := (case r of Inl _ \<Rightarrow> [] | Inr j' \<Rightarrow> [j']) @ remove1 j (us_detached S)\<rparr>)"
| up_begin: "begin_upload free u now d n h (us_store S) = (r, st) \<Longrightarrow> is_array 16 u \<Longrightarrow> is_array 32 h \<Longrightarrow>
    upload_step C X D S (S\<lparr>us_store := st\<rparr>)"
| up_register: "register_device now d key name (us_store S) = (r, st) \<Longrightarrow> is_array 16 d \<Longrightarrow> is_array 32 key \<Longrightarrow>
    length name \<le> MAX_ENCRYPTED_DEVICE_NAME_BYTES \<Longrightarrow> upload_step C X D S (S\<lparr>us_store := st\<rparr>)"
| up_revoke: "revoke_device now d (us_store S) = (r', st) \<Longrightarrow> upload_step C X D S (S\<lparr>us_store := st\<rparr>)"
| up_accept: "accept_commit now d c rec (us_store S) = (r'', st) \<Longrightarrow> decode_signed_commit C X rec = Inr c \<Longrightarrow>
    upload_step C X D S (S\<lparr>us_store := st\<rparr>)"
| up_envelope: "put_vault_key_envelope e (us_store S) = (r', st) \<Longrightarrow> upload_step C X D S (S\<lparr>us_store := st\<rparr>)"

inductive concurrent :: "cbor \<Rightarrow> crypto \<Rightarrow> bool \<Rightarrow> upload_server \<Rightarrow> bool" for C X D where
  concurrent_start: "service_inv X st \<Longrightarrow>
    concurrent C X D \<lparr>us_store = st, us_table = [], us_next_lock = 0, us_tasks = [], us_detached = []\<rparr>"
| concurrent_step: "concurrent C X D S \<Longrightarrow> upload_step C X D S S' \<Longrightarrow> concurrent C X D S'"

section \<open>The jobs are the operations\<close>

text \<open>Run without interruption, the parts are the operations of the sequential model.\<close>

definition run_request :: "crypto \<Rightarrow> int \<Rightarrow> upload_request \<Rightarrow> storage \<Rightarrow> upload_result \<times> storage" where
  "run_request X now q st =
     (case rbind (admit_request q st) (\<lambda>_. start_job q st) of
        Inl e \<Rightarrow> (Refused e, st)
      | Inr j \<Rightarrow>
     (case job_step X now j st of
        (Inl r, st) \<Rightarrow> (r, st)
      | (Inr j, st) \<Rightarrow>
     (case job_step X now j st of
        (Inl r, st) \<Rightarrow> (r, st)
      | (Inr j, st) \<Rightarrow> (Refused SE_Join, st))))"

fun upload_outcome :: "('a \<Rightarrow> upload_result) \<Rightarrow> storage_error + 'a \<Rightarrow> upload_result" where
  "upload_outcome f (Inl e) = Refused e"
| "upload_outcome f (Inr x) = f x"

lemma run_append:
  "run_request X now (AppendRequest d u offset chunk) st =
     (let (r, st) = append_upload_chunk d u offset chunk st in (upload_outcome Appended r, st))"
  by (auto simp: run_request_def append_upload_chunk_def append_locked_def not_le not_less split: sum.split prod.split)

lemma run_commit:
  "run_request X now (CommitRequest d u) st =
     (let (r, st) = commit_upload X now d u st in (upload_outcome Committed r, st))"
  by (auto simp: run_request_def commit_upload_def commit_locked_def split: sum.split prod.split)

end
