(* ===== verification/Upload_Locks_Correct.thy ===== *)
theory Upload_Locks_Correct
  imports Upload_Locks
begin

text \<open>
  What the upload locks give: guards of one upload exclude each other, a request waits for no other upload,
  the interleaved steps keep the invariant of the blob store, and what a job has checked still holds when it
  acts. A job whose request was dropped runs without the lock, and can undo an acknowledged append.
\<close>

section \<open>Jobs\<close>

fun job_ok :: "storage \<Rightarrow> upload_job \<Rightarrow> bool" where
  "job_ok st (AppendLoaded u offset chunk) \<longleftrightarrow> chunk \<noteq> [] \<and>
     (\<exists>r \<in> set (st_uploads st). up_upload_id r = u \<and> up_received_size r = offset \<and>
        offset + length chunk \<le> up_expected_size r)"
| "job_ok st (AppendWritten u offset n) \<longleftrightarrow>
     (\<exists>r \<in> set (st_uploads st). up_upload_id r = u \<and> up_received_size r = offset \<and> offset \<le> n \<and>
        n \<le> up_expected_size r) \<and> (\<exists>c. file_at st (upload_path u) = Some c \<and> n \<le> length c)"
| "job_ok st (CommitLoaded record) \<longleftrightarrow>
     (\<exists>r \<in> set (st_uploads st). ur_upload_id record = up_upload_id r \<and>
        ur_expected_hash record = up_expected_hash r \<and> ur_expected_size record = up_expected_size r \<and>
        up_received_size r = up_expected_size r)"
| "job_ok st (CommitPublished record) \<longleftrightarrow>
     is_array 32 (ur_expected_hash record) \<and> ur_expected_size record \<le> MAX_OBJECT_BYTES \<and>
     (\<exists>c. file_at st (object_path (ur_expected_hash record)) = Some c \<and> length c = ur_expected_size record)"

lemma start_job_ok:
  assumes "start_job q st = Inr j" and "admit_request q st' = Inr ()"
  shows "job_ok st j \<and> job_upload j = request_upload q"
  using assms
  by (cases q) (auto simp: result_iffs not_le not_less dest!: load_upload_Inr split: if_splits)

text \<open>A change elsewhere: the rows of an upload, its file, and the objects stay.\<close>

definition untouched :: "bytes \<Rightarrow> storage \<Rightarrow> storage \<Rightarrow> bool" where
  "untouched u st st' \<longleftrightarrow>
     (\<forall>r \<in> set (st_uploads st). up_upload_id r = u \<longrightarrow> r \<in> set (st_uploads st')) \<and>
     file_at st' (upload_path u) = file_at st (upload_path u) \<and>
     (\<forall>h c. file_at st (object_path h) = Some c \<longrightarrow> file_at st' (object_path h) = Some c)"

lemma untouched_refl [simp]: "untouched u st st" by (simp add: untouched_def)

lemma job_ok_untouched: "job_ok st j \<Longrightarrow> untouched (job_upload j) st st' \<Longrightarrow> job_ok st' j"
  by (cases j) (auto simp: untouched_def)

lemma append_record_rows:
  "append_record u offset n st = (res, st') \<Longrightarrow> st_files st' = st_files st \<and>
     (\<forall>r \<in> set (st_uploads st). up_upload_id r \<noteq> u \<longrightarrow> r \<in> set (st_uploads st'))"
  by (auto simp: append_record_def Let_def split: sum.splits if_splits)

lemma job_step_untouched:
  assumes "job_step X now j st = (res, st')" and "u \<noteq> job_upload j"
  shows "untouched u st st'"
proof (cases j)
  case (AppendLoaded v offset chunk)
  then obtain r where "append_file v offset chunk st = (r, st')"
    using assms(1) by (auto split: prod.splits sum.splits)
  then show ?thesis
    using assms(2) AppendLoaded by (auto simp: append_file_def untouched_def split: option.splits if_splits)
next
  case (AppendWritten v offset n)
  then obtain r where "append_record v offset n st = (r, st')"
    using assms(1) by (auto split: prod.splits sum.splits)
  with append_record_rows [OF this] show ?thesis using assms(2) AppendWritten by (auto simp: untouched_def)
next
  case (CommitLoaded rc)
  then obtain r where "publish_file X rc st = (r, st')"
    using assms(1) by (auto split: prod.splits sum.splits)
  from publish_file_cases [OF this] show ?thesis
    using assms(2) CommitLoaded by (auto simp: untouched_def)
next
  case (CommitPublished rc)
  then obtain r where "record_blob now rc st = (r, st')"
    using assms(1) by (auto split: prod.splits sum.splits)
  then show ?thesis using assms(2) CommitPublished
    by (auto simp: record_blob_def Let_def untouched_def remove_file_def delete_conv' split: sum.splits)
qed

lemma begin_upload_untouched:
  assumes "begin_upload free v now d n h st = (res, st')"
    and "\<exists>r \<in> set (st_uploads st). up_upload_id r = u"
  shows "untouched u st st'"
  using begin_upload_cases [OF assms(1)] assms(2)
  by (auto simp: untouched_def upload_insert_fails_def put_file_def remove_file_def delete_conv' update_conv')

section \<open>A step of a job\<close>

lemma job_step_ok:
  assumes inv: "blobs_inv X st" and ok: "job_ok st j" and run: "job_step X now j st = (res, st')"
  shows "blobs_inv X st' \<and>
    (case res of Inl r \<Rightarrow> True | Inr j' \<Rightarrow> job_ok st' j' \<and> job_upload j' = job_upload j)"
proof (cases j)
  case (AppendLoaded u offset chunk)
  then obtain r where r: "r \<in> set (st_uploads st)" "up_upload_id r = u" "up_received_size r = offset"
    "offset + length chunk \<le> up_expected_size r" using ok by auto
  obtain res1 where a: "append_file u offset chunk st = (res1, st')"
    using run AppendLoaded by (auto split: prod.splits sum.splits)
  have "blobs_inv X st'" by (rule append_file_inv [OF inv a r(1-3)])
  moreover have "job_ok st' (AppendWritten u offset (offset + length chunk))" if "res1 = Inr x" for x
  proof -
    from append_file_result [OF a [unfolded that]] obtain c where
      "offset \<le> length c" "st' = put_file (upload_path u) (take offset c @ chunk) st" by metis
    with r show ?thesis by auto
  qed
  ultimately show ?thesis using run a by (auto simp: AppendLoaded split: sum.splits)
next
  case (AppendWritten u offset n)
  then obtain r c where r: "r \<in> set (st_uploads st)" "up_upload_id r = u" "up_received_size r = offset"
    "n \<le> up_expected_size r" "offset \<le> n" "file_at st (upload_path u) = Some c" "n \<le> length c" using ok by auto
  obtain res1 where a: "append_record u offset n st = (res1, st')"
    using run AppendWritten by (auto split: prod.splits sum.splits)
  from append_record_inv [OF inv a r] run a AppendWritten show ?thesis by (auto split: sum.splits)
next
  case (CommitLoaded rc)
  then obtain r where r: "r \<in> set (st_uploads st)" "ur_upload_id rc = up_upload_id r"
    "ur_expected_hash rc = up_expected_hash r" "ur_expected_size rc = up_expected_size r"
    "up_received_size r = up_expected_size r" using ok by auto
  obtain res1 where a: "publish_file X rc st = (res1, st')"
    using run CommitLoaded by (auto split: prod.splits sum.splits)
  have "is_array 32 (up_expected_hash r)" "up_expected_size r \<le> MAX_OBJECT_BYTES"
    using uploads_okD(1) [OF blobs_invD(3) [OF inv] r(1)] by (simp_all add: upload_ok_def)
  with publish_file_inv [OF inv a r(1-3,5)] publish_file_published [of X rc st _ st'] run a r CommitLoaded
  show ?thesis by (auto split: sum.splits)
next
  case (CommitPublished rc)
  then obtain c where c: "is_array 32 (ur_expected_hash rc)" "ur_expected_size rc \<le> MAX_OBJECT_BYTES"
    "file_at st (object_path (ur_expected_hash rc)) = Some c" "length c = ur_expected_size rc"
    using ok by auto
  obtain res1 where a: "record_blob now rc st = (res1, st')"
    using run CommitPublished by (auto split: prod.splits sum.splits)
  from record_blob_inv [OF inv a c] run a CommitPublished show ?thesis by (auto split: sum.splits)
qed

text \<open>What was checked under the lock cannot fail later: only publishing still checks the content.\<close>

fun can_refuse :: "upload_job \<Rightarrow> bool" where
  "can_refuse (CommitLoaded record) \<longleftrightarrow> True"
| "can_refuse j \<longleftrightarrow> False"

lemma filter_eq_single: "distinct xs \<Longrightarrow> x \<in> set xs \<Longrightarrow> filter ((=) x) xs = [x]"
  by (induction xs) (auto simp: filter_empty_conv)

lemma filter_single:
  assumes "distinct (map f xs)" "x \<in> set xs" "P x" "\<And>y. P y \<Longrightarrow> f y = f x"
  shows "filter P xs = [x]"
proof -
  have "P y \<longleftrightarrow> x = y" if "y \<in> set xs" for y
    using assms that by (metis distinct_map inj_onD)
  then have "filter P xs = filter ((=) x) xs" by (auto intro: filter_cong)
  with assms(1,2) show ?thesis by (simp add: filter_eq_single distinct_map)
qed

lemma append_record_hits:
  assumes "uploads_ok st" "r \<in> set (st_uploads st)" "up_upload_id r = u" "up_received_size r = offset"
    and "offset \<le> n" "n \<le> up_expected_size r"
  shows "\<exists>st'. append_record u offset n st = (Inr n, st')"
proof -
  have "filter (\<lambda>s. up_upload_id s = u \<and> up_received_size s = offset) (st_uploads st) = [r]"
    by (rule filter_single [of up_upload_id]) (use assms in \<open>auto simp: uploads_ok_def\<close>)
  moreover have "n < 2 ^ 63" "offset < 2 ^ 63"
    using uploads_okD(1) [OF assms(1,2)] assms(5,6) by (simp_all add: upload_ok_def MAX_OBJECT_BYTES_def)
  ultimately show ?thesis by (simp add: append_record_def i64_try_from_def Let_def)
qed

lemma job_step_succeeds:
  assumes inv: "blobs_inv X st" and ok: "job_ok st j" and safe: "\<not> can_refuse j"
    and run: "job_step X now j st = (res, st')"
  shows "res \<noteq> Inl (Refused e)"
proof (cases j)
  case (AppendLoaded u offset chunk)
  then obtain r where r: "r \<in> set (st_uploads st)" "up_upload_id r = u" "up_received_size r = offset"
    "offset + length chunk \<le> up_expected_size r" "chunk \<noteq> []" using ok by auto
  then have "up_received_size r \<noteq> up_expected_size r" by (cases chunk) auto
  with uploads_okD(1) [OF blobs_invD(3) [OF inv] r(1)] r
  obtain c where "file_at st (upload_path u) = Some c" "offset \<le> length c" by (auto simp: upload_ok_def)
  then show ?thesis using run AppendLoaded by (auto simp: append_file_def)
next
  case (AppendWritten u offset n)
  then show ?thesis using ok run append_record_hits [OF blobs_invD(3) [OF inv]] by fastforce
next
  case (CommitPublished rc)
  then show ?thesis using ok run by (auto simp: record_blob_def i64_try_from_def MAX_OBJECT_BYTES_def Let_def)
qed (use safe in simp)

section \<open>The invariant\<close>

text \<open>A task waits for or holds the lock the table has for its upload; its job has what it relies on.\<close>

definition task_ok :: "storage \<Rightarrow> (bytes \<times> nat) list \<Rightarrow> upload_task \<Rightarrow> bool" where
  "task_ok st table k \<longleftrightarrow> map_of table (tk_upload k) = Some (tk_lock k) \<and>
     (\<exists>st. admit_request (tk_request k) st = Inr ()) \<and>
     (\<forall>j. tk_job k = Some j \<longrightarrow> tk_guard k \<and> job_upload j = tk_upload k \<and> job_ok st j)"

definition table_ok :: "upload_server \<Rightarrow> bool" where
  "table_ok S \<longleftrightarrow> distinct (map fst (us_table S)) \<and>
     (\<forall>u a. map_of (us_table S) u = Some a \<longrightarrow> a < us_next_lock S) \<and>
     (\<forall>u v a. map_of (us_table S) u = Some a \<longrightarrow> map_of (us_table S) v = Some a \<longrightarrow> u = v)"

definition guards_ok :: "upload_server \<Rightarrow> bool" where
  "guards_ok S \<longleftrightarrow> (\<forall>i j k l. map_of (us_tasks S) i = Some k \<longrightarrow> map_of (us_tasks S) j = Some l \<longrightarrow>
     tk_guard k \<longrightarrow> tk_guard l \<longrightarrow> tk_lock k = tk_lock l \<longrightarrow> i = j)"

definition locks_inv :: "crypto \<Rightarrow> upload_server \<Rightarrow> bool" where
  "locks_inv X S \<longleftrightarrow> service_inv X (us_store S) \<and> us_detached S = [] \<and> table_ok S \<and> guards_ok S \<and>
     (\<forall>i k. map_of (us_tasks S) i = Some k \<longrightarrow> task_ok (us_store S) (us_table S) k)"

lemma locks_invD:
  assumes "locks_inv X S"
  shows "blobs_inv X (us_store S)" "us_detached S = []" "table_ok S" "guards_ok S"
    and "map_of (us_tasks S) i = Some k \<Longrightarrow> task_ok (us_store S) (us_table S) k"
    and "service_inv X (us_store S)"
  using assms service_invD(1) by (auto simp: locks_inv_def)

lemma task_lookup [simp]:
  "map_of (us_tasks (set_task i k S)) = (map_of (us_tasks S))(i \<mapsto> k)"
  "map_of (us_tasks (end_task i S)) = (map_of (us_tasks S))(i := None)"
  by (simp_all add: set_task_def end_task_def update_conv' delete_conv')

lemma task_fields [simp]:
  "us_store (set_task i k S) = us_store S" "us_store (end_task i S) = us_store S"
  "us_table (set_task i k S) = us_table S" "us_table (end_task i S) = us_table S"
  "us_next_lock (set_task i k S) = us_next_lock S" "us_next_lock (end_task i S) = us_next_lock S"
  "us_detached (set_task i k S) = us_detached S" "us_detached (end_task i S) = us_detached S"
  by (simp_all add: set_task_def end_task_def)

lemma strong_count_pos: "map_of tasks i = Some k \<Longrightarrow> 0 < strong_count (tk_lock k) tasks"
  by (force simp: strong_count_def filter_empty_conv dest: map_of_SomeD)

lemma retain_lookup:
  "distinct (map fst table) \<Longrightarrow> map_of (retain_locks tasks table) u =
     (case map_of table u of Some a \<Rightarrow> if 0 < strong_count a tasks then Some a else None | None \<Rightarrow> None)"
  unfolding retain_locks_def by (rule map_of_filter_values)

text \<open>The lookup gives the upload a lock, keeps the locks in use and stays injective.\<close>

lemma lock_upload_ok:
  assumes "table_ok S" and tasks: "\<And>i k. map_of (us_tasks S) i = Some k \<Longrightarrow> task_ok (us_store S) (us_table S) k"
    and run: "lock_upload u S = (a, S')"
  shows "table_ok S' \<and> map_of (us_table S') u = Some a \<and> us_store S' = us_store S \<and>
    us_tasks S' = us_tasks S \<and> us_detached S' = us_detached S"
    and "map_of (us_tasks S) i = Some k \<Longrightarrow> task_ok (us_store S') (us_table S') k"
proof -
  let ?T = "retain_locks (us_tasks S) (us_table S)"
  have d: "distinct (map fst (us_table S))" "distinct (map fst ?T)"
    using assms(1) by (auto simp: table_ok_def retain_locks_def distinct_map_filter)
  note look = retain_lookup [OF d(1), of "us_tasks S"]
  have kept: "map_of ?T (tk_upload k) = Some (tk_lock k)" if "map_of (us_tasks S) i = Some k" for i k
    using tasks [OF that] strong_count_pos [OF that] by (simp add: task_ok_def look)
  consider "S' = S\<lparr>us_table := ?T\<rparr>" "map_of ?T u = Some a"
    | "map_of ?T u = None" "a = us_next_lock S"
      "S' = S\<lparr>us_table := AList.update u a ?T, us_next_lock := a + 1\<rparr>"
    using run look [of u]
    by (auto simp: lock_upload_def upgrade_lock_def Let_def split: option.splits if_splits)
  note cases = this
  show "table_ok S' \<and> map_of (us_table S') u = Some a \<and> us_store S' = us_store S \<and>
    us_tasks S' = us_tasks S \<and> us_detached S' = us_detached S"
    using cases
  proof cases
    case 1
    then show ?thesis using assms(1) d by (auto simp: table_ok_def look split: option.splits if_splits)
  next
    case 2
    have old: "b < us_next_lock S" "map_of ?T w = Some b \<Longrightarrow> v = w" if "map_of ?T v = Some b" for v w b
      using that assms(1) by (auto simp: table_ok_def look split: option.splits if_splits)
    have look': "map_of (us_table S') = (map_of ?T)(u \<mapsto> a)" "us_next_lock S' = a + 1"
      using 2 by (simp_all add: update_conv')
    have "b < a + 1" if "map_of (us_table S') v = Some b" for v b
      using that old(1) [of v b] 2(2) by (auto simp: look' split: if_splits)
    moreover have "v = w" if "map_of (us_table S') v = Some b" "map_of (us_table S') w = Some b" for v w b
      using that old(1) [of v b] old(1) [of w b] old(2) [of v b w] 2(2) by (auto simp: look' split: if_splits)
    moreover have "distinct (map fst (us_table S'))" using 2 by (simp add: distinct_update d)
    ultimately have "table_ok S'" unfolding table_ok_def look'(2) by blast
    with 2 look' show ?thesis by simp
  qed
  show "task_ok (us_store S') (us_table S') k" if k: "map_of (us_tasks S) i = Some k"
    using cases
  proof cases
    case 1
    with tasks [OF k] kept [OF k] show ?thesis by (simp add: task_ok_def)
  next
    case 2
    with kept [OF k] have "tk_upload k \<noteq> u" by auto
    with 2 tasks [OF k] kept [OF k] show ?thesis by (simp add: task_ok_def update_conv')
  qed
qed

text \<open>A change of the store alone: the jobs of the tasks keep what they rely on.\<close>

lemma task_ok_store:
  assumes "task_ok st table k" and "\<And>j. tk_job k = Some j \<Longrightarrow> job_upload j = tk_upload k \<Longrightarrow> job_ok st' j"
  shows "task_ok st' table k"
  using assms by (auto simp: task_ok_def)

lemma job_has_row:
  assumes "job_ok st j" and "\<And>rc. j \<noteq> CommitPublished rc"
  shows "\<exists>r \<in> set (st_uploads st). up_upload_id r = job_upload j"
  using assms by (cases j) auto

lemma other_tasks_ok:
  assumes inv: "locks_inv X S" and i: "map_of (us_tasks S) i = Some k" "tk_job k = Some j"
    and run: "job_step X now j (us_store S) = (r, st)"
    and other: "map_of (us_tasks S) i' = Some l" "i' \<noteq> i"
  shows "task_ok st (us_table S) l"
proof (rule task_ok_store [OF locks_invD(5) [OF inv other(1)]])
  fix j'
  assume j': "tk_job l = Some j'" "job_upload j' = tk_upload l"
  from locks_invD(5) [OF inv other(1)] j' have l: "tk_guard l" "job_ok (us_store S) j'"
    "map_of (us_table S) (tk_upload l) = Some (tk_lock l)" by (auto simp: task_ok_def)
  from locks_invD(5) [OF inv i(1)] i(2) have k: "tk_guard k" "job_upload j = tk_upload k"
    "map_of (us_table S) (tk_upload k) = Some (tk_lock k)" by (auto simp: task_ok_def)
  have "tk_lock l \<noteq> tk_lock k"
    using locks_invD(4) [OF inv] other i(1) l(1) k(1) by (auto simp: guards_ok_def)
  then have "tk_upload l \<noteq> tk_upload k" using l(3) k(3) by auto
  with job_step_untouched [OF run] k(2) j'(2) show "job_ok st j'" by (auto intro: job_ok_untouched [OF l(2)])
qed

lemma job_step_frame:
  assumes "job_step X now j st = (res, st')"
  shows "blob_frame st st'"
  using assms
  by (cases j) (auto split: prod.splits sum.splits
      dest: append_file_frame append_record_frame publish_file_frame record_blob_frame)

lemma other_step_inv:
  assumes inv: "locks_inv X S" and "service_inv X st"
    and same: "st_files st = st_files (us_store S)" "st_uploads st = st_uploads (us_store S)"
  shows "locks_inv X (S\<lparr>us_store := st\<rparr>)"
proof -
  have "task_ok st (us_table S) k" if "map_of (us_tasks S) i = Some k" for i k
    by (rule task_ok_store [OF locks_invD(5) [OF inv that]])
      (use locks_invD(5) [OF inv that] same in \<open>auto simp: task_ok_def untouched_def intro: job_ok_untouched\<close>)
  with assms(2) inv show ?thesis by (auto simp: locks_inv_def table_ok_def guards_ok_def)
qed

lemma upload_step_inv:
  assumes "upload_step C X False S S'" and inv: "locks_inv X S"
  shows "locks_inv X S'"
  using assms(1)
proof cases
  case (up_enter i q a S0)
  note L = lock_upload_ok [OF locks_invD(3) [OF inv] locks_invD(5) [OF inv] up_enter(4)]
  let ?k = "\<lparr>tk_request = q, tk_lock = a, tk_guard = False, tk_job = None\<rparr>"
  have "task_ok (us_store S0) (us_table S0) ?k" using L(1) up_enter(3) by (auto simp: task_ok_def)
  moreover have "guards_ok (set_task i ?k S0)"
    using locks_invD(4) [OF inv] L(1) by (auto simp: guards_ok_def split: if_splits)
  ultimately show ?thesis
    using L inv by (auto simp: locks_inv_def up_enter(1) table_ok_def split: if_splits)
next
  case (up_acquire i k)
  have "guards_ok (set_task i (k\<lparr>tk_guard := True\<rparr>) S)"
    using locks_invD(4) [OF inv] up_acquire(3) by (auto simp: guards_ok_def dest!: map_of_SomeD split: if_splits)
  moreover have "task_ok (us_store S) (us_table S) (k\<lparr>tk_guard := True\<rparr>)"
    using locks_invD(5) [OF inv up_acquire(2)] by (auto simp: task_ok_def)
  ultimately show ?thesis using inv by (auto simp: locks_inv_def up_acquire(1) table_ok_def split: if_splits)
next
  case (up_start i k j)
  from locks_invD(5) [OF inv up_start(2)] obtain st where "admit_request (tk_request k) st = Inr ()"
    by (auto simp: task_ok_def)
  with start_job_ok [OF up_start(5)] locks_invD(5) [OF inv up_start(2)] up_start(3)
  have "task_ok (us_store S) (us_table S) (k\<lparr>tk_job := Some j\<rparr>)" by (auto simp: task_ok_def)
  moreover have "guards_ok (set_task i (k\<lparr>tk_job := Some j\<rparr>) S)"
    using locks_invD(4) [OF inv] up_start(2) by (auto simp: guards_ok_def split: if_splits)
  ultimately show ?thesis using inv by (auto simp: locks_inv_def up_start(1) table_ok_def split: if_splits)
next
  case (up_run i k j now r st)
  have j: "job_ok (us_store S) j" "job_upload j = tk_upload k"
    using locks_invD(5) [OF inv up_run(2)] up_run(3) by (auto simp: task_ok_def)
  note J = job_step_ok [OF locks_invD(1) [OF inv] j(1) up_run(4)]
  have V: "service_inv X st"
    using service_inv_blob [OF locks_invD(6) [OF inv] job_step_frame [OF up_run(4)]] J by blast
  note O = other_tasks_ok [OF inv up_run(2,3,4)]
  show ?thesis
  proof (cases r)
    case (Inl x)
    have "guards_ok (end_task i (S\<lparr>us_store := st\<rparr>))"
      using locks_invD(4) [OF inv] by (auto simp: guards_ok_def split: if_splits)
    with Inl J O V inv show ?thesis
      by (auto simp: locks_inv_def up_run(1) table_ok_def split: if_splits)
  next
    case (Inr j')
    have "guards_ok (set_task i (k\<lparr>tk_job := Some j'\<rparr>) (S\<lparr>us_store := st\<rparr>))"
      using locks_invD(4) [OF inv] up_run(2) by (auto simp: guards_ok_def split: if_splits)
    moreover have "task_ok st (us_table S) (k\<lparr>tk_job := Some j'\<rparr>)"
      using locks_invD(5) [OF inv up_run(2)] up_run(3) J j(2) Inr by (auto simp: task_ok_def)
    ultimately show ?thesis using Inr J O V inv
      by (auto simp: locks_inv_def up_run(1) table_ok_def split: if_splits)
  qed
next
  case (up_drop i k)
  have "guards_ok (end_task i S)"
    using locks_invD(4) [OF inv] by (auto simp: guards_ok_def split: if_splits)
  then show ?thesis using inv by (auto simp: locks_inv_def up_drop(1) table_ok_def split: if_splits)
next
  case (up_run_detached j now r st)
  then show ?thesis using locks_invD(2) [OF inv] by simp
next
  case (up_begin free u now d n h r st)
  have ok: "task_ok st (us_table S) k" if k: "map_of (us_tasks S) i = Some k" for i k
  proof (rule task_ok_store [OF locks_invD(5) [OF inv k]])
    fix j
    assume "tk_job k = Some j"
    then have j: "job_ok (us_store S) j" using locks_invD(5) [OF inv k] by (auto simp: task_ok_def)
    show "job_ok st j"
    proof (cases "\<exists>rc. j = CommitPublished rc")
      case True
      with j begin_upload_objects [OF up_begin(2)] show ?thesis by auto
    next
      case False
      with job_has_row [OF j] begin_upload_untouched [OF up_begin(2)] show ?thesis
        by (auto intro: job_ok_untouched [OF j])
    qed
  qed
  have "service_inv X st"
    by (rule service_inv_blob [OF locks_invD(6) [OF inv] begin_upload_frame [OF up_begin(2)]
          begin_upload_inv [OF locks_invD(1) [OF inv] up_begin(2-4)]])
  with ok inv show ?thesis by (auto simp: locks_inv_def up_begin(1) table_ok_def guards_ok_def)
next
  case (up_register now d key name r st)
  show ?thesis unfolding up_register(1)
    by (rule other_step_inv [OF inv service_inv_register [OF locks_invD(6) [OF inv] up_register(2-5)]])
      (simp_all add: register_device_fields [OF up_register(2)])
next
  case (up_revoke now d r st)
  show ?thesis unfolding up_revoke(1)
    by (rule other_step_inv [OF inv service_inv_revoke [OF locks_invD(6) [OF inv] up_revoke(2)]])
      (simp_all add: revoke_device_fields [OF up_revoke(2)])
next
  case (up_accept now d c rec r st)
  note sub = decode_signed_commit_submittable [OF up_accept(3)]
  have "st_files st = st_files (us_store S)" "st_uploads st = st_uploads (us_store S)"
    using accept_commit_frame [OF up_accept(2)] by (simp_all add: commit_frame_def)
  then show ?thesis unfolding up_accept(1)
    using other_step_inv [OF inv service_inv_accept [OF locks_invD(6) [OF inv] up_accept(2)]] sub by blast
next
  case (up_envelope e r st)
  have "st_files st = st_files (us_store S)" "st_uploads st = st_uploads (us_store S)"
    using put_envelope_fields [OF up_envelope(2)] by (auto simp: set_meta_def)
  then show ?thesis unfolding up_envelope(1)
    by (rule other_step_inv [OF inv service_inv_put_envelope [OF locks_invD(6) [OF inv] up_envelope(2)]])
qed simp_all

section \<open>Uploads side by side\<close>

interpretation uploads: invariant "upload_step C X False" "locks_inv X" for C X
  by unfold_locales (rule upload_step_inv)

lemma concurrent_reached:
  "concurrent C X D S \<Longrightarrow> \<exists>st. service_inv X st \<and> (upload_step C X D)\<^sup>*\<^sup>*
     \<lparr>us_store = st, us_table = [], us_next_lock = 0, us_tasks = [], us_detached = []\<rparr> S"
  by (induction rule: concurrent.induct) (auto intro: rtranclp.rtrancl_into_rtrancl)

lemma concurrent_inv:
  assumes "concurrent C X False S"
  shows "locks_inv X S"
proof -
  from concurrent_reached [OF assms] obtain st where st: "service_inv X st"
    and run: "(upload_step C X False)\<^sup>*\<^sup>* \<lparr>us_store = st, us_table = [], us_next_lock = 0, us_tasks = [], us_detached = []\<rparr> S"
    by blast
  show ?thesis
    by (rule uploads.steps_keep [OF run])
      (simp add: locks_inv_def table_ok_def guards_ok_def st)
qed

text \<open>
  C12. Uploads side by side. However requests on uploads interleave with each other and with registrations,
  revocations, commits and key envelopes, as long as none is dropped while its job runs: the storage keeps the
  service invariant, two requests share a lock exactly when they are for the same upload, at most one
  of them is past the lock, and a job can only be refused by the check of the uploaded content: no append whose
  checks passed fails, and a published blob is recorded.
\<close>

theorem uploads_exclusive:
  assumes "concurrent C X False S" and "map_of (us_tasks S) i = Some k" and "map_of (us_tasks S) j = Some l"
  shows "service_inv X (us_store S) \<and> (tk_lock k = tk_lock l \<longleftrightarrow> tk_upload k = tk_upload l) \<and>
    (tk_upload k = tk_upload l \<and> tk_guard k \<and> tk_guard l \<longrightarrow> i = j) \<and>
    (\<forall>job now e. tk_job k = Some job \<and> \<not> can_refuse job \<longrightarrow>
       fst (job_step X now job (us_store S)) \<noteq> Inl (Refused e))"
proof -
  note inv = concurrent_inv [OF assms(1)]
  have t: "map_of (us_table S) (tk_upload k) = Some (tk_lock k)"
    "map_of (us_table S) (tk_upload l) = Some (tk_lock l)"
    using locks_invD(5) [OF inv] assms(2,3) by (auto simp: task_ok_def)
  have same: "tk_lock k = tk_lock l \<longleftrightarrow> tk_upload k = tk_upload l"
    using t locks_invD(3) [OF inv] unfolding table_ok_def by (metis option.inject)
  moreover have "i = j" if "tk_upload k = tk_upload l" "tk_guard k" "tk_guard l"
    using that same locks_invD(4) [OF inv] assms(2,3) by (auto simp: guards_ok_def)
  moreover have "fst (job_step X now job (us_store S)) \<noteq> Inl (Refused e)"
    if "tk_job k = Some job" "\<not> can_refuse job" for job now e
  proof -
    have "job_ok (us_store S) job" using locks_invD(5) [OF inv assms(2)] that(1) by (auto simp: task_ok_def)
    with job_step_succeeds [OF locks_invD(1) [OF inv] _ that(2)] show ?thesis by (metis prod.collapse)
  qed
  ultimately show ?thesis using locks_invD(6) [OF inv] by blast
qed

section \<open>Sequential requests are runs\<close>

text \<open>With no other request in the server, a request that is not refused runs as in the sequential model.\<close>

definition with_task :: "upload_server \<Rightarrow> (bytes \<times> nat) list \<times> nat \<Rightarrow> storage \<Rightarrow> (nat \<times> upload_task) list \<Rightarrow>
    upload_server" where
  "with_task S L st tasks = \<lparr>us_store = st, us_table = fst L, us_next_lock = snd L, us_tasks = tasks,
     us_detached = us_detached S\<rparr>"

lemma start_alone:
  assumes S: "concurrent C X D S" and idle: "us_tasks S = []"
    and q: "admit_request q (us_store S) = Inr ()" "start_job q (us_store S) = Inr j"
  obtains a L where "concurrent C X D (with_task S L (us_store S)
    [(0, \<lparr>tk_request = q, tk_lock = a, tk_guard = True, tk_job = Some j\<rparr>)])"
proof -
  let ?k = "\<lambda>a g j. \<lparr>tk_request = q, tk_lock = a, tk_guard = g, tk_job = j\<rparr>"
  obtain a S' where l: "lock_upload (request_upload q) S = (a, S')" by fastforce
  define L where "L = (us_table S', us_next_lock S')"
  have S': "S' = with_task S L (us_store S) []"
    using l idle by (cases S) (auto simp: lock_upload_def Let_def L_def with_task_def split: option.splits)
  have "concurrent C X D (with_task S L (us_store S) [(0, ?k a False None)])"
    using concurrent_step [OF S up_enter [OF _ q(1) l, of 0]] idle by (simp add: S' set_task_def with_task_def)
  note 1 = concurrent_step [OF this up_acquire [of _ 0 "?k a False None"]]
  have "concurrent C X D (with_task S L (us_store S) [(0, ?k a True None)])"
    using 1 by (simp add: set_task_def with_task_def)
  note 2 = concurrent_step [OF this up_start [of _ 0 "?k a True None" j]]
  have "concurrent C X D (with_task S L (us_store S) [(0, ?k a True (Some j))])"
    using 2 q(2) by (simp add: set_task_def with_task_def)
  with that show ?thesis .
qed

lemma run_alone:
  assumes S: "concurrent C X D S" and idle: "us_tasks S = []"
    and run: "run_request X now q (us_store S) = (r, st)" and r: "\<forall>e. r \<noteq> Refused e"
  obtains L where "concurrent C X D (with_task S L st [])"
proof -
  let ?k = "\<lambda>a j. \<lparr>tk_request = q, tk_lock = a, tk_guard = True, tk_job = Some j\<rparr>"
  from run r obtain j j' st1 where q: "admit_request q (us_store S) = Inr ()" "start_job q (us_store S) = Inr j"
    "job_step X now j (us_store S) = (Inr j', st1)" "job_step X now j' st1 = (Inl r, st)"
    by (cases q) (auto split: sum.splits prod.splits simp: run_request_def result_iffs)
  from start_alone [OF S idle q(1,2)] obtain a L where
    "concurrent C X D (with_task S L (us_store S) [(0, ?k a j)])" .
  note 3 = concurrent_step [OF this up_run [of _ 0 "?k a j" j X now "Inr j'" st1]]
  have "concurrent C X D (with_task S L st1 [(0, ?k a j')])"
    using 3 q(3) by (simp add: set_task_def with_task_def)
  note 4 = concurrent_step [OF this up_run [of _ 0 "?k a j'" j' X now "Inl r" st]]
  have "concurrent C X D (with_task S L st [])" using 4 q(4) by (simp add: end_task_def with_task_def)
  with that show ?thesis .
qed

lemma start_detached:
  assumes S: "concurrent C X True S" and idle: "us_tasks S = []"
    and q: "admit_request q (us_store S) = Inr ()" "start_job q (us_store S) = Inr j"
  obtains L where "concurrent C X True ((with_task S L (us_store S) [])\<lparr>us_detached := j # us_detached S\<rparr>)"
proof -
  from start_alone [OF S idle q] obtain a L where run: "concurrent C X True (with_task S L (us_store S)
    [(0, \<lparr>tk_request = q, tk_lock = a, tk_guard = True, tk_job = Some j\<rparr>)])" .
  have "concurrent C X True ((with_task S L (us_store S) [])\<lparr>us_detached := j # us_detached S\<rparr>)"
    using concurrent_step [OF run up_detach [of True _ 0 _ j]] by (simp add: end_task_def with_task_def)
  with that show ?thesis .
qed

section \<open>A job without its request\<close>

lemma one_upload_service: "service_inv X one_upload_store"
proof (rule service_invI)
  show "blobs_inv X one_upload_store" by (rule stored_blobs_inv [OF one_upload_stored])
  show "committed one_upload_store" by (rule committed_empty) (simp_all add: one_upload_store_def fresh_store_def)
qed (simp_all add: one_upload_store_def fresh_store_def devices_wf_def rows_ok_def get_meta_def)

definition race_store :: "nat \<Rightarrow> bytes \<Rightarrow> storage" where
  "race_store n c = one_upload_store\<lparr>
     st_uploads := [\<lparr>up_upload_id = pad 16 [9], up_device_id = pad 16 [1], up_expected_size = 3,
       up_expected_hash = pad 32 [5, 6, 7], up_received_size = n, up_created_at = 0\<rparr>],
     st_files := [(upload_path (pad 16 [9]), c)]\<rparr>"

abbreviation race_append :: "nat \<Rightarrow> bytes \<Rightarrow> upload_request" where
  "race_append offset chunk \<equiv> AppendRequest (pad 16 [1]) (pad 16 [9]) offset chunk"

lemmas race_defs = race_store_def one_upload_store_def fresh_store_def append_file_def put_file_def
  append_record_def i64_try_from_def require_active_device_def get_device_def device_row_of_def
  load_upload_def MAX_CHUNK_BYTES_def

lemma race_file:
  "offset \<le> length c \<Longrightarrow> append_file (pad 16 [9]) offset chunk (race_store n c) =
     (Inr (), race_store n (take offset c @ chunk))"
  by (simp add: race_defs)

lemma race_admit: "chunk \<noteq> [] \<Longrightarrow> length chunk \<le> 3 \<Longrightarrow> admit_request (race_append k chunk) (race_store n c) = Inr ()"
  by (simp add: race_defs)

lemma race_start:
  "n + length chunk \<le> 3 \<Longrightarrow>
     start_job (race_append n chunk) (race_store n c) = Inr (AppendLoaded (pad 16 [9]) n chunk)"
  by (simp add: race_defs)

lemma race_run:
  assumes "chunk \<noteq> []" "n \<le> length c" "n + length chunk \<le> 3"
  shows "run_request X now (race_append n chunk) (race_store n c) =
    (Appended (n + length chunk), race_store (n + length chunk) (take n c @ chunk))"
proof -
  have "append_record (pad 16 [9]) n (n + length chunk) (race_store n c') =
      (Inr (n + length chunk), race_store (n + length chunk) c')" for c'
    using assms by (simp add: race_defs Let_def)
  with assms race_admit [of chunk n n c] race_start [of n chunk c] race_file [of n c chunk n] show ?thesis
    by (simp add: run_request_def)
qed

text \<open>
  A dropped append can undo later ones. Its request is dropped after the job has checked the offset, the client
  sends the chunk again and then the next one, both are acknowledged, and then the first job truncates the file:
  two bytes are acknowledged, one is stored, and the upload accepts no further chunk.
\<close>

theorem detached_append_loses_data:
  "\<exists>S r. concurrent C X True S \<and> r \<in> set (st_uploads (us_store S)) \<and> up_received_size r = 2 \<and>
     file_at (us_store S) (upload_path (up_upload_id r)) = Some [5] \<and>
     fst (append_upload_chunk (up_device_id r) (up_upload_id r) 2 [7] (us_store S)) = Inl SE_IntegrityFailure"
proof -
  let ?S0 = "\<lparr>us_store = one_upload_store, us_table = [], us_next_lock = 0, us_tasks = [], us_detached = []\<rparr>"
  let ?job = "AppendLoaded (pad 16 [9]) 0 [5]"
  have zero: "one_upload_store = race_store 0 []" by (simp add: race_defs)
  have S0: "concurrent C X True ?S0" by (rule concurrent_start [OF one_upload_service])
  have q: "admit_request (race_append 0 [5]) (us_store ?S0) = Inr ()"
    "start_job (race_append 0 [5]) (us_store ?S0) = Inr ?job"
    using race_admit [of "[5]" 0 0 "[]"] race_start [of 0 "[5]" "[]"] by (simp_all add: zero)
  from start_detached [OF S0 _ q] obtain L1 where
    S1: "concurrent C X True ((with_task ?S0 L1 (race_store 0 []) [])\<lparr>us_detached := [?job]\<rparr>)"
    by (auto simp: zero)
  have r1: "run_request X 0 (race_append 0 [5]) (race_store 0 []) = (Appended 1, race_store 1 [5])"
    using race_run [of "[5]" 0 "[]"] by simp
  from run_alone [OF S1 _ _, of 0 "race_append 0 [5]"] r1 obtain L2 where
    S2: "concurrent C X True (with_task (?S0\<lparr>us_detached := [?job]\<rparr>) L2 (race_store 1 [5]) [])"
    by (fastforce simp: with_task_def)
  have r2: "run_request X 0 (race_append 1 [6]) (race_store 1 [5]) = (Appended 2, race_store 2 [5, 6])"
    using race_run [of "[6]" 1 "[5]"] by (simp add: numeral_2_eq_2)
  from run_alone [OF S2 _ _, of 0 "race_append 1 [6]"] r2 obtain L3 where
    S3: "concurrent C X True (with_task (?S0\<lparr>us_detached := [?job]\<rparr>) L3 (race_store 2 [5, 6]) [])"
    by (fastforce simp: with_task_def)
  have "job_step X 0 ?job (race_store 2 [5, 6]) = (Inr (AppendWritten (pad 16 [9]) 0 1), race_store 2 [5])"
    using race_file [of 0 "[5, 6]" "[5]" 2] by simp
  from concurrent_step [OF S3 up_run_detached [of ?job _ X 0 "Inr (AppendWritten (pad 16 [9]) 0 1)" "race_store 2 [5]"]] this show ?thesis
    by (force simp: with_task_def race_defs append_upload_chunk_def append_locked_def Let_def)
qed

text \<open>One request is past the lock and a second one for the same upload has entered.\<close>

theorem uploads_exclusive_witness:
  "\<exists>S k l. concurrent rfc_cbor plain_crypto False S \<and> map_of (us_tasks S) 0 = Some k \<and> map_of (us_tasks S) 1 = Some l \<and>
     tk_job k = Some (AppendLoaded (pad 16 [9]) 0 [5]) \<and> tk_lock k = tk_lock l \<and>
     fst (job_step plain_crypto 0 (AppendLoaded (pad 16 [9]) 0 [5]) (us_store S)) \<noteq> Inl (Refused SE_Io)"
proof -
  let ?S0 = "\<lparr>us_store = one_upload_store, us_table = [], us_next_lock = 0, us_tasks = [], us_detached = []\<rparr>"
  let ?job = "AppendLoaded (pad 16 [9]) 0 [5]" and ?q = "race_append 0 [5]"
  have zero: "one_upload_store = race_store 0 []" by (simp add: race_defs)
  have S0: "concurrent rfc_cbor plain_crypto False ?S0" by (rule concurrent_start [OF one_upload_service])
  have idle: "us_tasks ?S0 = []" by simp
  have q: "admit_request ?q (us_store ?S0) = Inr ()" "start_job ?q (us_store ?S0) = Inr ?job"
    using race_admit [of "[5]" 0 0 "[]"] race_start [of 0 "[5]" "[]"] by (simp_all add: zero)
  from start_alone [OF S0 idle q] obtain a L where
    S1: "concurrent rfc_cbor plain_crypto False (with_task ?S0 L (us_store ?S0)
      [(0, \<lparr>tk_request = ?q, tk_lock = a, tk_guard = True, tk_job = Some ?job\<rparr>)])" .
  let ?S1 = "with_task ?S0 L (us_store ?S0)
      [(0, \<lparr>tk_request = ?q, tk_lock = a, tk_guard = True, tk_job = Some ?job\<rparr>)]"
  obtain b S' where l: "lock_upload (request_upload ?q) ?S1 = (b, S')" by fastforce
  then have S': "us_store S' = one_upload_store" "us_tasks S' = us_tasks ?S1"
    by (auto simp: lock_upload_def with_task_def Let_def split: option.splits)
  let ?S2 = "set_task 1 \<lparr>tk_request = ?q, tk_lock = b, tk_guard = False, tk_job = None\<rparr> S'"
  have S2: "concurrent rfc_cbor plain_crypto False ?S2"
    by (rule concurrent_step [OF S1 up_enter [OF _ _ l]]) (use q in \<open>simp_all add: with_task_def\<close>)
  let ?k = "\<lparr>tk_request = ?q, tk_lock = a, tk_guard = True, tk_job = Some ?job\<rparr>"
  let ?l = "\<lparr>tk_request = ?q, tk_lock = b, tk_guard = False, tk_job = None\<rparr>"
  have t: "map_of (us_tasks ?S2) 0 = Some ?k" "map_of (us_tasks ?S2) 1 = Some ?l" "us_store ?S2 = one_upload_store"
    by (simp_all add: S' with_task_def)
  from uploads_exclusive [OF S2 t(1,2)] have "a = b"
    "fst (job_step plain_crypto 0 ?job (us_store ?S2)) \<noteq> Inl (Refused SE_Io)" by (simp, auto)
  with S2 t show ?thesis by (intro exI [of _ ?S2] exI [of _ ?k] exI [of _ ?l]) (simp del: job_step.simps)
qed

end
