(* ===== verification/Rate_Limit_Props.thy ===== *)
theory Rate_Limit_Props
  imports Rate_Limit
begin

text \<open>
  What the limiter guarantees over any sequence of its operations: a bound on the handshakes one
  address gets within a window, and that an address that failed to authenticate stays shut out
  for its whole backoff. Both are potential arguments on the address's entry.
\<close>

section \<open>Sequences of operations\<close>

datatype rate_event = Handshake bytes | Failure bytes | Success bytes

fun rate_step :: "nat \<Rightarrow> rate_event \<Rightarrow> rate_limiter \<Rightarrow> bool \<times> rate_limiter" where
  "rate_step now (Handshake a) L = allow_handshake now a L"
| "rate_step now (Failure a) L = (False, record_authentication_failure now a L)"
| "rate_step now (Success a) L = (False, record_authentication_success now a L)"

text \<open>How many handshakes of an address a timed sequence of operations lets through.\<close>

fun admitted :: "bytes \<Rightarrow> (nat \<times> rate_event) list \<Rightarrow> rate_limiter \<Rightarrow> nat" where
  "admitted a [] L = 0"
| "admitted a ((now, ev) # evs) L =
     (let (allowed, L') = rate_step now ev L in
      (if allowed \<and> ev = Handshake a then 1 else 0) + admitted a evs L')"

lemma rate_step_distinct: "distinct (map fst L) \<Longrightarrow> distinct (map fst (snd (rate_step now ev L)))"
  by (cases ev) (simp_all add: limiter_distinct)

section \<open>Handshakes per window\<close>

text \<open>
  How many more handshakes the address can get from now on, if every operation comes after t and
  within a window of it: an entry whose window began after t is never reset.
\<close>

definition entry_budget :: "nat \<Rightarrow> rate_entry option \<Rightarrow> nat" where
  "entry_budget t entry =
     (case entry of
        None \<Rightarrow> MAX_HANDSHAKES_PER_WINDOW
      | Some e \<Rightarrow>
          if t \<le> re_window_started e \<and> t \<le> re_last_seen e
          then MAX_HANDSHAKES_PER_WINDOW - re_handshakes e
          else (MAX_HANDSHAKES_PER_WINDOW - re_handshakes e) + MAX_HANDSHAKES_PER_WINDOW)"

lemma budget_enter:
  assumes "enter_handshake now e = (allowed, e')" and "t \<le> now" "now < t + WINDOW"
  shows "(if allowed then 1 else 0) + entry_budget t (Some e') \<le> entry_budget t (Some e)"
  using assms by (auto simp: enter_handshake_def entry_budget_def rate_limits Let_def split: if_splits)

lemma budget_new: "t \<le> now \<Longrightarrow> entry_budget t (Some (new_entry now)) = MAX_HANDSHAKES_PER_WINDOW"
  by (simp add: entry_budget_def new_entry_def)

lemma budget_none_fresh:
  "entry_budget t None \<le> entry_budget t (Some e) \<or> t \<le> re_last_seen e"
  by (simp add: entry_budget_def)

lemma budget_retain:
  assumes "distinct (map fst L)" "now < t + WINDOW"
  shows "entry_budget t (map_of (retain_recent now L) a) \<le> entry_budget t (map_of L a)"
proof (cases "map_of L a")
  case (Some e)
  show ?thesis
  proof (cases "t \<le> re_last_seen e")
    case True
    with assms(2) have "now - re_last_seen e < ENTRY_RETENTION" by (simp add: rate_limits)
    with Some show ?thesis by (simp add: map_of_retain [OF assms(1)])
  next
    case False
    with budget_none_fresh [of t e] Some show ?thesis by (simp add: map_of_retain [OF assms(1)])
  qed
qed (simp add: map_of_retain [OF assms(1)])

lemma budget_entry_or_new:
  "t \<le> now \<Longrightarrow> entry_budget t (Some (entry_or_new now a L)) \<le> entry_budget t (map_of L a)"
  by (auto simp: entry_or_new_def budget_new entry_budget_def [of t None] split: option.split)

lemma budget_step:
  assumes "distinct (map fst L)" "t \<le> now" "now < t + WINDOW" "rate_step now ev L = (allowed, L')"
  shows "(if allowed \<and> ev = Handshake a then 1 else 0) + entry_budget t (map_of L' a)
    \<le> entry_budget t (map_of L a)"
proof (cases ev)
  case (Handshake b)
  show ?thesis
  proof (cases "a = b")
    case True
    let ?kept = "retain_recent now L"
    have run: "allow_handshake now a L = (allowed, L')" using assms(4) Handshake True by simp
    have kept: "entry_budget t (map_of ?kept a) \<le> entry_budget t (map_of L a)"
      by (rule budget_retain [OF assms(1,3)])
    have pos: "entry_budget t None \<le> entry_budget t (map_of ?kept a)" if "map_of L' a = None"
      using run that by (auto simp: allow_handshake_def Let_def update_conv' split: if_splits prod.splits)
    from allow_handshake_self [OF run] show ?thesis
    proof (elim disjE exE conjE)
      fix e
      assume "map_of L' a = Some e"
        and "enter_handshake now (entry_or_new now a ?kept) = (allowed, e)"
      with budget_enter [of now "entry_or_new now a ?kept" allowed e t] assms(2,3) Handshake True
        budget_entry_or_new [OF assms(2), of a ?kept] kept show ?thesis by simp
    qed (use Handshake True kept pos in simp)
  next
    case False
    have "map_of L' a = map_of (retain_recent now L) a"
      using allow_handshake_other [OF False, of now L] assms(4) Handshake by simp
    with False Handshake budget_retain [OF assms(1,3), of a] show ?thesis by simp
  qed
next
  case (Failure b)
  have "entry_budget t (Some (fail_entry now e)) \<le> entry_budget t (Some e)" for e
    using assms(2) by (simp add: fail_entry_def entry_budget_def Let_def)
  then have "entry_budget t (Some (fail_entry now (entry_or_new now a L))) \<le> entry_budget t (map_of L a)"
    using budget_entry_or_new [OF assms(2), of a L] order_trans by blast
  with Failure assms(4) show ?thesis by (auto simp: failure_self)
next
  case (Success b)
  with assms(4) have L': "L' = record_authentication_success now b L" by simp
  show ?thesis
  proof (cases "a = b")
    case True
    with L' Success assms(2) show ?thesis
      by (auto simp: record_authentication_success_def update_conv' entry_budget_def split: option.splits)
  qed (simp add: L' Success success_other)
qed

lemma admitted_budget:
  "distinct (map fst L) \<Longrightarrow> \<forall>(now, ev) \<in> set evs. t \<le> now \<and> now < t + WINDOW \<Longrightarrow>
     admitted a evs L \<le> entry_budget t (map_of L a)"
proof (induction evs arbitrary: L)
  case (Cons x evs)
  obtain now ev where x: "x = (now, ev)" by (cases x)
  obtain allowed L' where s: "rate_step now ev L = (allowed, L')" by fastforce
  have "distinct (map fst L')" using rate_step_distinct [OF Cons.prems(1), of now ev] s by simp
  then have "admitted a evs L' \<le> entry_budget t (map_of L' a)" using Cons by simp
  with budget_step [OF Cons.prems(1) _ _ s, of t a] Cons.prems(2) x s show ?case by auto
qed simp

text \<open>
  C23. Handshakes per window: whatever operations run on the limiter within a span of less than
  one minute, for any addresses and in any order, an address gets at most twice the
  window's quota of handshakes, and at most the quota if the limiter does not know it yet.
\<close>

theorem handshakes_bounded:
  assumes "distinct (map fst L)" and "\<forall>(now, ev) \<in> set evs. t \<le> now \<and> now < t + WINDOW"
  shows "admitted a evs L \<le> 2 * MAX_HANDSHAKES_PER_WINDOW \<and>
    (map_of L a = None \<longrightarrow> admitted a evs L \<le> MAX_HANDSHAKES_PER_WINDOW)"
  using admitted_budget [OF assms, of a] by (auto simp: entry_budget_def split: option.splits if_splits)

theorem handshakes_bounded_witness:
  "admitted [1] [(5, Handshake [1]), (6, Handshake [2]), (7, Handshake [1])] [] = 2 \<and>
   admitted [1] [(5, Handshake [1]), (6, Handshake [2]), (7, Handshake [1])] [] \<le> MAX_HANDSHAKES_PER_WINDOW"
  using handshakes_bounded [of "[]" "[(5, Handshake [1]), (6, Handshake [2]), (7, Handshake [1])]" 0 "[1]"]
  by (simp add: allow_handshake_def retain_recent_def entry_or_new_def enter_handshake_def new_entry_def
      rate_limits)

section \<open>Backoff\<close>

definition failures :: "bytes \<Rightarrow> rate_limiter \<Rightarrow> nat" where
  "failures a L = (case map_of L a of Some e \<Rightarrow> re_failed_authentications e | None \<Rightarrow> 0)"

text \<open>The entry keeps its address out until b: its count is at least n, and it is recent.\<close>

definition shut_out :: "nat \<Rightarrow> nat \<Rightarrow> nat \<Rightarrow> rate_entry option \<Rightarrow> bool" where
  "shut_out t n b entry \<longleftrightarrow> (\<exists>e. entry = Some e \<and> t \<le> re_last_seen e \<and> b \<le> re_blocked_until e \<and>
     n \<le> re_failed_authentications e)"

lemma backoff_mono: "(n :: nat) \<le> m \<Longrightarrow> min (2 ^ (n - 1)) MAX_BACKOFF_SECONDS \<le> min (2 ^ (m - 1)) MAX_BACKOFF_SECONDS"
  by (intro min.mono power_increasing diff_le_mono) simp_all

lemma shut_out_fail:
  assumes "n \<le> 8" "n \<le> re_failed_authentications e" "t \<le> now"
  shows "shut_out t n (t + seconds (min (2 ^ (n - 1)) MAX_BACKOFF_SECONDS)) (Some (fail_entry now e))"
proof -
  have n: "n \<le> min 8 (min 255 (re_failed_authentications e + 1))" using assms by simp
  have "seconds (min (2 ^ (n - 1)) MAX_BACKOFF_SECONDS) \<le>
      seconds (min (2 ^ (min 8 (min 255 (re_failed_authentications e + 1)) - 1)) MAX_BACKOFF_SECONDS)"
    using backoff_mono [OF n] by (simp add: seconds_def)
  with n assms(3) show ?thesis by (simp add: shut_out_def fail_entry_def Let_def)
qed

lemma shut_out_step:
  assumes "distinct (map fst L)" "shut_out t n b (map_of L a)" "n \<le> 8"
    and b: "b = t + seconds (min (2 ^ (n - 1)) MAX_BACKOFF_SECONDS)"
    and "t \<le> now" "now < b" "ev \<noteq> Success a" "rate_step now ev L = (allowed, L')"
  shows "shut_out t n b (map_of L' a) \<and> (ev = Handshake a \<longrightarrow> \<not> allowed)"
proof -
  from assms(2) obtain e where e: "map_of L a = Some e" "t \<le> re_last_seen e" "b \<le> re_blocked_until e"
    "n \<le> re_failed_authentications e" by (auto simp: shut_out_def)
  have "now - re_last_seen e < ENTRY_RETENTION"
  proof -
    have "seconds (min (2 ^ (n - 1)) MAX_BACKOFF_SECONDS) \<le> seconds 256"
      by (simp add: seconds_def MAX_BACKOFF_SECONDS_def)
    with e(2) assms(6) b show ?thesis by (simp add: rate_limits)
  qed
  then have kept: "map_of (retain_recent now L) a = Some e" by (simp add: map_of_retain [OF assms(1)] e(1))
  show ?thesis
  proof (cases ev)
    case (Handshake c)
    show ?thesis
    proof (cases "a = c")
      case True
      from e(3) assms(6) have "now < re_blocked_until e" by simp
      with True Handshake assms(5,8) kept e show ?thesis
        by (auto simp: allow_handshake_def entry_or_new_def enter_handshake_def update_conv' shut_out_def)
    next
      case False
      have "map_of L' a = Some e" using allow_handshake_other [OF False, of now L] kept assms(8) Handshake by simp
      with e False Handshake show ?thesis by (simp add: shut_out_def)
    qed
  next
    case (Failure c)
    with assms(8) have L': "L' = record_authentication_failure now c L" by simp
    show ?thesis
    proof (cases "a = c")
      case True
      have "map_of L' a = Some (fail_entry now e)" using e(1) by (simp add: L' failure_self entry_or_new_def True)
      with shut_out_fail [OF assms(3) e(4) assms(5)] b Failure show ?thesis by simp
    qed (use e Failure L' in \<open>simp add: failure_self shut_out_def\<close>)
  next
    case (Success c)
    with assms(7,8) have "map_of L' a = Some e" using success_other [of a c now L] e(1) by simp
    with e Success show ?thesis by (simp add: shut_out_def)
  qed
qed

lemma shut_out_admitted:
  assumes b: "b = t + seconds (min (2 ^ (n - 1)) MAX_BACKOFF_SECONDS)" and n: "n \<le> 8"
  shows "distinct (map fst L) \<Longrightarrow> shut_out t n b (map_of L a) \<Longrightarrow>
    \<forall>(now, ev) \<in> set evs. t \<le> now \<and> now < b \<and> ev \<noteq> Success a \<Longrightarrow> admitted a evs L = 0"
proof (induction evs arbitrary: L)
  case (Cons x evs)
  obtain now ev where x: "x = (now, ev)" by (cases x)
  obtain allowed L' where s: "rate_step now ev L = (allowed, L')" by fastforce
  have d: "distinct (map fst L')" using rate_step_distinct [OF Cons.prems(1), of now ev] s by simp
  have now: "t \<le> now" "now < b" "ev \<noteq> Success a" using Cons.prems(3) x by auto
  from shut_out_step [OF Cons.prems(1,2) n b now s] Cons.IH [OF d] Cons.prems(3) x s show ?case by auto
qed simp

text \<open>
  Backoff: after an address fails to authenticate, no handshake of it is let through
  for 1, 2, 4, ... up to 128 seconds, doubling with every failure in a row, whatever other
  addresses do and however often it tries or fails meanwhile; only a successful
  authentication of a session it already has lifts the block.
\<close>

theorem backoff_refuses:
  assumes "distinct (map fst L)" and "n = min 8 (failures a L + 1)"
    and "\<forall>(now, ev) \<in> set evs. t \<le> now \<and> now < t + seconds (2 ^ (n - 1)) \<and> ev \<noteq> Success a"
  shows "admitted a evs (record_authentication_failure t a L) = 0"
proof -
  have n: "n \<le> 8" using assms(2) by simp
  have pow: "min (2 ^ (n - 1)) MAX_BACKOFF_SECONDS = 2 ^ (n - 1)"
  proof -
    have "(2 :: nat) ^ (n - 1) \<le> 2 ^ 7" using n by (intro power_increasing) simp_all
    then show ?thesis by (simp add: MAX_BACKOFF_SECONDS_def)
  qed
  have f: "failures a L = re_failed_authentications (entry_or_new t a L)"
    by (simp add: failures_def entry_or_new_def new_entry_def split: option.split)
  have "min 8 (min 255 (re_failed_authentications (entry_or_new t a L) + 1)) = n" using assms(2) f by simp
  then have "shut_out t n (t + seconds (min (2 ^ (n - 1)) MAX_BACKOFF_SECONDS))
      (map_of (record_authentication_failure t a L) a)"
    by (simp add: failure_self shut_out_def fail_entry_def Let_def)
  then show ?thesis
    using shut_out_admitted [OF refl n limiter_distinct(2) [OF assms(1)]] assms(3) pow by simp
qed

theorem backoff_refuses_witness:
  "admitted [1] [(10, Handshake [1]), (11, Failure [1]), (12, Handshake [1])]
     (record_authentication_failure 9 [1] []) = 0"
  by (rule backoff_refuses [of "[]" 1 "[1]"])
    (simp_all add: failures_def seconds_def)

text \<open>The documented maximum of 256 seconds is never reached: the failure count stops at 8.\<close>

lemma backoff_at_most_128:
  "re_blocked_until (fail_entry now e) \<le> now + seconds 128"
proof -
  have "min 8 (min 255 (re_failed_authentications e + 1)) - 1 \<le> 7" by simp
  then have "(2 :: nat) ^ (min 8 (min 255 (re_failed_authentications e + 1)) - 1) \<le> 2 ^ 7"
    by (rule power_increasing) simp
  then show ?thesis by (simp add: fail_entry_def Let_def seconds_def)
qed

end
