(* ===== verification/Server_State.thy ===== *)
theory Server_State
  imports Application Protocol_Roundtrip
begin

text \<open>
  The server state and its HTTP surface: \<open>crates/ll-server/src/state.rs\<close> and the handlers of
  \<open>http.rs\<close>. A handshake is one step. An envelope request is three: it looks its session up,
  waits for the session's lock, and is processed, after which the session may be removed; other
  requests run in between. The configuration never changes after start-up.
\<close>

section \<open>Start-up\<close>

record server_config =
  cf_private_key :: bytes
  cf_public_key :: bytes
  cf_fingerprint :: ustr
  cf_instance_id :: bytes
  cf_authentication_salt :: bytes
  cf_argon2_policy :: argon2_policy

record 't server =
  sv_config :: server_config
  sv_bootstrap :: bytes
  sv_application :: application
  sv_sessions :: "'t session_store"

definition new_server ::
  "cbor \<Rightarrow> server_config \<Rightarrow> storage \<Rightarrow> bytes \<Rightarrow> 't server option" where
  "new_server C config st authentication_key =
     (case encode_bootstrap C
        \<lparr>bs_protocol_version = PROTOCOL_VERSION, bs_instance_id = cf_instance_id config,
         bs_noise_suite = NOISE_SUITE, bs_server_static_public_key = cf_public_key config,
         bs_server_fingerprint = cf_fingerprint config,
         bs_maximum_handshake_bytes = of_nat MAX_HANDSHAKE_BYTES,
         bs_maximum_transport_bytes = of_nat MAX_TRANSPORT_CIPHERTEXT_BYTES\<rparr> of
        Inl _ \<Rightarrow> None
      | Inr bootstrap \<Rightarrow> Some
          \<lparr>sv_config = config, sv_bootstrap = bootstrap,
           sv_application = \<lparr>ap_storage = st, ap_authentication_key = authentication_key, ap_rate_limiter = []\<rparr>,
           sv_sessions = \<lparr>sr_sessions = [], sr_objects = []\<rparr>\<rparr>)"

section \<open>Handshake\<close>

datatype handshake_failure = HF_Invalid | HF_RateLimited | HF_Capacity

record handshake_random =
  hr_session_handle :: "bytes option"
  hr_random_challenge :: "bytes option"
  hr_session_id :: "bytes option"

text \<open>What follows admission: the challenge, the Noise response and the new session.\<close>

definition prepare_session ::
  "cbor \<Rightarrow> ('h, 't) snow \<Rightarrow> server_config \<Rightarrow> handshake_random \<Rightarrow> bytes \<Rightarrow> bytes \<Rightarrow>
     (bytes \<times> 't session \<times> bytes) option" where
  "prepare_session C N config R peer_ip initiator_message =
     (case (hr_session_handle R, hr_random_challenge R, hr_session_id R) of
        (Some session_handle, Some random_challenge, Some session_id) \<Rightarrow>
          (case encode_auth_challenge C
             \<lparr>ac_session_handle = session_handle,
              ac_authentication_salt = cf_authentication_salt config,
              ac_argon2_memory_kib = memory_kib (cf_argon2_policy config),
              ac_argon2_iterations = iterations (cf_argon2_policy config),
              ac_argon2_parallelism = parallelism (cf_argon2_policy config),
              ac_random_challenge = random_challenge, ac_session_id = session_id\<rparr> of
             Inl _ \<Rightarrow> None
           | Inr challenge_bytes \<Rightarrow>
               (case accept_handshake C N (cf_private_key config) (cf_instance_id config)
                       initiator_message challenge_bytes of
                  Inl _ \<Rightarrow> None
                | Inr accepted \<Rightarrow> Some (session_handle,
                    \<lparr>ss_peer_ip = peer_ip, ss_transport = ah_transport accepted,
                     ss_authentication_context =
                       authentication_context (ah_handshake_hash accepted) random_challenge session_id,
                     ss_phase = AwaitingPassword, ss_next_client_sequence = 0,
                     ss_next_server_sequence = 0, ss_message_count = 0\<rparr>,
                    ah_response accepted)))
      | _ \<Rightarrow> None)"

definition set_limiter :: "rate_limiter \<Rightarrow> 't server \<Rightarrow> 't server" where
  "set_limiter L S = S\<lparr>sv_application := (sv_application S)\<lparr>ap_rate_limiter := L\<rparr>\<rparr>"

definition handshake ::
  "cbor \<Rightarrow> ('h, 't) snow \<Rightarrow> nat \<Rightarrow> handshake_random \<Rightarrow> bytes \<Rightarrow> bytes \<Rightarrow> 't server \<Rightarrow>
     (handshake_failure + bytes) \<times> 't server" where
  "handshake C N now R peer_ip initiator_message S =
     (if initiator_message = [] \<or> length initiator_message > MAX_HANDSHAKE_BYTES then (Inl HF_Invalid, S)
      else
        let (allowed, L) = allow_handshake now peer_ip (ap_rate_limiter (sv_application S));
            S1 = set_limiter L S in
        if \<not> allowed then (Inl HF_RateLimited, S1)
        else case prepare_session C N (sv_config S) R peer_ip initiator_message of
          None \<Rightarrow> (Inl HF_Invalid, S1)
        | Some (handle, session, response) \<Rightarrow>
            let (inserted, store) = insert_session now handle session (sv_sessions S1);
                S2 = S1\<lparr>sv_sessions := store\<rparr> in
            if \<not> inserted then (Inl HF_Capacity, S2) else (Inr response, S2))"

section \<open>Envelopes\<close>

record envelope_result =
  er_ciphertext_records :: bytes
  er_close_session :: bool

text \<open>\<open>None\<close> is \<open>EnvelopeFailure::Invalid\<close>; the session is what the request leaves behind.\<close>

definition encrypted_response ::
  "cbor \<Rightarrow> ('t, 'm) transport_scheme \<Rightarrow> 't session \<Rightarrow> response \<Rightarrow> bool \<Rightarrow>
     envelope_result option \<times> 't session" where
  "encrypted_response C N s response close_session =
     (let sequence = ss_next_server_sequence s in
      case checked_succ sequence of
        None \<Rightarrow> (None, s)
      | Some next \<Rightarrow>
          let s1 = s\<lparr>ss_next_server_sequence := next\<rparr> in
          (case encode_server_message C \<lparr>sm_sequence = sequence, sm_response = response\<rparr> of
             Inl _ \<Rightarrow> (None, s1)
           | Inr clear \<Rightarrow>
               let (records, t) = encrypt_transport_records N (ss_transport s1) clear;
                   s2 = s1\<lparr>ss_transport := t\<rparr> in
               (case records of
                  Inl _ \<Rightarrow> (None, s2)
                | Inr ciphertext \<Rightarrow>
                    (Some \<lparr>er_ciphertext_records = ciphertext, er_close_session = close_session\<rparr>, s2))))"

definition encrypted_error ::
  "cbor \<Rightarrow> ('t, 'm) transport_scheme \<Rightarrow> 't session \<Rightarrow> error_code \<Rightarrow> bool \<Rightarrow>
     envelope_result option \<times> 't session" where
  "encrypted_error C N s code close_session = encrypted_response C N s (Error code) close_session"

text \<open>
  What follows decryption: the sequence check, the message count and the handler. The handler and the state
  it works on are arguments, so that its calls can be observed; the server's handler is the dispatcher.
\<close>

definition handle_message_by ::
  "('t session \<Rightarrow> request \<Rightarrow> 'a \<Rightarrow> application_result \<times> 't session \<times> 'a) \<Rightarrow> cbor \<Rightarrow> ('t, 'm) transport_scheme \<Rightarrow>
     'a \<Rightarrow> 't session \<Rightarrow> client_message \<Rightarrow> envelope_result option \<times> 't session \<times> 'a" where
  "handle_message_by handler C N A s message =
     (if cm_sequence message \<noteq> ss_next_client_sequence s
      then (let (r, s) = encrypted_error C N s EC_SequenceMismatch True in (r, s, A))
      else case checked_succ (ss_next_client_sequence s) of
        None \<Rightarrow> (None, s, A)
      | Some next \<Rightarrow>
          let s1 = s\<lparr>ss_next_client_sequence := next\<rparr> in
          (case checked_succ (ss_message_count s1) of
             None \<Rightarrow> (None, s1, A)
           | Some count \<Rightarrow>
               let s2 = s1\<lparr>ss_message_count := count\<rparr> in
               if unat count > MAX_SESSION_MESSAGES
               then (let (r, s) = encrypted_error C N s2 EC_RateLimited True in (r, s, A))
               else
                 let (result, s3, A1) = handler s2 (cm_request message) A;
                     (r, s4) = encrypted_response C N s3 (ar_response result) (ar_close_session result) in
                 (r, s4, A1)))"

definition handle_message ::
  "cbor \<Rightarrow> crypto \<Rightarrow> ('t, 'm) transport_scheme \<Rightarrow> env \<Rightarrow> application \<Rightarrow> 't session \<Rightarrow> client_message \<Rightarrow>
     envelope_result option \<times> 't session \<times> application" where
  "handle_message C X N E = handle_message_by (\<lambda>s request A. dispatch C X E A s request) C N"

definition process_envelope_by ::
  "('t session \<Rightarrow> request \<Rightarrow> 'a \<Rightarrow> application_result \<times> 't session \<times> 'a) \<Rightarrow> cbor \<Rightarrow> ('t, 'm) transport_scheme \<Rightarrow>
     bytes \<Rightarrow> 'a \<Rightarrow> 't session \<Rightarrow> bytes \<Rightarrow> envelope_result option \<times> 't session \<times> 'a" where
  "process_envelope_by handler C N peer_ip A s ciphertext_records =
     (if ss_peer_ip s \<noteq> peer_ip then (None, s, A)
      else
        let (clear, t) = decrypt_transport_records N (ss_transport s) ciphertext_records;
            s1 = s\<lparr>ss_transport := t\<rparr> in
        case clear of
          Inl _ \<Rightarrow> (None, s1, A)
        | Inr bytes \<Rightarrow>
            (case decode_client_message C bytes of
               Inl _ \<Rightarrow> (None, s1, A)
             | Inr message \<Rightarrow> handle_message_by handler C N A s1 message))"

definition process_envelope ::
  "cbor \<Rightarrow> crypto \<Rightarrow> ('t, 'm) transport_scheme \<Rightarrow> env \<Rightarrow> bytes \<Rightarrow> application \<Rightarrow> 't session \<Rightarrow> bytes \<Rightarrow>
     envelope_result option \<times> 't session \<times> application" where
  "process_envelope C X N E = process_envelope_by (\<lambda>s request A. dispatch C X E A s request) C N"

lemma process_envelope_eq:
  "process_envelope C X N E peer_ip A s ciphertext_records =
     (if ss_peer_ip s \<noteq> peer_ip then (None, s, A)
      else
        let (clear, t) = decrypt_transport_records N (ss_transport s) ciphertext_records;
            s1 = s\<lparr>ss_transport := t\<rparr> in
        case clear of
          Inl _ \<Rightarrow> (None, s1, A)
        | Inr bytes \<Rightarrow>
            (case decode_client_message C bytes of
               Inl _ \<Rightarrow> (None, s1, A)
             | Inr message \<Rightarrow> handle_message C X N E A s1 message))"
  unfolding process_envelope_def process_envelope_by_def handle_message_def by (rule refl)

text \<open>
  The session and the request when the handler is called: what a request has done by the time it waits for its
  storage job. A request that is dropped there has changed nothing else.
\<close>

definition waiting_request ::
  "cbor \<Rightarrow> ('t, 'm) transport_scheme \<Rightarrow> bytes \<Rightarrow> 't session \<Rightarrow> bytes \<Rightarrow> ('t session \<times> request) option" where
  "waiting_request C N peer_ip s ciphertext_records =
     snd (snd (process_envelope_by
       (\<lambda>s request _. (\<lparr>ar_response = Pong, ar_close_session = False\<rparr>, s, Some (s, request)))
       C N peer_ip None s ciphertext_records))"

lemma waiting_request_Some:
  assumes "waiting_request C N ip s recs = Some (s', r)"
  shows "ss_peer_ip s' = ss_peer_ip s \<and>
    (\<exists>bytes m. decode_client_message C bytes = Inr m \<and> r = cm_request m)"
  using assms
  by (auto simp: waiting_request_def process_envelope_by_def handle_message_by_def Let_def
      split: if_splits prod.splits sum.splits option.splits)

section \<open>HTTP handlers\<close>

record http_response =
  ht_status :: nat
  ht_headers :: "(string \<times> string) list"
  ht_body :: bytes

definition binary_response :: "nat \<Rightarrow> string \<Rightarrow> bytes \<Rightarrow> http_response" where
  "binary_response status content_type body =
     \<lparr>ht_status = status, ht_headers = [(''content-type'', content_type), (''cache-control'', ''no-store''),
        (''x-content-type-options'', ''nosniff'')], ht_body = body\<rparr>"

definition empty_response :: "nat \<Rightarrow> http_response" where
  "empty_response status = binary_response status ''application/octet-stream'' []"

definition http_bootstrap :: "string option \<Rightarrow> 't server \<Rightarrow> http_response" where
  "http_bootstrap query S =
     (if query \<noteq> None then empty_response 400
      else binary_response 200 ''application/cbor'' (sv_bootstrap S))"

definition http_handshake ::
  "cbor \<Rightarrow> ('h, 't) snow \<Rightarrow> nat \<Rightarrow> handshake_random \<Rightarrow> bytes \<Rightarrow> string option \<Rightarrow> bytes \<Rightarrow> 't server \<Rightarrow>
     http_response \<times> 't server" where
  "http_handshake C N now R peer_ip query body S =
     (if query \<noteq> None \<or> body = [] \<or> length body > MAX_HANDSHAKE_BYTES then (empty_response 400, S)
      else case handshake C N now R peer_ip body S of
        (Inr response, S1) \<Rightarrow> (binary_response 200 ''application/octet-stream'' response, S1)
      | (Inl HF_RateLimited, S1) \<Rightarrow> (empty_response 429, S1)
      | (Inl _, S1) \<Rightarrow> (empty_response 400, S1))"

text \<open>
  An envelope request up to the lock. What is kept for later is the caller's address, the guard, the
  reference to the session and the ciphertext.
\<close>

record pending =
  pe_peer_ip :: bytes
  pe_guard :: cancellation_guard
  pe_session :: nat
  pe_ciphertext :: bytes

definition envelope_lookup ::
  "nat \<Rightarrow> bytes \<Rightarrow> string option \<Rightarrow> bytes \<Rightarrow> 't server \<Rightarrow> (http_response + pending) \<times> 't server" where
  "envelope_lookup now peer_ip query body S =
     (if query \<noteq> None then (Inl (empty_response 400), S)
      else case decode_transport_frame body of
        Inl _ \<Rightarrow> (Inl (empty_response 400), S)
      | Inr frame \<Rightarrow>
          let (found, store) = get_session now (tf_session_handle frame) (sv_sessions S);
              S1 = S\<lparr>sv_sessions := store\<rparr> in
          (case found of
             None \<Rightarrow> (Inl (empty_response 400), S1)
           | Some ref \<Rightarrow>
               (Inr \<lparr>pe_peer_ip = peer_ip, pe_guard = new_guard (tf_session_handle frame),
                     pe_session = ref, pe_ciphertext = tf_ciphertext frame\<rparr>, S1)))"

text \<open>From the lock to the response.\<close>

definition envelope_process ::
  "cbor \<Rightarrow> crypto \<Rightarrow> ('t, 'm) transport_scheme \<Rightarrow> env \<Rightarrow> pending \<Rightarrow> 't server \<Rightarrow> http_response \<times> 't server" where
  "envelope_process C X N E p S =
     (let store = sv_sessions S; handle = cg_handle (pe_guard p);
          (r, s, A) = process_envelope C X N E (pe_peer_ip p) (sv_application S)
                        (sr_objects store ! pe_session p) (pe_ciphertext p);
          store1 = store\<lparr>sr_objects := (sr_objects store)[pe_session p := s]\<rparr>;
          finish = (\<lambda>store. S\<lparr>sv_application := A, sv_sessions := store\<rparr>) in
      case r of
        None \<Rightarrow> (empty_response 400, finish (drop_guard (pe_guard p) store1))
      | Some result \<Rightarrow>
          let store2 = (if er_close_session result then remove_session handle store1 else store1) in
          (case encode_transport_frame handle (er_ciphertext_records result) of
             Inl _ \<Rightarrow> (empty_response 500,
               finish (drop_guard (disarm (pe_guard p)) (remove_session handle store2)))
           | Inr encoded \<Rightarrow> (binary_response 200 ''application/octet-stream'' encoded,
               finish (drop_guard (disarm (pe_guard p)) store2))))"

text \<open>A request that is cancelled or times out before it gets the lock only drops its guard.\<close>

definition envelope_cancel :: "pending \<Rightarrow> 't server \<Rightarrow> 't server" where
  "envelope_cancel p S = S\<lparr>sv_sessions := drop_guard (pe_guard p) (sv_sessions S)\<rparr>"

text \<open>
  A request that is cancelled or times out while its handler waits for a storage job drops the lock and the guard.
  The job, which runs on a thread of its own, is left behind.
\<close>

definition envelope_abandon ::
  "cbor \<Rightarrow> ('t, 'm) transport_scheme \<Rightarrow> pending \<Rightarrow> 't server \<Rightarrow> (('t session \<times> request) \<times> 't server) option" where
  "envelope_abandon C N p S =
     (let store = sv_sessions S in
      case waiting_request C N (pe_peer_ip p) (sr_objects store ! pe_session p) (pe_ciphertext p) of
        None \<Rightarrow> None
      | Some (s, request) \<Rightarrow>
          Some ((s, request), envelope_cancel p
            (S\<lparr>sv_sessions := store\<lparr>sr_objects := (sr_objects store)[pe_session p := s]\<rparr>\<rparr>)))"

end
