(* ===== verification/Server_Sequence.thy ===== *)
theory Server_Sequence
  imports Server_State Application_Correct
begin

text \<open>
  What a session guarantees about the order and number of the requests it serves, and what
  closing it does not stop: a request that already holds the session.
\<close>

section \<open>The two counters\<close>

definition seq_inv :: "('t, 'm) session_scheme \<Rightarrow> bool" where
  "seq_inv s \<longleftrightarrow> ss_message_count s = ss_next_client_sequence s"

lemma encrypted_response_session:
  assumes "encrypted_response C N s r close = (res, s')"
  shows "ss_next_client_sequence s' = ss_next_client_sequence s \<and> ss_message_count s' = ss_message_count s \<and>
    ss_phase s' = ss_phase s \<and> ss_peer_ip s' = ss_peer_ip s \<and>
    ss_authentication_context s' = ss_authentication_context s \<and>
    (\<forall>e. res = Some e \<longrightarrow> er_close_session e = close)"
  using assms
  by (auto simp: encrypted_response_def Let_def split: option.splits sum.splits prod.splits)

lemma authenticate_session:
  "authenticate X E A s p d g = (res, s', A') \<Longrightarrow> s' = s\<lparr>ss_phase := ss_phase s'\<rparr>"
  by (auto simp: authenticate_def split: if_splits option.splits sum.splits)

lemma register_session:
  "app_register_device X E A s i k n g = (res, s', A') \<Longrightarrow> s' = s\<lparr>ss_phase := ss_phase s'\<rparr>"
  by (auto simp: app_register_device_def split: if_splits sum.splits prod.splits)

lemma dispatch_session:
  assumes "dispatch C X E A s r = (res, s', A')"
  shows "s' = s\<lparr>ss_phase := ss_phase s'\<rparr>"
proof (cases "s' = s")
  case False
  from dispatch_session_kept [OF assms False] assms authenticate_session register_session show ?thesis
    by fastforce
qed simp

lemma dispatch_session_fields:
  assumes "dispatch C X E A s r = (res, s', A')"
  shows "ss_next_client_sequence s' = ss_next_client_sequence s" "ss_message_count s' = ss_message_count s"
    "ss_peer_ip s' = ss_peer_ip s" "ss_authentication_context s' = ss_authentication_context s"
  using dispatch_session [OF assms] by (metis session.select_convs session.update_convs(4) session.surjective)+

lemma small_not_max: "unat (n :: u64) \<le> MAX_SESSION_MESSAGES \<Longrightarrow> n \<noteq> - 1"
  by (auto simp: MAX_SESSION_MESSAGES_def unsigned_minus_1_eq_mask mask_eq_exp_minus_1)

lemma authenticate_key:
  "authenticate X E A s p d g = (res, s', A') \<Longrightarrow> ap_authentication_key A' = ap_authentication_key A"
  by (auto simp: authenticate_def note_failure_def note_success_def split: if_splits option.splits sum.splits)

text \<open>When a message reaches its handler.\<close>

definition dispatched :: "'t session \<Rightarrow> client_message \<Rightarrow> bool" where
  "dispatched s m \<longleftrightarrow> cm_sequence m = ss_next_client_sequence s \<and> ss_next_client_sequence s \<noteq> - 1 \<and>
     ss_message_count s \<noteq> - 1 \<and> unat (ss_message_count s + 1) \<le> MAX_SESSION_MESSAGES"

lemma handle_message_cases:
  assumes run: "handle_message C X N E A s m = (r, s', A')"
  obtains (mismatch) "cm_sequence m \<noteq> ss_next_client_sequence s" "A' = A"
      "ss_next_client_sequence s' = ss_next_client_sequence s" "ss_message_count s' = ss_message_count s"
      "ss_phase s' = ss_phase s" "ss_peer_ip s' = ss_peer_ip s" "\<forall>e. r = Some e \<longrightarrow> er_close_session e"
  | (exhausted) "cm_sequence m = ss_next_client_sequence s" "\<not> dispatched s m" "A' = A"
      "ss_phase s' = ss_phase s" "ss_peer_ip s' = ss_peer_ip s" "\<forall>e. r = Some e \<longrightarrow> er_close_session e"
      "seq_inv s \<longrightarrow> seq_inv s'" "ss_next_client_sequence s \<le> ss_next_client_sequence s'"
      "ss_next_client_sequence s' = ss_next_client_sequence s \<longrightarrow> ss_next_client_sequence s = - 1"
  | (handled) res s3 where "dispatched s m"
      "dispatch C X E A (s\<lparr>ss_next_client_sequence := ss_next_client_sequence s + 1,
         ss_message_count := ss_message_count s + 1\<rparr>) (cm_request m) = (res, s3, A')"
      "ss_next_client_sequence s' = ss_next_client_sequence s + 1"
      "ss_message_count s' = ss_message_count s + 1" "ss_phase s' = ss_phase s3"
      "ss_peer_ip s' = ss_peer_ip s" "\<forall>e. r = Some e \<longrightarrow> er_close_session e = ar_close_session res"
      "ss_authentication_context s' = ss_authentication_context s"
proof (cases "cm_sequence m = ss_next_client_sequence s")
  case False
  obtain q t where e: "encrypted_response C N s (Error EC_SequenceMismatch) True = (q, t)" by fastforce
  then have "r = q \<and> s' = t \<and> A' = A"
    using run False by (simp add: handle_message_def handle_message_by_def encrypted_error_def)
  with encrypted_response_session [OF e] False show thesis by (intro mismatch) simp_all
next
  case True
  let ?s1 = "s\<lparr>ss_next_client_sequence := ss_next_client_sequence s + 1\<rparr>"
  let ?s2 = "?s1\<lparr>ss_message_count := ss_message_count s + 1\<rparr>"
  show thesis
  proof (cases "ss_next_client_sequence s = - 1")
    case top: True
    then have "r = None \<and> s' = s \<and> A' = A" using run True by (simp add: handle_message_def handle_message_by_def checked_succ_def)
    with True top show thesis by (intro exhausted) (simp_all add: dispatched_def)
  next
    case not_top: False
    have less: "ss_next_client_sequence s \<le> ss_next_client_sequence s + 1"
      "ss_next_client_sequence s + 1 \<noteq> ss_next_client_sequence s"
      using unat_succ [OF not_top] by (auto simp: word_le_nat_alt)
    show thesis
    proof (cases "ss_message_count s = - 1")
      case top: True
      then have eq: "r = None \<and> s' = ?s1 \<and> A' = A"
        using run True not_top by (simp add: handle_message_def handle_message_by_def checked_succ_def Let_def)
      have "seq_inv s \<longrightarrow> seq_inv s'" using top not_top by (auto simp: seq_inv_def)
      with True top not_top less eq show thesis by (intro exhausted) (simp_all add: dispatched_def)
    next
      case count: False
      show thesis
      proof (cases "unat (ss_message_count s + 1) > MAX_SESSION_MESSAGES")
        case big: True
        obtain q t where e: "encrypted_response C N ?s2 (Error EC_RateLimited) True = (q, t)" by fastforce
        then have "r = q \<and> s' = t \<and> A' = A"
          using run True not_top count big
          by (simp add: handle_message_def handle_message_by_def encrypted_error_def checked_succ_def Let_def)
        with encrypted_response_session [OF e] True big not_top less show thesis
          by (intro exhausted) (simp_all add: dispatched_def seq_inv_def)
      next
        case small: False
        obtain res s3 A1 where d: "dispatch C X E A ?s2 (cm_request m) = (res, s3, A1)" by (metis prod_cases3)
        obtain q t where e: "encrypted_response C N s3 (ar_response res) (ar_close_session res) = (q, t)"
          by fastforce
        have eq: "r = q \<and> s' = t \<and> A' = A1"
          using run True not_top count small d e
          by (simp add: handle_message_def handle_message_by_def checked_succ_def Let_def)
        show thesis
          by (rule handled [of res s3])
            (use eq encrypted_response_session [OF e] dispatch_session_fields [OF d] True not_top count small d
              in \<open>simp_all add: dispatched_def\<close>)
      qed
    qed
  qed
qed

section \<open>Served once, in order, at most ten thousand\<close>

text \<open>
  The same run with a handler that counts its calls, and the sequence numbers of the messages of a list, each as
  often as it made the handler run.
\<close>

definition observed ::
  "cbor \<Rightarrow> crypto \<Rightarrow> ('t, 'm) transport_scheme \<Rightarrow> env \<Rightarrow> application \<Rightarrow> 't session \<Rightarrow> client_message \<Rightarrow>
     envelope_result option \<times> 't session \<times> application \<times> nat" where
  "observed C X N E A s = handle_message_by
     (\<lambda>s request (A, n). let (res, s', A') = dispatch C X E A s request in (res, s', A', Suc n)) C N (A, 0) s"

fun served_numbers ::
  "cbor \<Rightarrow> crypto \<Rightarrow> ('t, 'm) transport_scheme \<Rightarrow> (env \<times> application \<times> client_message) list \<Rightarrow> 't session \<Rightarrow>
     u64 list" where
  "served_numbers C X N [] s = []"
| "served_numbers C X N ((E, A, m) # ms) s =
     (let (_, s', _, n) = observed C X N E A s m in replicate n (cm_sequence m) @ served_numbers C X N ms s')"

lemma observed_run:
  assumes "handle_message C X N E A s m = (r, s', A')"
  shows "observed C X N E A s m = (r, s', A', if dispatched s m then 1 else 0)"
  using assms
  by (auto simp: observed_def handle_message_def handle_message_by_def dispatched_def checked_succ_def Let_def
      split: if_splits prod.splits)

lemma served_upt:
  "seq_inv s \<Longrightarrow> \<exists>k. map unat (served_numbers C X N ms s) =
     [unat (ss_next_client_sequence s)..<unat (ss_next_client_sequence s) + k] \<and>
     (k = 0 \<or> unat (ss_next_client_sequence s) + k \<le> MAX_SESSION_MESSAGES)"
proof (induction ms arbitrary: s)
  case (Cons x ms)
  obtain E A m where x: "x = (E, A, m)" by (metis prod_cases3)
  obtain r s' A' where run: "handle_message C X N E A s m = (r, s', A')" by (metis prod_cases3)
  note obs = observed_run [OF run]
  from run show ?case
  proof (cases rule: handle_message_cases)
    case mismatch
    with Cons.prems have "seq_inv s'" by (simp add: seq_inv_def)
    with Cons.IH [OF this] mismatch x obs show ?thesis by (simp add: dispatched_def)
  next
    case exhausted
    with Cons.prems have inv: "seq_inv s'" by blast
    have big: "MAX_SESSION_MESSAGES < unat (ss_next_client_sequence s) + 1"
      if "ss_next_client_sequence s \<noteq> - 1"
      using exhausted(1,2) Cons.prems that by (auto simp: dispatched_def seq_inv_def unat_succ)
    have big': "MAX_SESSION_MESSAGES < unat (ss_next_client_sequence s') + 1"
    proof (cases "ss_next_client_sequence s = - 1")
      case True
      with exhausted(8) have "ss_next_client_sequence s' = - 1" by (simp add: word_order.extremum_unique)
      then show ?thesis by (simp add: MAX_SESSION_MESSAGES_def unsigned_minus_1_eq_mask mask_eq_exp_minus_1)
    next
      case False
      with big exhausted(8) show ?thesis by (simp add: word_le_nat_alt)
    qed
    from Cons.IH [OF inv] big' have "map unat (served_numbers C X N ms s') = []" by auto
    with exhausted(2) x obs show ?thesis by (intro exI [of _ 0]) simp
  next
    case (handled res s3)
    with Cons.prems have inv: "seq_inv s'" by (simp add: seq_inv_def)
    have suc: "unat (ss_next_client_sequence s') = Suc (unat (ss_next_client_sequence s))"
      using handled(1,3) by (simp add: dispatched_def unat_succ)
    have le: "Suc (unat (ss_next_client_sequence s)) \<le> MAX_SESSION_MESSAGES"
      using handled(1) Cons.prems unat_succ [of "ss_next_client_sequence s"]
      by (simp add: dispatched_def seq_inv_def)
    from Cons.IH [OF inv] obtain k where
      k: "map unat (served_numbers C X N ms s') = [unat (ss_next_client_sequence s')..<unat (ss_next_client_sequence s') + k]"
        "k = 0 \<or> unat (ss_next_client_sequence s') + k \<le> MAX_SESSION_MESSAGES" by blast
    have "map unat (served_numbers C X N (x # ms) s) = unat (ss_next_client_sequence s) # map unat (served_numbers C X N ms s')"
      using x obs handled(1) by simp (simp add: dispatched_def)
    with k suc le show ?thesis by (intro exI [of _ "Suc k"]) (auto simp: upt_conv_Cons)
  qed
qed (intro exI [of _ 0], simp)

text \<open>
  C11. A session serves each request number once and in order: whatever messages arrive, in whatever
  order and with whatever repetitions, and whatever the application is when they arrive, the messages for which the
  dispatcher runs in a fresh session carry the numbers 0, 1, 2, ... without gap or repetition, and it runs at
  most ten thousand times.
\<close>

theorem served_once_in_order:
  assumes "ss_next_client_sequence s = 0" and "ss_message_count s = 0"
  shows "map unat (served_numbers C X N ms s) = [0..<length (served_numbers C X N ms s)] \<and>
    length (served_numbers C X N ms s) \<le> MAX_SESSION_MESSAGES"
proof -
  have "seq_inv s" using assms by (simp add: seq_inv_def)
  from served_upt [OF this, of C X N ms] assms obtain k where
    k: "map unat (served_numbers C X N ms s) = [0..<k]" "k = 0 \<or> k \<le> MAX_SESSION_MESSAGES" by auto
  from k(1) have "length (served_numbers C X N ms s) = k" by (metis length_map length_upt diff_zero)
  with k show ?thesis by (auto simp: MAX_SESSION_MESSAGES_def)
qed

theorem served_once_in_order_witness:
  "let ping = (sample_env, empty_application, \<lparr>cm_sequence = 0, cm_request = Ping\<rparr>);
       served = served_numbers rfc_cbor plain_crypto counting_transport [ping, ping] new_session in
   served \<noteq> [] \<and> map unat served = [0..<length served] \<and> length served \<le> MAX_SESSION_MESSAGES"
proof -
  let ?ping = "(sample_env, empty_application, \<lparr>cm_sequence = 0, cm_request = Ping\<rparr>)"
  have "ss_next_client_sequence new_session = 0" "ss_message_count new_session = 0"
    by (simp_all add: new_session_def)
  note served_once_in_order [OF this, of rfc_cbor plain_crypto counting_transport "[?ping, ?ping]"]
  moreover have "served_numbers rfc_cbor plain_crypto counting_transport [?ping, ?ping] new_session \<noteq> []"
  proof -
    obtain r s' A' where "handle_message rfc_cbor plain_crypto counting_transport sample_env empty_application new_session
        \<lparr>cm_sequence = 0, cm_request = Ping\<rparr> = (r, s', A')" by (metis prod_cases3)
    from observed_run [OF this] show ?thesis by (simp add: dispatched_def new_session_def MAX_SESSION_MESSAGES_def)
  qed
  ultimately show ?thesis by (simp only: Let_def simp_thms)
qed

section \<open>What closing a session does not stop\<close>

text \<open>
  Closing a session only removes it from the table. A request that looked the session up before
  is processed all the same: its response, and what it does to the application and to the
  session object, do not depend on the table.
\<close>

theorem waiting_request_ignores_table:
  "fst (envelope_process C X N E p (S\<lparr>sv_sessions := (sv_sessions S)\<lparr>sr_sessions := T\<rparr>\<rparr>)) =
     fst (envelope_process C X N E p S) \<and>
   sv_application (snd (envelope_process C X N E p (S\<lparr>sv_sessions := (sv_sessions S)\<lparr>sr_sessions := T\<rparr>\<rparr>))) =
     sv_application (snd (envelope_process C X N E p S)) \<and>
   sr_objects (sv_sessions (snd (envelope_process C X N E p (S\<lparr>sv_sessions := (sv_sessions S)\<lparr>sr_sessions := T\<rparr>\<rparr>)))) =
     sr_objects (sv_sessions (snd (envelope_process C X N E p S)))"
  by (auto simp: envelope_process_def Let_def drop_guard_def remove_session_def disarm_def
      split: prod.split option.split sum.split)

lemma handled_message:
  assumes "handle_message C X N E A s m = (r, s', A')" and "dispatched s m"
  shows "\<exists>res s3. dispatch C X E A (s\<lparr>ss_next_client_sequence := ss_next_client_sequence s + 1,
       ss_message_count := ss_message_count s + 1\<rparr>) (cm_request m) = (res, s3, A') \<and>
    ss_next_client_sequence s' = ss_next_client_sequence s + 1 \<and>
    ss_message_count s' = ss_message_count s + 1 \<and> ss_phase s' = ss_phase s3 \<and>
    ss_authentication_context s' = ss_authentication_context s \<and>
    (\<forall>e. r = Some e \<longrightarrow> er_close_session e = ar_close_session res)"
  using assms(1) by (cases rule: handle_message_cases) (use assms(2) in \<open>auto simp: dispatched_def\<close>)

text \<open>
  A request that waits for a session while an authentication attempt on it fails gets another
  attempt: the failure asks for the session to be closed, but the session object still awaits the
  password, and the next message, if it carries the right proof, is granted.
\<close>

theorem failed_session_reauthenticates:
  assumes "seq_inv s" "unat (ss_next_client_sequence s) + 2 \<le> MAX_SESSION_MESSAGES"
    and "ss_phase s = AwaitingPassword"
    and "handle_message C X N E A s \<lparr>cm_sequence = ss_next_client_sequence s,
           cm_request = Authenticate wrong None None\<rparr> = (r, s1, A1)"
    and "hmac_sha256 X (ap_authentication_key A) (ss_authentication_context s) \<noteq> wrong"
    and "handle_message C X N E' A' s1 \<lparr>cm_sequence = ss_next_client_sequence s + 1,
           cm_request = Authenticate right None None\<rparr> = (r', s2, A2)"
    and "hmac_sha256 X (ap_authentication_key A') (ss_authentication_context s) = right"
  shows "(\<forall>e. r = Some e \<longrightarrow> er_close_session e) \<and> ss_phase s2 = PasswordAuthenticated \<and>
    (\<forall>e. r' = Some e \<longrightarrow> \<not> er_close_session e)"
proof -
  let ?n = "ss_next_client_sequence s"
  have top: "?n \<noteq> - 1" "?n + 1 \<noteq> - 1" and next1: "unat (?n + 1) = Suc (unat ?n)"
  proof -
    show n: "?n \<noteq> - 1" by (rule small_not_max) (use assms(2) in simp)
    show s: "unat (?n + 1) = Suc (unat ?n)" by (rule unat_succ [OF n])
    show "?n + 1 \<noteq> - 1" by (rule small_not_max) (use assms(2) s in simp)
  qed
  have next2: "unat (?n + 1 + 1) = Suc (Suc (unat ?n))" using unat_succ [OF top(2)] next1 by simp
  have count: "ss_message_count s = ?n" using assms(1) by (simp add: seq_inv_def)
  have d1: "dispatched s \<lparr>cm_sequence = ?n, cm_request = Authenticate wrong None None\<rparr>"
    using assms(2) top next1 count by (simp add: dispatched_def)
  from handled_message [OF assms(4) d1] obtain res s3 where
    h1: "dispatch C X E A (s\<lparr>ss_next_client_sequence := ?n + 1, ss_message_count := ss_message_count s + 1\<rparr>)
      (Authenticate wrong None None) = (res, s3, A1)"
    "ss_next_client_sequence s1 = ?n + 1" "ss_message_count s1 = ss_message_count s + 1"
    "ss_phase s1 = ss_phase s3" "ss_authentication_context s1 = ss_authentication_context s"
    "\<forall>e. r = Some e \<longrightarrow> er_close_session e = ar_close_session res" by fastforce
  have failed: "res = app_error EC_AuthenticationFailed True \<and> ss_phase s3 = AwaitingPassword"
    using h1(1) assms(3,5) by (auto simp: authenticate_def verify_password_proof_def)
  have d2: "dispatched s1 \<lparr>cm_sequence = ?n + 1, cm_request = Authenticate right None None\<rparr>"
    using assms(2) top next2 count h1(2,3) by (simp add: dispatched_def)
  from handled_message [OF assms(6) d2] obtain res' s4 where
    h2: "dispatch C X E' A' (s1\<lparr>ss_next_client_sequence := ss_next_client_sequence s1 + 1,
        ss_message_count := ss_message_count s1 + 1\<rparr>) (Authenticate right None None) = (res', s4, A2)"
    "ss_phase s2 = ss_phase s4" "\<forall>e. r' = Some e \<longrightarrow> er_close_session e = ar_close_session res'" by fastforce
  have "ar_close_session res' = False \<and> ss_phase s4 = PasswordAuthenticated"
    using h2(1) failed h1(4,5) assms(7) by (auto simp: authenticate_def verify_password_proof_def success_def)
  with h1(6) h2 failed show ?thesis by (simp add: app_error_def)
qed

theorem failed_session_reauthenticates_witness:
  "\<exists>r s1 A1 r' s2 A2.
     handle_message rfc_cbor plain_crypto counting_transport sample_env empty_application new_session
       \<lparr>cm_sequence = 0, cm_request = Authenticate (pad 32 [9]) None None\<rparr> = (r, s1, A1) \<and>
     handle_message rfc_cbor plain_crypto counting_transport sample_env A1 s1
       \<lparr>cm_sequence = 1, cm_request = Authenticate (pad 32 [4]) None None\<rparr> = (r', s2, A2) \<and>
     ss_phase s2 = PasswordAuthenticated"
proof -
  obtain r s1 A1 where run1: "handle_message rfc_cbor plain_crypto counting_transport sample_env empty_application
      new_session \<lparr>cm_sequence = 0, cm_request = Authenticate (pad 32 [9]) None None\<rparr> = (r, s1, A1)"
    by (metis prod_cases3)
  obtain r' s2 A2 where run2: "handle_message rfc_cbor plain_crypto counting_transport sample_env A1
      s1 \<lparr>cm_sequence = 1, cm_request = Authenticate (pad 32 [4]) None None\<rparr> = (r', s2, A2)"
    by (metis prod_cases3)
  have key: "ap_authentication_key A1 = pad 32 [4]"
  proof -
    have "dispatched new_session \<lparr>cm_sequence = 0, cm_request = Authenticate (pad 32 [9]) None None\<rparr>"
      by (simp add: dispatched_def new_session_def MAX_SESSION_MESSAGES_def)
    from handled_message [OF run1 this] obtain res s3 where
      "authenticate plain_crypto sample_env empty_application (new_session\<lparr>ss_next_client_sequence := 1,
         ss_message_count := 1\<rparr>) (pad 32 [9]) None None = (res, s3, A1)"
      by (fastforce simp: new_session_def)
    from authenticate_key [OF this] show ?thesis by (simp add: empty_application_def)
  qed
  have n: "ss_next_client_sequence new_session = 0" "ss_phase new_session = AwaitingPassword" "seq_inv new_session"
    "ss_authentication_context new_session = pad 32 [5]"
    by (simp_all add: new_session_def seq_inv_def)
  have "hmac_sha256 plain_crypto (ap_authentication_key empty_application) (ss_authentication_context new_session) \<noteq> pad 32 [9]"
    by (simp add: plain_crypto_def pad_def empty_application_def)
  moreover have "hmac_sha256 plain_crypto (ap_authentication_key A1) (ss_authentication_context new_session) = pad 32 [4]"
    by (simp add: plain_crypto_def pad_def key)
  ultimately have "ss_phase s2 = PasswordAuthenticated"
    using failed_session_reauthenticates [OF n(3) _ n(2), of rfc_cbor plain_crypto counting_transport sample_env
        empty_application "pad 32 [9]" r s1 A1 sample_env A1 "pad 32 [4]" r' s2 A2] run1 run2 n(1)
    by (simp add: MAX_SESSION_MESSAGES_def)
  with run1 run2 show ?thesis by blast
qed

end
