(* ===== verification/Service_Responses.thy ===== *)
theory Service_Responses
  imports Service_Invariant
begin

text \<open>
  Every response of the service except a device list is within the limits of the protocol, so
  that the client's decoder accepts it, and short enough for one record stream.
\<close>

section \<open>Results of the storage operations\<close>

lemma begin_upload_response:
  "begin_upload f u now d n h st = (Inr (i, off), st') \<Longrightarrow> is_array 16 u \<Longrightarrow> is_array 16 i"
  by (auto simp: begin_upload_def Let_def split: if_splits sum.splits option.splits)

lemma load_upload_hash: "load_upload st u d = Inr rec \<Longrightarrow> is_array 32 (ur_expected_hash rec)"
  by (auto simp: load_upload_def split: option.splits if_splits)

lemma record_blob_response: "record_blob now rec st = (Inr h, st') \<Longrightarrow> h = ur_expected_hash rec"
  by (auto simp: record_blob_def Let_def split: sum.splits)

lemma commit_upload_response:
  "commit_upload X now d u st = (Inr h, st') \<Longrightarrow> is_array 32 h"
  by (auto simp: commit_upload_def commit_locked_def split: sum.splits if_splits prod.splits
      dest!: record_blob_response load_upload_hash)

lemma read_blob_response:
  "read_blob_chunk st b off n = Inr (total_size, complete, chunk) \<Longrightarrow> length chunk \<le> MAX_CHUNK_BYTES"
  by (auto simp: read_blob_chunk_def Let_def split: if_splits option.splits)

lemma take_heads_bound:
  "take_heads n hs = Inr hs' \<Longrightarrow> n \<le> MAX_HEADS \<Longrightarrow>
     (\<forall>h \<in> set hs'. is_array 32 h) \<and> n + length hs' \<le> MAX_HEADS"
proof (induction n hs arbitrary: hs' rule: take_heads.induct)
  case (2 n h hs)
  then obtain rest where "take_heads (n + 1) hs = Inr rest" "hs' = h # rest" "is_array 32 h" "n < MAX_HEADS"
    by (auto simp: rmap_Inr_iff split: if_splits)
  with 2(1) [of rest] show ?case by simp
qed simp

lemma load_heads_response:
  "load_heads st v = Inr hs \<Longrightarrow> (\<forall>h \<in> set hs. is_array 32 h) \<and> length hs \<le> MAX_HEADS"
  using take_heads_bound [of 0 _ hs] by (simp add: load_heads_def)

lemma accept_commit_response:
  assumes "accept_commit now d commit rec st = (Inr (c, hs), st')" and "submittable commit"
  shows "is_array 32 c \<and> (\<forall>h \<in> set hs. is_array 32 h) \<and> length hs \<le> MAX_HEADS"
proof -
  have tr: "accept_transaction now d commit rec st = (Inr (c, hs), st')"
    using assms(1) by (auto simp: accept_commit_def split: sum.splits if_splits)
  have "c = sc_commit_id commit \<and> (\<exists>s. load_heads s (st_vault_id st) = Inr hs)"
  proof (cases "find (\<lambda>r. co_commit_id r = sc_commit_id commit) (st_commits st)")
    case None
    show ?thesis by (rule accept_transaction_new [OF tr None]) auto
  next
    case (Some row)
    from accept_transaction_known [OF tr Some] show ?thesis by auto
  qed
  with assms(2) load_heads_response show ?thesis by (auto simp: submittable_def)
qed

lemma get_commit_response:
  "rows_ok st \<Longrightarrow> get_commit st i = Inr r \<Longrightarrow> length r \<le> MAX_SIGNED_COMMIT_BYTES"
  by (auto simp: get_commit_def ok_or_Inr_iff commit_row_of_def rows_ok_def dest!: find_Some_iff_mem)

lemma collect_changes_bound:
  "collect_changes known n cs rows = Inr (cs', has_more) \<Longrightarrow> length cs \<le> n \<Longrightarrow>
     length cs' \<le> n \<and> set cs' \<subseteq> set cs \<union> co_signed_record ` set rows"
proof (induction known n cs rows rule: collect_changes.induct)
  case (2 known n cs r rs)
  then show ?case by (auto split: if_splits)
qed auto

lemma changes_response:
  assumes "changes st known n = Inr (cs, has_more)" and "rows_ok st"
  shows "(\<forall>c \<in> set cs. length c \<le> MAX_SIGNED_COMMIT_BYTES) \<and> length cs \<le> MAX_CHANGES_PER_RESPONSE"
proof -
  let ?rows = "sort_key (\<lambda>r. (co_generation r, co_commit_id r))
    (filter (\<lambda>r. co_vault_id r = st_vault_id st) (st_commits st))"
  have n: "unat n \<le> MAX_CHANGES_PER_RESPONSE" and
    c: "collect_changes (set known) (unat n) [] ?rows = Inr (cs, has_more)"
    using assms(1) by (auto simp: changes_def split: if_splits)
  from collect_changes_bound [OF c] have "length cs \<le> unat n" "set cs \<subseteq> co_signed_record ` set (st_commits st)"
    by auto
  with n assms(2) show ?thesis by (auto simp: rows_ok_def)
qed

section \<open>Every response is allowed\<close>

lemma from_storage_wf:
  "(\<And>a. x = Inr a \<Longrightarrow> wf_response (f a)) \<Longrightarrow> wf_response (ar_response (from_storage (rmap f x)))"
  by (cases x) (simp_all add: from_storage_def success_def app_storage_error_def)

lemma app_error_wf [simp]: "wf_response (ar_response (app_error code close))"
  by (simp add: app_error_def)

lemma app_storage_error_wf [simp]: "wf_response (ar_response (app_storage_error e))"
  by (simp add: app_storage_error_def)

lemma with_device_wf:
  assumes "with_device A s f = (res, A')" and "\<And>d. f d = (res, A') \<Longrightarrow> wf_response (ar_response res)"
  shows "wf_response (ar_response res)"
proof (cases "require_device A s")
  case (Inl e)
  with require_device_Inl [OF Inl] assms(1) show ?thesis by (auto simp: with_device_def)
qed (use assms in \<open>simp add: with_device_def\<close>)

lemma run_storage_wf:
  assumes "run_storage f x A = (res, A')" and "\<And>a st'. x = (Inr a, st') \<Longrightarrow> wf_response (f a)"
  shows "wf_response (ar_response res)"
proof -
  obtain q st' where x: "x = (q, st')" by fastforce
  with assms show ?thesis using from_storage_wf [of q f] by (auto simp: run_storage_def)
qed

lemma put_commit_wf:
  assumes "app_put_commit C X E A s record = (res, A')"
  shows "wf_response (ar_response res)"
  using assms unfolding app_put_commit_def
proof (rule with_device_wf)
  fix d
  assume r: "(case decode_signed_commit C X record of
       Inl _ \<Rightarrow> (app_error EC_IntegrityFailure False, A)
     | Inr commit \<Rightarrow>
         (case require_active_device (ap_storage A) d of
            Inl e \<Rightarrow> (app_storage_error e, A)
          | Inr device \<Rightarrow>
              (case verify_signed_commit X commit (sd_public_key device) of
                 Inl _ \<Rightarrow> (app_error EC_InvalidSignature False, A)
               | Inr _ \<Rightarrow>
                   run_storage (\<lambda>(commit_id, hs). CommitStored commit_id hs)
                     (accept_commit (en_clock E) d commit record (ap_storage A)) A))) = (res, A')"
  show "wf_response (ar_response res)"
  proof (cases "decode_signed_commit C X record")
    case (Inr c)
    have sub: "submittable c" using decode_signed_commit_submittable [OF Inr] by blast
    have "wf_response (ar_response res)"
      if "run_storage (\<lambda>(commit_id, hs). CommitStored commit_id hs)
        (accept_commit (en_clock E) d c record (ap_storage A)) A = (res, A')"
      using that by (rule run_storage_wf) (use accept_commit_response sub in fastforce)
    with r Inr show ?thesis by (auto split: sum.splits)
  qed (use r in auto)
qed

lemma responses_wf:
  assumes inv: "service_inv X (ap_storage A)" and wf: "wf_request r" and u: "is_array 16 (en_upload_id E)"
    and run: "dispatch C X E A s r = (res, s', A')" and no_list: "r \<noteq> ListDevices"
  shows "wf_response (ar_response res)"
proof -
  note rows = service_invD(4) [OF inv]
  have v: "is_array 16 (st_vault_id (ap_storage A))" using rows by (simp add: rows_ok_def)
  show ?thesis
  proof (cases r)
    case (Authenticate p d g)
    with run v show ?thesis
      by (auto simp: authenticate_def success_def split: if_splits option.splits sum.splits)
  next
    case (RegisterDevice i k n g)
    with run show ?thesis
      by (auto simp: app_register_device_def success_def split: if_splits sum.splits prod.splits)
  next
    case (RevokeDevice i)
    with run have "app_revoke_device E A s i = (res, A')" by (simp add: keep_session)
    then show ?thesis unfolding app_revoke_device_def
      by (rule with_device_wf) (auto split: sum.splits prod.splits)
  next
    case (BeginUpload n h)
    with run have "app_begin_upload E A s n h = (res, A')" by (simp add: keep_session)
    then show ?thesis unfolding app_begin_upload_def
      by (rule with_device_wf, elim run_storage_wf) (use begin_upload_response u in fastforce)
  next
    case (UploadChunk i off c)
    with run have "app_upload_chunk A s i off c = (res, A')" by (simp add: keep_session)
    then show ?thesis unfolding app_upload_chunk_def
      by (rule with_device_wf, elim run_storage_wf) simp
  next
    case (CommitUpload i)
    with run have "app_commit_upload X E A s i = (res, A')" by (simp add: keep_session)
    then show ?thesis unfolding app_commit_upload_def
      by (rule with_device_wf, elim run_storage_wf) (use commit_upload_response in fastforce)
  next
    case (GetBlob b off n)
    with run have "app_get_blob A s b off n = (res, A')" by (simp add: keep_session)
    then show ?thesis unfolding app_get_blob_def
      by (rule with_device_wf) (auto intro!: from_storage_wf dest: read_blob_response)
  next
    case (PutCommit rec)
    with run put_commit_wf show ?thesis by (auto simp: keep_session)
  next
    case (GetCommit i)
    with run have "app_get_commit A s i = (res, A')" by (simp add: keep_session)
    then show ?thesis unfolding app_get_commit_def
      by (rule with_device_wf) (use get_commit_response [OF rows] in \<open>auto intro!: from_storage_wf\<close>)
  next
    case GetHeads
    with run have "app_get_heads A s = (res, A')" by (simp add: keep_session)
    then show ?thesis unfolding app_get_heads_def
      by (rule with_device_wf)
        (use load_heads_response in \<open>auto intro!: from_storage_wf simp: storage_heads_def\<close>)
  next
    case (GetChanges known n)
    with run have "app_get_changes A s known n = (res, A')" by (simp add: keep_session)
    then show ?thesis unfolding app_get_changes_def
      by (rule with_device_wf) (use changes_response [OF _ rows] in \<open>auto intro!: from_storage_wf\<close>)
  next
    case (PutVaultKeyEnvelope e)
    with run have "app_put_vault_key_envelope A s e = (res, A')" by (simp add: keep_session)
    then show ?thesis unfolding app_put_vault_key_envelope_def
      by (auto split: if_splits elim: run_storage_wf)
  next
    case GetVaultKeyEnvelope
    have "wf_response (VaultKeyEnvelope e)" if "vault_key_envelope (ap_storage A) = Inr e" for e
      using that rows by (auto simp: vault_key_envelope_def ok_or_Inr_iff rows_ok_def)
    with GetVaultKeyEnvelope run show ?thesis
      by (auto simp: keep_session app_get_vault_key_envelope_def intro!: from_storage_wf split: if_splits)
  next
    case Ping
    with run have "app_ping A s = (res, A')" by (simp add: keep_session)
    then show ?thesis unfolding app_ping_def by (rule with_device_wf) (auto simp: success_def)
  qed (use no_list in simp)
qed

lemma device_records_wf:
  assumes "device_records rs = Inr ds" and "\<forall>r \<in> set rs. length (dv_encrypted_name r) \<le> MAX_ENCRYPTED_DEVICE_NAME_BYTES"
  shows "\<forall>d \<in> set ds. wf_device_record d"
  using assms
  by (induction rs arbitrary: ds) (auto simp: rmap_Inr_iff wf_device_record_def split: if_splits)

text \<open>Device lists included: their records are within the limits, only their number can be too large.\<close>

lemma answers_wf:
  assumes inv: "service_inv X (ap_storage A)" and wf: "wf_request r" and u: "is_array 16 (en_upload_id E)"
    and run: "dispatch C X E A s r = (res, s', A')"
    and few: "\<forall>ds. ar_response res = Devices ds \<longrightarrow> length ds \<le> 1024"
  shows "wf_response (ar_response res)"
proof (cases "r = ListDevices")
  case True
  with run have "app_list_devices A s = (res, A')" by (simp add: keep_session)
  then show ?thesis unfolding app_list_devices_def
  proof (rule with_device_wf)
    assume r: "(from_storage (rmap Devices (list_devices (ap_storage A))), A) = (res, A')"
    have rows: "\<forall>r \<in> set (sort_key dv_device_id (st_devices (ap_storage A))).
        length (dv_encrypted_name r) \<le> MAX_ENCRYPTED_DEVICE_NAME_BYTES"
      using service_invD(4) [OF inv] by (simp add: rows_ok_def)
    show "wf_response (ar_response res)"
    proof (cases "list_devices (ap_storage A)")
      case (Inr ds)
      then have "ar_response res = Devices ds" using r by (auto simp: from_storage_def success_def)
      with device_records_wf [OF Inr [unfolded list_devices_def] rows] few show ?thesis by simp
    qed (use r in \<open>auto simp: from_storage_def\<close>)
  qed
next
  case False
  show ?thesis by (rule responses_wf [OF inv wf u run False])
qed

lemma devices_only_listed:
  "dispatch C X E A s r = (res, s', A') \<Longrightarrow> ar_response res = Devices ds \<Longrightarrow> r = ListDevices"
  by (cases r)
    (auto simp: keep_session app_defs with_device_def run_storage_def from_storage_def success_def app_error_def
      app_storage_error_def app_register_device_def authenticate_def rmap_Inr_iff dest!: require_device_Inl
      split: if_splits sum.splits option.splits prod.splits)

text \<open>
  C24. Every response but a device list respects the protocol limits: identifiers and hashes have their
  lengths, chunks, records, heads and pages stay within the bounds the client's decoder
  enforces.
\<close>

theorem responses_allowed:
  assumes inv: "service_inv X (ap_storage A)" and wf: "wf_request r" and u: "is_array 16 (en_upload_id E)"
    and run: "dispatch C X E A s r = (res, s', A')" and no_list: "r \<noteq> ListDevices"
  shows "wf_response (ar_response res)"
  using assms by (rule responses_wf)

theorem responses_allowed_witness:
  "\<exists>res s' A'. dispatch rfc_cbor plain_crypto \<lparr>en_now = 0, en_clock = 0, en_upload_id = pad 16 [1],
       en_free_space = None\<rparr> empty_application new_session (Authenticate (pad 32 [4]) None None) = (res, s', A') \<and>
     wf_response (ar_response res)"
proof -
  have inv: "service_inv plain_crypto (ap_storage empty_application)"
    by (simp add: empty_application_def fresh_service)
  obtain res s' A' where run: "dispatch rfc_cbor plain_crypto \<lparr>en_now = 0, en_clock = 0, en_upload_id = pad 16 [1],
       en_free_space = None\<rparr> empty_application new_session (Authenticate (pad 32 [4]) None None) = (res, s', A')"
    by (metis prod_cases3)
  have "wf_request (Authenticate (pad 32 [4]) None None)" by simp
  from responses_allowed [OF inv this _ run] run show ?thesis by auto
qed

end
