(* ===== verification/Manifest.thy ===== *)
theory Manifest
  imports Signed_Commit
begin

text \<open>
  Manifests and commit bodies, the plaintexts a client encrypts for each commit:
  \<open>crates/ll-versioning/src/manifest.rs\<close>. A manifest maps every object of the vault to its revision
  and blobs; a commit body lists the operations since the parents and points to the manifest.
\<close>

section \<open>Types and limits\<close>

definition MAX_MANIFEST_BYTES :: nat where "MAX_MANIFEST_BYTES = 16 * 1024 * 1024"
definition MAX_MANIFEST_ENTRIES :: nat where "MAX_MANIFEST_ENTRIES = 100000"
definition MAX_OPERATIONS :: nat where "MAX_OPERATIONS = 100000"
definition MAX_CONFLICT_OBJECTS :: nat where "MAX_CONFLICT_OBJECTS = 4096"
definition MANIFEST_ROOT_LABEL :: bytes where
  "MANIFEST_ROOT_LABEL = ascii_bytes ''learning-loop/manifest-root/v1''"

lemmas manifest_limits =
  MAX_MANIFEST_BYTES_def MAX_MANIFEST_ENTRIES_def MAX_OPERATIONS_def MAX_CONFLICT_OBJECTS_def

record manifest_entry =
  me_object_id :: bytes
  me_revision :: u64
  me_object_type :: object_type
  me_encrypted_path_blob_id :: bytes
  me_content_blob_id :: "bytes option"
  me_metadata_blob_id :: "bytes option"
  me_canonical_plaintext_hash :: bytes
  me_tombstone :: bool

record manifest =
  mf_vault_id :: bytes
  mf_entries :: "manifest_entry list"

datatype operation_kind = Create | Modify | Rename | DeleteTombstone | Merge

fun operation_kind_number :: "operation_kind \<Rightarrow> byte" where
  "operation_kind_number Create = 1"
| "operation_kind_number Modify = 2"
| "operation_kind_number Rename = 3"
| "operation_kind_number DeleteTombstone = 4"
| "operation_kind_number Merge = 5"

definition operation_kind_try_from :: "byte \<Rightarrow> versioning_error + operation_kind" where
  "operation_kind_try_from v =
     (if v = 1 then Inr Create
      else if v = 2 then Inr Modify
      else if v = 3 then Inr Rename
      else if v = 4 then Inr DeleteTombstone
      else if v = 5 then Inr Merge
      else Inl VE_InvalidFormat)"

record operation =
  op_kind :: operation_kind
  op_object_id :: bytes
  op_base_revision :: u64
  op_revision :: u64
  op_encrypted_path_blob_id :: "bytes option"
  op_content_blob_id :: "bytes option"

record commit_body =
  cb_logical_timestamp :: u64
  cb_operations :: "operation list"
  cb_manifest_root :: bytes
  cb_manifest_blob_id :: bytes
  cb_merge_base :: "bytes option"
  cb_conflict_objects :: "bytes list"

section \<open>Validation\<close>

definition entry_is_invalid :: "manifest_entry \<Rightarrow> bool" where
  "entry_is_invalid e \<longleftrightarrow>
     me_revision e = 0 \<or> me_object_type e \<in> {Path, Commit, Recovery} \<or>
     (me_tombstone e \<and> me_content_blob_id e \<noteq> None) \<or>
     (\<not> me_tombstone e \<and> me_content_blob_id e = None)"

fun validate_entries :: "manifest_entry list \<Rightarrow> versioning_error + unit" where
  "validate_entries [] = Inr ()"
| "validate_entries (e # es) = (if entry_is_invalid e then Inl VE_InvalidFormat else validate_entries es)"

definition validate_manifest :: "manifest \<Rightarrow> versioning_error + unit" where
  "validate_manifest m =
     (if length (mf_entries m) > MAX_MANIFEST_ENTRIES \<or>
         \<not> successively (\<lambda>a b. me_object_id a < me_object_id b) (mf_entries m)
      then Inl VE_LimitExceeded else validate_entries (mf_entries m))"

definition new_manifest :: "bytes \<Rightarrow> manifest_entry list \<Rightarrow> versioning_error + manifest" where
  "new_manifest vault_id entries =
     (let m = \<lparr>mf_vault_id = vault_id, mf_entries = sort_key me_object_id entries\<rparr> in
      rbind (validate_manifest m) (\<lambda>_. Inr m))"

definition operation_key :: "operation \<Rightarrow> bytes \<times> byte" where
  "operation_key p = (op_object_id p, operation_kind_number (op_kind p))"

definition operation_shape_is_valid :: "operation \<Rightarrow> bool" where
  "operation_shape_is_valid p =
     (case op_kind p of
        Create \<Rightarrow> op_encrypted_path_blob_id p \<noteq> None \<and> op_content_blob_id p \<noteq> None
      | Modify \<Rightarrow> op_content_blob_id p \<noteq> None
      | Merge \<Rightarrow> op_content_blob_id p \<noteq> None
      | Rename \<Rightarrow> op_encrypted_path_blob_id p \<noteq> None \<and> op_content_blob_id p = None
      | DeleteTombstone \<Rightarrow> op_encrypted_path_blob_id p = None \<and> op_content_blob_id p = None)"

text \<open>\<open>checked_add(1)\<close> is the increment of the commit graph's generations.\<close>

fun validate_operations :: "operation list \<Rightarrow> versioning_error + unit" where
  "validate_operations [] = Inr ()"
| "validate_operations (p # ps) =
     (if op_base_revision p = - 1 then Inl VE_LimitExceeded
      else let expected_revision = op_base_revision p + 1 in
        if op_revision p = 0 \<or> (op_kind p = Create \<and> op_base_revision p \<noteq> 0)
          \<or> (op_kind p \<noteq> Create \<and> op_base_revision p = 0)
          \<or> op_revision p \<noteq> expected_revision \<or> \<not> operation_shape_is_valid p
        then Inl VE_InvalidFormat else validate_operations ps)"

definition validate_commit_body :: "commit_body \<Rightarrow> versioning_error + unit" where
  "validate_commit_body b =
     (if cb_logical_timestamp b = 0 \<or> length (cb_operations b) > MAX_OPERATIONS
         \<or> length (cb_conflict_objects b) > MAX_CONFLICT_OBJECTS
         \<or> \<not> successively (\<lambda>p q. operation_key p < operation_key q) (cb_operations b)
         \<or> \<not> successively (<) (cb_conflict_objects b)
      then Inl VE_InvalidFormat else validate_operations (cb_operations b))"

section \<open>Encoding\<close>

definition encode_optional_fixed :: "cbor \<Rightarrow> bytes option \<Rightarrow> bytes" where
  "encode_optional_fixed C v = e_bytes C (case v of None \<Rightarrow> [] | Some bs \<Rightarrow> bs)"

definition encode_entry :: "cbor \<Rightarrow> manifest_entry \<Rightarrow> bytes" where
  "encode_entry C e =
     e_array C 8 @ e_bytes C (me_object_id e) @ e_u64 C (me_revision e)
       @ e_u8 C (object_type_number (me_object_type e)) @ e_bytes C (me_encrypted_path_blob_id e)
       @ encode_optional_fixed C (me_content_blob_id e) @ encode_optional_fixed C (me_metadata_blob_id e)
       @ e_bytes C (me_canonical_plaintext_hash e) @ e_bool C (me_tombstone e)"

definition encode_manifest :: "cbor \<Rightarrow> manifest \<Rightarrow> versioning_error + bytes" where
  "encode_manifest C m =
     rbind (validate_manifest m) (\<lambda>_.
     rbind (u64_try_from (length (mf_entries m))) (\<lambda>_.
       let output = e_map C 3 @ e_u8 C 0 @ e_u16 C PROTOCOL_VERSION @ e_u8 C 1 @ e_bytes C (mf_vault_id m)
             @ e_u8 C 2 @ e_array C (length (mf_entries m)) @ concat (map (encode_entry C) (mf_entries m)) in
       if length output > MAX_MANIFEST_BYTES then Inl VE_LimitExceeded else Inr output))"

definition manifest_root :: "cbor \<Rightarrow> crypto \<Rightarrow> manifest \<Rightarrow> versioning_error + bytes" where
  "manifest_root C X m =
     rbind (encode_manifest C m) (\<lambda>encoded. Inr (blake3 X (MANIFEST_ROOT_LABEL @ encoded)))"

definition encode_operation :: "cbor \<Rightarrow> operation \<Rightarrow> bytes" where
  "encode_operation C p =
     e_array C 6 @ e_u8 C (operation_kind_number (op_kind p)) @ e_bytes C (op_object_id p)
       @ e_u64 C (op_base_revision p) @ e_u64 C (op_revision p)
       @ encode_optional_fixed C (op_encrypted_path_blob_id p)
       @ encode_optional_fixed C (op_content_blob_id p)"

definition encode_commit_body :: "cbor \<Rightarrow> commit_body \<Rightarrow> versioning_error + bytes" where
  "encode_commit_body C b =
     rbind (validate_commit_body b) (\<lambda>_.
     rbind (u64_try_from (length (cb_operations b))) (\<lambda>_.
     rbind (u64_try_from (length (cb_conflict_objects b))) (\<lambda>_.
       let output = e_map C 7 @ e_u8 C 0 @ e_u16 C PROTOCOL_VERSION
             @ e_u8 C 1 @ e_u64 C (cb_logical_timestamp b)
             @ e_u8 C 2 @ e_array C (length (cb_operations b)) @ concat (map (encode_operation C) (cb_operations b))
             @ e_u8 C 3 @ e_bytes C (cb_manifest_root b)
             @ e_u8 C 4 @ e_bytes C (cb_manifest_blob_id b)
             @ e_u8 C 5 @ encode_optional_fixed C (cb_merge_base b)
             @ e_u8 C 6 @ e_array C (length (cb_conflict_objects b))
             @ concat (map (e_bytes C) (cb_conflict_objects b)) in
       if length output > MAX_COMMIT_BODY_BYTES then Inl VE_LimitExceeded else Inr output)))"

section \<open>Decoding\<close>

definition version_expect_version :: "cbor \<Rightarrow> bytes \<Rightarrow> versioning_error + bytes" where
  "version_expect_version C d =
     rbind (ver_item (d_u16 C d)) (\<lambda>(v, d). if v = PROTOCOL_VERSION then Inr d else Inl VE_InvalidFormat)"

definition version_expect_array :: "cbor \<Rightarrow> nat \<Rightarrow> bytes \<Rightarrow> versioning_error + bytes" where
  "version_expect_array C expected d =
     rbind (version_array C d) (\<lambda>(n, d). if n = expected then Inr d else Inl VE_InvalidFormat)"

definition version_optional_fixed :: "cbor \<Rightarrow> nat \<Rightarrow> bytes \<Rightarrow> versioning_error + (bytes option \<times> bytes)" where
  "version_optional_fixed C n d =
     rbind (ver_item (d_bytes C d)) (\<lambda>(bs, d).
       if bs = [] then Inr (None, d)
       else if length bs = n then Inr (Some bs, d) else Inl VE_InvalidFormat)"

definition version_exact :: "bytes \<Rightarrow> bytes \<Rightarrow> bytes \<Rightarrow> versioning_error + unit" where
  "version_exact original rest encoded =
     (if position original rest = length original \<and> encoded = original then Inr () else Inl VE_InvalidFormat)"

definition decode_entry :: "cbor \<Rightarrow> bytes \<Rightarrow> versioning_error + (manifest_entry \<times> bytes)" where
  "decode_entry C d =
     rbind (version_expect_array C 8 d) (\<lambda>d.
     rbind (version_fixed C 16 d) (\<lambda>(object_id, d).
     rbind (ver_item (d_u64 C d)) (\<lambda>(revision, d).
     rbind (ver_item (d_u8 C d)) (\<lambda>(type, d).
     rbind (map_err (\<lambda>_. VE_InvalidFormat) (object_type_try_from type)) (\<lambda>object_type.
     rbind (version_fixed C 32 d) (\<lambda>(path, d).
     rbind (version_optional_fixed C 32 d) (\<lambda>(content, d).
     rbind (version_optional_fixed C 32 d) (\<lambda>(metadata, d).
     rbind (version_fixed C 32 d) (\<lambda>(hash, d).
     rbind (ver_item (d_bool C d)) (\<lambda>(tombstone, d).
       Inr (\<lparr>me_object_id = object_id, me_revision = revision, me_object_type = object_type,
         me_encrypted_path_blob_id = path, me_content_blob_id = content, me_metadata_blob_id = metadata,
         me_canonical_plaintext_hash = hash, me_tombstone = tombstone\<rparr>, d)))))))))))"

definition decode_manifest :: "cbor \<Rightarrow> bytes \<Rightarrow> versioning_error + manifest" where
  "decode_manifest C encoded =
     (if length encoded > MAX_MANIFEST_BYTES then Inl VE_LimitExceeded else
     rbind (version_expect_map C 3 encoded) (\<lambda>d.
     rbind (version_expect_key C 0 d) (\<lambda>d.
     rbind (version_expect_version C d) (\<lambda>d.
     rbind (version_expect_key C 1 d) (\<lambda>d.
     rbind (version_fixed C 16 d) (\<lambda>(vault_id, d).
     rbind (version_expect_key C 2 d) (\<lambda>d.
     rbind (version_array C d) (\<lambda>(count, d).
     if count > MAX_MANIFEST_ENTRIES then Inl VE_LimitExceeded else
     rbind (dec_times (decode_entry C) count d) (\<lambda>(entries, d).
     let m = \<lparr>mf_vault_id = vault_id, mf_entries = entries\<rparr> in
     rbind (validate_manifest m) (\<lambda>_.
     rbind (encode_manifest C m) (\<lambda>again.
     rbind (version_exact encoded d again) (\<lambda>_. Inr m))))))))))))"

definition decode_operation :: "cbor \<Rightarrow> bytes \<Rightarrow> versioning_error + (operation \<times> bytes)" where
  "decode_operation C d =
     rbind (version_expect_array C 6 d) (\<lambda>d.
     rbind (ver_item (d_u8 C d)) (\<lambda>(k, d).
     rbind (operation_kind_try_from k) (\<lambda>kind.
     rbind (version_fixed C 16 d) (\<lambda>(object_id, d).
     rbind (ver_item (d_u64 C d)) (\<lambda>(base_revision, d).
     rbind (ver_item (d_u64 C d)) (\<lambda>(revision, d).
     rbind (version_optional_fixed C 32 d) (\<lambda>(path, d).
     rbind (version_optional_fixed C 32 d) (\<lambda>(content, d).
       Inr (\<lparr>op_kind = kind, op_object_id = object_id, op_base_revision = base_revision,
         op_revision = revision, op_encrypted_path_blob_id = path, op_content_blob_id = content\<rparr>, d)))))))))"

definition decode_commit_body :: "cbor \<Rightarrow> bytes \<Rightarrow> versioning_error + commit_body" where
  "decode_commit_body C encoded =
     (if length encoded > MAX_COMMIT_BODY_BYTES then Inl VE_LimitExceeded else
     rbind (version_expect_map C 7 encoded) (\<lambda>d.
     rbind (version_expect_key C 0 d) (\<lambda>d.
     rbind (version_expect_version C d) (\<lambda>d.
     rbind (version_expect_key C 1 d) (\<lambda>d.
     rbind (ver_item (d_u64 C d)) (\<lambda>(logical_timestamp, d).
     rbind (version_expect_key C 2 d) (\<lambda>d.
     rbind (version_array C d) (\<lambda>(count, d).
     if count > MAX_OPERATIONS then Inl VE_LimitExceeded else
     rbind (dec_times (decode_operation C) count d) (\<lambda>(operations, d).
     rbind (version_expect_key C 3 d) (\<lambda>d.
     rbind (version_fixed C 32 d) (\<lambda>(root, d).
     rbind (version_expect_key C 4 d) (\<lambda>d.
     rbind (version_fixed C 32 d) (\<lambda>(blob_id, d).
     rbind (version_expect_key C 5 d) (\<lambda>d.
     rbind (version_optional_fixed C 32 d) (\<lambda>(merge_base, d).
     rbind (version_expect_key C 6 d) (\<lambda>d.
     rbind (version_array C d) (\<lambda>(conflicts, d).
     if conflicts > MAX_CONFLICT_OBJECTS then Inl VE_LimitExceeded else
     rbind (dec_times (version_fixed C 16) conflicts d) (\<lambda>(conflict_objects, d).
     let b = \<lparr>cb_logical_timestamp = logical_timestamp, cb_operations = operations, cb_manifest_root = root,
           cb_manifest_blob_id = blob_id, cb_merge_base = merge_base, cb_conflict_objects = conflict_objects\<rparr> in
     rbind (validate_commit_body b) (\<lambda>_.
     rbind (encode_commit_body C b) (\<lambda>again.
     rbind (version_exact encoded d again) (\<lambda>_. Inr b)))))))))))))))))))))"

end
