(* ===== verification/Manifest_Correct.thy ===== *)
theory Manifest_Correct
  imports Manifest Signed_Commit_Correct "HOL-Library.Multiset"
begin

text \<open>
  Correctness of manifests and commit bodies: both codecs are deterministic, a manifest does not depend
  on the order its entries are given in, its root identifies it, and a decoded body lists consistent
  revisions.
\<close>

section \<open>Well-formed values\<close>

definition wf_optional :: "nat \<Rightarrow> bytes option \<Rightarrow> bool" where
  "wf_optional n v \<longleftrightarrow> (case v of None \<Rightarrow> True | Some bs \<Rightarrow> is_array n bs)"

definition wf_entry :: "manifest_entry \<Rightarrow> bool" where
  "wf_entry e \<longleftrightarrow> is_array 16 (me_object_id e) \<and> is_array 32 (me_encrypted_path_blob_id e) \<and>
     wf_optional 32 (me_content_blob_id e) \<and> wf_optional 32 (me_metadata_blob_id e) \<and>
     is_array 32 (me_canonical_plaintext_hash e)"

definition wf_manifest :: "manifest \<Rightarrow> bool" where
  "wf_manifest m \<longleftrightarrow> is_array 16 (mf_vault_id m) \<and> (\<forall>e \<in> set (mf_entries m). wf_entry e)"

definition wf_operation :: "operation \<Rightarrow> bool" where
  "wf_operation p \<longleftrightarrow> is_array 16 (op_object_id p) \<and> wf_optional 32 (op_encrypted_path_blob_id p) \<and>
     wf_optional 32 (op_content_blob_id p)"

definition wf_commit_body :: "commit_body \<Rightarrow> bool" where
  "wf_commit_body b \<longleftrightarrow> (\<forall>p \<in> set (cb_operations b). wf_operation p) \<and> is_array 32 (cb_manifest_root b) \<and>
     is_array 32 (cb_manifest_blob_id b) \<and> wf_optional 32 (cb_merge_base b) \<and>
     (\<forall>c \<in> set (cb_conflict_objects b). is_array 16 c)"

lemma wf_optional_simps [simp]: "wf_optional n None" "wf_optional n (Some bs) \<longleftrightarrow> length bs = n"
  by (simp_all add: wf_optional_def)

section \<open>Validation\<close>

lemma validate_entries_Inr: "validate_entries es = Inr () \<longleftrightarrow> (\<forall>e \<in> set es. \<not> entry_is_invalid e)"
  by (induction es) simp_all

lemma successively_key: "successively (\<lambda>a b. f a < (f b :: 'k :: linorder)) xs \<longleftrightarrow> sorted (map f xs) \<and> distinct (map f xs)"
  by (simp add: successively_map [symmetric] successively_less_iff [symmetric])

lemma validate_manifest_Inr:
  "validate_manifest m = Inr () \<longleftrightarrow> length (mf_entries m) \<le> MAX_MANIFEST_ENTRIES \<and>
     sorted (map me_object_id (mf_entries m)) \<and> distinct (map me_object_id (mf_entries m)) \<and>
     (\<forall>e \<in> set (mf_entries m). \<not> entry_is_invalid e)"
  by (auto simp: validate_manifest_def successively_key validate_entries_Inr)

lemma new_manifest_Inr:
  "new_manifest v es = Inr m \<longleftrightarrow>
     m = \<lparr>mf_vault_id = v, mf_entries = sort_key me_object_id es\<rparr> \<and> length es \<le> MAX_MANIFEST_ENTRIES \<and>
     distinct (map me_object_id es) \<and> (\<forall>e \<in> set es. \<not> entry_is_invalid e)"
proof -
  have "mset (map me_object_id (sort_key me_object_id es)) = mset (map me_object_id es)" by simp
  then have "distinct (map me_object_id (sort_key me_object_id es)) = distinct (map me_object_id es)"
    by (rule mset_eq_imp_distinct_iff)
  then show ?thesis by (auto simp: new_manifest_def result_iffs validate_manifest_Inr Let_def)
qed

definition operation_ok :: "operation \<Rightarrow> bool" where
  "operation_ok p \<longleftrightarrow> unat (op_revision p) = unat (op_base_revision p) + 1 \<and>
     (op_kind p = Create \<longleftrightarrow> op_base_revision p = 0) \<and> operation_shape_is_valid p"

lemma operation_ok_iff:
  "operation_ok p \<longleftrightarrow> op_base_revision p \<noteq> - 1 \<and> op_revision p = op_base_revision p + 1 \<and>
     (op_kind p = Create \<longleftrightarrow> op_base_revision p = 0) \<and> operation_shape_is_valid p"
proof -
  let ?b = "op_base_revision p" and ?r = "op_revision p"
  have succ: "?b \<noteq> - 1 \<Longrightarrow> unat (?b + 1) = unat ?b + 1" by (simp add: unat_succ)
  have "unat ?r = unat ?b + 1 \<longleftrightarrow> ?b \<noteq> - 1 \<and> ?r = ?b + 1"
  proof
    assume l: "unat ?r = unat ?b + 1"
    then have "?b \<noteq> - 1" using unat_le_top [of ?r] by auto
    with succ l show "?b \<noteq> - 1 \<and> ?r = ?b + 1" by (metis word_unat_eq_iff)
  qed (use succ in auto)
  then show ?thesis by (auto simp: operation_ok_def)
qed

lemma validate_operations_Inr: "validate_operations ps = Inr () \<longleftrightarrow> (\<forall>p \<in> set ps. operation_ok p)"
proof (induction ps)
  case (Cons p ps)
  have "op_base_revision p \<noteq> - 1 \<Longrightarrow> op_base_revision p + 1 \<noteq> 0" by (simp add: eq_neg_iff_add_eq_0)
  then have "op_base_revision p \<noteq> - 1 \<and> \<not> (op_revision p = 0 \<or> op_kind p = Create \<and> op_base_revision p \<noteq> 0
      \<or> op_kind p \<noteq> Create \<and> op_base_revision p = 0 \<or> op_revision p \<noteq> op_base_revision p + 1
      \<or> \<not> operation_shape_is_valid p) \<longleftrightarrow> operation_ok p"
    unfolding operation_ok_iff by metis
  with Cons.IH show ?case unfolding validate_operations.simps Let_def by (simp split: if_split) blast
qed simp

lemma validate_commit_body_Inr:
  "validate_commit_body b = Inr () \<longleftrightarrow> cb_logical_timestamp b \<noteq> 0 \<and>
     length (cb_operations b) \<le> MAX_OPERATIONS \<and> length (cb_conflict_objects b) \<le> MAX_CONFLICT_OBJECTS \<and>
     sorted (map operation_key (cb_operations b)) \<and> distinct (map operation_key (cb_operations b)) \<and>
     sorted (cb_conflict_objects b) \<and> distinct (cb_conflict_objects b) \<and>
     (\<forall>p \<in> set (cb_operations b). operation_ok p)"
  by (auto simp: validate_commit_body_def successively_key successively_less_iff validate_operations_Inr)

section \<open>Decoding\<close>

lemma version_optional_wf: "version_optional_fixed C n d = Inr (v, d') \<Longrightarrow> wf_optional n v"
  by (auto simp: version_optional_fixed_def result_iffs split: if_splits)

lemma decode_entry_wf: "decode_entry C d = Inr (e, d') \<Longrightarrow> wf_entry e"
  unfolding decode_entry_def
  by (auto simp: result_iffs wf_entry_def dest!: version_fixed_length version_optional_wf)

lemma decode_operation_wf: "decode_operation C d = Inr (p, d') \<Longrightarrow> wf_operation p"
  unfolding decode_operation_def
  by (auto simp: result_iffs wf_operation_def dest!: version_fixed_length version_optional_wf)

lemma dec_times_wf: "dec_times f n d = Inr (xs, d') \<Longrightarrow> (\<And>e x e'. f e = Inr (x, e') \<Longrightarrow> P x) \<Longrightarrow> \<forall>x \<in> set xs. P x"
  using dec_times_Inr by metis

lemma version_exact_Inr: "version_exact a d b = Inr () \<Longrightarrow> b = a"
  by (simp add: version_exact_def split: if_splits)

lemma decode_manifest_sound:
  assumes "decode_manifest C encoded = Inr m"
  shows "wf_manifest m \<and> encode_manifest C m = Inr encoded"
  using assms unfolding decode_manifest_def
  by (auto simp: result_iffs Let_def wf_manifest_def split: if_splits
      dest!: version_fixed_length version_exact_Inr dec_times_wf [OF _ decode_entry_wf])

lemma decode_commit_body_sound:
  assumes "decode_commit_body C encoded = Inr b"
  shows "wf_commit_body b \<and> encode_commit_body C b = Inr encoded"
  using assms unfolding decode_commit_body_def
  by (auto simp: result_iffs Let_def wf_commit_body_def split: if_splits
      dest!: version_fixed_length version_fixed_items version_optional_wf version_exact_Inr
        dec_times_wf [OF _ decode_operation_wf])

context cbor_format begin

lemma optional_item [simp]:
  "wf_optional n v \<Longrightarrow> 0 < n \<Longrightarrow> fits64 n \<Longrightarrow>
     version_optional_fixed C n (encode_optional_fixed C v @ r) = Inr (v, r)"
  by (auto simp: version_optional_fixed_def encode_optional_fixed_def split: option.splits)

lemma version_item [simp]: "version_expect_version C (e_u16 C PROTOCOL_VERSION @ r) = Inr r"
  by (simp add: version_expect_version_def)

lemma expect_array_item [simp]: "fits64 n \<Longrightarrow> version_expect_array C n (e_array C n @ r) = Inr r"
  by (simp add: version_expect_array_def)

lemma entry_item: "wf_entry e \<Longrightarrow> decode_entry C (encode_entry C e @ r) = Inr (e, r)"
  by (cases e) (simp add: decode_entry_def encode_entry_def wf_entry_def)

lemma kind_item [simp]: "operation_kind_try_from (operation_kind_number k) = Inr k"
  by (cases k) (simp_all add: operation_kind_try_from_def)

lemma operation_item: "wf_operation p \<Longrightarrow> decode_operation C (encode_operation C p @ r) = Inr (p, r)"
  by (cases p) (simp add: decode_operation_def encode_operation_def wf_operation_def)

lemma last_array: "xs = [] \<longrightarrow> version_array C (e_array C 0) = Inr (0, [])"
  by (simp add: version_array_def)

lemma entries_items [simp]:
  "\<forall>e \<in> set es. wf_entry e \<Longrightarrow>
     dec_times (decode_entry C) (length es) (concat (map (encode_entry C) es)) = Inr (es, [])"
  using dec_times_encoded [of es "decode_entry C" "encode_entry C" "[]"] entry_item by simp

lemma operations_items [simp]:
  "\<forall>p \<in> set ps. wf_operation p \<Longrightarrow>
     dec_times (decode_operation C) (length ps) (concat (map (encode_operation C) ps) @ r) = Inr (ps, r)"
  by (rule dec_times_encoded) (simp add: operation_item)

lemma conflicts_items [simp]:
  "\<forall>c \<in> set cs. length c = 16 \<Longrightarrow>
     dec_times (version_fixed C 16) (length cs) (concat (map (e_bytes C) cs)) = Inr (cs, [])"
  using version_parents_items [of cs 16 "[]"] by simp

lemma manifest_decodes:
  assumes wf: "wf_manifest m" and enc: "encode_manifest C m = Inr encoded"
  shows "decode_manifest C encoded = Inr m"
proof -
  have val: "validate_manifest m = Inr ()" using enc by (auto simp: encode_manifest_def rbind_Inr_iff)
  then have "length (mf_entries m) \<le> MAX_MANIFEST_ENTRIES" by (simp add: validate_manifest_Inr)
  moreover from this have "fits64 (length (mf_entries m))"
    by (intro fits64_small) (simp add: manifest_limits)
  ultimately show ?thesis
    using wf val enc unfolding decode_manifest_def
    by (cases m) (auto simp: encode_manifest_def wf_manifest_def u64_try_from_def Let_def version_exact_def
        split: if_splits)
qed

lemma commit_body_decodes:
  assumes wf: "wf_commit_body b" and enc: "encode_commit_body C b = Inr encoded"
  shows "decode_commit_body C encoded = Inr b"
proof -
  have val: "validate_commit_body b = Inr ()" using enc by (auto simp: encode_commit_body_def rbind_Inr_iff)
  then have n: "length (cb_operations b) \<le> MAX_OPERATIONS" "length (cb_conflict_objects b) \<le> MAX_CONFLICT_OBJECTS"
    by (simp_all add: validate_commit_body_Inr)
  then have "fits64 (length (cb_operations b))" "fits64 (length (cb_conflict_objects b))"
    by (auto intro!: fits64_small simp: manifest_limits)
  with n show ?thesis
    using wf val enc unfolding decode_commit_body_def
    by (cases b) (auto simp: encode_commit_body_def wf_commit_body_def u64_try_from_def Let_def version_exact_def
        split: if_splits)
qed

end

sublocale cbor_format \<subseteq>
  manifest: deterministic_codec "encode_manifest C" "decode_manifest C" wf_manifest
proof
  fix input m
  show "decode_manifest C input = Inr m \<longleftrightarrow> wf_manifest m \<and> encode_manifest C m = Inr input"
    using decode_manifest_sound [of C input m] manifest_decodes [of m input] by blast
qed

sublocale cbor_format \<subseteq>
  commit_body: deterministic_codec "encode_commit_body C" "decode_commit_body C" wf_commit_body
proof
  fix input b
  show "decode_commit_body C input = Inr b \<longleftrightarrow> wf_commit_body b \<and> encode_commit_body C b = Inr input"
    using decode_commit_body_sound [of C input b] commit_body_decodes [of b input] by blast
qed

context cbor_format begin

lemmas manifest_law = manifest.canonical
lemmas commit_body_law = commit_body.canonical
lemmas manifest_inj = manifest.encode_inj

end

section \<open>Codecs\<close>

text \<open>
  Manifest documents round trip: the decoder accepts exactly the deterministic encodings of manifests
  that pass validation and fit the size limit, and returns the manifest.
\<close>

theorem manifest_canonical:
  assumes "cbor_format C"
  shows "decode_manifest C input = Inr m \<longleftrightarrow> wf_manifest m \<and> encode_manifest C m = Inr input"
  by (rule cbor_format.manifest_law [OF assms])

definition sample_entry :: "byte \<Rightarrow> manifest_entry" where
  "sample_entry n = \<lparr>me_object_id = replicate 16 n, me_revision = 1, me_object_type = Content,
     me_encrypted_path_blob_id = replicate 32 3, me_content_blob_id = Some (replicate 32 4),
     me_metadata_blob_id = None, me_canonical_plaintext_hash = replicate 32 5, me_tombstone = False\<rparr>"

definition sample_manifest :: manifest where
  "sample_manifest = \<lparr>mf_vault_id = replicate 16 1, mf_entries = [sample_entry 2]\<rparr>"

lemma wf_sample_entry [simp]: "wf_entry (sample_entry n)" "\<not> entry_is_invalid (sample_entry n)"
  by (simp_all add: wf_entry_def sample_entry_def entry_is_invalid_def)

lemma sample_manifest_encodes: "\<exists>input. encode_manifest rfc_cbor sample_manifest = Inr input"
  by (simp add: encode_manifest_def sample_manifest_def validate_manifest_def sample_entry_def
      entry_is_invalid_def u64_try_from_def encode_entry_def encode_optional_fixed_def rfc_cbor_def cbor_head_def
      manifest_limits PROTOCOL_VERSION_def)

theorem manifest_canonical_witness:
  "\<exists>input. encode_manifest rfc_cbor sample_manifest = Inr input \<and>
     decode_manifest rfc_cbor input = Inr sample_manifest"
proof -
  obtain input where "encode_manifest rfc_cbor sample_manifest = Inr input"
    using sample_manifest_encodes by blast
  moreover have "wf_manifest sample_manifest" by (simp add: wf_manifest_def sample_manifest_def)
  ultimately show ?thesis using manifest_canonical [OF rfc.cbor_format_axioms] by blast
qed

text \<open>
  Commit bodies round trip: the decoder accepts exactly the deterministic encodings of valid bodies of
  at most 256 KiB, and returns the body.
\<close>

theorem commit_body_canonical:
  assumes "cbor_format C"
  shows "decode_commit_body C input = Inr b \<longleftrightarrow> wf_commit_body b \<and> encode_commit_body C b = Inr input"
  by (rule cbor_format.commit_body_law [OF assms])

definition sample_commit_body :: commit_body where
  "sample_commit_body = \<lparr>cb_logical_timestamp = 1,
     cb_operations = [\<lparr>op_kind = Create, op_object_id = replicate 16 2, op_base_revision = 0, op_revision = 1,
       op_encrypted_path_blob_id = Some (replicate 32 3), op_content_blob_id = Some (replicate 32 4)\<rparr>],
     cb_manifest_root = replicate 32 5, cb_manifest_blob_id = replicate 32 6, cb_merge_base = None,
     cb_conflict_objects = []\<rparr>"

theorem commit_body_canonical_witness:
  "\<exists>input. encode_commit_body rfc_cbor sample_commit_body = Inr input \<and>
     decode_commit_body rfc_cbor input = Inr sample_commit_body"
proof -
  obtain input where "encode_commit_body rfc_cbor sample_commit_body = Inr input"
    by (simp add: encode_commit_body_def sample_commit_body_def validate_commit_body_def
        operation_shape_is_valid_def u64_try_from_def encode_operation_def encode_optional_fixed_def rfc_cbor_def
        cbor_head_def manifest_limits MAX_COMMIT_BODY_BYTES_def PROTOCOL_VERSION_def)
  moreover have "wf_commit_body sample_commit_body"
    by (simp add: wf_commit_body_def sample_commit_body_def wf_operation_def)
  ultimately show ?thesis using commit_body_canonical [OF rfc.cbor_format_axioms] by blast
qed

section \<open>Determinism and binding\<close>

lemma sort_key_unique:
  "mset xs = mset ys \<Longrightarrow> distinct (map f xs) \<Longrightarrow> sort_key f xs = sort_key (f :: 'a \<Rightarrow> 'k :: linorder) ys"
  by (rule sort_key_inj_key_eq) (auto simp: distinct_map)

lemma duplicates_rejected:
  "\<not> distinct (map me_object_id es) \<Longrightarrow> new_manifest v es = Inl VE_LimitExceeded"
proof -
  assume "\<not> distinct (map me_object_id es)"
  moreover have "mset (map me_object_id (sort_key me_object_id es)) = mset (map me_object_id es)" by simp
  ultimately have "\<not> distinct (map me_object_id (sort_key me_object_id es))"
    using mset_eq_imp_distinct_iff by blast
  then show ?thesis by (simp add: new_manifest_def validate_manifest_def successively_key Let_def)
qed

text \<open>
  A manifest is a set of entries: clients that hold the same entries build the same manifest, or get the
  same error, in whatever order they enumerate them, and so compute the same root.
\<close>

theorem manifest_order_free:
  assumes "mset es = mset es'"
  shows "new_manifest v es = new_manifest v es' \<and>
    rbind (new_manifest v es) (manifest_root C X) = rbind (new_manifest v es') (manifest_root C X)"
proof -
  have iff: "distinct (map me_object_id es) = distinct (map me_object_id es')"
    using assms by (intro mset_eq_imp_distinct_iff) simp
  have "new_manifest v es = new_manifest v es'"
  proof (cases "distinct (map me_object_id es)")
    case True
    then show ?thesis by (simp add: new_manifest_def sort_key_unique [OF assms True])
  next
    case False
    with iff show ?thesis by (simp add: duplicates_rejected)
  qed
  then show ?thesis by simp
qed

theorem manifest_order_free_witness:
  "new_manifest (replicate 16 1) [sample_entry 2, sample_entry 7] =
     new_manifest (replicate 16 1) [sample_entry 7, sample_entry 2]"
  using manifest_order_free [of "[sample_entry 2, sample_entry 7]" "[sample_entry 7, sample_entry 2]"]
  by (simp add: add_mset_commute)

text \<open>
  C36. The root identifies the manifest: two manifests with the same root are equal, unless their own
  encodings collide under the labelled hash.
\<close>

theorem manifest_root_binds:
  assumes "cbor_format C" and "wf_manifest m" and "wf_manifest m'"
    and "manifest_root C X m = Inr r" and "manifest_root C X m' = Inr r"
  shows "m = m' \<or> (\<exists>a b. encode_manifest C m = Inr a \<and> encode_manifest C m' = Inr b \<and> a \<noteq> b \<and>
    blake3 X (MANIFEST_ROOT_LABEL @ a) = blake3 X (MANIFEST_ROOT_LABEL @ b))"
proof -
  obtain a b where "encode_manifest C m = Inr a" "encode_manifest C m' = Inr b"
    and "blake3 X (MANIFEST_ROOT_LABEL @ a) = blake3 X (MANIFEST_ROOT_LABEL @ b)"
    using assms(4,5) by (auto simp: manifest_root_def rbind_Inr_iff)
  then show ?thesis using cbor_format.manifest_inj [OF assms(1-3)] by blast
qed

theorem manifest_root_binds_witness:
  "\<exists>r. manifest_root rfc_cbor plain_crypto sample_manifest = Inr r \<and>
     (sample_manifest = sample_manifest \<or>
      (\<exists>a b. encode_manifest rfc_cbor sample_manifest = Inr a \<and> encode_manifest rfc_cbor sample_manifest = Inr b \<and>
        a \<noteq> b \<and> blake3 plain_crypto (MANIFEST_ROOT_LABEL @ a) = blake3 plain_crypto (MANIFEST_ROOT_LABEL @ b)))"
proof -
  obtain r where r: "manifest_root rfc_cbor plain_crypto sample_manifest = Inr r"
    using sample_manifest_encodes by (auto simp: manifest_root_def)
  have "wf_manifest sample_manifest" by (simp add: wf_manifest_def sample_manifest_def)
  from manifest_root_binds [OF rfc.cbor_format_axioms this this r r] r show ?thesis by blast
qed

end
