(* ===== verification/Vault_Key.thy ===== *)
theory Vault_Key
  imports Object_Crypto
begin

text \<open>
  The client's key derivation policy (\<open>ClientKdfPolicy\<close> and its calibration in
  \<open>crates/ll-crypto/src/keys.rs\<close>) and the password-wrapped vault master key (\<open>vault.rs\<close>).
  A password is its UTF-8 bytes; a measured duration is in nanoseconds.
\<close>

section \<open>Key derivation policy\<close>

definition MIN_MEMORY_KIB :: u32 where "MIN_MEMORY_KIB = 19456"
definition MAX_DESKTOP_MEMORY_KIB :: u32 where "MAX_DESKTOP_MEMORY_KIB = 256 * 1024"
definition MAX_ANDROID_MEMORY_KIB :: u32 where "MAX_ANDROID_MEMORY_KIB = 64 * 1024"

lemmas memory_limits = MIN_MEMORY_KIB_def MAX_DESKTOP_MEMORY_KIB_def MAX_ANDROID_MEMORY_KIB_def

record client_kdf_policy =
  ck_memory_kib :: u32
  ck_iterations :: u32
  ck_parallelism :: u32

definition client_argon2 :: "crypto \<Rightarrow> client_kdf_policy \<Rightarrow> crypto_error + (u32 \<times> u32 \<times> u32)" where
  "client_argon2 X p =
     (if ck_memory_kib p < MIN_MEMORY_KIB \<or> ck_memory_kib p > MAX_DESKTOP_MEMORY_KIB
         \<or> ck_iterations p = 0 \<or> ck_iterations p > 10 \<or> ck_parallelism p = 0 \<or> ck_parallelism p > 4
      then Inl XE_InvalidArgon2Policy
      else let params = (ck_memory_kib p, ck_iterations p, ck_parallelism p) in
        if argon2_params_ok X params then Inr params else Inl XE_InvalidArgon2Policy)"

datatype client_platform_class = Desktop | Android

fun initial_memory_kib :: "client_platform_class \<Rightarrow> u32" where
  "initial_memory_kib Desktop = 64 * 1024"
| "initial_memory_kib Android = 32 * 1024"

fun maximum_memory_kib :: "client_platform_class \<Rightarrow> u32" where
  "maximum_memory_kib Desktop = MAX_DESKTOP_MEMORY_KIB"
| "maximum_memory_kib Android = MAX_ANDROID_MEMORY_KIB"

text \<open>The target in microseconds.\<close>

fun target_micros :: "client_platform_class \<Rightarrow> nat" where
  "target_micros Desktop = 500 * 1000"
| "target_micros Android = 800 * 1000"

definition div_ceil :: "nat \<Rightarrow> nat \<Rightarrow> nat" where
  "div_ceil a b = (if a mod b > 0 then a div b + 1 else a div b)"

definition select_calibrated_policy :: "client_platform_class \<Rightarrow> u32 \<Rightarrow> nat \<Rightarrow> client_kdf_policy" where
  "select_calibrated_policy platform memory measured =
     (let elapsed_micros = max (measured div 1000) 1;
          iterations = min (max (div_ceil (target_micros platform) elapsed_micros) 1) 10 in
      \<lparr>ck_memory_kib = min memory (maximum_memory_kib platform),
       ck_iterations = of_nat iterations, ck_parallelism = 1\<rparr>)"

text \<open>The randomness is the salt and the input that is hashed; \<open>measured\<close> is the time the hash took.\<close>

definition calibrate_client_kdf ::
  "crypto \<Rightarrow> bytes option \<times> bytes option \<Rightarrow> nat \<Rightarrow> client_platform_class \<Rightarrow> crypto_error + client_kdf_policy" where
  "calibrate_client_kdf X randomness measured platform =
     (let memory = initial_memory_kib platform;
          baseline = \<lparr>ck_memory_kib = memory, ck_iterations = 1, ck_parallelism = 1\<rparr> in
      case randomness of (salt, input) \<Rightarrow>
        rbind (ok_or XE_Random salt) (\<lambda>salt.
        rbind (ok_or XE_Random input) (\<lambda>input.
        rbind (client_argon2 X baseline) (\<lambda>params.
        rbind (ok_or XE_Argon2 (argon2id X params input salt)) (\<lambda>_.
          Inr (select_calibrated_policy platform memory measured))))))"

section \<open>The wrapped master key\<close>

definition CLIENT_KEK_LABEL :: bytes where
  "CLIENT_KEK_LABEL = ascii_bytes ''learning-loop/client-kek/v1'' @ [0]"
definition VMK_ENVELOPE_LABEL :: ustr where
  "VMK_ENVELOPE_LABEL = ascii ''learning-loop/vmk-envelope/v1''"
definition SALT_BYTES :: nat where "SALT_BYTES = 16"
definition VMK_NONCE_BYTES :: nat where "VMK_NONCE_BYTES = 24"
definition WRAPPED_VMK_BYTES :: nat where "WRAPPED_VMK_BYTES = 48"

lemmas vmk_sizes = SALT_BYTES_def VMK_NONCE_BYTES_def WRAPPED_VMK_BYTES_def

record vault_key_envelope =
  vk_salt :: bytes
  vk_policy :: client_kdf_policy
  vk_nonce :: bytes
  vk_wrapped_vmk :: bytes

definition derive_client_kek :: "crypto \<Rightarrow> bytes \<Rightarrow> bytes \<Rightarrow> client_kdf_policy \<Rightarrow> crypto_error + bytes" where
  "derive_client_kek X password salt policy =
     rbind (client_argon2 X policy) (\<lambda>params.
       ok_or XE_Argon2 (argon2id X params (CLIENT_KEK_LABEL @ password) salt))"

definition encode_vault_key_envelope :: "cbor \<Rightarrow> vault_key_envelope \<Rightarrow> crypto_error + bytes" where
  "encode_vault_key_envelope C v =
     Inr (e_map C 7
       @ e_u8 C 0 @ e_u16 C PROTOCOL_VERSION
       @ e_u8 C 1 @ e_bytes C (vk_salt v)
       @ e_u8 C 2 @ e_u32 C (ck_memory_kib (vk_policy v))
       @ e_u8 C 3 @ e_u32 C (ck_iterations (vk_policy v))
       @ e_u8 C 4 @ e_u32 C (ck_parallelism (vk_policy v))
       @ e_u8 C 5 @ e_bytes C (vk_nonce v)
       @ e_u8 C 6 @ e_bytes C (vk_wrapped_vmk v))"

definition vault_key_aad :: "cbor \<Rightarrow> vault_key_envelope \<Rightarrow> crypto_error + bytes" where
  "vault_key_aad C v =
     Inr (e_array C 7 @ e_str C VMK_ENVELOPE_LABEL @ e_u16 C PROTOCOL_VERSION @ e_bytes C (vk_salt v)
       @ e_u32 C (ck_memory_kib (vk_policy v)) @ e_u32 C (ck_iterations (vk_policy v))
       @ e_u32 C (ck_parallelism (vk_policy v)) @ e_str C CIPHER_SUITE)"

definition vmk_expect_key :: "cbor \<Rightarrow> byte \<Rightarrow> bytes \<Rightarrow> crypto_error + bytes" where
  "vmk_expect_key = take_key XE_EnvelopeDecode XE_InvalidEnvelope"

definition vmk_fixed :: "cbor \<Rightarrow> nat \<Rightarrow> bytes \<Rightarrow> crypto_error + (bytes \<times> bytes)" where
  "vmk_fixed = take_fixed XE_EnvelopeDecode XE_InvalidEnvelope"

definition decode_vault_key_envelope :: "cbor \<Rightarrow> crypto \<Rightarrow> bytes \<Rightarrow> crypto_error + vault_key_envelope" where
  "decode_vault_key_envelope C X encoded =
     (if length encoded > 512 then Inl XE_EnvelopeLimit
      else
     rbind (env_item (d_map C encoded)) (\<lambda>(len, d).
     if len \<noteq> Some 7 then Inl XE_InvalidEnvelope else
     rbind (vmk_expect_key C 0 d) (\<lambda>d.
     rbind (env_item (d_u16 C d)) (\<lambda>(version, d).
     if version \<noteq> PROTOCOL_VERSION then Inl XE_InvalidEnvelope else
     rbind (vmk_expect_key C 1 d) (\<lambda>d.
     rbind (vmk_fixed C SALT_BYTES d) (\<lambda>(salt, d).
     rbind (vmk_expect_key C 2 d) (\<lambda>d.
     rbind (env_item (d_u32 C d)) (\<lambda>(memory, d).
     rbind (vmk_expect_key C 3 d) (\<lambda>d.
     rbind (env_item (d_u32 C d)) (\<lambda>(iterations, d).
     rbind (vmk_expect_key C 4 d) (\<lambda>d.
     rbind (env_item (d_u32 C d)) (\<lambda>(parallelism, d).
     let policy = \<lparr>ck_memory_kib = memory, ck_iterations = iterations, ck_parallelism = parallelism\<rparr> in
     rbind (client_argon2 X policy) (\<lambda>_.
     rbind (vmk_expect_key C 5 d) (\<lambda>d.
     rbind (vmk_fixed C VMK_NONCE_BYTES d) (\<lambda>(nonce, d).
     rbind (vmk_expect_key C 6 d) (\<lambda>d.
     rbind (env_item (d_bytes C d)) (\<lambda>(wrapped_vmk, d).
     if length wrapped_vmk \<noteq> WRAPPED_VMK_BYTES then Inl XE_InvalidEnvelope else
     let envelope = \<lparr>vk_salt = salt, vk_policy = policy, vk_nonce = nonce, vk_wrapped_vmk = wrapped_vmk\<rparr> in
     if position encoded d \<noteq> length encoded then Inl XE_InvalidEnvelope else
     rbind (encode_vault_key_envelope C envelope) (\<lambda>again.
       if again \<noteq> encoded then Inl XE_InvalidEnvelope else Inr envelope))))))))))))))))))"

section \<open>Wrapping and unlocking\<close>

definition wrap_vault_master_key_with_material ::
  "cbor \<Rightarrow> crypto \<Rightarrow> bytes \<Rightarrow> client_kdf_policy \<Rightarrow> bytes \<Rightarrow> bytes \<Rightarrow> bytes \<Rightarrow> crypto_error + bytes" where
  "wrap_vault_master_key_with_material C X password policy master salt nonce =
     rbind (derive_client_kek X password salt policy) (\<lambda>kek.
     let envelope = \<lparr>vk_salt = salt, vk_policy = policy, vk_nonce = nonce, vk_wrapped_vmk = []\<rparr> in
     rbind (vault_key_aad C envelope) (\<lambda>aad.
     rbind (ok_or XE_AuthenticatedEncryption (aead_encrypt X kek nonce aad master)) (\<lambda>wrapped.
       encode_vault_key_envelope C (envelope\<lparr>vk_wrapped_vmk := wrapped\<rparr>))))"

definition wrap_vault_master_key ::
  "cbor \<Rightarrow> crypto \<Rightarrow> bytes option \<times> bytes option \<Rightarrow> bytes \<Rightarrow> client_kdf_policy \<Rightarrow> bytes \<Rightarrow> crypto_error + bytes" where
  "wrap_vault_master_key C X randomness password policy master =
     (case randomness of (salt, nonce) \<Rightarrow>
        rbind (ok_or XE_Random salt) (\<lambda>salt.
        rbind (ok_or XE_Random nonce) (\<lambda>nonce.
          wrap_vault_master_key_with_material C X password policy master salt nonce)))"

definition create_vault_key_envelope ::
  "cbor \<Rightarrow> crypto \<Rightarrow> bytes option \<times> bytes option \<times> bytes option \<Rightarrow> bytes \<Rightarrow> client_kdf_policy \<Rightarrow>
     crypto_error + (bytes \<times> bytes)" where
  "create_vault_key_envelope C X randomness password policy =
     (case randomness of (key, salt, nonce) \<Rightarrow>
        rbind (ok_or XE_Random key) (\<lambda>master.
        rbind (wrap_vault_master_key C X (salt, nonce) password policy master) (\<lambda>envelope.
          Inr (master, envelope))))"

definition unlock_vault_master_key :: "cbor \<Rightarrow> crypto \<Rightarrow> bytes \<Rightarrow> bytes \<Rightarrow> crypto_error + bytes" where
  "unlock_vault_master_key C X password encoded =
     rbind (decode_vault_key_envelope C X encoded) (\<lambda>envelope.
     rbind (derive_client_kek X password (vk_salt envelope) (vk_policy envelope)) (\<lambda>kek.
     rbind (vault_key_aad C envelope) (\<lambda>aad.
     rbind (ok_or XE_AuthenticatedEncryption
       (aead_decrypt X kek (vk_nonce envelope) aad (vk_wrapped_vmk envelope))) (\<lambda>plaintext.
       if length plaintext = 32 then Inr plaintext else Inl XE_InvalidEnvelope))))"

end
