(* ===== verification/Vault_Key_Correct.thy ===== *)
theory Vault_Key_Correct
  imports Vault_Key
begin

text \<open>
  The vault key envelope is a deterministic codec, wrapping and unlocking are inverse, the envelope fits
  what the server stores, and calibration picks the least number of iterations that reaches the target
  time, with a policy the key derivation accepts.
\<close>

section \<open>Calibration\<close>

lemma div_ceil_less: "0 < e \<Longrightarrow> k < div_ceil t e \<longleftrightarrow> k * e < t"
proof -
  assume e: "0 < e"
  have t: "t = t div e * e + t mod e" by simp
  have m: "t mod e < e" using e by simp
  show ?thesis
  proof (cases "k < t div e")
    case True
    then have "(k + 1) * e \<le> t div e * e" by (intro mult_le_mono1) simp
    also have "\<dots> \<le> t" by simp
    finally have "k * e < t" using e by (simp add: less_le_trans)
    with True show ?thesis by (simp add: div_ceil_def)
  next
    case False
    then have k: "t div e * e \<le> k * e" by (intro mult_le_mono1) simp
    show ?thesis
    proof (cases "k = t div e")
      case True
      moreover have "t div e * e < t" if "0 < t mod e" using t that by linarith
      moreover have "t div e * e = t" if "t mod e = 0" using t that by linarith
      ultimately show ?thesis by (simp add: div_ceil_def)
    next
      case neq: False
      with False have "(t div e + 1) * e \<le> k * e" by (intro mult_le_mono1) simp
      moreover have "t < (t div e + 1) * e" using t m by (simp only: distrib_right mult_1_left)
      ultimately have "\<not> k * e < t" by linarith
      with False neq show ?thesis by (simp add: div_ceil_def)
    qed
  qed
qed

definition elapsed_micros :: "nat \<Rightarrow> nat" where
  "elapsed_micros measured = max (measured div 1000) 1"

lemma calibrated_iterations:
  "unat (ck_iterations (select_calibrated_policy platform m measured)) =
     min (max (div_ceil (target_micros platform) (elapsed_micros measured)) 1) 10"
proof -
  have "unat (of_nat (min n 10) :: u32) = min n 10" for n by (simp add: unat_of_nat)
  then show ?thesis by (simp add: select_calibrated_policy_def elapsed_micros_def Let_def)
qed

text \<open>The least and the greatest expected time that the calibration is documented to aim at, in microseconds.\<close>

fun required_micros :: "client_platform_class \<Rightarrow> nat \<times> nat" where
  "required_micros Desktop = (300 * 1000, 800 * 1000)"
| "required_micros Android = (500 * 1000, 1200 * 1000)"

text \<open>
  Measured passes for which the range is kept: ten passes reach it, and either one pass more than the target
  needs still fits, or one pass alone reaches the target within the range.
\<close>

definition calibratable :: "client_platform_class \<Rightarrow> nat \<Rightarrow> bool" where
  "calibratable platform e \<longleftrightarrow> fst (required_micros platform) \<le> 10 * e \<and>
     (target_micros platform + e \<le> snd (required_micros platform) \<or>
      target_micros platform \<le> e \<and> e \<le> snd (required_micros platform))"

lemma target_required:
  "fst (required_micros platform) \<le> target_micros platform \<and> target_micros platform \<le> snd (required_micros platform)"
  by (cases platform) simp_all

lemma calibrated_accepted:
  fixes platform measured
  defines "policy \<equiv> select_calibrated_policy platform (initial_memory_kib platform) measured"
  assumes valid: "\<forall>p. argon2_valid p \<longrightarrow> argon2_params_ok X p"
  shows "(\<exists>params. client_argon2 X policy = Inr params) \<and> ck_memory_kib policy \<le> maximum_memory_kib platform"
proof -
  let ?n = "unat (ck_iterations policy)"
  have "1 \<le> ?n" "?n \<le> 10" by (simp_all add: policy_def calibrated_iterations)
  then have n: "ck_iterations policy \<noteq> 0" "\<not> ck_iterations policy > 10" by (auto simp: word_less_nat_alt)
  have m: "\<not> ck_memory_kib policy < MIN_MEMORY_KIB" "\<not> ck_memory_kib policy > MAX_DESKTOP_MEMORY_KIB"
    "ck_memory_kib policy \<le> maximum_memory_kib platform" "ck_parallelism policy = 1" "8 \<le> unat (ck_memory_kib policy)"
    by (cases platform; simp add: policy_def select_calibrated_policy_def memory_limits Let_def min_def)+
  have "argon2_valid (ck_memory_kib policy, ck_iterations policy, ck_parallelism policy)"
    using n(1) m(4,5) by (simp add: argon2_valid_def word_gt_0)
  with valid n m show ?thesis by (simp add: client_argon2_def Let_def)
qed

lemma calibrated_minimal:
  fixes platform measured
  defines "n \<equiv> unat (ck_iterations (select_calibrated_policy platform (initial_memory_kib platform) measured))"
    and "e \<equiv> elapsed_micros measured" and "t \<equiv> target_micros platform"
  shows "(\<forall>k. 0 < k \<and> k < n \<longrightarrow> k * e < t) \<and> (t \<le> n * e \<or> n = 10) \<and> 1 \<le> n"
proof -
  have n: "n = min (max (div_ceil t e) 1) 10" by (simp add: n_def e_def t_def calibrated_iterations)
  have e: "0 < e" by (simp add: e_def elapsed_micros_def)
  have "k * e < t" if "0 < k" "k < n" for k
    using that div_ceil_less [OF e, of k t] by (auto simp: n min_def max_def split: if_splits)
  moreover have "t \<le> n * e \<or> n = 10"
  proof (cases "n = 10")
    case False
    with n have "\<not> n < div_ceil t e" by (auto simp: min_def max_def split: if_splits)
    then show ?thesis using div_ceil_less [OF e, of n t] by simp
  qed simp
  ultimately show ?thesis by (simp add: n)
qed

text \<open>
  C37. Calibration. For a measured pass that the documented range admits, i.e. ten passes reach the range and one
  pass more than the target needs does not leave it (on a desktop 30 to 300 ms, on Android 50 to 400 ms), or
  one pass alone is between the target and the end of the range, the policy chosen is accepted by
  the key derivation, stays within the platform's memory, takes the least number of passes that reaches
  the target, or ten if ten do not, and its expected time is within the documented range.
\<close>

theorem calibration_minimal:
  fixes platform measured
  assumes "\<forall>p. argon2_valid p \<longrightarrow> argon2_params_ok X p" and "calibratable platform (elapsed_micros measured)"
  defines "policy \<equiv> select_calibrated_policy platform (initial_memory_kib platform) measured"
    and "e \<equiv> elapsed_micros measured" and "t \<equiv> target_micros platform"
  shows "(\<exists>params. client_argon2 X policy = Inr params) \<and>
    ck_memory_kib policy \<le> maximum_memory_kib platform \<and>
    (\<forall>k. 0 < k \<and> k < unat (ck_iterations policy) \<longrightarrow> k * e < t) \<and>
    (t \<le> unat (ck_iterations policy) * e \<or> ck_iterations policy = 10) \<and>
    fst (required_micros platform) \<le> unat (ck_iterations policy) * e \<and>
    unat (ck_iterations policy) * e \<le> snd (required_micros platform)"
proof -
  let ?n = "unat (ck_iterations policy)"
  have least: "(\<forall>k. 0 < k \<and> k < ?n \<longrightarrow> k * e < t) \<and> (t \<le> ?n * e \<or> ?n = 10) \<and> 1 \<le> ?n"
    unfolding policy_def e_def t_def by (rule calibrated_minimal)
  note c = assms(2) [unfolded calibratable_def, folded e_def t_def]
  have low: "fst (required_micros platform) \<le> ?n * e"
  proof (cases "?n = 10")
    case True
    then show ?thesis using c by simp
  next
    case False
    then have "t \<le> ?n * e" using least by blast
    with target_required [of platform] show ?thesis by (simp add: t_def)
  qed
  have high: "?n * e \<le> snd (required_micros platform)"
  proof (cases "?n = 1")
    case True
    with c show ?thesis by auto
  next
    case False
    then obtain k where k: "?n = Suc k" "0 < k" using least by (cases ?n) auto
    have "k < ?n" unfolding k(1) by simp
    with least k(2) have less: "k * e < t" by blast
    have "e \<le> k * e" using k(2) by simp
    with less have "\<not> t \<le> e" by linarith
    with c have "t + e \<le> snd (required_micros platform)" unfolding t_def by blast
    with less have "k * e + e \<le> snd (required_micros platform)" by linarith
    then show ?thesis unfolding k(1) by simp
  qed
  have ten: "?n = 10 \<longrightarrow> ck_iterations policy = 10" by (simp add: word_unat_eq_iff)
  have reach: "t \<le> ?n * e \<or> ck_iterations policy = 10" using least ten by blast
  have accepted: "(\<exists>params. client_argon2 X policy = Inr params) \<and> ck_memory_kib policy \<le> maximum_memory_kib platform"
    unfolding policy_def by (rule calibrated_accepted [OF assms(1)])
  show ?thesis
    by (intro conjI conjunct1 [OF accepted] conjunct2 [OF accepted] conjunct1 [OF least] reach low high)
qed

theorem calibration_minimal_witness:
  "ck_iterations (select_calibrated_policy Desktop (initial_memory_kib Desktop) 130000000) = 4 \<and>
   300000 \<le> 4 * elapsed_micros 130000000 \<and> 4 * elapsed_micros 130000000 \<le> 800000 \<and>
   (\<exists>params. client_argon2 plain_crypto
      (select_calibrated_policy Desktop (initial_memory_kib Desktop) 130000000) = Inr params)"
proof -
  have "\<forall>p. argon2_valid p \<longrightarrow> argon2_params_ok plain_crypto p" by (simp add: plain_crypto_def)
  moreover have "calibratable Desktop (elapsed_micros 130000000)" by (simp add: calibratable_def elapsed_micros_def)
  moreover have n: "ck_iterations (select_calibrated_policy Desktop (initial_memory_kib Desktop) 130000000) = 4"
    by (simp add: select_calibrated_policy_def div_ceil_def)
  ultimately show ?thesis using calibration_minimal [of plain_crypto Desktop 130000000] by simp
qed

text \<open>
  Outside these cases the expected time can leave the range the calibration is documented to stay in: a desktop whose one
  pass takes 499 ms is given two, 998 ms, although one is within 300 to 800 ms.
\<close>

theorem calibration_exceeds_range:
  "ck_iterations (select_calibrated_policy Desktop (initial_memory_kib Desktop) 499000000) = 2 \<and>
   2 * elapsed_micros 499000000 = 998000"
  by (simp add: select_calibrated_policy_def div_ceil_def elapsed_micros_def)

section \<open>Format\<close>

definition wf_vault_key :: "crypto \<Rightarrow> vault_key_envelope \<Rightarrow> bool" where
  "wf_vault_key X v \<longleftrightarrow> is_array SALT_BYTES (vk_salt v) \<and> is_array VMK_NONCE_BYTES (vk_nonce v) \<and>
     is_array WRAPPED_VMK_BYTES (vk_wrapped_vmk v) \<and> (\<exists>params. client_argon2 X (vk_policy v) = Inr params)"

lemma decode_vault_key_sound:
  assumes "decode_vault_key_envelope C X encoded = Inr v"
  shows "wf_vault_key X v \<and> encode_vault_key_envelope C v = Inr encoded"
  using assms unfolding decode_vault_key_envelope_def vmk_expect_key_def vmk_fixed_def
  by (auto simp: result_iffs Let_def wf_vault_key_def split: if_splits dest!: take_fixed_length)

context cbor_format begin

lemma vault_key_size:
  assumes "wf_vault_key X v" and "encode_vault_key_envelope C v = Inr encoded"
  shows "length encoded \<le> 512"
proof -
  let ?p = "vk_policy v"
  have "length (e_map C 7
       @ e_u8 C 0 @ e_u16 C PROTOCOL_VERSION @ e_u8 C 1 @ e_bytes C (vk_salt v)
       @ e_u8 C 2 @ e_u32 C (ck_memory_kib ?p) @ e_u8 C 3 @ e_u32 C (ck_iterations ?p)
       @ e_u8 C 4 @ e_u32 C (ck_parallelism ?p) @ e_u8 C 5 @ e_bytes C (vk_nonce v)
       @ e_u8 C 6 @ e_bytes C (vk_wrapped_vmk v)) \<le> 512"
    using assms(1) head_sizes(2) [of 7] head_sizes(3) [of 0] head_sizes(4) [of PROTOCOL_VERSION]
      head_sizes(3) [of 1] head_sizes(3) [of 2] head_sizes(3) [of 3] head_sizes(3) [of 4]
      head_sizes(3) [of 5] head_sizes(3) [of 6] head_sizes(5) [of "ck_memory_kib ?p"]
      head_sizes(5) [of "ck_iterations ?p"] head_sizes(5) [of "ck_parallelism ?p"]
      head_sizes(8) [of "vk_salt v"] head_sizes(8) [of "vk_nonce v"] head_sizes(8) [of "vk_wrapped_vmk v"]
    by (simp add: wf_vault_key_def vmk_sizes)
  with assms(2) show ?thesis by (simp only: encode_vault_key_envelope_def sum.inject)
qed

lemma vault_key_decodes:
  assumes wf: "wf_vault_key X v" and enc: "encode_vault_key_envelope C v = Inr encoded"
  shows "decode_vault_key_envelope C X encoded = Inr v"
proof -
  obtain params where params: "client_argon2 X (vk_policy v) = Inr params" using wf by (auto simp: wf_vault_key_def)
  obtain salt m i p n w where v: "v = \<lparr>vk_salt = salt, vk_policy = \<lparr>ck_memory_kib = m, ck_iterations = i,
      ck_parallelism = p\<rparr>, vk_nonce = n, vk_wrapped_vmk = w\<rparr>"
    by (metis (full_types) client_kdf_policy.cases vault_key_envelope.cases)
  show ?thesis
    using wf enc params vault_key_size [OF assms] unfolding decode_vault_key_envelope_def v
    by (auto simp: encode_vault_key_envelope_def wf_vault_key_def vmk_sizes Let_def
        vmk_expect_key_def vmk_fixed_def)
qed

end

sublocale cbor_format \<subseteq>
  vault_key: deterministic_codec "encode_vault_key_envelope C" "decode_vault_key_envelope C X" "wf_vault_key X"
  for X
proof
  fix input v
  show "decode_vault_key_envelope C X input = Inr v \<longleftrightarrow>
      wf_vault_key X v \<and> encode_vault_key_envelope C v = Inr input"
    using decode_vault_key_sound [of C X input v] vault_key_decodes [of X v input] by blast
qed

context cbor_format begin

lemmas vault_key_law = vault_key.canonical

end

section \<open>Wrapping and unlocking\<close>

lemma vault_key_aad_free [simp]: "vault_key_aad C (v\<lparr>vk_wrapped_vmk := w\<rparr>) = vault_key_aad C v"
  by (simp add: vault_key_aad_def)

lemma vault_key_opens:
  assumes "cbor_format C" and "crypto_laws X"
    and "is_array 32 key" "is_array 16 salt" "is_array 24 nonce"
    and "create_vault_key_envelope C X (Some key, Some salt, Some nonce) password policy = Inr (master, envelope)"
  shows "unlock_vault_master_key C X password envelope = Inr master \<and> master = key \<and>
    length envelope \<le> MAX_VAULT_KEY_ENVELOPE_BYTES"
proof -
  let ?e = "\<lparr>vk_salt = salt, vk_policy = policy, vk_nonce = nonce, vk_wrapped_vmk = []\<rparr>"
  from assms(6) obtain params kek aad w where
    params: "client_argon2 X policy = Inr params" and key: "master = key"
    and kek: "argon2id X params (CLIENT_KEK_LABEL @ password) salt = Some kek"
    and aad: "vault_key_aad C ?e = Inr aad" and w: "aead_encrypt X kek nonce aad key = Some w"
    and enc: "encode_vault_key_envelope C (?e\<lparr>vk_wrapped_vmk := w\<rparr>) = Inr envelope"
    by (auto simp: create_vault_key_envelope_def wrap_vault_master_key_def
        wrap_vault_master_key_with_material_def derive_client_kek_def Let_def result_iffs)
  let ?v = "?e\<lparr>vk_wrapped_vmk := w\<rparr>"
  have wf: "wf_vault_key X ?v"
    using params length_aead [OF assms(2) w] assms(3-5)
    by (cases params) (simp add: wf_vault_key_def vmk_sizes)
  have dec: "decode_vault_key_envelope C X envelope = Inr ?v"
    using cbor_format.vault_key_law [OF assms(1)] wf enc by blast
  have "vault_key_aad C ?v = Inr aad" using aad by (simp only: vault_key_aad_free)
  with params kek aead_inverse [OF assms(2) w] assms(3)
  have "unlock_vault_master_key C X password envelope = Inr key"
    unfolding unlock_vault_master_key_def dec by (simp add: derive_client_kek_def)
  with key cbor_format.vault_key_size [OF assms(1) wf enc] show ?thesis
    by (simp add: MAX_VAULT_KEY_ENVELOPE_BYTES_def)
qed

text \<open>
  A vault key created with a password is unlocked by that password, and its envelope is within the
  limit the server stores envelopes up to.
\<close>

theorem created_vault_key_unlocks:
  assumes "cbor_format C" and "crypto_laws X"
    and "is_array 32 key" "is_array 16 salt" "is_array 24 nonce"
    and "create_vault_key_envelope C X (Some key, Some salt, Some nonce) password policy = Inr (master, envelope)"
  shows "unlock_vault_master_key C X password envelope = Inr master \<and> master = key \<and>
    length envelope \<le> MAX_VAULT_KEY_ENVELOPE_BYTES"
  by (rule vault_key_opens [OF assms])

definition sample_policy :: client_kdf_policy where
  "sample_policy = \<lparr>ck_memory_kib = MIN_MEMORY_KIB, ck_iterations = 1, ck_parallelism = 1\<rparr>"

theorem created_vault_key_unlocks_witness:
  "\<exists>envelope. create_vault_key_envelope rfc_cbor plain_crypto
      (Some (replicate 32 9), Some (replicate 16 8), Some (replicate 24 7)) [112, 119] sample_policy =
        Inr (replicate 32 9, envelope) \<and>
    unlock_vault_master_key rfc_cbor plain_crypto [112, 119] envelope = Inr (replicate 32 9)"
proof -
  obtain master envelope where e: "create_vault_key_envelope rfc_cbor plain_crypto
      (Some (replicate 32 9), Some (replicate 16 8), Some (replicate 24 7)) [112, 119] sample_policy =
        Inr (master, envelope)"
    by (simp add: create_vault_key_envelope_def wrap_vault_master_key_def derive_client_kek_def
        wrap_vault_master_key_with_material_def client_argon2_def sample_policy_def memory_limits
        plain_crypto_def vault_key_aad_def encode_vault_key_envelope_def Let_def)
  from created_vault_key_unlocks [OF rfc.cbor_format_axioms plain_crypto_laws _ _ _ e] e
  show ?thesis by auto
qed

end
