(* ===== verification/Client_Vault.thy ===== *)
theory Client_Vault
  imports Manifest Vault_Key
begin

text \<open>
  The portable client's vault and device identity: \<open>crates/ll-client/src/vault.rs\<close>, \<open>device.rs\<close> and
  \<open>error.rs\<close>. Random draws, fresh object identifiers and the measured calibration time are arguments.
\<close>

section \<open>Errors\<close>

datatype client_error =
    LE_InvalidBootstrap | LE_InvalidState | LE_InvalidLength | LE_InvalidSequence
  | LE_Crypto crypto_error | LE_Protocol codec_error | LE_Frame frame_error
  | LE_Versioning versioning_error | LE_Noise

section \<open>Unlocked vault\<close>

record unlocked_vault =
  uv_vault_id :: bytes
  uv_master :: bytes
  uv_subkeys :: vault_subkeys

definition create_vault ::
  "cbor \<Rightarrow> crypto \<Rightarrow> bytes option \<times> bytes option \<Rightarrow> nat \<Rightarrow> bytes option \<times> bytes option \<times> bytes option \<Rightarrow>
     bytes \<Rightarrow> bytes \<Rightarrow> client_platform_class \<Rightarrow> client_error + (unlocked_vault \<times> bytes)" where
  "create_vault C X calibration measured material vault_id password platform =
     rbind (map_err LE_Crypto (calibrate_client_kdf X calibration measured platform)) (\<lambda>policy.
     rbind (map_err LE_Crypto (create_vault_key_envelope C X material password policy)) (\<lambda>(master, envelope).
     rbind (map_err LE_Crypto (derive_subkeys X master vault_id)) (\<lambda>subkeys.
       Inr (\<lparr>uv_vault_id = vault_id, uv_master = master, uv_subkeys = subkeys\<rparr>, envelope))))"

definition unlock_vault :: "cbor \<Rightarrow> crypto \<Rightarrow> bytes \<Rightarrow> bytes \<Rightarrow> bytes \<Rightarrow> client_error + unlocked_vault" where
  "unlock_vault C X vault_id password envelope =
     rbind (map_err LE_Crypto (unlock_vault_master_key C X password envelope)) (\<lambda>master.
     rbind (map_err LE_Crypto (derive_subkeys X master vault_id)) (\<lambda>subkeys.
       Inr \<lparr>uv_vault_id = vault_id, uv_master = master, uv_subkeys = subkeys\<rparr>))"

definition vault_encrypt ::
  "cbor \<Rightarrow> crypto \<Rightarrow> bytes option \<times> bytes option \<times> bytes option \<Rightarrow> unlocked_vault \<Rightarrow> bytes \<Rightarrow> u64 \<Rightarrow>
     object_type \<Rightarrow> bytes \<Rightarrow> client_error + bytes" where
  "vault_encrypt C X material v object_id revision object_type cleartext =
     map_err LE_Crypto
       (encrypt_object C X material (uv_subkeys v) (uv_vault_id v) object_id revision object_type cleartext)"

definition vault_decrypt ::
  "cbor \<Rightarrow> crypto \<Rightarrow> unlocked_vault \<Rightarrow> bytes \<Rightarrow> client_error + (object_envelope \<times> bytes)" where
  "vault_decrypt C X v encoded =
     rbind (map_err LE_Crypto (decrypt_object C X (uv_subkeys v) encoded)) (\<lambda>(envelope, clear).
       if oe_vault_id envelope \<noteq> uv_vault_id v then Inl LE_InvalidState else Inr (envelope, clear))"

section \<open>Device identity\<close>

definition DEVICE_SECRET_VERSION :: byte where "DEVICE_SECRET_VERSION = 1"
definition DEVICE_SECRET_BYTES :: nat where "DEVICE_SECRET_BYTES = 49"

record device_identity =
  di_device_id :: bytes
  di_signing_key :: bytes

definition generate_device :: "bytes \<Rightarrow> bytes option \<Rightarrow> client_error + device_identity" where
  "generate_device device_id random =
     rbind (ok_or (LE_Crypto XE_Random) random) (\<lambda>seed.
       Inr \<lparr>di_device_id = device_id, di_signing_key = seed\<rparr>)"

definition device_from_encrypted ::
  "cbor \<Rightarrow> crypto \<Rightarrow> unlocked_vault \<Rightarrow> bytes \<Rightarrow> client_error + device_identity" where
  "device_from_encrypted C X v encoded =
     rbind (map_err LE_Crypto (decrypt_object C X (uv_subkeys v) encoded)) (\<lambda>(envelope, clear).
       if oe_vault_id envelope \<noteq> uv_vault_id v \<or> oe_object_id envelope = replicate 16 0
          \<or> oe_revision envelope \<noteq> 1 \<or> oe_object_type envelope \<noteq> Recovery
          \<or> length clear \<noteq> DEVICE_SECRET_BYTES \<or> clear ! 0 \<noteq> DEVICE_SECRET_VERSION
       then Inl LE_InvalidState
       else
         let device_id = take 16 (drop 1 clear) in
         if device_id \<noteq> oe_object_id envelope then Inl LE_InvalidState
         else Inr \<lparr>di_device_id = device_id, di_signing_key = drop 17 clear\<rparr>)"

definition device_encrypt_for_storage ::
  "cbor \<Rightarrow> crypto \<Rightarrow> bytes option \<times> bytes option \<times> bytes option \<Rightarrow> device_identity \<Rightarrow> unlocked_vault \<Rightarrow>
     client_error + bytes" where
  "device_encrypt_for_storage C X material d v =
     (let clear = DEVICE_SECRET_VERSION # di_device_id d @ di_signing_key d in
      map_err LE_Crypto
        (encrypt_object C X material (uv_subkeys v) (uv_vault_id v) (di_device_id d) 1 Recovery clear))"

definition device_public_key :: "crypto \<Rightarrow> device_identity \<Rightarrow> bytes" where
  "device_public_key X d = ed25519_public X (di_signing_key d)"

definition device_sign :: "crypto \<Rightarrow> device_identity \<Rightarrow> bytes \<Rightarrow> bytes" where
  "device_sign X d msg = ed25519_sign X (di_signing_key d) msg"

section \<open>Commits\<close>

definition create_signed_commit ::
  "cbor \<Rightarrow> crypto \<Rightarrow> bytes option \<times> bytes option \<times> bytes option \<Rightarrow> bytes \<Rightarrow> unlocked_vault \<Rightarrow>
     device_identity \<Rightarrow> bytes list \<Rightarrow> u64 \<Rightarrow> commit_body \<Rightarrow> client_error + bytes" where
  "create_signed_commit C X material object_id v device parents device_sequence body =
     rbind (map_err LE_Versioning (encode_commit_body C body)) (\<lambda>body.
     rbind (vault_encrypt C X material v object_id 1 Commit body) (\<lambda>encrypted_body.
     rbind (map_err LE_Versioning (create_commit C X
       \<lparr>uc_vault_id = uv_vault_id v, uc_parents = parents, uc_device_id = di_device_id device,
        uc_device_sequence = device_sequence, uc_encrypted_body = encrypted_body\<rparr>
       (di_signing_key device))) (\<lambda>commit.
     map_err LE_Versioning (encode_signed_commit C X commit))))"

text \<open>
  What a reader of a record does with it, as \<open>decode_signed_commit_output\<close> of
  \<open>wasm/ll-client-core/src/formats.rs\<close> before it prints the parts.
\<close>

definition open_signed_commit ::
  "cbor \<Rightarrow> crypto \<Rightarrow> unlocked_vault \<Rightarrow> bytes \<Rightarrow> bytes \<Rightarrow> client_error + (signed_commit \<times> commit_body)" where
  "open_signed_commit C X v encoded public_key =
     rbind (map_err LE_Versioning (decode_signed_commit C X encoded)) (\<lambda>commit.
     rbind (map_err LE_Versioning (verify_signed_commit X commit public_key)) (\<lambda>_.
     rbind (vault_decrypt C X v (uc_encrypted_body (sc_unsigned commit))) (\<lambda>(_, clear).
     rbind (map_err LE_Versioning (decode_commit_body C clear)) (\<lambda>body.
       Inr (commit, body)))))"

end
