(* ===== verification/Storage_Start.thy ===== *)
theory Storage_Start
  imports Storage_Commits
begin

text \<open>
  Start-up of the storage: \<open>Storage::initialize\<close> and its helpers in
  \<open>crates/ll-server/src/storage/mod.rs\<close>. Everything after the storage key happens in one
  transaction; a helper that runs in it takes the tables and returns a value with the tables it leaves, or
  an error, after which nothing of the transaction remains. Creating directories and tables
  that exist changes nothing, so a fresh data directory is the state without rows and files.
\<close>

section \<open>Persistent identity\<close>

definition STORAGE_KEY_FILE :: string where "STORAGE_KEY_FILE = ''server-storage.key''"
definition META_INSTANCE_ID :: string where "META_INSTANCE_ID = ''instance_id''"
definition META_VAULT_ID :: string where "META_VAULT_ID = ''vault_id''"
definition META_AUTH_SALT :: string where "META_AUTH_SALT = ''authentication_salt''"
definition META_AUTH_VERIFIER :: string where "META_AUTH_VERIFIER = ''authentication_verifier''"
definition META_ARGON_MEMORY :: string where "META_ARGON_MEMORY = ''argon2_memory_kib''"
definition META_ARGON_ITERATIONS :: string where "META_ARGON_ITERATIONS = ''argon2_iterations''"
definition META_ARGON_PARALLELISM :: string where "META_ARGON_PARALLELISM = ''argon2_parallelism''"
definition META_MIGRATION_VERSION :: string where "META_MIGRATION_VERSION = ''migration_version''"
definition CURRENT_MIGRATION_VERSION :: u32 where "CURRENT_MIGRATION_VERSION = 2"

lemmas meta_keys = META_INSTANCE_ID_def META_VAULT_ID_def META_AUTH_SALT_def META_AUTH_VERIFIER_def
  META_ARGON_MEMORY_def META_ARGON_ITERATIONS_def META_ARGON_PARALLELISM_def META_MIGRATION_VERSION_def
  META_VAULT_KEY_ENVELOPE_def

definition SERVER_DEFAULT :: argon2_policy where
  "SERVER_DEFAULT = \<lparr>memory_kib = 65536, iterations = 3, parallelism = 1\<rparr>"

definition to_be_bytes :: "u32 \<Rightarrow> bytes" where "to_be_bytes v = be_bytes 4 (unat v)"
definition from_be_bytes :: "bytes \<Rightarrow> u32" where "from_be_bytes bs = of_nat (be_nat bs)"

text \<open>The storage handle of the source is the state itself.\<close>

record initialized_storage =
  is_instance_id :: bytes
  is_vault_id :: bytes
  is_authentication_salt :: bytes
  is_argon2_policy :: argon2_policy
  is_authentication_key :: bytes

text \<open>One draw for each call of \<open>random_array\<close>.\<close>

record start_random =
  rn_storage_key :: "bytes option"
  rn_instance_id :: "bytes option"
  rn_vault_id :: "bytes option"
  rn_salt :: "bytes option"

section \<open>Helpers\<close>

definition ensure_storage_key :: "bytes option \<Rightarrow> storage \<Rightarrow> unit st_result" where
  "ensure_storage_key random st =
     (case file_at st STORAGE_KEY_FILE of
        Some bytes \<Rightarrow> if length bytes \<noteq> 32 then (Inl SE_CorruptMetadata, st) else (Inr (), st)
      | None \<Rightarrow>
          (case random of
             None \<Rightarrow> (Inl (SE_Crypto XE_Random), st)
           | Some key \<Rightarrow> (Inr (), put_file STORAGE_KEY_FILE key st)))"

text \<open>The process stops after the file was created, when n bytes of the key are in it.\<close>

definition storage_key_crash :: "nat \<Rightarrow> bytes \<Rightarrow> storage \<Rightarrow> storage" where
  "storage_key_crash n key st = put_file STORAGE_KEY_FILE (take n key) st"

definition validate_migration_version :: "storage \<Rightarrow> storage_error + unit" where
  "validate_migration_version st =
     (case get_meta st META_MIGRATION_VERSION of
        None \<Rightarrow> Inr ()
      | Some value \<Rightarrow>
          if length value \<noteq> 4 then Inl SE_CorruptMetadata
          else let version = from_be_bytes value in
            if 1 \<le> version \<and> version \<le> CURRENT_MIGRATION_VERSION then Inr () else Inl SE_CorruptMetadata)"

definition get_or_create_fixed ::
  "nat \<Rightarrow> string \<Rightarrow> bytes option \<Rightarrow> storage \<Rightarrow> storage_error + (bytes \<times> storage)" where
  "get_or_create_fixed n key random st =
     (case get_meta st key of
        Some value \<Rightarrow> if length value = n then Inr (value, st) else Inl SE_CorruptMetadata
      | None \<Rightarrow>
          rbind (ok_or (SE_Crypto XE_Random) random) (\<lambda>value. Inr (value, set_meta key value st)))"

definition get_or_create_u32 :: "string \<Rightarrow> u32 \<Rightarrow> storage \<Rightarrow> storage_error + (u32 \<times> storage)" where
  "get_or_create_u32 key initial st =
     (case get_meta st key of
        Some value \<Rightarrow> if length value = 4 then Inr (from_be_bytes value, st) else Inl SE_CorruptMetadata
      | None \<Rightarrow> Inr (initial, set_meta key (to_be_bytes initial) st))"

definition load_or_create_policy :: "crypto \<Rightarrow> storage \<Rightarrow> storage_error + (argon2_policy \<times> storage)" where
  "load_or_create_policy X st =
     rbind (get_or_create_u32 META_ARGON_MEMORY (memory_kib SERVER_DEFAULT) st) (\<lambda>(memory, st).
     rbind (get_or_create_u32 META_ARGON_ITERATIONS (iterations SERVER_DEFAULT) st) (\<lambda>(its, st).
     rbind (get_or_create_u32 META_ARGON_PARALLELISM (parallelism SERVER_DEFAULT) st) (\<lambda>(lanes, st).
     let policy = \<lparr>memory_kib = memory, iterations = its, parallelism = lanes\<rparr> in
     rbind (map_err SE_Crypto (argon2 X policy)) (\<lambda>_. Inr (policy, st)))))"

definition check_verifier :: "crypto \<Rightarrow> bytes \<Rightarrow> storage \<Rightarrow> storage_error + storage" where
  "check_verifier X key st =
     (case get_meta st META_AUTH_VERIFIER of
        Some persisted \<Rightarrow>
          if length persisted \<noteq> 32 then Inl SE_CorruptMetadata
          else rbind (map_err (\<lambda>_. SE_PasswordMismatch) (verify_server_auth_verifier X key persisted))
            (\<lambda>_. Inr st)
      | None \<Rightarrow> Inr (set_meta META_AUTH_VERIFIER (server_auth_verifier X key) st))"

section \<open>Initialization\<close>

definition initialize_transaction ::
  "crypto \<Rightarrow> start_random \<Rightarrow> bytes \<Rightarrow> storage \<Rightarrow> storage_error + (initialized_storage \<times> storage)" where
  "initialize_transaction X R password st =
     rbind (validate_migration_version st) (\<lambda>_.
     rbind (get_or_create_fixed 16 META_INSTANCE_ID (rn_instance_id R) st) (\<lambda>(instance_id, st).
     rbind (get_or_create_fixed 16 META_VAULT_ID (rn_vault_id R) st) (\<lambda>(vault_id, st).
     let st = repair_heads vault_id st in
     rbind (get_or_create_fixed 16 META_AUTH_SALT (rn_salt R) st) (\<lambda>(salt, st).
     rbind (load_or_create_policy X st) (\<lambda>(policy, st).
     rbind (map_err SE_Crypto (derive_server_auth_key X password salt policy)) (\<lambda>key.
     rbind (check_verifier X key st) (\<lambda>st.
     let st = set_meta META_MIGRATION_VERSION (to_be_bytes CURRENT_MIGRATION_VERSION) st in
       Inr (\<lparr>is_instance_id = instance_id, is_vault_id = vault_id, is_authentication_salt = salt,
         is_argon2_policy = policy, is_authentication_key = key\<rparr>, st\<lparr>st_vault_id := vault_id\<rparr>))))))))"

definition initialize :: "crypto \<Rightarrow> start_random \<Rightarrow> bytes \<Rightarrow> storage \<Rightarrow> initialized_storage st_result" where
  "initialize X R password st =
     (case ensure_storage_key (rn_storage_key R) st of
        (Inl e, st1) \<Rightarrow> (Inl e, st1)
      | (Inr _, st1) \<Rightarrow>
          (case initialize_transaction X R password st1 of
             Inl e \<Rightarrow> (Inl e, st1)
           | Inr (I, st2) \<Rightarrow> (Inr I, st2)))"

end
