(* ===== verification/Server_Identity.thy ===== *)
theory Server_Identity
  imports Server_State Storage_Start
begin

text \<open>
  The server's Noise identity (\<open>crates/ll-crypto/src/identity.rs\<close>) and the start of the whole server:
  the password of the configuration (\<open>expand_password\<close> and the checks of \<open>ServerConfig::load\<close> in
  \<open>crates/ll-server/src/config.rs\<close>) and \<open>LearningLoopServer::initialize\<close> in \<open>server.rs\<close>. The identity files lie
  in the data directory, with the files of the storage. A text is its Unicode scalar values; a missing
  environment variable and one that is not Unicode are both \<open>None\<close>.
\<close>

section \<open>Identity\<close>

text \<open>
  The hash, key agreement and base32 crates; the base32 encoding is ASCII text, on which
  \<open>to_uppercase\<close> is the ASCII conversion.
\<close>

record identity_crates =
  sha256 :: "bytes \<Rightarrow> bytes"
  base32_unpadded :: "bytes \<Rightarrow> ustr"
  x25519_public :: "bytes \<Rightarrow> bytes"

definition PRIVATE_KEY_FILE :: string where "PRIVATE_KEY_FILE = ''server-identity.key''"
definition PUBLIC_KEY_FILE :: string where "PUBLIC_KEY_FILE = ''server-identity.pub''"

record server_identity =
  id_private_key :: bytes
  id_public_key :: bytes
  id_fingerprint :: ustr

definition ascii_uppercase :: "nat \<Rightarrow> nat" where
  "ascii_uppercase c = (if 97 \<le> c \<and> c \<le> 122 then c - 32 else c)"

definition server_fingerprint :: "identity_crates \<Rightarrow> bytes \<Rightarrow> ustr" where
  "server_fingerprint K public_key =
     ascii ''SHA256:'' @ map ascii_uppercase (base32_unpadded K (sha256 K public_key))"

text \<open>Reading a file of exactly n bytes: a shorter one is an I/O error.\<close>

definition read_exact_file :: "nat \<Rightarrow> string \<Rightarrow> storage \<Rightarrow> crypto_error + bytes" where
  "read_exact_file n path st =
     (case file_at st path of
        None \<Rightarrow> Inl XE_IdentityIo
      | Some contents \<Rightarrow>
          if length contents < n then Inl XE_IdentityIo
          else if length contents > n then Inl XE_InvalidIdentity
          else Inr contents)"

text \<open>\<open>create_new\<close> fails on an existing file.\<close>

definition write_new_file :: "string \<Rightarrow> bytes \<Rightarrow> storage \<Rightarrow> crypto_error + storage" where
  "write_new_file path contents st =
     (case file_at st path of
        Some _ \<Rightarrow> Inl XE_IdentityIo
      | None \<Rightarrow> Inr (put_file path contents st))"

definition identity_private_key :: "bytes option \<Rightarrow> storage \<Rightarrow> crypto_error + (bytes \<times> storage)" where
  "identity_private_key random st =
     (if file_at st PRIVATE_KEY_FILE \<noteq> None
      then rbind (read_exact_file 32 PRIVATE_KEY_FILE st) (\<lambda>key. Inr (key, st))
      else
        rbind (ok_or XE_Random random) (\<lambda>generated.
        rbind (write_new_file PRIVATE_KEY_FILE generated st) (\<lambda>st. Inr (generated, st))))"

definition identity_public_key :: "bytes \<Rightarrow> storage \<Rightarrow> crypto_error + (bytes \<times> storage)" where
  "identity_public_key derived_public st =
     (if file_at st PUBLIC_KEY_FILE \<noteq> None
      then
        rbind (read_exact_file 32 PUBLIC_KEY_FILE st) (\<lambda>persisted.
          if persisted \<noteq> derived_public then Inl XE_InvalidIdentity else Inr (persisted, st))
      else rbind (write_new_file PUBLIC_KEY_FILE derived_public st) (\<lambda>st. Inr (derived_public, st)))"

text \<open>A failure of the second half leaves what the first half wrote.\<close>

definition load_or_create :: "identity_crates \<Rightarrow> bytes option \<Rightarrow> storage \<Rightarrow>
    (crypto_error + server_identity) \<times> storage" where
  "load_or_create K random st =
     (case identity_private_key random st of
        Inl e \<Rightarrow> (Inl e, st)
      | Inr (private_key, st1) \<Rightarrow>
          (case identity_public_key (x25519_public K private_key) st1 of
             Inl e \<Rightarrow> (Inl e, st1)
           | Inr (public_key, st2) \<Rightarrow>
               (Inr \<lparr>id_private_key = private_key, id_public_key = public_key,
                     id_fingerprint = server_fingerprint K public_key\<rparr>, st2)))"

text \<open>The process stops while it writes one of the two files, when n bytes are in it.\<close>

definition identity_crash :: "string \<Rightarrow> nat \<Rightarrow> bytes \<Rightarrow> storage \<Rightarrow> storage" where
  "identity_crash path n contents st = put_file path (take n contents) st"

section \<open>Configured password\<close>

datatype config_error =
    KE_Io | KE_Toml | KE_InvalidListen | KE_InvalidPasswordPlaceholder | KE_MissingPasswordEnvironment
  | KE_WeakPassword

definition strip_prefix :: "'a list \<Rightarrow> 'a list \<Rightarrow> 'a list option" where
  "strip_prefix p xs = (if take (length p) xs = p then Some (drop (length p) xs) else None)"

definition strip_suffix :: "'a list \<Rightarrow> 'a list \<Rightarrow> 'a list option" where
  "strip_suffix p xs = map_option rev (strip_prefix (rev p) (rev xs))"

text \<open>A byte of the UTF-8 form of a name is one of these only if it is the whole character.\<close>

definition is_variable_char :: "nat \<Rightarrow> bool" where
  "is_variable_char c \<longleftrightarrow> 65 \<le> c \<and> c \<le> 90 \<or> 48 \<le> c \<and> c \<le> 57 \<or> c = 95"

fun contains :: "'a list \<Rightarrow> 'a list \<Rightarrow> bool" where
  "contains [] p \<longleftrightarrow> p = []"
| "contains (x # xs) p \<longleftrightarrow> take (length p) (x # xs) = p \<or> contains xs p"

definition expand_password :: "(ustr \<Rightarrow> ustr option) \<Rightarrow> ustr \<Rightarrow> config_error + ustr" where
  "expand_password env input =
     (case Option.bind (strip_prefix (ascii ''${'') input) (strip_suffix (ascii ''}'')) of
        Some name \<Rightarrow>
          if name = [] \<or> \<not> list_all is_variable_char name then Inl KE_InvalidPasswordPlaceholder
          else ok_or KE_MissingPasswordEnvironment (env name)
      | None \<Rightarrow>
          if contains input (ascii ''${'') \<or> contains input (ascii ''}'')
          then Inl KE_InvalidPasswordPlaceholder
          else Inr input)"

text \<open>The password part of \<open>ServerConfig::load\<close>.\<close>

definition load_password :: "(ustr \<Rightarrow> ustr option) \<Rightarrow> ustr \<Rightarrow> config_error + ustr" where
  "load_password env raw =
     rbind (expand_password env raw) (\<lambda>expanded.
       if length expanded < 16 then Inl KE_WeakPassword else Inr expanded)"

section \<open>Start of the server\<close>

datatype server_error = GE_Identity crypto_error | GE_Storage storage_error | GE_ProtocolInitialization

text \<open>\<open>AppState::new\<close> takes the identity and the initialized storage.\<close>

definition app_state_new ::
  "cbor \<Rightarrow> server_identity \<Rightarrow> initialized_storage \<Rightarrow> storage \<Rightarrow> 't server option" where
  "app_state_new C identity I st =
     new_server C
       \<lparr>cf_private_key = id_private_key identity, cf_public_key = id_public_key identity,
        cf_fingerprint = id_fingerprint identity, cf_instance_id = is_instance_id I,
        cf_authentication_salt = is_authentication_salt I, cf_argon2_policy = is_argon2_policy I\<rparr>
       st (is_authentication_key I)"

definition server_initialize ::
  "cbor \<Rightarrow> crypto \<Rightarrow> identity_crates \<Rightarrow> bytes option \<Rightarrow> start_random \<Rightarrow> bytes \<Rightarrow> storage \<Rightarrow>
     (server_error + 't server) \<times> storage" where
  "server_initialize C X K random R password st =
     (case load_or_create K random st of
        (Inl e, st1) \<Rightarrow> (Inl (GE_Identity e), st1)
      | (Inr identity, st1) \<Rightarrow>
          (case initialize X R password st1 of
             (Inl e, st2) \<Rightarrow> (Inl (GE_Storage e), st2)
           | (Inr I, st2) \<Rightarrow>
               (case app_state_new C identity I st2 of
                  None \<Rightarrow> (Inl GE_ProtocolInitialization, st2)
                | Some S \<Rightarrow> (Inr S, st2))))"

end
