(* ===== verification/Client_Channel.thy ===== *)
theory Client_Channel
  imports Client_Vault Server_Identity
begin

text \<open>
  The client's end of the pinned, sequenced Noise channel: \<open>crates/ll-client/src/channel.rs\<close>. An
  operation that takes the channel by mutable reference returns the channel it leaves, also when it
  fails.
\<close>

record ('h, 't) client_channel =
  cc_handshake :: "'h option"
  cc_transport :: "'t option"
  cc_challenge :: "auth_challenge option"
  cc_authentication_context :: "bytes option"
  cc_next_client_sequence :: u64
  cc_next_server_sequence :: u64

definition validate_bootstrap :: "identity_crates \<Rightarrow> bootstrap \<Rightarrow> ustr \<Rightarrow> client_error + unit" where
  "validate_bootstrap K b pinned =
     (let computed = server_fingerprint K (bs_server_static_public_key b) in
      if bs_server_fingerprint b = computed \<and> pinned = computed then Inr () else Inl LE_InvalidBootstrap)"

definition begin_channel ::
  "cbor \<Rightarrow> identity_crates \<Rightarrow> ('h, 't) snow \<Rightarrow> bytes \<Rightarrow> ustr \<Rightarrow>
     client_error + (('h, 't) client_channel \<times> bytes)" where
  "begin_channel C K N encoded_bootstrap pinned_fingerprint =
     rbind (map_err LE_Protocol (decode_bootstrap C encoded_bootstrap)) (\<lambda>bootstrap.
     rbind (validate_bootstrap K bootstrap pinned_fingerprint) (\<lambda>_.
     rbind (map_err LE_Crypto (build_initiator C N (bs_server_static_public_key bootstrap)
       (bs_instance_id bootstrap))) (\<lambda>h.
     let (written, h) = h_write N h [] MAX_HANDSHAKE_BYTES in
     rbind (ok_or LE_Noise written) (\<lambda>msg.
       Inr (\<lparr>cc_handshake = Some h, cc_transport = None, cc_challenge = None,
             cc_authentication_context = None, cc_next_client_sequence = 0,
             cc_next_server_sequence = 0\<rparr>, msg)))))"

definition complete_handshake ::
  "cbor \<Rightarrow> ('h, 't) snow \<Rightarrow> bytes \<Rightarrow> ('h, 't) client_channel \<Rightarrow>
     (client_error + unit) \<times> ('h, 't) client_channel" where
  "complete_handshake C N response ch =
     (case cc_handshake ch of
        None \<Rightarrow> (Inl LE_InvalidState, ch)
      | Some h \<Rightarrow>
          let ch = ch\<lparr>cc_handshake := None\<rparr>; (payload, h) = h_read N h response MAX_HANDSHAKE_BYTES in
          (case payload of
             None \<Rightarrow> (Inl LE_Noise, ch)
           | Some payload \<Rightarrow>
               (case decode_auth_challenge C payload of
                  Inl e \<Rightarrow> (Inl (LE_Protocol e), ch)
                | Inr challenge \<Rightarrow>
                    let context = authentication_context (h_hash N h) (ac_random_challenge challenge)
                          (ac_session_id challenge) in
                    (case into_transport_mode N h of
                       None \<Rightarrow> (Inl LE_Noise, ch)
                     | Some t \<Rightarrow>
                         (Inr (), ch\<lparr>cc_transport := Some t, cc_authentication_context := Some context,
                                    cc_challenge := Some challenge\<rparr>)))))"

definition channel_request ::
  "cbor \<Rightarrow> ('t, 'm) transport_scheme \<Rightarrow> request \<Rightarrow> ('h, 't) client_channel \<Rightarrow>
     (client_error + bytes) \<times> ('h, 't) client_channel" where
  "channel_request C N request ch =
     (case cc_challenge ch of
        None \<Rightarrow> (Inl LE_InvalidState, ch)
      | Some challenge \<Rightarrow>
     (case cc_transport ch of
        None \<Rightarrow> (Inl LE_InvalidState, ch)
      | Some t \<Rightarrow>
     (case encode_client_message C \<lparr>cm_sequence = cc_next_client_sequence ch, cm_request = request\<rparr> of
        Inl e \<Rightarrow> (Inl (LE_Protocol e), ch)
      | Inr msg \<Rightarrow>
          let (records, t) = encrypt_transport_records N t msg; ch = ch\<lparr>cc_transport := Some t\<rparr> in
     (case records of
        Inl e \<Rightarrow> (Inl (LE_Crypto e), ch)
      | Inr records \<Rightarrow>
     (case encode_transport_frame (ac_session_handle challenge) records of
        Inl e \<Rightarrow> (Inl (LE_Frame e), ch)
      | Inr frame \<Rightarrow>
     (case checked_succ (cc_next_client_sequence ch) of
        None \<Rightarrow> (Inl LE_InvalidSequence, ch)
      | Some next \<Rightarrow> (Inr frame, ch\<lparr>cc_next_client_sequence := next\<rparr>)))))))"

text \<open>\<open>ClientChannel::authenticate\<close>.\<close>

definition channel_authenticate ::
  "cbor \<Rightarrow> crypto \<Rightarrow> ('t, 'm) transport_scheme \<Rightarrow> bytes \<Rightarrow> device_identity option \<Rightarrow>
     ('h, 't) client_channel \<Rightarrow> (client_error + bytes) \<times> ('h, 't) client_channel" where
  "channel_authenticate C X N server_password device ch =
     (case cc_challenge ch of
        None \<Rightarrow> (Inl LE_InvalidState, ch)
      | Some challenge \<Rightarrow>
     (case cc_authentication_context ch of
        None \<Rightarrow> (Inl LE_InvalidState, ch)
      | Some context \<Rightarrow>
     (case derive_server_auth_key X server_password (ac_authentication_salt challenge)
             \<lparr>memory_kib = ac_argon2_memory_kib challenge, iterations = ac_argon2_iterations challenge,
              parallelism = ac_argon2_parallelism challenge\<rparr> of
        Inl e \<Rightarrow> (Inl (LE_Crypto e), ch)
      | Inr key \<Rightarrow>
          let (device_id, device_signature) = (case device of
                None \<Rightarrow> (None, None)
              | Some d \<Rightarrow> (Some (di_device_id d), Some (device_sign X d (device_auth_signature_context context)))) in
          channel_request C N (Authenticate (password_proof X key context) device_id device_signature) ch)))"

text \<open>\<open>ClientChannel::register_device\<close>.\<close>

definition channel_register_device ::
  "cbor \<Rightarrow> crypto \<Rightarrow> ('t, 'm) transport_scheme \<Rightarrow> device_identity \<Rightarrow> bytes \<Rightarrow>
     ('h, 't) client_channel \<Rightarrow> (client_error + bytes) \<times> ('h, 't) client_channel" where
  "channel_register_device C X N device encrypted_name ch =
     (case cc_authentication_context ch of
        None \<Rightarrow> (Inl LE_InvalidState, ch)
      | Some context \<Rightarrow>
          let public_key = device_public_key X device;
              signature = device_sign X device
                (registration_signature_context context (di_device_id device) public_key) in
          channel_request C N (RegisterDevice (di_device_id device) public_key encrypted_name signature) ch)"

definition channel_response ::
  "cbor \<Rightarrow> ('t, 'm) transport_scheme \<Rightarrow> bytes \<Rightarrow> ('h, 't) client_channel \<Rightarrow>
     (client_error + response) \<times> ('h, 't) client_channel" where
  "channel_response C N encoded ch =
     (case cc_challenge ch of
        None \<Rightarrow> (Inl LE_InvalidState, ch)
      | Some challenge \<Rightarrow>
     (case decode_transport_frame encoded of
        Inl e \<Rightarrow> (Inl (LE_Frame e), ch)
      | Inr frame \<Rightarrow>
     if tf_session_handle frame \<noteq> ac_session_handle challenge then (Inl LE_InvalidSequence, ch) else
     (case cc_transport ch of
        None \<Rightarrow> (Inl LE_InvalidState, ch)
      | Some t \<Rightarrow>
          let (clear, t) = decrypt_transport_records N t (tf_ciphertext frame); ch = ch\<lparr>cc_transport := Some t\<rparr> in
     (case clear of
        Inl e \<Rightarrow> (Inl (LE_Crypto e), ch)
      | Inr clear \<Rightarrow>
     (case decode_server_message C clear of
        Inl e \<Rightarrow> (Inl (LE_Protocol e), ch)
      | Inr msg \<Rightarrow>
     if sm_sequence msg \<noteq> cc_next_server_sequence ch then (Inl LE_InvalidSequence, ch) else
     (case checked_succ (cc_next_server_sequence ch) of
        None \<Rightarrow> (Inl LE_InvalidSequence, ch)
      | Some next \<Rightarrow> (Inr (sm_response msg), ch\<lparr>cc_next_server_sequence := next\<rparr>)))))))"

end
