(* ===== verification/Message_Sizes.thy ===== *)
theory Message_Sizes
  imports Protocol_Roundtrip Noise_Records
begin

text \<open>
  How long messages get: every request within the protocol limits, and every response but a device
  list that is too long, fits one record stream, and its records one frame.
\<close>

definition MESSAGE_RECORDS :: nat where "MESSAGE_RECORDS = 18"

text \<open>
  Device lists that the protocol and the transport carry: at most 1024 devices, as the client's decoder
  demands, in at most 800000 bytes, with 93 bytes counted for a device beside its name. (1024 names of 4096 bytes,
  which the server accepts, are beyond one record stream.) Every other response is deliverable.
\<close>

definition device_list_bytes :: "device_record list \<Rightarrow> nat" where
  "device_list_bytes ds = sum_list (map (\<lambda>d. 93 + length (dr_encrypted_name d)) ds)"

definition deliverable :: "response \<Rightarrow> bool" where
  "deliverable r \<longleftrightarrow> (\<forall>ds. r = Devices ds \<longrightarrow> length ds \<le> 1024 \<and> device_list_bytes ds \<le> 800000)"

text \<open>Bytes that fit: at most a million, in at most 18 records.\<close>

lemma small_message_fits:
  assumes "n \<le> 1000000"
  shows "record_stream_length n \<le> MAX_TRANSPORT_CIPHERTEXT_BYTES"
proof -
  have "(n + 61440 - 1) div 61440 \<le> (1000000 + 61440 - 1) div 61440"
    using assms by (intro div_le_mono) simp
  then have "(n + 61440 - 1) div 61440 \<le> 17" by simp
  then show ?thesis using assms by (simp add: record_stream_length_def noise_limits protocol_limits)
qed

lemma stream_records:
  assumes "record_stream_length (length msg) \<le> MAX_TRANSPORT_CIPHERTEXT_BYTES"
  shows "length (chunks TRANSPORT_PLAINTEXT_RECORD_BYTES msg) \<le> MESSAGE_RECORDS"
proof -
  have "length msg \<le> 1048576" using assms by (simp add: record_stream_length_def protocol_limits)
  then have "(length msg + 61440 - 1) div 61440 \<le> (1048576 + 61440 - 1) div 61440"
    by (intro div_le_mono) simp
  then show ?thesis
    by (simp add: length_chunks noise_limits MESSAGE_RECORDS_def)
qed

context cbor_format begin

lemma size_items:
  "\<forall>p \<in> set ps. length p \<le> k \<Longrightarrow> length (concat (map (e_bytes C) ps)) \<le> (9 + k) * length ps"
proof (induction ps)
  case (Cons p ps)
  then show ?case using head_sizes(8) [of p] by simp
qed simp

lemma size_fixed_array:
  assumes "\<forall>p \<in> set ps. length p \<le> k"
  shows "length (encode_fixed_array C ps) \<le> 9 + (9 + k) * length ps"
  using size_items [OF assms] head_sizes(1) [of "length ps"] by (simp add: encode_fixed_array_def)

lemma size_optional:
  "\<forall>b. x = Some b \<longrightarrow> length b \<le> k \<Longrightarrow> length (encode_optional_bytes C x) \<le> 9 + k"
  using head_sizes(8) head_sizes(10) by (cases x) (fastforce simp: encode_optional_bytes_def intro: order_trans)+

lemma append_size: "length xs \<le> a \<Longrightarrow> length ys \<le> b \<Longrightarrow> length (xs @ ys) \<le> a + b"
  by simp

lemmas size_rules = append_size head_sizes(1,3-8,10) size_fixed_array size_items size_optional

lemma size_tag: "length (e_array C n @ e_u8 C t) \<le> 18"
  using head_sizes(1) [of n] head_sizes(3) [of t] by simp

lemma size_tag_bytes: "length (e_array C n @ e_u8 C t @ e_bytes C bs) \<le> 27 + length bs"
proof -
  have "length (e_array C n @ e_u8 C t @ e_bytes C bs) \<le> 9 + (9 + (9 + length bs))" by (intro size_rules)
  then show ?thesis by simp
qed

lemma request_size:
  assumes "wf_request q"
  shows "length (encode_request C q) \<le> 272000"
proof (cases q)
  case (Authenticate p d g)
  have "length (encode_request C q) \<le> 9 + (9 + (9 + length p + (9 + 16 + (9 + 64))))"
    unfolding Authenticate encode_request.simps
    by (intro size_rules) (use assms Authenticate in auto)
  with assms Authenticate show ?thesis by simp
next
  case (RegisterDevice i k n g)
  have "length (encode_request C q) \<le> 9 + (9 + (9 + length i + (9 + length k + (9 + length n + (9 + length g)))))"
    unfolding RegisterDevice encode_request.simps by (intro size_rules)
  with assms RegisterDevice show ?thesis by (simp add: protocol_limits)
next
  case (UploadChunk i off c)
  have "length (encode_request C q) \<le> 9 + (9 + (9 + length i + (9 + (9 + length c))))"
    unfolding UploadChunk encode_request.simps by (intro size_rules)
  with assms UploadChunk show ?thesis by (simp add: protocol_limits)
next
  case (GetChanges known m)
  have "length (encode_request C q) \<le> 9 + (9 + (9 + (9 + 32) * length known + 9))"
    unfolding GetChanges encode_request.simps
    by (intro size_rules) (use assms GetChanges in auto)
  with assms GetChanges show ?thesis by (simp add: protocol_limits)
next
  case (BeginUpload n h)
  have "length (encode_request C q) \<le> 9 + (9 + (9 + (9 + length h)))"
    unfolding BeginUpload encode_request.simps by (intro size_rules)
  with assms BeginUpload show ?thesis by simp
next
  case (GetBlob b off m)
  have "length (encode_request C q) \<le> 9 + (9 + (9 + length b + (9 + 9)))"
    unfolding GetBlob encode_request.simps by (intro size_rules)
  with assms GetBlob show ?thesis by simp
qed (use assms in \<open>auto simp: encode_tagged_bytes_def protocol_limits simp del: length_append
    intro: order_trans [OF size_tag] order_trans [OF size_tag_bytes]\<close>)

lemma size_device: "wf_device_record d \<Longrightarrow> length (encode_device C d) \<le> 93 + length (dr_encrypted_name d)"
proof -
  assume wf: "wf_device_record d"
  have "length (encode_device C d) \<le> 9 + (9 + length (dr_device_id d) + (9 + length (dr_public_key d) +
      (9 + length (dr_encrypted_name d) + 9)))"
    unfolding encode_device_def by (intro size_rules)
  with wf show ?thesis by (simp add: wf_device_record_def)
qed

lemma size_devices:
  "\<forall>d \<in> set ds. wf_device_record d \<Longrightarrow> length (concat (map (encode_device C) ds)) \<le> device_list_bytes ds"
proof (induction ds)
  case (Cons d ds)
  then show ?case using size_device [of d] by (simp add: device_list_bytes_def)
qed (simp add: device_list_bytes_def)

lemma response_size:
  assumes "wf_response r" and "deliverable r"
  shows "length (encode_response C r) \<le> 812000"
proof (cases r)
  case (Devices ds)
  have "length (encode_response C r) \<le> 9 + (9 + (9 + device_list_bytes ds))"
    unfolding Devices encode_response.simps by (intro size_rules size_devices) (use assms Devices in simp)
  with assms Devices show ?thesis by (simp add: deliverable_def)
next
  case (Authenticated f v)
  have "length (encode_response C r) \<le> 9 + (9 + (9 + (9 + length v)))"
    unfolding Authenticated encode_response.simps by (intro size_rules)
  with assms Authenticated show ?thesis by simp
next
  case (UploadReady i off)
  have "length (encode_response C r) \<le> 9 + (9 + (9 + length i + 9))"
    unfolding UploadReady encode_response.simps by (intro size_rules)
  with assms UploadReady show ?thesis by simp
next
  case (ChunkAccepted off)
  have "length (encode_response C r) \<le> 9 + (9 + 9)"
    unfolding ChunkAccepted encode_response.simps by (intro size_rules)
  then show ?thesis by simp
next
  case (BlobChunk off n f c)
  have "length (encode_response C r) \<le> 9 + (9 + (9 + (9 + (9 + (9 + length c)))))"
    unfolding BlobChunk encode_response.simps by (intro size_rules)
  with assms BlobChunk show ?thesis by (simp add: protocol_limits)
next
  case (CommitStored i hs)
  have "length (encode_response C r) \<le> 9 + (9 + (9 + length i + (9 + (9 + 32) * length hs)))"
    unfolding CommitStored encode_response.simps by (intro size_rules) (use assms CommitStored in auto)
  with assms CommitStored show ?thesis by (simp add: protocol_limits)
next
  case (Heads hs)
  have "length (encode_response C r) \<le> 9 + (9 + (9 + (9 + 32) * length hs))"
    unfolding Heads encode_response.simps by (intro size_rules) (use assms Heads in auto)
  with assms Heads show ?thesis by (simp add: protocol_limits)
next
  case (Changes cs f)
  have "length (encode_response C r) \<le> 9 + (9 + (9 + ((9 + MAX_SIGNED_COMMIT_BYTES) * length cs + 9)))"
    unfolding Changes encode_response.simps by (intro size_rules) (use assms Changes in auto)
  moreover have "(9 + MAX_SIGNED_COMMIT_BYTES) * length cs \<le> (9 + MAX_SIGNED_COMMIT_BYTES) * 3"
    using assms Changes by (intro mult_le_mono2) (simp add: protocol_limits)
  ultimately show ?thesis by (simp add: protocol_limits)
next
  case (Error e)
  have "length (encode_response C r) \<le> 9 + (9 + 9)"
    unfolding Error encode_response.simps by (intro size_rules)
  then show ?thesis by simp
qed (use assms in \<open>auto simp: encode_tagged_bytes_def encode_vault_stored_def protocol_limits simp del: length_append
    intro: order_trans [OF size_tag] order_trans [OF size_tag_bytes]\<close>)

lemma e_u64_nonempty: "e_u64 C n \<noteq> []"
proof
  assume "e_u64 C n = []"
  then have "d_u64 C r = Some (n, r)" for r using u64_item [of n r] by simp
  from this [of "e_u64 C (n + 1)"] u64_item [of "n + 1" "[]"] show False by simp
qed

lemma client_message_fits:
  assumes "wf_request (cm_request m)"
  obtains b where "encode_client_message C m = Inr b" "b \<noteq> []" "decode_client_message C b = Inr m"
    "record_stream_length (length b) \<le> MAX_TRANSPORT_CIPHERTEXT_BYTES"
proof -
  obtain b where b: "encode_client_message C m = Inr b" by (simp add: encode_client_message_def)
  then have "b = e_array C 3 @ e_u16 C PROTOCOL_VERSION @ e_u64 C (cm_sequence m) @ encode_request C (cm_request m)"
    by (simp add: encode_client_message_def)
  also have "length \<dots> \<le> 9 + (9 + (9 + 272000))" by (intro size_rules request_size [OF assms])
  finally have "record_stream_length (length b) \<le> MAX_TRANSPORT_CIPHERTEXT_BYTES"
    by (intro small_message_fits) simp
  moreover have dec: "decode_client_message C b = Inr m" using b assms by (simp add: client_message_law)
  moreover have "b \<noteq> []" using b e_u64_nonempty by (auto simp: encode_client_message_def)
  ultimately show thesis using b that by blast
qed

lemma server_message_fits:
  assumes "wf_response (sm_response m)" and "deliverable (sm_response m)"
  obtains b where "encode_server_message C m = Inr b" "b \<noteq> []" "decode_server_message C b = Inr m"
    "record_stream_length (length b) \<le> MAX_TRANSPORT_CIPHERTEXT_BYTES"
proof -
  obtain b where b: "encode_server_message C m = Inr b" by (simp add: encode_server_message_def)
  then have "b = e_array C 3 @ e_u16 C PROTOCOL_VERSION @ e_u64 C (sm_sequence m) @ encode_response C (sm_response m)"
    by (simp add: encode_server_message_def)
  also have "length \<dots> \<le> 9 + (9 + (9 + 812000))" by (intro size_rules response_size [OF assms])
  finally have "record_stream_length (length b) \<le> MAX_TRANSPORT_CIPHERTEXT_BYTES"
    by (intro small_message_fits) simp
  moreover have "decode_server_message C b = Inr m" using b assms by (simp add: server_message_law)
  moreover have "b \<noteq> []" using b e_u64_nonempty by (auto simp: encode_server_message_def)
  ultimately show thesis using b that by blast
qed

lemma challenge_size:
  assumes "wf_challenge v" and "encode_auth_challenge C v = Inr b"
  shows "length b \<le> 300"
proof -
  have "b = e_array C 7 @ e_bytes C (ac_session_handle v) @ e_bytes C (ac_authentication_salt v)
       @ e_u32 C (ac_argon2_memory_kib v) @ e_u32 C (ac_argon2_iterations v)
       @ e_u32 C (ac_argon2_parallelism v) @ e_bytes C (ac_random_challenge v)
       @ e_bytes C (ac_session_id v)" using assms(2) by (simp add: encode_auth_challenge_def)
  also have "length \<dots> \<le> 9 + (9 + length (ac_session_handle v) + (9 + length (ac_authentication_salt v) +
      (9 + (9 + (9 + (9 + length (ac_random_challenge v) + (9 + length (ac_session_id v))))))))"
    by (intro size_rules)
  finally show ?thesis using assms(1) by (simp add: wf_challenge_def)
qed

end

end
