(* ===== verification/Service_System.thy ===== *)
theory Service_System
  imports Server_Sequence Service_Responses
begin

text \<open>
  The running server: handshakes and envelope requests of any number of peers, interleaved at
  the points where a request waits, with time passing and requests dropped, also those whose storage job
  goes on without them. The invariant joins the components: storage, session table, requests in flight, jobs left
  behind and rate limiter.
\<close>

section \<open>Steps\<close>

definition REQUEST_TIMEOUT :: nat where "REQUEST_TIMEOUT = seconds 120"

record 't system =
  sy_now :: nat
  sy_server :: "'t server"
  sy_pending :: "(nat \<times> pending) list" \<comment> \<open>with the time of the lookup\<close>
  sy_jobs :: "('t session \<times> request) list" \<comment> \<open>storage jobs whose requests were dropped\<close>

text \<open>The storage is all a job left behind can change: nobody reads its answer.\<close>

definition set_storage :: "storage \<Rightarrow> 't server \<Rightarrow> 't server" where
  "set_storage st S = S\<lparr>sv_application := (sv_application S)\<lparr>ap_storage := st\<rparr>\<rparr>"

text \<open>
  The points at which requests interleave: a request is looked up, then waits for its session, then is handled in
  one step; or it is dropped while it waits for the session, or while its handler waits for a storage
  job. In the last case the job goes on without it and takes effect at any later time or never. A handler, and so a
  job left behind, is one step, its checks and its effect on the storage together: what happens between two
  handlers is any interleaving, what happens within one is not split here (\<open>Upload_Locks\<close> does that for uploads).
\<close>

inductive system_step ::
  "cbor \<Rightarrow> crypto \<Rightarrow> ('h, 't) snow \<Rightarrow> 't system \<Rightarrow> 't system \<Rightarrow> bool" for C X N where
  sys_tick: "sy_now Y \<le> later \<Longrightarrow> system_step C X N Y (Y\<lparr>sy_now := later\<rparr>)"
| sys_handshake: "http_handshake C N (sy_now Y) R ip query body (sy_server Y) = (response, S) \<Longrightarrow>
    system_step C X N Y (Y\<lparr>sy_server := S\<rparr>)"
| sys_refused: "envelope_lookup (sy_now Y) ip query body (sy_server Y) = (Inl response, S) \<Longrightarrow>
    system_step C X N Y (Y\<lparr>sy_server := S\<rparr>)"
| sys_lookup: "envelope_lookup (sy_now Y) ip query body (sy_server Y) = (Inr p, S) \<Longrightarrow>
    system_step C X N Y (Y\<lparr>sy_server := S, sy_pending := (sy_now Y, p) # sy_pending Y\<rparr>)"
| sys_process: "(t, p) \<in> set (sy_pending Y) \<Longrightarrow> sy_now Y < t + REQUEST_TIMEOUT \<Longrightarrow>
    en_now E = sy_now Y \<Longrightarrow> is_array 16 (en_upload_id E) \<Longrightarrow>
    envelope_process C X N E p (sy_server Y) = (response, S) \<Longrightarrow>
    system_step C X N Y (Y\<lparr>sy_server := S, sy_pending := remove1 (t, p) (sy_pending Y)\<rparr>)"
| sys_cancel: "(t, p) \<in> set (sy_pending Y) \<Longrightarrow>
    system_step C X N Y (Y\<lparr>sy_server := envelope_cancel p (sy_server Y),
      sy_pending := remove1 (t, p) (sy_pending Y)\<rparr>)"
| sys_abandon: "(t, p) \<in> set (sy_pending Y) \<Longrightarrow> envelope_abandon C N p (sy_server Y) = Some (j, S) \<Longrightarrow>
    system_step C X N Y (Y\<lparr>sy_server := S, sy_pending := remove1 (t, p) (sy_pending Y), sy_jobs := j # sy_jobs Y\<rparr>)"
| sys_job: "(s, request) \<in> set (sy_jobs Y) \<Longrightarrow> is_array 16 (en_upload_id E) \<Longrightarrow>
    dispatch C X E (sv_application (sy_server Y)) s request = (res, s', A) \<Longrightarrow>
    system_step C X N Y (Y\<lparr>sy_server := set_storage (ap_storage A) (sy_server Y),
      sy_jobs := remove1 (s, request) (sy_jobs Y)\<rparr>)"

inductive_cases system_step_cases: "system_step C X N Y Y'"

inductive running :: "cbor \<Rightarrow> crypto \<Rightarrow> ('h, 't) snow \<Rightarrow> 't system \<Rightarrow> bool" for C X N where
  running_start: "service_inv X st \<Longrightarrow> new_server C config st key = Some S \<Longrightarrow>
    running C X N \<lparr>sy_now = now, sy_server = S, sy_pending = [], sy_jobs = []\<rparr>"
| running_step: "running C X N Y \<Longrightarrow> system_step C X N Y Y' \<Longrightarrow> running C X N Y'"

section \<open>Peers of live sessions stay tracked\<close>

text \<open>The limiter knows the address, and from an event at most a session lifetime before b.\<close>

definition tracked :: "rate_limiter \<Rightarrow> bytes \<Rightarrow> nat \<Rightarrow> bool" where
  "tracked L ip b \<longleftrightarrow> (\<exists>e. map_of L ip = Some e \<and> b \<le> re_last_seen e + SESSION_LIFETIME)"

lemma enter_handshake_seen: "enter_handshake now e = (allowed, e') \<Longrightarrow> re_last_seen e' = now"
  by (auto simp: enter_handshake_def Let_def split: if_splits)

lemma tracked_handshake:
  assumes "distinct (map fst L)" "tracked L ip b" "now < b + REQUEST_TIMEOUT" "b \<le> now + SESSION_LIFETIME"
  shows "tracked (snd (allow_handshake now a L)) ip b"
proof -
  from assms(2) obtain e where e: "map_of L ip = Some e" "b \<le> re_last_seen e + SESSION_LIFETIME"
    by (auto simp: tracked_def)
  have "now - re_last_seen e < ENTRY_RETENTION"
    using e(2) assms(3) by (simp add: rate_limits REQUEST_TIMEOUT_def SESSION_LIFETIME_def)
  then have kept: "map_of (retain_recent now L) ip = Some e" by (simp add: map_of_retain [OF assms(1)] e(1))
  show ?thesis
  proof (cases "ip = a")
    case False
    with allow_handshake_other [OF False, of now L] kept e(2) show ?thesis by (simp add: tracked_def)
  next
    case True
    obtain allowed L' where run: "allow_handshake now a L = (allowed, L')" by fastforce
    from run kept True have "map_of L' a \<noteq> None"
      by (auto simp: allow_handshake_def Let_def update_conv' split: if_splits prod.splits)
    with allow_handshake_self [OF run] enter_handshake_seen True assms(4) run show ?thesis
      by (auto simp: tracked_def)
  qed
qed

lemma tracked_new:
  "allow_handshake now a L = (True, L') \<Longrightarrow> tracked L' a (now + SESSION_LIFETIME)"
  using allow_handshake_self [of now a L True L'] enter_handshake_seen by (auto simp: tracked_def)

lemma tracked_failure:
  "tracked L ip b \<Longrightarrow> b \<le> now + SESSION_LIFETIME \<Longrightarrow> tracked (record_authentication_failure now a L) ip b"
  by (auto simp: tracked_def failure_self fail_entry_def Let_def)

lemma tracked_success:
  "tracked L ip b \<Longrightarrow> b \<le> now + SESSION_LIFETIME \<Longrightarrow> tracked (record_authentication_success now a L) ip b"
  by (cases "ip = a")
    (auto simp: tracked_def success_other record_authentication_success_def update_conv' split: option.splits)

lemma length_update_known: "map_of L a \<noteq> None \<Longrightarrow> length (AList.update a e L) = length L"
  by (induction L) (auto split: if_splits)

lemma length_failure: "tracked L a b \<Longrightarrow> length (record_authentication_failure now a L) = length L"
  by (auto simp: tracked_def record_authentication_failure_def length_update_known)

lemma length_success: "length (record_authentication_success now a L) = length L"
  by (auto simp: record_authentication_success_def length_update_known split: option.split)

lemma length_handshake:
  assumes "length L \<le> MAX_TRACKED_ADDRESSES"
  shows "length (snd (allow_handshake now a L)) \<le> MAX_TRACKED_ADDRESSES"
proof -
  let ?kept = "retain_recent now L"
  have k: "length ?kept \<le> MAX_TRACKED_ADDRESSES" using assms length_retain [of now L] by simp
  show ?thesis
  proof (cases "map_of ?kept a")
    case None
    with k show ?thesis by (auto simp: allow_handshake_def Let_def update_new split: prod.split)
  next
    case (Some e)
    with k show ?thesis by (auto simp: allow_handshake_def Let_def length_update_known split: prod.split)
  qed
qed

section \<open>What a request does to limiter and session\<close>

lemma dispatch_limiter:
  assumes "dispatch C X E A s r = (res, s', A')"
  shows "ap_rate_limiter A' \<in> {ap_rate_limiter A,
    record_authentication_failure (en_now E) (ss_peer_ip s) (ap_rate_limiter A),
    record_authentication_success (en_now E) (ss_peer_ip s) (ap_rate_limiter A)}"
proof (cases "\<exists>p d g. r = Authenticate p d g")
  case True
  with assms show ?thesis
    by (auto simp: authenticate_def note_failure_def note_success_def split: if_splits option.splits sum.splits)
next
  case False
  with assms have "ap_rate_limiter A' = ap_rate_limiter A"
    by (cases r)
      (auto simp: keep_session app_defs with_device_def run_storage_def app_register_device_def
        split: sum.splits if_splits prod.splits)
  then show ?thesis by simp
qed

lemma handle_message_effect:
  assumes run: "handle_message C X N E A s m = (r, s', A')"
    and inv: "service_inv X (ap_storage A)" "wf_request (cm_request m)" "is_array 16 (en_upload_id E)"
  shows "service_inv X (ap_storage A') \<and> touched C X A A' \<and> ss_peer_ip s' = ss_peer_ip s \<and>
    ap_rate_limiter A' \<in> {ap_rate_limiter A,
      record_authentication_failure (en_now E) (ss_peer_ip s) (ap_rate_limiter A),
      record_authentication_success (en_now E) (ss_peer_ip s) (ap_rate_limiter A)}"
  using run
proof (cases rule: handle_message_cases)
  case (handled res s3)
  from dispatch_keeps_invariant_aux [OF inv handled(2)] dispatch_storage [OF inv(2,3) handled(2)]
    dispatch_limiter [OF handled(2)] handled(6)
  show ?thesis by simp
qed (use inv in \<open>simp_all add: touched_def\<close>)

lemma process_envelope_effect:
  assumes C: "cbor_format C" and run: "process_envelope C X N E ip A s records = (r, s', A')"
    and inv: "service_inv X (ap_storage A)" "is_array 16 (en_upload_id E)"
  shows "service_inv X (ap_storage A') \<and> touched C X A A' \<and> ss_peer_ip s' = ss_peer_ip s \<and>
    ap_rate_limiter A' \<in> {ap_rate_limiter A,
      record_authentication_failure (en_now E) (ss_peer_ip s) (ap_rate_limiter A),
      record_authentication_success (en_now E) (ss_peer_ip s) (ap_rate_limiter A)}"
proof (cases "ss_peer_ip s = ip")
  case True
  obtain clear t where d: "decrypt_transport_records N (ss_transport s) records = (clear, t)" by fastforce
  show ?thesis
  proof (cases clear)
    case (Inr bytes)
    show ?thesis
    proof (cases "decode_client_message C bytes")
      case (Inr m)
      then have "wf_request (cm_request m)" using cbor_format.client_message_law [OF C] by blast
      moreover have "handle_message C X N E A (s\<lparr>ss_transport := t\<rparr>) m = (r, s', A')"
        using run d \<open>clear = Inr bytes\<close> Inr True by (simp add: process_envelope_eq)
      ultimately show ?thesis using handle_message_effect [of C X N E A "s\<lparr>ss_transport := t\<rparr>" m r s' A'] inv
        by simp
    qed (use run d Inr True inv in \<open>auto simp: process_envelope_eq touched_def\<close>)
  qed (use run d True inv in \<open>auto simp: process_envelope_eq touched_def\<close>)
qed (use run inv in \<open>auto simp: process_envelope_eq touched_def\<close>)

section \<open>The system invariant\<close>

definition peer_of :: "'t session_store \<Rightarrow> nat \<Rightarrow> bytes" where
  "peer_of S i = ss_peer_ip (sr_objects S ! i)"

definition limiter_inv :: "rate_limiter \<Rightarrow> bool" where
  "limiter_inv L \<longleftrightarrow> distinct (map fst L) \<and> length L \<le> MAX_TRACKED_ADDRESSES"

definition table_inv :: "nat \<Rightarrow> rate_limiter \<Rightarrow> 't session_store \<Rightarrow> bool" where
  "table_inv now L S \<longleftrightarrow> (\<forall>(h, s) \<in> set (sr_sessions S). sn_expires_at s \<le> now + SESSION_LIFETIME \<and>
     (now < sn_expires_at s \<longrightarrow> tracked L (peer_of S (sn_session s)) (sn_expires_at s)))"

definition pending_inv :: "nat \<Rightarrow> rate_limiter \<Rightarrow> 't session_store \<Rightarrow> (nat \<times> pending) list \<Rightarrow> bool" where
  "pending_inv now L S ps \<longleftrightarrow> (\<forall>(t, p) \<in> set ps. t \<le> now \<and> pe_session p < length (sr_objects S) \<and>
     (now < t + REQUEST_TIMEOUT \<longrightarrow> tracked L (peer_of S (pe_session p)) (t + 1)))"

definition system_inv :: "crypto \<Rightarrow> 't system \<Rightarrow> bool" where
  "system_inv X Y \<longleftrightarrow>
     (let S = sv_sessions (sy_server Y); A = sv_application (sy_server Y); L = ap_rate_limiter A in
      service_inv X (ap_storage A) \<and> store_inv S \<and> limiter_inv L \<and>
      table_inv (sy_now Y) L S \<and> pending_inv (sy_now Y) L S (sy_pending Y) \<and>
      (\<forall>(s, request) \<in> set (sy_jobs Y). wf_request request))"

text \<open>A change of the limiter that keeps what matters, and a table that shrinks or keeps its peers.\<close>

definition keeps_tracked :: "nat \<Rightarrow> rate_limiter \<Rightarrow> rate_limiter \<Rightarrow> bool" where
  "keeps_tracked now L L' \<longleftrightarrow> (\<forall>ip b. tracked L ip b \<longrightarrow> now < b + REQUEST_TIMEOUT \<longrightarrow>
     b \<le> now + SESSION_LIFETIME \<longrightarrow> tracked L' ip b)"

lemma keeps_tracked_refl [simp]: "keeps_tracked now L L"
  by (simp add: keeps_tracked_def)

lemma keeps_tracked_handshake: "distinct (map fst L) \<Longrightarrow> keeps_tracked now L (snd (allow_handshake now a L))"
  by (simp add: keeps_tracked_def tracked_handshake)

lemma table_inv_limiter: "table_inv now L S \<Longrightarrow> keeps_tracked now L L' \<Longrightarrow> table_inv now L' S"
  by (auto simp: table_inv_def keeps_tracked_def)

lemma pending_inv_limiter: "pending_inv now L S ps \<Longrightarrow> keeps_tracked now L L' \<Longrightarrow> pending_inv now L' S ps"
  by (auto simp: pending_inv_def keeps_tracked_def SESSION_LIFETIME_def seconds_def)

lemma table_inv_smaller:
  "table_inv now L S \<Longrightarrow> set (sr_sessions S') \<subseteq> set (sr_sessions S) \<Longrightarrow>
     (\<And>i. peer_of S' i = peer_of S i) \<Longrightarrow> table_inv now L S'"
  by (auto simp: table_inv_def)

lemma pending_inv_objects:
  "pending_inv now L S ps \<Longrightarrow> length (sr_objects S') = length (sr_objects S) \<Longrightarrow>
     (\<And>i. peer_of S' i = peer_of S i) \<Longrightarrow> set qs \<subseteq> set ps \<Longrightarrow> pending_inv now L S' qs"
  by (auto simp: pending_inv_def)

lemma later_inv:
  "table_inv now L S \<Longrightarrow> now \<le> later \<Longrightarrow> table_inv later L S"
  "pending_inv now L S ps \<Longrightarrow> now \<le> later \<Longrightarrow> pending_inv later L S ps"
  by (fastforce simp: table_inv_def) (fastforce simp: pending_inv_def)

lemma system_invI:
  assumes "service_inv X (ap_storage (sv_application (sy_server Y)))" "store_inv (sv_sessions (sy_server Y))"
    and "limiter_inv (ap_rate_limiter (sv_application (sy_server Y)))"
    and "table_inv (sy_now Y) (ap_rate_limiter (sv_application (sy_server Y))) (sv_sessions (sy_server Y))"
    and "pending_inv (sy_now Y) (ap_rate_limiter (sv_application (sy_server Y))) (sv_sessions (sy_server Y))
      (sy_pending Y)"
    and "\<forall>(s, request) \<in> set (sy_jobs Y). wf_request request"
  shows "system_inv X Y"
  using assms by (simp add: system_inv_def Let_def)

lemma system_invD:
  assumes "system_inv X Y"
  shows "service_inv X (ap_storage (sv_application (sy_server Y)))" "store_inv (sv_sessions (sy_server Y))"
    "limiter_inv (ap_rate_limiter (sv_application (sy_server Y)))"
    "table_inv (sy_now Y) (ap_rate_limiter (sv_application (sy_server Y))) (sv_sessions (sy_server Y))"
    "pending_inv (sy_now Y) (ap_rate_limiter (sv_application (sy_server Y))) (sv_sessions (sy_server Y))
      (sy_pending Y)"
    "\<forall>(s, request) \<in> set (sy_jobs Y). wf_request request"
  using assms by (simp_all add: system_inv_def Let_def)

end
