(* ===== verification/Client_Session.thy ===== *)
theory Client_Session
  imports Client_Channel Message_Sizes Service_System
begin

text \<open>
  A client and the server on one session: the two ends stay in step, every request the client sends is
  decrypted, dispatched and answered, and the client accepts the answer. The laws of the Noise
  crate are those of a duplex channel, and of the NK handshake that sets it up.
\<close>

section \<open>Two-way channels\<close>

text \<open>
  \<open>D m n a b\<close>: end a can send m more messages to end b, and b can send n to a. Each direction is a
  one-way channel; a budget is an upper bound.
\<close>

definition duplex_laws :: "('t, 'x) transport_scheme \<Rightarrow> (nat \<Rightarrow> nat \<Rightarrow> 't \<Rightarrow> 't \<Rightarrow> bool) \<Rightarrow> bool" where
  "duplex_laws N D \<longleftrightarrow> (\<forall>n. noise_laws N (\<lambda>k. D k n)) \<and> (\<forall>m n a b. D m n a b \<longrightarrow> D n m b a) \<and>
     (\<forall>m m' n a b. D m n a b \<longrightarrow> m' \<le> m \<longrightarrow> D m' n a b)"

lemma duplex_lawsD:
  assumes "duplex_laws N D"
  shows duplex_noise: "noise_laws N (\<lambda>k. D k n)"
    and duplex_sym: "D m n a b \<Longrightarrow> D n m b a"
    and duplex_mono: "D m n a b \<Longrightarrow> m' \<le> m \<Longrightarrow> D m' n a b"
  using assms unfolding duplex_laws_def by blast+

lemma message_passes:
  assumes "duplex_laws N D" and "D (MESSAGE_RECORDS + m) n s r" and "msg \<noteq> []"
    and "record_stream_length (length msg) \<le> MAX_TRANSPORT_CIPHERTEXT_BYTES"
  obtains records s' r' where "encrypt_transport_records N s msg = (Inr records, s')"
    "length records \<le> MAX_TRANSPORT_CIPHERTEXT_BYTES"
    "decrypt_transport_records N r records = (Inr msg, r')" "D m n s' r'"
proof -
  have "D (length (chunks TRANSPORT_PLAINTEXT_RECORD_BYTES msg) + m) n s r"
    by (rule duplex_mono [OF assms(1,2)]) (use stream_records [OF assms(4)] in simp)
  from records_roundtrip [OF duplex_noise [OF assms(1)] this assms(3,4)] assms(4) that show thesis by auto
qed

section \<open>One request\<close>

definition in_step ::
  "(nat \<Rightarrow> nat \<Rightarrow> 't \<Rightarrow> 't \<Rightarrow> bool) \<Rightarrow> nat \<Rightarrow> nat \<Rightarrow> bytes \<Rightarrow> ('h, 't) client_channel \<Rightarrow> 't session \<Rightarrow> bool" where
  "in_step D m n handle ch s \<longleftrightarrow>
     (\<exists>t challenge. cc_transport ch = Some t \<and> D m n t (ss_transport s) \<and>
        cc_challenge ch = Some challenge \<and> ac_session_handle challenge = handle) \<and>
     is_array 32 handle \<and>
     cc_authentication_context ch = Some (ss_authentication_context s) \<and>
     cc_next_client_sequence ch = ss_next_client_sequence s \<and>
     cc_next_server_sequence ch = ss_next_server_sequence s"

text \<open>How many messages the client may still send.\<close>

definition messages_left :: "('t, 'm) session_scheme \<Rightarrow> nat \<Rightarrow> bool" where
  "messages_left s k \<longleftrightarrow> unat (ss_next_client_sequence s) + k \<le> MAX_SESSION_MESSAGES \<and>
     unat (ss_message_count s) + k \<le> MAX_SESSION_MESSAGES \<and>
     unat (ss_next_server_sequence s) + k \<le> MAX_SESSION_MESSAGES"

lemma checked_succ_small: "unat n < MAX_SESSION_MESSAGES \<Longrightarrow> checked_succ n = Some (n + 1)"
  using small_not_max [of n] by (simp add: checked_succ_def)

lemma unat_succ_small: "unat (n :: u64) < MAX_SESSION_MESSAGES \<Longrightarrow> unat (n + 1) = Suc (unat n)"
  using small_not_max [of n] unat_succ by simp

text \<open>The session the handler of the next request sees, with the transport after decryption.\<close>

definition next_request :: "'t \<Rightarrow> 't session \<Rightarrow> 't session" where
  "next_request t s = s\<lparr>ss_transport := t, ss_next_client_sequence := ss_next_client_sequence s + 1,
     ss_message_count := ss_message_count s + 1\<rparr>"

context cbor_format begin

lemma client_sends:
  assumes laws: "duplex_laws N D" and step: "in_step D (MESSAGE_RECORDS + m) n handle ch s"
    and wf: "wf_request q" and left: "unat (ss_next_client_sequence s) < MAX_SESSION_MESSAGES"
  obtains frame ch1 records t1 r1 challenge b where
    "channel_request C N q ch = (Inr frame, ch1)"
    "decode_transport_frame frame = Inr \<lparr>tf_session_handle = handle, tf_ciphertext = records\<rparr>"
    "decrypt_transport_records N (ss_transport s) records = (Inr b, r1)"
    "decode_client_message C b = Inr \<lparr>cm_sequence = ss_next_client_sequence s, cm_request = q\<rparr>"
    "ch1 = ch\<lparr>cc_transport := Some t1, cc_next_client_sequence := ss_next_client_sequence s + 1\<rparr>"
    "D m n t1 r1"
proof -
  obtain t challenge where t: "cc_transport ch = Some t" "D (MESSAGE_RECORDS + m) n t (ss_transport s)"
    and ch: "cc_challenge ch = Some challenge" "ac_session_handle challenge = handle"
    and seq: "cc_next_client_sequence ch = ss_next_client_sequence s" and h: "is_array 32 handle"
    using step by (auto simp: in_step_def)
  let ?msg = "\<lparr>cm_sequence = ss_next_client_sequence s, cm_request = q\<rparr>"
  from wf have "wf_request (cm_request ?msg)" by simp
  then obtain b where b: "encode_client_message C ?msg = Inr b" "b \<noteq> []"
    "decode_client_message C b = Inr ?msg" "record_stream_length (length b) \<le> MAX_TRANSPORT_CIPHERTEXT_BYTES"
    by (rule client_message_fits)
  obtain records t1 r1 where r: "encrypt_transport_records N t b = (Inr records, t1)"
    "length records \<le> MAX_TRANSPORT_CIPHERTEXT_BYTES"
    "decrypt_transport_records N (ss_transport s) records = (Inr b, r1)" "D m n t1 r1"
    by (rule message_passes [OF laws t(2) b(2,4)])
  obtain frame where frame: "encode_transport_frame handle records = Inr frame"
    using r(2) by (simp add: encode_transport_frame_def protocol_limits)
  then have "decode_transport_frame frame = Inr \<lparr>tf_session_handle = handle, tf_ciphertext = records\<rparr>"
    using h by (simp add: transport_frame_iff)
  moreover have "channel_request C N q ch =
      (Inr frame, ch\<lparr>cc_transport := Some t1, cc_next_client_sequence := ss_next_client_sequence s + 1\<rparr>)"
    using t(1) ch seq b(1) r(1) frame left by (simp add: channel_request_def checked_succ_small)
  ultimately show thesis using that r(3,4) b(3) by blast
qed

lemma server_answers:
  assumes laws: "duplex_laws N D" and t: "D (MESSAGE_RECORDS + n) m (ss_transport s) t"
    and wf: "wf_response q" "deliverable q"
    and left: "unat (ss_next_server_sequence s) < MAX_SESSION_MESSAGES"
  obtains records b r1 t1 where
    "encrypted_response C N s q close =
      (Some \<lparr>er_ciphertext_records = records, er_close_session = close\<rparr>,
       s\<lparr>ss_transport := r1, ss_next_server_sequence := ss_next_server_sequence s + 1\<rparr>)"
    "length records \<le> MAX_TRANSPORT_CIPHERTEXT_BYTES"
    "decrypt_transport_records N t records = (Inr b, t1)"
    "decode_server_message C b = Inr \<lparr>sm_sequence = ss_next_server_sequence s, sm_response = q\<rparr>"
    "D n m r1 t1"
proof -
  let ?msg = "\<lparr>sm_sequence = ss_next_server_sequence s, sm_response = q\<rparr>"
  have "wf_response (sm_response ?msg)" "deliverable (sm_response ?msg)" using wf by simp_all
  then obtain b where b: "encode_server_message C ?msg = Inr b" "b \<noteq> []"
    "decode_server_message C b = Inr ?msg" "record_stream_length (length b) \<le> MAX_TRANSPORT_CIPHERTEXT_BYTES"
    by (rule server_message_fits)
  obtain records r1 t1 where r: "encrypt_transport_records N (ss_transport s) b = (Inr records, r1)"
    "length records \<le> MAX_TRANSPORT_CIPHERTEXT_BYTES"
    "decrypt_transport_records N t records = (Inr b, t1)" "D n m r1 t1"
    by (rule message_passes [OF laws t b(2,4)])
  have "encrypted_response C N s q close =
      (Some \<lparr>er_ciphertext_records = records, er_close_session = close\<rparr>,
       s\<lparr>ss_transport := r1, ss_next_server_sequence := ss_next_server_sequence s + 1\<rparr>)"
    using b(1) r(1) left by (simp add: encrypted_response_def Let_def checked_succ_small)
  with r b(3) that show thesis by blast
qed

lemma client_receives:
  assumes frame: "encode_transport_frame handle records = Inr frame" and h: "is_array 32 handle"
    and ch: "cc_challenge ch = Some challenge" "ac_session_handle challenge = handle" "cc_transport ch = Some t"
    and clear: "decrypt_transport_records N t records = (Inr b, t1)"
      "decode_server_message C b = Inr \<lparr>sm_sequence = cc_next_server_sequence ch, sm_response = q\<rparr>"
    and left: "unat (cc_next_server_sequence ch) < MAX_SESSION_MESSAGES"
  shows "channel_response C N frame ch =
    (Inr q, ch\<lparr>cc_transport := Some t1, cc_next_server_sequence := cc_next_server_sequence ch + 1\<rparr>)"
proof -
  have "decode_transport_frame frame = Inr \<lparr>tf_session_handle = handle, tf_ciphertext = records\<rparr>"
    using frame h by (simp add: transport_frame_iff)
  with ch clear left show ?thesis by (simp add: channel_response_def checked_succ_small)
qed

lemma message_handled:
  assumes left: "messages_left s (Suc k)"
    and q: "cm_sequence msg = ss_next_client_sequence s"
    and d: "dispatch C X E A (next_request t s) (cm_request msg) = (res, s3, A')"
    and r: "encrypted_response C N s3 (ar_response res) (ar_close_session res) = (out, s4)"
  shows "handle_message C X N E A (s\<lparr>ss_transport := t\<rparr>) msg = (out, s4, A')"
proof -
  have "unat (ss_message_count s + 1) \<le> MAX_SESSION_MESSAGES"
    using left by (simp add: messages_left_def unat_succ_small)
  then show ?thesis
    using q d r left
    by (simp add: handle_message_def handle_message_by_def checked_succ_small messages_left_def next_request_def Let_def)
qed

lemma request_served:
  assumes laws: "duplex_laws N D" and step: "in_step D (MESSAGE_RECORDS + m) (MESSAGE_RECORDS + n) handle ch s"
    and wf: "wf_request q" and left: "messages_left s (Suc k)"
    and deliv: "\<And>t res s3 A'. dispatch C X E A (next_request t s) q = (res, s3, A') \<Longrightarrow> deliverable (ar_response res)"
    and inv: "service_inv X (ap_storage A)" and u: "is_array 16 (en_upload_id E)"
  obtains frame ch1 records e s' body ch2 t res s3 A' where
    "channel_request C N q ch = (Inr frame, ch1)"
    "decode_transport_frame frame = Inr \<lparr>tf_session_handle = handle, tf_ciphertext = records\<rparr>"
    "process_envelope C X N E (ss_peer_ip s) A s records = (Some e, s', A')"
    "encode_transport_frame handle (er_ciphertext_records e) = Inr body"
    "channel_response C N body ch1 = (Inr (ar_response res), ch2)"
    "dispatch C X E A (next_request t s) q = (res, s3, A')"
    "er_close_session e = ar_close_session res" "ss_phase s' = ss_phase s3"
    "ss_peer_ip s' = ss_peer_ip s" "ss_authentication_context s' = ss_authentication_context s"
    "in_step D m n handle ch2 s'" "messages_left s' k"
proof -
  have small: "unat (ss_next_client_sequence s) < MAX_SESSION_MESSAGES" "unat (ss_message_count s) < MAX_SESSION_MESSAGES"
    "unat (ss_next_server_sequence s) < MAX_SESSION_MESSAGES" using left by (auto simp: messages_left_def)
  obtain frame ch1 records t1 r1 challenge b where c: "channel_request C N q ch = (Inr frame, ch1)"
    "decode_transport_frame frame = Inr \<lparr>tf_session_handle = handle, tf_ciphertext = records\<rparr>"
    "decrypt_transport_records N (ss_transport s) records = (Inr b, r1)"
    "decode_client_message C b = Inr \<lparr>cm_sequence = ss_next_client_sequence s, cm_request = q\<rparr>"
    "ch1 = ch\<lparr>cc_transport := Some t1, cc_next_client_sequence := ss_next_client_sequence s + 1\<rparr>"
    "D m (MESSAGE_RECORDS + n) t1 r1"
    by (rule client_sends [OF laws step wf small(1)])
  obtain res s3 A' where d: "dispatch C X E A (next_request r1 s) q = (res, s3, A')" by (metis prod_cases3)
  have s3: "s3 = (next_request r1 s)\<lparr>ss_phase := ss_phase s3\<rparr>" by (rule dispatch_session [OF d])
  have keep: "ss_transport s3 = r1" "ss_next_server_sequence s3 = ss_next_server_sequence s"
    "ss_next_client_sequence s3 = ss_next_client_sequence s + 1" "ss_message_count s3 = ss_message_count s + 1"
    "ss_peer_ip s3 = ss_peer_ip s" "ss_authentication_context s3 = ss_authentication_context s"
    by (subst s3, simp add: next_request_def)+
  have ok: "wf_response (ar_response res)" "deliverable (ar_response res)"
    using answers_wf [OF inv wf u d] deliv [OF d] by (auto simp: deliverable_def)
  have "D (MESSAGE_RECORDS + n) m (ss_transport s3) t1" using duplex_sym [OF laws c(6)] keep(1) by simp
  then obtain out b' r2 t2 where a: "encrypted_response C N s3 (ar_response res) (ar_close_session res) =
      (Some \<lparr>er_ciphertext_records = out, er_close_session = ar_close_session res\<rparr>,
       s3\<lparr>ss_transport := r2, ss_next_server_sequence := ss_next_server_sequence s3 + 1\<rparr>)"
    "length out \<le> MAX_TRANSPORT_CIPHERTEXT_BYTES" "decrypt_transport_records N t1 out = (Inr b', t2)"
    "decode_server_message C b' = Inr \<lparr>sm_sequence = ss_next_server_sequence s3, sm_response = ar_response res\<rparr>"
    "D n m r2 t2"
    using server_answers [OF laws _ ok] small(3) keep(2) by metis
  let ?s' = "s3\<lparr>ss_transport := r2, ss_next_server_sequence := ss_next_server_sequence s3 + 1\<rparr>"
  have p: "process_envelope C X N E (ss_peer_ip s) A s records =
      (Some \<lparr>er_ciphertext_records = out, er_close_session = ar_close_session res\<rparr>, ?s', A')"
    using c(3,4) message_handled [OF left _ _ a(1), of "\<lparr>cm_sequence = ss_next_client_sequence s, cm_request = q\<rparr>"] d
    by (simp add: process_envelope_eq)
  obtain body where body: "encode_transport_frame handle out = Inr body"
    using a(2) by (simp add: encode_transport_frame_def protocol_limits)
  obtain challenge where chal: "cc_challenge ch = Some challenge" "ac_session_handle challenge = handle"
    and h: "is_array 32 handle" and seq: "cc_next_server_sequence ch = ss_next_server_sequence s"
    and ctx: "cc_authentication_context ch = Some (ss_authentication_context s)"
    using step by (auto simp: in_step_def)
  have rsp: "channel_response C N body ch1 = (Inr (ar_response res),
      ch1\<lparr>cc_transport := Some t2, cc_next_server_sequence := cc_next_server_sequence ch1 + 1\<rparr>)"
    by (rule client_receives [OF body h _ chal(2) _ a(3)])
      (use c(5) chal(1) a(4) seq keep(2) small(3) in simp_all)
  have "in_step D m n handle (ch1\<lparr>cc_transport := Some t2, cc_next_server_sequence := cc_next_server_sequence ch1 + 1\<rparr>) ?s'"
    using c(5) chal h seq ctx keep duplex_sym [OF laws a(5)] by (simp add: in_step_def)
  moreover have "messages_left ?s' k"
    using left keep small by (simp add: messages_left_def unat_succ_small)
  ultimately show thesis
    by (intro that [OF c(1,2) p _ rsp d]) (use body keep in simp_all)
qed

end

end
