(* ===== verification/Client_Conversation.thy ===== *)
theory Client_Conversation
  imports Client_Session
begin

text \<open>
  A whole conversation over HTTP: the client encrypts each request, posts the frame, the server looks the
  session up, decrypts, serves and encrypts, and the client checks and decrypts the answer. The
  specification is the server's dispatcher called directly, one request after the other; the
  conversation refines it.
\<close>

section \<open>Calls\<close>

text \<open>One HTTP request that is not interleaved with others.\<close>

definition post ::
  "cbor \<Rightarrow> crypto \<Rightarrow> ('t, 'x) transport_scheme \<Rightarrow> env \<Rightarrow> bytes \<Rightarrow> bytes \<Rightarrow> 't server \<Rightarrow> http_response \<times> 't server" where
  "post C X N E ip body S =
     (case envelope_lookup (en_now E) ip None body S of
        (Inl response, S) \<Rightarrow> (response, S)
      | (Inr p, S) \<Rightarrow> envelope_process C X N E p S)"

definition client_call ::
  "cbor \<Rightarrow> crypto \<Rightarrow> ('t, 'x) transport_scheme \<Rightarrow> env \<Rightarrow> bytes \<Rightarrow> request \<Rightarrow> ('h, 't) client_channel \<Rightarrow>
     't server \<Rightarrow> response option \<times> ('h, 't) client_channel \<times> 't server" where
  "client_call C X N E ip q ch S =
     (case channel_request C N q ch of
        (Inl _, ch) \<Rightarrow> (None, ch, S)
      | (Inr frame, ch) \<Rightarrow>
          let (response, S) = post C X N E ip frame S in
          if ht_status response \<noteq> 200 then (None, ch, S)
          else (case channel_response C N (ht_body response) ch of
                  (Inl _, ch) \<Rightarrow> (None, ch, S)
                | (Inr r, ch) \<Rightarrow> (Some r, ch, S)))"

text \<open>The requests of a list, until one is not answered.\<close>

fun conversation ::
  "cbor \<Rightarrow> crypto \<Rightarrow> ('t, 'x) transport_scheme \<Rightarrow> bytes \<Rightarrow> (env \<times> request) list \<Rightarrow> ('h, 't) client_channel \<Rightarrow>
     't server \<Rightarrow> response list \<times> ('h, 't) client_channel \<times> 't server" where
  "conversation C X N ip [] ch S = ([], ch, S)"
| "conversation C X N ip ((E, q) # qs) ch S =
     (case client_call C X N E ip q ch S of
        (None, ch, S) \<Rightarrow> ([], ch, S)
      | (Some r, ch, S) \<Rightarrow> let (rs, ch, S) = conversation C X N ip qs ch S in (r # rs, ch, S))"

section \<open>The specification\<close>

text \<open>What the dispatcher reads of a session.\<close>

definition view :: "('t, 'm) session_scheme \<Rightarrow> unit session" where
  "view s = \<lparr>ss_peer_ip = ss_peer_ip s, ss_transport = (),
     ss_authentication_context = ss_authentication_context s, ss_phase = ss_phase s,
     ss_next_client_sequence = 0, ss_next_server_sequence = 0, ss_message_count = 0\<rparr>"

text \<open>Requests served directly, until one closes the session.\<close>

fun serve ::
  "cbor \<Rightarrow> crypto \<Rightarrow> (env \<times> request) list \<Rightarrow> application \<Rightarrow> unit session \<Rightarrow> response list \<times> application" where
  "serve C X [] A v = ([], A)"
| "serve C X ((E, q) # qs) A v =
     (let (res, v', A') = dispatch C X E A v q in
      if ar_close_session res then ([ar_response res], A')
      else let (rs, A'') = serve C X qs A' v' in (ar_response res # rs, A''))"

definition same_view :: "('t, 'm) session_scheme \<Rightarrow> ('u, 'n) session_scheme \<Rightarrow> bool" where
  "same_view s s' \<longleftrightarrow> ss_phase s = ss_phase s' \<and> ss_peer_ip s = ss_peer_ip s' \<and>
     ss_authentication_context s = ss_authentication_context s'"

lemma same_phase [simp]: "s\<lparr>ss_phase := ss_phase s\<rparr> = (s :: 't session)"
  by (cases s) simp

lemma dispatch_view:
  fixes s :: "'t session" and s' :: "'u session"
  assumes v: "same_view s s'" and d: "dispatch C X E A s q = (res, s3, A')"
  shows "dispatch C X E A s' q = (res, s'\<lparr>ss_phase := ss_phase s3\<rparr>, A')"
proof -
  have req: "require_device A s = require_device A s'" for A
    using v by (simp add: require_device_def same_view_def)
  have pw: "password_authenticated s = password_authenticated s'"
    using v by (simp add: password_authenticated_def same_view_def)
  have ph: "s'\<lparr>ss_phase := ss_phase s\<rparr> = s'" using v by (simp add: same_view_def)
  show ?thesis
  proof (cases q)
    case (Authenticate p i g)
    with d v ph show ?thesis
      by (auto simp: authenticate_def note_failure_def note_success_def same_view_def
          split: if_splits option.splits sum.splits)
  next
    case (RegisterDevice i k n g)
    with d v ph pw show ?thesis
      by (auto simp: app_register_device_def same_view_def split: if_splits sum.splits prod.splits)
  qed (use d ph pw in \<open>auto simp: keep_session app_defs with_device_def req\<close>)
qed

section \<open>Posting a frame\<close>

definition session_open :: "bytes \<Rightarrow> nat \<Rightarrow> 't session \<Rightarrow> 't server \<Rightarrow> bool" where
  "session_open handle until s S \<longleftrightarrow> store_inv (sv_sessions S) \<and>
     (\<exists>i. map_of (sr_sessions (sv_sessions S)) handle = Some \<lparr>sn_session = i, sn_expires_at = until\<rparr> \<and>
        sr_objects (sv_sessions S) ! i = s)"

lemma get_open_session:
  assumes "session_open handle until s S" and "now < until"
  obtains i store where "get_session now handle (sv_sessions S) = (Some i, store)"
    "sr_objects store = sr_objects (sv_sessions S)" "sr_objects store ! i = s" "i < length (sr_objects store)"
    "store_inv store" "map_of (sr_sessions store) handle = Some \<lparr>sn_session = i, sn_expires_at = until\<rparr>"
proof -
  from assms(1) obtain i where inv: "store_inv (sv_sessions S)"
    and i: "map_of (sr_sessions (sv_sessions S)) handle = Some \<lparr>sn_session = i, sn_expires_at = until\<rparr>"
    and s: "sr_objects (sv_sessions S) ! i = s" by (auto simp: session_open_def)
  have live: "map_of (retain_live now (sr_sessions (sv_sessions S))) handle = Some \<lparr>sn_session = i, sn_expires_at = until\<rparr>"
    using map_of_filter_values [OF store_invD(1) [OF inv], of "\<lambda>v. now < sn_expires_at v" handle] i assms(2)
    by (simp add: retain_live_def)
  obtain store where g: "get_session now handle (sv_sessions S) = (Some i, store)"
    "sr_sessions store = retain_live now (sr_sessions (sv_sessions S))"
    using live by (simp add: get_session_def Let_def)
  with get_session_inv [OF inv g(1)] live s that show thesis by simp
qed

lemma map_of_delete: "map_of (AList.delete k xs) k = None"
  by (simp add: delete_conv')

lemma post_answered:
  assumes opn: "session_open handle until s S" and now: "en_now E < until"
    and frame: "decode_transport_frame frame = Inr \<lparr>tf_session_handle = handle, tf_ciphertext = records\<rparr>"
    and run: "process_envelope C X N E (ss_peer_ip s) (sv_application S) s records = (Some e, s', A')"
    and body: "encode_transport_frame handle (er_ciphertext_records e) = Inr body"
  obtains S' where "post C X N E (ss_peer_ip s) frame S = (binary_response 200 ''application/octet-stream'' body, S')"
    "sv_application S' = A'" "\<not> er_close_session e \<longrightarrow> session_open handle until s' S'"
    "er_close_session e \<longrightarrow> map_of (sr_sessions (sv_sessions S')) handle = None"
proof -
  obtain i store where g: "get_session (en_now E) handle (sv_sessions S) = (Some i, store)"
    "sr_objects store ! i = s" "i < length (sr_objects store)" "store_inv store"
    "map_of (sr_sessions store) handle = Some \<lparr>sn_session = i, sn_expires_at = until\<rparr>"
    using get_open_session [OF opn now] by metis
  let ?p = "\<lparr>pe_peer_ip = ss_peer_ip s, pe_guard = new_guard handle, pe_session = i, pe_ciphertext = records\<rparr>"
  let ?store1 = "store\<lparr>sr_objects := (sr_objects store)[i := s']\<rparr>"
  let ?store2 = "if er_close_session e then remove_session handle ?store1 else ?store1"
  let ?S' = "S\<lparr>sv_sessions := ?store2, sv_application := A'\<rparr>"
  have look: "envelope_lookup (en_now E) (ss_peer_ip s) None frame S = (Inr ?p, S\<lparr>sv_sessions := store\<rparr>)"
    using frame g(1) by (simp add: envelope_lookup_def)
  have "envelope_process C X N E ?p (S\<lparr>sv_sessions := store\<rparr>) =
      (binary_response 200 ''application/octet-stream'' body, ?S')"
    using run g(2) body by (simp add: envelope_process_def Let_def drop_guard_def disarm_def new_guard_def)
  then have posted: "post C X N E (ss_peer_ip s) frame S = (binary_response 200 ''application/octet-stream'' body, ?S')"
    by (simp add: post_def look)
  have "store_inv ?store1" using g(4) by (simp add: store_inv_def)
  then show thesis
    by (intro that [OF posted]) (use g(3,5) in \<open>simp_all add: session_open_def remove_session_def map_of_delete\<close>)
qed

lemma post_closed:
  assumes "map_of (sr_sessions (sv_sessions S)) handle = None"
    and "decode_transport_frame frame = Inr f" and "tf_session_handle f = handle"
  obtains S' where "post C X N E ip frame S = (empty_response 400, S')" "sv_application S' = sv_application S"
proof -
  have "map_of (retain_live now (sr_sessions (sv_sessions S))) handle = None" for now
    using assms(1) by (auto simp: map_of_eq_None_iff retain_live_def)
  then show thesis using assms(2,3) that by (simp add: post_def envelope_lookup_def get_session_def Let_def)
qed

section \<open>Conversations\<close>

lemma channel_request_frame:
  assumes "channel_request C N q ch = (Inr frame, ch')" "cc_challenge ch = Some challenge"
    and "is_array 32 (ac_session_handle challenge)"
  shows "\<exists>f. decode_transport_frame frame = Inr f \<and> tf_session_handle f = ac_session_handle challenge"
proof -
  obtain records where "encode_transport_frame (ac_session_handle challenge) records = Inr frame"
    using assms(1,2) by (auto simp: channel_request_def Let_def split: option.splits sum.splits prod.splits)
  then have "decode_transport_frame frame =
      Inr \<lparr>tf_session_handle = ac_session_handle challenge, tf_ciphertext = records\<rparr>"
    using assms(3) by (simp add: transport_frame_iff)
  then show ?thesis by simp
qed

lemma closed_conversation:
  assumes "map_of (sr_sessions (sv_sessions S)) handle = None" and "cc_challenge ch = Some challenge"
    and "ac_session_handle challenge = handle" and "is_array 32 handle"
  shows "\<exists>ch' S'. conversation C X N ip qs ch S = ([], ch', S') \<and> sv_application S' = sv_application S"
proof (cases qs)
  case (Cons x rest)
  obtain E q where x: "x = (E, q)" by fastforce
  obtain r ch1 where r: "channel_request C N q ch = (r, ch1)" by fastforce
  have "\<exists>ch' S'. client_call C X N E ip q ch S = (None, ch', S') \<and> sv_application S' = sv_application S"
  proof (cases r)
    case (Inr frame)
    with r have "channel_request C N q ch = (Inr frame, ch1)" by simp
    from channel_request_frame [OF this assms(2)] assms(3,4) obtain f
      where f: "decode_transport_frame frame = Inr f" "tf_session_handle f = handle" by auto
    obtain S' where "post C X N E ip frame S = (empty_response 400, S')" "sv_application S' = sv_application S"
      by (rule post_closed [OF assms(1) f])
    with Inr r show ?thesis
      by (simp add: client_call_def empty_response_def binary_response_def)
  qed (use r in \<open>simp add: client_call_def\<close>)
  with Cons x show ?thesis by force
qed simp

lemma same_view_eq: "same_view s s' \<Longrightarrow> view s = view s'"
  by (simp add: same_view_def view_def)

context cbor_format begin

lemma conversation_refines:
  assumes laws: "duplex_laws N D"
  shows "in_step D (length qs * MESSAGE_RECORDS) (length qs * MESSAGE_RECORDS) handle ch s \<Longrightarrow>
    session_open handle until s S \<Longrightarrow> messages_left s (length qs) \<Longrightarrow>
    service_inv X (ap_storage (sv_application S)) \<Longrightarrow>
    \<forall>(E, q) \<in> set qs. wf_request q \<and> is_array 16 (en_upload_id E) \<and> en_now E < until \<Longrightarrow>
    \<forall>r \<in> set (fst (serve C X qs (sv_application S) (view s))). deliverable r \<Longrightarrow>
    \<exists>rs ch' S'. conversation C X N (ss_peer_ip s) qs ch S = (rs, ch', S') \<and>
      serve C X qs (sv_application S) (view s) = (rs, sv_application S')"
proof (induction qs arbitrary: ch s S)
  case (Cons x qs)
  obtain E q where x: "x = (E, q)" by fastforce
  let ?R = MESSAGE_RECORDS and ?A = "sv_application S"
  from Cons.prems(5) x have q: "wf_request q" "is_array 16 (en_upload_id E)" "en_now E < until"
    and rest: "\<forall>(E, q) \<in> set qs. wf_request q \<and> is_array 16 (en_upload_id E) \<and> en_now E < until"
    by auto
  have step: "in_step D (?R + length qs * ?R) (?R + length qs * ?R) handle ch s" using Cons.prems(1) by simp
  have left: "messages_left s (Suc (length qs))" using Cons.prems(3) by simp
  have deliv: "deliverable (ar_response res)" if d: "dispatch C X E ?A (next_request t s) q = (res, s3, A')" for t res s3 A'
  proof -
    have "same_view (next_request t s) (view s)" by (simp add: same_view_def view_def next_request_def)
    from dispatch_view [OF this d] Cons.prems(6) x show ?thesis by (auto split: if_splits prod.splits)
  qed
  obtain frame ch1 records e s' body ch2 t res s3 A' where c:
    "channel_request C N q ch = (Inr frame, ch1)"
    "decode_transport_frame frame = Inr \<lparr>tf_session_handle = handle, tf_ciphertext = records\<rparr>"
    "process_envelope C X N E (ss_peer_ip s) ?A s records = (Some e, s', A')"
    "encode_transport_frame handle (er_ciphertext_records e) = Inr body"
    "channel_response C N body ch1 = (Inr (ar_response res), ch2)"
    "dispatch C X E ?A (next_request t s) q = (res, s3, A')"
    "er_close_session e = ar_close_session res" "ss_phase s' = ss_phase s3"
    "ss_peer_ip s' = ss_peer_ip s" "ss_authentication_context s' = ss_authentication_context s"
    "in_step D (length qs * ?R) (length qs * ?R) handle ch2 s'"
    "messages_left s' (length qs)"
    by (rule request_served [OF laws step q(1) left deliv Cons.prems(4) q(2)])
  obtain S' where p: "post C X N E (ss_peer_ip s) frame S = (binary_response 200 ''application/octet-stream'' body, S')"
    "sv_application S' = A'" "\<not> er_close_session e \<longrightarrow> session_open handle until s' S'"
    "er_close_session e \<longrightarrow> map_of (sr_sessions (sv_sessions S')) handle = None"
    by (rule post_answered [OF Cons.prems(2) q(3) c(2-4)])
  have call: "client_call C X N E (ss_peer_ip s) q ch S = (Some (ar_response res), ch2, S')"
    using c(1,5) p(1) by (simp add: client_call_def binary_response_def)
  have "same_view (next_request t s) (view s)" by (simp add: same_view_def view_def next_request_def)
  from dispatch_view [OF this c(6)] have d: "dispatch C X E ?A (view s) q = (res, (view s)\<lparr>ss_phase := ss_phase s3\<rparr>, A')" .
  have v: "(view s)\<lparr>ss_phase := ss_phase s3\<rparr> = view s'" using c(8-10) by (simp add: view_def)
  show ?case
  proof (cases "ar_close_session res")
    case True
    obtain challenge where "cc_challenge ch2 = Some challenge" "ac_session_handle challenge = handle" "is_array 32 handle"
      using c(11) by (auto simp: in_step_def)
    with p(4) c(7) True have "map_of (sr_sessions (sv_sessions S')) handle = None" by simp
    from closed_conversation [OF this \<open>cc_challenge ch2 = _\<close> \<open>_ = handle\<close> \<open>is_array 32 handle\<close>] obtain ch' S''
      where "conversation C X N (ss_peer_ip s) qs ch2 S' = ([], ch', S'')" "sv_application S'' = sv_application S'"
      by blast
    with call d True x p(2) show ?thesis by simp
  next
    case False
    have inv: "service_inv X (ap_storage (sv_application S'))"
      using dispatch_keeps_invariant_aux [OF Cons.prems(4) q(1,2) c(6)] p(2) by simp
    have opn: "session_open handle until s' S'" using p(3) False c(7) by simp
    have "\<forall>r \<in> set (fst (serve C X qs (sv_application S') (view s'))). deliverable r"
      using Cons.prems(6) x d v False p(2) by (auto split: prod.splits)
    from Cons.IH [OF c(11) opn c(12) inv rest this] obtain rs ch' S'' where
      "conversation C X N (ss_peer_ip s') qs ch2 S' = (rs, ch', S'')"
      "serve C X qs (sv_application S') (view s') = (rs, sv_application S'')" by blast
    with call d False x v p(2) c(9) show ?thesis by simp
  qed
qed simp

end

end
