(* ===== verification/Client_Login.thy ===== *)
theory Client_Login
  imports Client_Conversation
begin

text \<open>
  From the bootstrap document to an authenticated session: the client pins the server's key, the NK
  handshake gives both ends the same hash and a channel, the server opens a session, and the client's
  password and device proofs are the ones the server checks.
\<close>

section \<open>The NK handshake\<close>

definition NK_OVERHEAD :: nat where "NK_OVERHEAD = 48" \<comment> \<open>an ephemeral key and a tag\<close>
definition NONCE_LIMIT :: nat where "NONCE_LIMIT = 2 ^ 64 - 1"

text \<open>
  What the crate promises of the suite the code uses, whose NK pattern has two messages, for an initiator that knows
  the responder's key: the first message (e, es) with no payload is an ephemeral key and a tag; each
  message is read by the other side as long as it stays below the limit of a Noise message; and at the end
  both have the same hash and the two ends of a fresh channel. Nothing is demanded of other suites.
\<close>

definition nk_laws ::
  "(bytes \<Rightarrow> bytes) \<Rightarrow> ('h, 't) snow \<Rightarrow> (nat \<Rightarrow> nat \<Rightarrow> 't \<Rightarrow> 't \<Rightarrow> bool) \<Rightarrow> bool" where
  "nk_laws pub N D \<longleftrightarrow>
     (\<forall>key prologue hi hr cap buf.
        build_initiator_state N NOISE_SUITE (pub key) prologue = Some hi \<longrightarrow>
        build_responder N NOISE_SUITE key prologue = Some hr \<longrightarrow> NK_OVERHEAD \<le> cap \<longrightarrow>
        (\<exists>m1 hi1 hr1. h_write N hi [] cap = (Some m1, hi1) \<and> length m1 = NK_OVERHEAD \<and>
           h_read N hr m1 buf = (Some [], hr1) \<and>
           (\<forall>payload cap' buf'. length payload + NK_OVERHEAD \<le> MAX_NOISE_MESSAGE_BYTES \<longrightarrow>
              length payload + NK_OVERHEAD \<le> cap' \<longrightarrow> length payload \<le> buf' \<longrightarrow>
              (\<exists>m2 hr2 hi2 ti tr. h_write N hr1 payload cap' = (Some m2, hr2) \<and>
                 h_read N hi1 m2 buf' = (Some payload, hi2) \<and> h_hash N hi2 = h_hash N hr2 \<and>
                 into_transport_mode N hi2 = Some ti \<and> into_transport_mode N hr2 = Some tr \<and>
                 D NONCE_LIMIT NONCE_LIMIT ti tr))))"

lemma nk_lawsE:
  assumes "nk_laws pub N D" and "build_initiator_state N NOISE_SUITE (pub key) prologue = Some hi"
    and "build_responder N NOISE_SUITE key prologue = Some hr" and "length payload + NK_OVERHEAD \<le> MAX_HANDSHAKE_BYTES"
  obtains m1 hi1 hr1 m2 hr2 hi2 ti tr where "h_write N hi [] MAX_HANDSHAKE_BYTES = (Some m1, hi1)"
    "length m1 = NK_OVERHEAD" "h_read N hr m1 MAX_HANDSHAKE_BYTES = (Some [], hr1)"
    "h_write N hr1 payload MAX_HANDSHAKE_BYTES = (Some m2, hr2)"
    "h_read N hi1 m2 MAX_HANDSHAKE_BYTES = (Some payload, hi2)" "h_hash N hi2 = h_hash N hr2"
    "into_transport_mode N hi2 = Some ti" "into_transport_mode N hr2 = Some tr" "D NONCE_LIMIT NONCE_LIMIT ti tr"
proof -
  have "NK_OVERHEAD \<le> MAX_HANDSHAKE_BYTES" "length payload \<le> MAX_HANDSHAKE_BYTES"
    "length payload + NK_OVERHEAD \<le> MAX_NOISE_MESSAGE_BYTES" using assms(4) by (simp_all add: protocol_limits noise_limits)
  then show thesis
    using assms that unfolding nk_laws_def by (metis (no_types, lifting))
qed

text \<open>A snow without secrets whose handshake state counts the messages, for evaluation.\<close>

definition plain_snow :: "(nat, nat) snow" where
  "plain_snow =
     \<lparr>t_write = t_write counting_transport, t_read = t_read counting_transport,
      build_responder = \<lambda>suite key prologue. Some 0, build_initiator_state = \<lambda>suite key prologue. Some 0,
      h_read = \<lambda>h m buf. if length m \<le> buf + 48 then (Some (drop 48 m), h + 1) else (None, h),
      h_write = \<lambda>h p cap. if length p + 48 \<le> cap then (Some (replicate 48 0 @ p), h + 1) else (None, h),
      h_hash = \<lambda>h. be_bytes 32 h, into_transport_mode = \<lambda>h. Some 0\<rparr>"

lemma plain_snow_duplex: "duplex_laws plain_snow (\<lambda>m n s r. s = r)"
  by (simp add: duplex_laws_def noise_laws_def plain_snow_def counting_transport_def NOISE_TAG_BYTES_def)

lemma plain_snow_nk: "nk_laws pub plain_snow (\<lambda>m n s r. s = r)"
  by (simp add: nk_laws_def plain_snow_def NK_OVERHEAD_def)

section \<open>The handshake\<close>

text \<open>The server publishes the key and fingerprint it uses.\<close>

definition server_ok :: "cbor \<Rightarrow> identity_crates \<Rightarrow> 't server \<Rightarrow> bool" where
  "server_ok C K S \<longleftrightarrow>
     (let c = sv_config S; b = \<lparr>bs_protocol_version = PROTOCOL_VERSION, bs_instance_id = cf_instance_id c,
         bs_noise_suite = NOISE_SUITE, bs_server_static_public_key = cf_public_key c,
         bs_server_fingerprint = cf_fingerprint c, bs_maximum_handshake_bytes = of_nat MAX_HANDSHAKE_BYTES,
         bs_maximum_transport_bytes = of_nat MAX_TRANSPORT_CIPHERTEXT_BYTES\<rparr> in
      encode_bootstrap C b = Inr (sv_bootstrap S) \<and>
      cf_public_key c = x25519_public K (cf_private_key c) \<and>
      cf_fingerprint c = server_fingerprint K (cf_public_key c) \<and> wf_str (cf_fingerprint c) \<and>
      is_array 32 (cf_public_key c) \<and> is_array 16 (cf_instance_id c) \<and> is_array 16 (cf_authentication_salt c))"

text \<open>The random draws of a handshake, all available.\<close>

definition wf_draws :: "handshake_random \<Rightarrow> bytes \<Rightarrow> bool" where
  "wf_draws R handle \<longleftrightarrow> hr_session_handle R = Some handle \<and> is_array 32 handle \<and>
     (\<exists>c i. hr_random_challenge R = Some c \<and> is_array 32 c \<and> hr_session_id R = Some i \<and> is_array 16 i)"

text \<open>The server has room for a session under a handle, and admits the peer.\<close>

definition admits :: "nat \<Rightarrow> bytes \<Rightarrow> bytes \<Rightarrow> 't server \<Rightarrow> bool" where
  "admits now ip handle S \<longleftrightarrow>
     fst (allow_handshake now ip (ap_rate_limiter (sv_application S))) \<and>
     length (retain_live now (sr_sessions (sv_sessions S))) < MAX_SESSIONS \<and>
     map_of (retain_live now (sr_sessions (sv_sessions S))) handle = None \<and> store_inv (sv_sessions S)"

context cbor_format begin

lemma challenge_decodes: "wf_challenge v \<Longrightarrow> encode_auth_challenge C v = Inr b \<Longrightarrow> decode_auth_challenge C b = Inr v"
  using challenge_roundtrip [of v] by simp

lemma handshake_in_step:
  assumes laws: "nk_laws (x25519_public K) N D" and ok: "server_ok C K S"
    and draws: "wf_draws R handle" and adm: "admits now ip handle S"
    and prologue: "encode_noise_prologue C (cf_instance_id (sv_config S)) = Inr p"
    and hi: "build_initiator_state N NOISE_SUITE (cf_public_key (sv_config S)) p = Some hi"
    and hr: "build_responder N NOISE_SUITE (cf_private_key (sv_config S)) p = Some hr"
  obtains ch msg rsp S' ch' s challenge where
    "begin_channel C K N (ht_body (http_bootstrap None S)) (cf_fingerprint (sv_config S)) = Inr (ch, msg)"
    "http_handshake C N now R ip None msg S = (binary_response 200 ''application/octet-stream'' rsp, S')"
    "complete_handshake C N rsp ch = (Inr (), ch')" "in_step D NONCE_LIMIT NONCE_LIMIT handle ch' s"
    "session_open handle (now + SESSION_LIFETIME) s S'" "ss_phase s = AwaitingPassword" "ss_peer_ip s = ip"
    "messages_left s MAX_SESSION_MESSAGES"
    "sv_application S' = (sv_application S)\<lparr>ap_rate_limiter := snd (allow_handshake now ip (ap_rate_limiter (sv_application S)))\<rparr>"
    "cc_challenge ch' = Some challenge" "ac_authentication_salt challenge = cf_authentication_salt (sv_config S)"
    "ac_argon2_memory_kib challenge = memory_kib (cf_argon2_policy (sv_config S))"
    "ac_argon2_iterations challenge = iterations (cf_argon2_policy (sv_config S))"
    "ac_argon2_parallelism challenge = parallelism (cf_argon2_policy (sv_config S))"
proof -
  let ?c = "sv_config S"
  let ?b = "\<lparr>bs_protocol_version = PROTOCOL_VERSION, bs_instance_id = cf_instance_id ?c,
     bs_noise_suite = NOISE_SUITE, bs_server_static_public_key = cf_public_key ?c,
     bs_server_fingerprint = cf_fingerprint ?c, bs_maximum_handshake_bytes = of_nat MAX_HANDSHAKE_BYTES,
     bs_maximum_transport_bytes = of_nat MAX_TRANSPORT_CIPHERTEXT_BYTES\<rparr>"
  have enc: "encode_bootstrap C ?b = Inr (sv_bootstrap S)" and pub: "cf_public_key ?c = x25519_public K (cf_private_key ?c)"
    and fp: "cf_fingerprint ?c = server_fingerprint K (cf_public_key ?c)" "wf_str (cf_fingerprint ?c)"
    and len: "is_array 32 (cf_public_key ?c)" "is_array 16 (cf_instance_id ?c)" "is_array 16 (cf_authentication_salt ?c)"
    using ok unfolding server_ok_def Let_def by blast+
  obtain rc i where r: "hr_session_handle R = Some handle" "is_array 32 handle" "hr_random_challenge R = Some rc"
    "is_array 32 rc" "hr_session_id R = Some i" "is_array 16 i" using draws by (auto simp: wf_draws_def)
  let ?v = "\<lparr>ac_session_handle = handle, ac_authentication_salt = cf_authentication_salt ?c,
    ac_argon2_memory_kib = memory_kib (cf_argon2_policy ?c), ac_argon2_iterations = iterations (cf_argon2_policy ?c),
    ac_argon2_parallelism = parallelism (cf_argon2_policy ?c), ac_random_challenge = rc, ac_session_id = i\<rparr>"
  have wfv: "wf_challenge ?v" using r len by (simp add: wf_challenge_def)
  obtain cb where cb: "encode_auth_challenge C ?v = Inr cb" by (simp add: encode_auth_challenge_def)
  have cb_len: "length cb \<le> 300" by (rule challenge_size [OF wfv cb])
  then have fits: "length cb + NK_OVERHEAD \<le> MAX_HANDSHAKE_BYTES" by (simp add: NK_OVERHEAD_def protocol_limits)
  obtain m1 hi1 hr1 m2 hr2 hi2 ti tr where h: "h_write N hi [] MAX_HANDSHAKE_BYTES = (Some m1, hi1)"
    "length m1 = NK_OVERHEAD" "h_read N hr m1 MAX_HANDSHAKE_BYTES = (Some [], hr1)"
    "h_write N hr1 cb MAX_HANDSHAKE_BYTES = (Some m2, hr2)"
    "h_read N hi1 m2 MAX_HANDSHAKE_BYTES = (Some cb, hi2)" "h_hash N hi2 = h_hash N hr2"
    "into_transport_mode N hi2 = Some ti" "into_transport_mode N hr2 = Some tr" "D NONCE_LIMIT NONCE_LIMIT ti tr"
    by (rule nk_lawsE [OF laws _ hr fits, of hi]) (use hi pub in simp_all)
  have dec: "decode_bootstrap C (sv_bootstrap S) = Inr ?b"
    using bootstrap_roundtrip [of ?b] enc fp(2) len by (simp add: wf_bootstrap_def)
  let ?ch = "\<lparr>cc_handshake = Some hi1, cc_transport = None, cc_challenge = None, cc_authentication_context = None,
    cc_next_client_sequence = 0, cc_next_server_sequence = 0\<rparr>"
  have start: "begin_channel C K N (ht_body (http_bootstrap None S)) (cf_fingerprint ?c) = Inr (?ch, m1)"
    using dec fp(1) hi prologue h(1)
    by (simp add: begin_channel_def http_bootstrap_def binary_response_def validate_bootstrap_def
        build_initiator_def)
  let ?ctx = "authentication_context (h_hash N hr2) rc i"
  let ?s = "\<lparr>ss_peer_ip = ip, ss_transport = tr, ss_authentication_context = ?ctx, ss_phase = AwaitingPassword,
    ss_next_client_sequence = 0, ss_next_server_sequence = 0, ss_message_count = 0\<rparr>"
  have acc: "accept_handshake C N (cf_private_key ?c) (cf_instance_id ?c) m1 cb =
      Inr \<lparr>ah_handshake_hash = h_hash N hr2, ah_transport = tr, ah_response = m2\<rparr>"
    using prologue hr h cb_len by (simp add: accept_handshake_def NK_OVERHEAD_def protocol_limits)
  have prep: "prepare_session C N ?c R ip m1 = Some (handle, ?s, m2)"
    using r cb acc by (simp add: prepare_session_def)
  obtain L where L: "allow_handshake now ip (ap_rate_limiter (sv_application S)) = (True, L)"
    using adm by (cases "allow_handshake now ip (ap_rate_limiter (sv_application S))") (simp add: admits_def)
  let ?live = "retain_live now (sr_sessions (sv_sessions S))"
  let ?entry = "\<lparr>sn_session = length (sr_objects (sv_sessions S)), sn_expires_at = now + SESSION_LIFETIME\<rparr>"
  let ?store = "(sv_sessions S)\<lparr>sr_sessions := AList.update handle ?entry ?live, sr_objects := sr_objects (sv_sessions S) @ [?s]\<rparr>"
  have ins: "insert_session now handle ?s (sv_sessions S) = (True, ?store)"
    using adm by (simp add: insert_session_def admits_def)
  let ?S' = "(set_limiter L S)\<lparr>sv_sessions := ?store\<rparr>"
  have hs: "http_handshake C N now R ip None m1 S = (binary_response 200 ''application/octet-stream'' m2, ?S')"
    using h(2) L prep ins
    by (auto simp: http_handshake_def handshake_def set_limiter_def NK_OVERHEAD_def protocol_limits)
  let ?ch' = "?ch\<lparr>cc_handshake := None, cc_transport := Some ti, cc_authentication_context := Some ?ctx, cc_challenge := Some ?v\<rparr>"
  have fin: "complete_handshake C N m2 ?ch = (Inr (), ?ch')"
    using h(5-7) challenge_decodes [OF wfv cb] by (simp add: complete_handshake_def)
  have "store_inv ?store" using insert_session_inv [OF _ ins] adm by (simp add: admits_def)
  then have opn: "session_open handle (now + SESSION_LIFETIME) ?s ?S'"
    by (simp add: session_open_def update_conv')
  have "in_step D NONCE_LIMIT NONCE_LIMIT handle ?ch' ?s" using h(9) r(2) by (simp add: in_step_def)
  then show thesis
    by (intro that [OF start hs fin _ opn, where challenge = ?v]) (use L in \<open>simp_all add: messages_left_def set_limiter_def\<close>)
qed

end

section \<open>Authentication\<close>

definition login_request :: "crypto \<Rightarrow> bytes \<Rightarrow> bytes \<Rightarrow> device_identity option \<Rightarrow> request" where
  "login_request X key context device =
     Authenticate (password_proof X key context) (map_option di_device_id device)
       (map_option (\<lambda>d. device_sign X d (device_auth_signature_context context)) device)"

text \<open>The device is registered with its key and not revoked.\<close>

definition registered :: "crypto \<Rightarrow> storage \<Rightarrow> device_identity \<Rightarrow> bool" where
  "registered X st d \<longleftrightarrow> is_array 16 (di_device_id d) \<and> is_array 32 (di_signing_key d) \<and>
     (\<exists>row. require_active_device st (di_device_id d) = Inr row \<and> sd_public_key row = device_public_key X d)"

lemma policy_collapse [simp]:
  "\<lparr>memory_kib = memory_kib p, iterations = iterations p, parallelism = parallelism p\<rparr> = (p :: argon2_policy)"
  by (cases p) simp

lemma channel_authenticate_request:
  assumes "cc_challenge ch = Some challenge" "cc_authentication_context ch = Some context"
    and "derive_server_auth_key X password (ac_authentication_salt challenge)
      \<lparr>memory_kib = ac_argon2_memory_kib challenge, iterations = ac_argon2_iterations challenge,
       parallelism = ac_argon2_parallelism challenge\<rparr> = Inr key"
  shows "channel_authenticate C X N password device ch =
    channel_request C N (login_request X key context device) ch"
  using assms by (cases device) (simp_all add: channel_authenticate_def login_request_def)

lemma login_request_wf:
  assumes "crypto_laws X" and "\<forall>d. device = Some d \<longrightarrow> registered X st d"
  shows "wf_request (login_request X key context device)"
  using assms
  by (cases device) (simp_all add: login_request_def password_proof_def registered_def device_sign_def
      length_hmac length_sign)

lemma login_granted:
  assumes laws: "crypto_laws X" and dev: "\<forall>d. device = Some d \<longrightarrow> registered X (ap_storage A) d"
    and s: "ss_phase s = AwaitingPassword"
    and run: "dispatch C X E A s (login_request X (ap_authentication_key A) (ss_authentication_context s) device) =
      (res, s', A')"
  shows "ar_response res = Authenticated (device \<noteq> None) (st_vault_id (ap_storage A)) \<and>
    \<not> ar_close_session res \<and> ap_storage A' = ap_storage A \<and> ap_authentication_key A' = ap_authentication_key A \<and>
    ss_phase s' = (case device of None \<Rightarrow> PasswordAuthenticated | Some d \<Rightarrow> DeviceAuthenticated (di_device_id d))"
proof (cases device)
  case None
  with s run show ?thesis
    by (auto simp: login_request_def authenticate_def verify_password_proof_def password_proof_def success_def note_success_def)
next
  case (Some d)
  with dev obtain row where d: "is_array 32 (di_signing_key d)"
    "require_active_device (ap_storage A) (di_device_id d) = Inr row" "sd_public_key row = device_public_key X d"
    by (auto simp: registered_def)
  then have "verify_device_signature X (sd_public_key row)
      (device_auth_signature_context (ss_authentication_context s))
      (device_sign X d (device_auth_signature_context (ss_authentication_context s))) = Inr ()"
    by (simp add: verify_device_signature_def device_sign_def device_public_key_def key_public [OF laws] verify_sign [OF laws])
  with Some s run d show ?thesis
    by (auto simp: login_request_def authenticate_def verify_password_proof_def password_proof_def success_def note_success_def)
qed

context cbor_format begin

lemma login_answered:
  assumes duplex: "duplex_laws N D" and laws: "crypto_laws X"
    and step: "in_step D NONCE_LIMIT NONCE_LIMIT handle ch s" and opn: "session_open handle until s S"
    and phase: "ss_phase s = AwaitingPassword" and left: "messages_left s MAX_SESSION_MESSAGES"
    and chal: "cc_challenge ch = Some challenge"
    and key: "derive_server_auth_key X password (ac_authentication_salt challenge)
      \<lparr>memory_kib = ac_argon2_memory_kib challenge, iterations = ac_argon2_iterations challenge,
       parallelism = ac_argon2_parallelism challenge\<rparr> = Inr (ap_authentication_key (sv_application S))"
    and dev: "\<forall>d. device = Some d \<longrightarrow> registered X (ap_storage (sv_application S)) d"
    and inv: "service_inv X (ap_storage (sv_application S))" and u: "is_array 16 (en_upload_id E)"
    and now: "en_now E < until"
  obtains frame ch1 body S' ch2 s' where
    "channel_authenticate C X N password device ch = (Inr frame, ch1)"
    "post C X N E (ss_peer_ip s) frame S = (binary_response 200 ''application/octet-stream'' body, S')"
    "channel_response C N body ch1 =
       (Inr (Authenticated (device \<noteq> None) (st_vault_id (ap_storage (sv_application S)))), ch2)"
    "in_step D (NONCE_LIMIT - MESSAGE_RECORDS) (NONCE_LIMIT - MESSAGE_RECORDS) handle ch2 s'"
    "session_open handle until s' S'" "messages_left s' (MAX_SESSION_MESSAGES - 1)"
    "ss_phase s' = (case device of None \<Rightarrow> PasswordAuthenticated | Some d \<Rightarrow> DeviceAuthenticated (di_device_id d))"
    "ap_storage (sv_application S') = ap_storage (sv_application S)"
proof -
  let ?A = "sv_application S"
  let ?ctx = "ss_authentication_context s"
  let ?q = "login_request X (ap_authentication_key ?A) ?ctx device"
  have ctx: "cc_authentication_context ch = Some ?ctx" using step by (simp add: in_step_def)
  have wf: "wf_request ?q" by (rule login_request_wf [OF laws dev])
  have deliv: "deliverable (ar_response res)" if "dispatch C X E ?A (next_request t s) ?q = (res, s3, A')" for t res s3 A'
    using devices_only_listed [OF that] by (auto simp: deliverable_def login_request_def)
  have budget: "in_step D (MESSAGE_RECORDS + (NONCE_LIMIT - MESSAGE_RECORDS))
      (MESSAGE_RECORDS + (NONCE_LIMIT - MESSAGE_RECORDS)) handle ch s"
    using step by (simp add: NONCE_LIMIT_def MESSAGE_RECORDS_def)
  have left': "messages_left s (Suc (MAX_SESSION_MESSAGES - 1))"
    using left by (simp add: MAX_SESSION_MESSAGES_def)
  obtain frame ch1 records e s' body ch2 t res s3 A' where c: "channel_request C N ?q ch = (Inr frame, ch1)"
    "decode_transport_frame frame = Inr \<lparr>tf_session_handle = handle, tf_ciphertext = records\<rparr>"
    "process_envelope C X N E (ss_peer_ip s) ?A s records = (Some e, s', A')"
    "encode_transport_frame handle (er_ciphertext_records e) = Inr body"
    "channel_response C N body ch1 = (Inr (ar_response res), ch2)"
    "dispatch C X E ?A (next_request t s) ?q = (res, s3, A')"
    "er_close_session e = ar_close_session res" "ss_phase s' = ss_phase s3"
    "in_step D (NONCE_LIMIT - MESSAGE_RECORDS) (NONCE_LIMIT - MESSAGE_RECORDS) handle ch2 s'"
    "messages_left s' (MAX_SESSION_MESSAGES - 1)"
    by (rule request_served [OF duplex budget wf left' deliv inv u])
  have g: "ar_response res = Authenticated (device \<noteq> None) (st_vault_id (ap_storage ?A)) \<and>
    \<not> ar_close_session res \<and> ap_storage A' = ap_storage ?A \<and>
    ss_phase s3 = (case device of None \<Rightarrow> PasswordAuthenticated | Some d \<Rightarrow> DeviceAuthenticated (di_device_id d))"
    using login_granted [OF laws dev, of "next_request t s"] c(6) phase by (simp add: next_request_def)
  obtain S' where p: "post C X N E (ss_peer_ip s) frame S = (binary_response 200 ''application/octet-stream'' body, S')"
    "sv_application S' = A'" "\<not> er_close_session e \<longrightarrow> session_open handle until s' S'"
    by (rule post_answered [OF opn now c(2-4)])
  have auth: "channel_authenticate C X N password device ch = (Inr frame, ch1)"
    using c(1) by (simp add: channel_authenticate_request [OF chal ctx key])
  show thesis
    by (rule that [OF auth p(1) _ c(9) _ c(10)]) (use c(5,7,8) g p(2,3) in simp_all)
qed

end

end
