(* ===== verification/Service_System_Correct.thy ===== *)
theory Service_System_Correct
  imports Service_System
begin

text \<open>
  The system invariant holds in every state of a running server, and what follows: storage stays
  consistent, and the session table and the rate limiter stay within their documented capacities.
\<close>

section \<open>Handshakes\<close>

lemma prepare_session_peer:
  "prepare_session C N config R ip m = Some (h, s, response) \<Longrightarrow> ss_peer_ip s = ip"
  by (auto simp: prepare_session_def split: option.splits sum.splits)

lemma handshake_cases:
  assumes "handshake C N now R ip m S = (res, S')"
  shows "S' = S \<or> (\<exists>allowed L. allow_handshake now ip (ap_rate_limiter (sv_application S)) = (allowed, L) \<and>
    (S' = set_limiter L S \<or> allowed \<and> (\<exists>h s ok store. ss_peer_ip s = ip \<and>
       insert_session now h s (sv_sessions S) = (ok, store) \<and> S' = (set_limiter L S)\<lparr>sv_sessions := store\<rparr>)))"
proof (cases "m = [] \<or> length m > MAX_HANDSHAKE_BYTES")
  case False
  obtain allowed L where a: "allow_handshake now ip (ap_rate_limiter (sv_application S)) = (allowed, L)"
    by fastforce
  show ?thesis
  proof (cases "allowed \<and> prepare_session C N (sv_config S) R ip m \<noteq> None")
    case True
    then obtain h s response where p: "prepare_session C N (sv_config S) R ip m = Some (h, s, response)"
      by (metis option.exhaust prod_cases3)
    obtain ok store where i: "insert_session now h s (sv_sessions S) = (ok, store)" by fastforce
    have "S' = (set_limiter L S)\<lparr>sv_sessions := store\<rparr>"
      using assms False a True p i by (auto simp: handshake_def set_limiter_def Let_def split: if_splits)
    with a i True prepare_session_peer [OF p] show ?thesis by blast
  next
    case refused: False
    then have "S' = set_limiter L S"
      using assms False a by (auto simp: handshake_def Let_def split: if_splits option.splits)
    with a show ?thesis by blast
  qed
qed (use assms in \<open>auto simp: handshake_def\<close>)

lemma http_handshake_cases:
  "http_handshake C N now R ip query body S = (response, S') \<Longrightarrow>
     S' = S \<or> (\<exists>res. handshake C N now R ip body S = (res, S'))"
  by (auto simp: http_handshake_def split: if_splits prod.splits sum.splits handshake_failure.splits)

lemma insert_session_result:
  assumes "insert_session now h s S = (ok, S')"
  shows "sr_objects S' = sr_objects S \<and> set (sr_sessions S') \<subseteq> set (sr_sessions S) \<or>
    sr_objects S' = sr_objects S @ [s] \<and> set (sr_sessions S') \<subseteq>
      insert (h, \<lparr>sn_session = length (sr_objects S), sn_expires_at = now + SESSION_LIFETIME\<rparr>) (set (sr_sessions S))"
  using assms by (auto simp: insert_session_def retain_live_def Let_def update_new split: if_splits)

lemma insert_session_system:
  assumes run: "insert_session now h s S = (ok, S')" and inv: "store_inv S"
    and t: "table_inv now L S" and p: "pending_inv now L S ps"
    and peer: "tracked L (ss_peer_ip s) (now + SESSION_LIFETIME)"
  shows "table_inv now L S' \<and> pending_inv now L S' ps"
  using insert_session_result [OF run]
proof
  assume "sr_objects S' = sr_objects S \<and> set (sr_sessions S') \<subseteq> set (sr_sessions S)"
  with table_inv_smaller [OF t, of S'] pending_inv_objects [OF p, of S' ps] show ?thesis
    by (simp add: peer_of_def)
next
  assume a: "sr_objects S' = sr_objects S @ [s] \<and> set (sr_sessions S') \<subseteq>
      insert (h, \<lparr>sn_session = length (sr_objects S), sn_expires_at = now + SESSION_LIFETIME\<rparr>) (set (sr_sessions S))"
  then have old: "peer_of S' i = peer_of S i" if "i < length (sr_objects S)" for i
    using that by (simp add: peer_of_def nth_append)
  have new: "peer_of S' (length (sr_objects S)) = ss_peer_ip s" using a by (simp add: peer_of_def)
  have "table_inv now L S'" unfolding table_inv_def
  proof (intro ballI, clarify)
    fix g x
    assume "(g, x) \<in> set (sr_sessions S')"
    with a have "(g, x) \<in> set (sr_sessions S) \<or>
        x = \<lparr>sn_session = length (sr_objects S), sn_expires_at = now + SESSION_LIFETIME\<rparr>" by auto
    then show "sn_expires_at x \<le> now + SESSION_LIFETIME \<and>
        (now < sn_expires_at x \<longrightarrow> tracked L (peer_of S' (sn_session x)) (sn_expires_at x))"
    proof
      assume m: "(g, x) \<in> set (sr_sessions S)"
      with t old [OF store_invD(3) [OF inv m]] show ?thesis by (auto simp: table_inv_def)
    qed (use peer new in simp)
  qed
  moreover have "pending_inv now L S' ps" using p old a by (auto simp: pending_inv_def)
  ultimately show ?thesis by simp
qed

lemma handshake_step_inv:
  assumes inv: "system_inv X Y" and run: "http_handshake C N (sy_now Y) R ip query body (sy_server Y) = (response, S)"
  shows "system_inv X (Y\<lparr>sy_server := S\<rparr>)"
proof -
  let ?S = "sy_server Y" and ?now = "sy_now Y"
  let ?L = "ap_rate_limiter (sv_application ?S)"
  note I = system_invD [OF inv]
  have d: "distinct (map fst ?L)" "length ?L \<le> MAX_TRACKED_ADDRESSES" using I(3) by (auto simp: limiter_inv_def)
  from http_handshake_cases [OF run] consider "S = ?S"
    | res where "handshake C N ?now R ip body ?S = (res, S)" by blast
  then show ?thesis
  proof cases
    case 2
    from handshake_cases [OF 2] consider "S = ?S"
      | allowed L where "allow_handshake ?now ip ?L = (allowed, L)" "S = set_limiter L ?S"
      | L h s ok store where "allow_handshake ?now ip ?L = (True, L)" "ss_peer_ip s = ip"
          "insert_session ?now h s (sv_sessions ?S) = (ok, store)"
          "S = (set_limiter L ?S)\<lparr>sv_sessions := store\<rparr>"
      by (elim disjE exE conjE) simp_all
    then show ?thesis
    proof cases
      case (2 allowed L)
      have L: "limiter_inv L" "keeps_tracked ?now ?L L"
        using 2(1) limiter_distinct(1) [OF d(1), of ?now ip] length_handshake [OF d(2), of ?now ip]
          keeps_tracked_handshake [OF d(1), of ?now ip] by (simp_all add: limiter_inv_def)
      show ?thesis
        by (rule system_invI)
          (use I(1,2,6) L table_inv_limiter [OF I(4) L(2)] pending_inv_limiter [OF I(5) L(2)] 2(2)
            in \<open>simp_all add: set_limiter_def\<close>)
    next
      case (3 L h s ok store)
      have L: "limiter_inv L" "keeps_tracked ?now ?L L"
        using 3(1) limiter_distinct(1) [OF d(1), of ?now ip] length_handshake [OF d(2), of ?now ip]
          keeps_tracked_handshake [OF d(1), of ?now ip] by (simp_all add: limiter_inv_def)
      have peer: "tracked L (ss_peer_ip s) (?now + SESSION_LIFETIME)"
        using tracked_new [OF 3(1)] 3(2) by simp
      have tp: "table_inv ?now L store \<and> pending_inv ?now L store (sy_pending Y)"
        by (rule insert_session_system [OF 3(3) I(2) table_inv_limiter [OF I(4) L(2)]
              pending_inv_limiter [OF I(5) L(2)] peer])
      have "store_inv store" by (rule insert_session_inv [OF I(2) 3(3)])
      then show ?thesis using I(1,6) L(1) tp 3(4) by (intro system_invI) (simp_all add: set_limiter_def)
    qed (use inv in simp)
  qed (use inv in simp)
qed

section \<open>Envelopes\<close>

lemma lookup_step:
  assumes run: "envelope_lookup now ip query body S = (r, S')" and inv: "store_inv (sv_sessions S)"
    and t: "table_inv now L (sv_sessions S)" and p: "pending_inv now L (sv_sessions S) ps"
  shows "sv_application S' = sv_application S \<and> store_inv (sv_sessions S') \<and>
    table_inv now L (sv_sessions S') \<and> pending_inv now L (sv_sessions S') ps \<and>
    (\<forall>q. r = Inr q \<longrightarrow> pending_inv now L (sv_sessions S') ((now, q) # ps))"
proof (cases "query = None \<and> (\<exists>frame. decode_transport_frame body = Inr frame)")
  case True
  then obtain frame where f: "decode_transport_frame body = Inr frame" by blast
  obtain found store where g: "get_session now (tf_session_handle frame) (sv_sessions S) = (found, store)"
    by fastforce
  have S': "S' = S\<lparr>sv_sessions := store\<rparr>" using run True f g by (auto simp: envelope_lookup_def Let_def split: option.splits)
  have store: "store_inv store" "sr_objects store = sr_objects (sv_sessions S)"
    "\<forall>i. found = Some i \<longrightarrow> i < length (sr_objects (sv_sessions S))"
    using get_session_inv [OF inv g] by auto
  have sub: "set (sr_sessions store) \<subseteq> set (sr_sessions (sv_sessions S))"
    using g by (auto simp: get_session_def retain_live_def Let_def)
  have same: "peer_of store i = peer_of (sv_sessions S) i" for i by (simp add: peer_of_def store(2))
  have ti: "table_inv now L store" by (rule table_inv_smaller [OF t sub same])
  have pi: "pending_inv now L store ps" by (rule pending_inv_objects [OF p]) (simp_all add: store(2) same)
  have "pending_inv now L store ((now, q) # ps)" if q: "r = Inr q" for q
  proof -
    from run True f g q obtain ref where ref: "found = Some ref" "pe_session q = ref"
      by (auto simp: envelope_lookup_def Let_def split: option.splits)
    obtain x where x: "(tf_session_handle frame, x) \<in> set (sr_sessions (sv_sessions S))"
      "now < sn_expires_at x" "sn_session x = ref"
      using g ref(1) by (auto simp: get_session_def retain_live_def Let_def dest!: map_of_SomeD)
    then have "tracked L (peer_of (sv_sessions S) ref) (sn_expires_at x)" using t by (auto simp: table_inv_def)
    then have "tracked L (peer_of store ref) (now + 1)" using x(2) same by (auto simp: tracked_def)
    with pi ref store show ?thesis by (simp add: pending_inv_def)
  qed
  with S' store ti pi show ?thesis by simp
next
  case False
  then have "S' = S \<and> (\<exists>e. r = Inl e)" using run by (auto simp: envelope_lookup_def Let_def split: sum.splits if_splits)
  with assms show ?thesis by auto
qed

lemma remove_session_sub: "set (sr_sessions (remove_session h S)) \<subseteq> set (sr_sessions S)"
  by (auto simp: remove_session_def delete_eq_filter)

lemma remove_session_objects [simp]: "sr_objects (remove_session h S) = sr_objects S"
  by (simp add: remove_session_def)

lemma drop_guard_sub: "set (sr_sessions (drop_guard g S)) \<subseteq> set (sr_sessions S)"
  using remove_session_sub [of "cg_handle g" S] by (auto simp: drop_guard_def)

lemma drop_guard_objects [simp]: "sr_objects (drop_guard g S) = sr_objects S"
  by (simp add: drop_guard_def)

lemma store_inv_objects:
  "store_inv S \<Longrightarrow> length objs = length (sr_objects S) \<Longrightarrow> store_inv (S\<lparr>sr_objects := objs\<rparr>)"
  by (simp add: store_inv_def)

lemma envelope_process_result:
  assumes run: "envelope_process C X N E p S = (response, S')" and inv: "store_inv (sv_sessions S)"
    and proc: "process_envelope C X N E (pe_peer_ip p) (sv_application S)
      (sr_objects (sv_sessions S) ! pe_session p) (pe_ciphertext p) = (r, s, A)"
  shows "sv_application S' = A \<and> store_inv (sv_sessions S') \<and>
    sr_objects (sv_sessions S') = (sr_objects (sv_sessions S))[pe_session p := s] \<and>
    set (sr_sessions (sv_sessions S')) \<subseteq> set (sr_sessions (sv_sessions S))"
proof -
  let ?store = "(sv_sessions S)\<lparr>sr_objects := (sr_objects (sv_sessions S))[pe_session p := s]\<rparr>"
  let ?h = "cg_handle (pe_guard p)"
  define good where "good T \<longleftrightarrow> store_inv T \<and> sr_objects T = sr_objects ?store \<and>
    set (sr_sessions T) \<subseteq> set (sr_sessions (sv_sessions S))" for T :: "'a session_store"
  have base: "good ?store" using store_inv_objects [OF inv] by (simp add: good_def)
  have rem: "good (remove_session h T)" if "good T" for h T
    using that remove_session_inv remove_session_sub by (fastforce simp: good_def)
  have dg: "good (drop_guard g T)" if "good T" for g T using that rem by (simp add: drop_guard_def)
  have "sv_application S' = A \<and> good (sv_sessions S')"
    using run proc base rem dg
    by (auto simp: envelope_process_def Let_def split: option.splits sum.splits if_splits)
  then show ?thesis by (simp add: good_def)
qed

lemma process_step_inv:
  assumes C: "cbor_format C" and inv: "system_inv X Y" and mem: "(t, p) \<in> set (sy_pending Y)"
    and now: "sy_now Y < t + REQUEST_TIMEOUT" "en_now E = sy_now Y" and u: "is_array 16 (en_upload_id E)"
    and run: "envelope_process C X N E p (sy_server Y) = (response, S)"
  shows "system_inv X (Y\<lparr>sy_server := S, sy_pending := remove1 (t, p) (sy_pending Y)\<rparr>)"
proof -
  let ?S = "sy_server Y" and ?now = "sy_now Y" and ?i = "pe_session p"
  let ?L = "ap_rate_limiter (sv_application ?S)" and ?store = "sv_sessions ?S"
  note I = system_invD [OF inv]
  obtain r s A where proc: "process_envelope C X N E (pe_peer_ip p) (sv_application ?S)
      (sr_objects ?store ! ?i) (pe_ciphertext p) = (r, s, A)" by (metis prod_cases3)
  from envelope_process_result [OF run I(2) proc] have
    res: "sv_application S = A" "store_inv (sv_sessions S)"
      "sr_objects (sv_sessions S) = (sr_objects ?store)[?i := s]"
      "set (sr_sessions (sv_sessions S)) \<subseteq> set (sr_sessions ?store)" by auto
  from process_envelope_effect [OF C proc I(1) u] now(2) have
    eff: "service_inv X (ap_storage A)" "ss_peer_ip s = peer_of ?store ?i"
      "ap_rate_limiter A \<in> {?L, record_authentication_failure ?now (peer_of ?store ?i) ?L,
        record_authentication_success ?now (peer_of ?store ?i) ?L}" by (auto simp: peer_of_def)
  have p: "?i < length (sr_objects ?store)" "tracked ?L (peer_of ?store ?i) (t + 1)"
    using I(5) mem now(1) by (auto simp: pending_inv_def)
  have same: "peer_of (sv_sessions S) j = peer_of ?store j" for j
    using res(3) eff(2) p(1) by (cases "j = ?i") (simp_all add: peer_of_def)
  have L: "limiter_inv (ap_rate_limiter A) \<and> keeps_tracked ?now ?L (ap_rate_limiter A)"
    using eff(3) I(3) length_failure [OF p(2), of ?now] length_success [of ?now "peer_of ?store ?i" ?L]
      limiter_distinct(2,3) [of ?L ?now "peer_of ?store ?i"]
    by (auto simp: limiter_inv_def keeps_tracked_def tracked_failure tracked_success)
  then have kt: "keeps_tracked ?now ?L (ap_rate_limiter A)" by blast
  have "table_inv ?now (ap_rate_limiter A) (sv_sessions S)"
    by (rule table_inv_smaller [OF table_inv_limiter [OF I(4) kt] res(4) same])
  moreover have "pending_inv ?now (ap_rate_limiter A) (sv_sessions S) (remove1 (t, p) (sy_pending Y))"
    by (rule pending_inv_objects [OF pending_inv_limiter [OF I(5) kt] _ same set_remove1_subset])
      (simp add: res(3))
  ultimately show ?thesis using eff(1) L res(1,2) I(6) by (intro system_invI) simp_all
qed

lemma cancel_step_inv:
  assumes inv: "system_inv X Y"
  shows "system_inv X (Y\<lparr>sy_server := envelope_cancel p (sy_server Y), sy_pending := remove1 (t, p) (sy_pending Y)\<rparr>)"
proof -
  note I = system_invD [OF inv]
  let ?store = "drop_guard (pe_guard p) (sv_sessions (sy_server Y))"
  have same: "peer_of ?store i = peer_of (sv_sessions (sy_server Y)) i" for i by (simp add: peer_of_def)
  have "table_inv (sy_now Y) (ap_rate_limiter (sv_application (sy_server Y))) ?store"
    by (rule table_inv_smaller [OF I(4) drop_guard_sub same])
  moreover have "pending_inv (sy_now Y) (ap_rate_limiter (sv_application (sy_server Y))) ?store
      (remove1 (t, p) (sy_pending Y))"
    by (rule pending_inv_objects [OF I(5) _ same set_remove1_subset]) simp
  ultimately show ?thesis
    using I(1,3,6) drop_guard_inv [OF I(2)] by (intro system_invI) (simp_all add: envelope_cancel_def)
qed

text \<open>A request dropped in its handler leaves its session advanced, and is otherwise dropped as if it were waiting.\<close>

lemma abandon_step_inv:
  assumes C: "cbor_format C" and inv: "system_inv X Y" and run: "envelope_abandon C N p (sy_server Y) = Some (j, S)"
  shows "system_inv X (Y\<lparr>sy_server := S, sy_pending := remove1 (t, p) (sy_pending Y), sy_jobs := j # sy_jobs Y\<rparr>)"
proof -
  let ?S = "sy_server Y"
  let ?store = "sv_sessions ?S"
  obtain s r where w: "waiting_request C N (pe_peer_ip p) (sr_objects ?store ! pe_session p) (pe_ciphertext p) = Some (s, r)"
    and j: "j = (s, r)"
    and S: "S = envelope_cancel p (?S\<lparr>sv_sessions := ?store\<lparr>sr_objects := (sr_objects ?store)[pe_session p := s]\<rparr>\<rparr>)"
    using run by (auto simp: envelope_abandon_def Let_def split: option.splits)
  note waiting = waiting_request_Some [OF w]
  have wf: "wf_request r" using waiting cbor_format.client_message_law [OF C] by blast
  define Z where "Z = Y\<lparr>sy_server := ?S\<lparr>sv_sessions := ?store\<lparr>sr_objects := (sr_objects ?store)[pe_session p := s]\<rparr>\<rparr>,
    sy_jobs := j # sy_jobs Y\<rparr>"
  note I = system_invD [OF inv]
  have same: "peer_of (?store\<lparr>sr_objects := (sr_objects ?store)[pe_session p := s]\<rparr>) i = peer_of ?store i" for i
    using waiting by (cases "pe_session p < length (sr_objects ?store)") (auto simp: peer_of_def nth_list_update list_update_beyond)
  have "system_inv X Z"
  proof (rule system_invI)
    show "table_inv (sy_now Z) (ap_rate_limiter (sv_application (sy_server Z))) (sv_sessions (sy_server Z))"
      using table_inv_smaller [OF I(4) _ same] by (simp add: Z_def)
    show "pending_inv (sy_now Z) (ap_rate_limiter (sv_application (sy_server Z))) (sv_sessions (sy_server Z)) (sy_pending Z)"
      using pending_inv_objects [OF I(5) _ same] by (simp add: Z_def)
  qed (use I(1,3,6) store_inv_objects [OF I(2)] wf j in \<open>simp_all add: Z_def\<close>)
  from cancel_step_inv [OF this, where t = t and p = p] show ?thesis by (cases Y) (simp add: Z_def S)
qed

lemma system_step_inv:
  assumes C: "cbor_format C" and inv: "system_inv X Y" and step: "system_step C X N Y Y'"
  shows "system_inv X Y'"
  using step
proof cases
  case (sys_tick later)
  note I = system_invD [OF inv]
  from sys_tick show ?thesis
    using I(1,2,3,6) later_inv(1) [OF I(4)] later_inv(2) [OF I(5)] by (intro system_invI) simp_all
next
  case (sys_handshake R ip query body response S)
  with handshake_step_inv [OF inv] show ?thesis by blast
next
  case (sys_refused ip query body response S)
  note I = system_invD [OF inv]
  from lookup_step [OF sys_refused(2) I(2,4,5)] I(1,3,6) show ?thesis
    unfolding sys_refused(1) by (intro system_invI) simp_all
next
  case (sys_lookup ip query body p S)
  note I = system_invD [OF inv]
  from lookup_step [OF sys_lookup(2) I(2,4,5)] I(1,3,6) show ?thesis
    unfolding sys_lookup(1) by (intro system_invI) simp_all
next
  case (sys_process t p E response S)
  with process_step_inv [OF C inv] show ?thesis by blast
next
  case (sys_cancel t p)
  then show ?thesis using cancel_step_inv [OF inv] by blast
next
  case (sys_abandon t p job S)
  with abandon_step_inv [OF C inv] show ?thesis by blast
next
  case (sys_job s request E res s' A)
  note I = system_invD [OF inv]
  have "service_inv X (ap_storage A)"
    by (rule dispatch_keeps_invariant_aux [OF I(1) _ sys_job(3,4)]) (use I(6) sys_job(2) in auto)
  then show ?thesis
    using I(2-5) I(6) set_remove1_subset [of "(s, request)" "sy_jobs Y"] unfolding sys_job(1)
    by (intro system_invI) (auto simp: set_storage_def)
qed

lemma running_inv:
  assumes "cbor_format C"
  shows "running C X N Y \<Longrightarrow> system_inv X Y"
proof (induction rule: running.induct)
  case (running_start st config key S now)
  then have S: "sv_application S = \<lparr>ap_storage = st, ap_authentication_key = key, ap_rate_limiter = []\<rparr>"
    "sv_sessions S = \<lparr>sr_sessions = [], sr_objects = []\<rparr>"
    by (auto simp: new_server_def split: sum.splits)
  with running_start(1) show ?case
    by (intro system_invI) (simp_all add: store_inv_def limiter_inv_def table_inv_def pending_inv_def)
next
  case (running_step Y Y')
  then show ?case using system_step_inv [OF assms] by blast
qed

text \<open>
  C4. The running service. Whatever clients send, however their requests interleave at the points where a request
  waits for its session, and whether a request is dropped (cancelled or timed out) while it waits for its
  session or while its handler waits for a storage job, which then takes effect at any later time or never: the
  storage invariant holds, at most 1024 sessions are in the table, under distinct handles, and at most
  4096 addresses are tracked. The last needs all components: only a peer with a live session can fail to
  authenticate, and such a peer is still tracked. A handler, or a job left behind, is one step here, its checks and
  its effect together. Excluded are thus the jobs of dropped requests that overlap in time with another operation on
  the same upload: for them the storage part is false of the program, as the lock of the upload is gone (see the
  finding on blob.rs).
\<close>

theorem running_bounded:
  assumes "cbor_format C" and "running C X N Y"
  shows "service_inv X (ap_storage (sv_application (sy_server Y))) \<and>
    distinct (map fst (sr_sessions (sv_sessions (sy_server Y)))) \<and>
    length (sr_sessions (sv_sessions (sy_server Y))) \<le> MAX_SESSIONS \<and>
    length (ap_rate_limiter (sv_application (sy_server Y))) \<le> MAX_TRACKED_ADDRESSES"
  using system_invD [OF running_inv [OF assms]] by (simp add: store_inv_def limiter_inv_def)

definition sample_config :: server_config where
  "sample_config = \<lparr>cf_private_key = pad 32 [1], cf_public_key = pad 32 [2], cf_fingerprint = ascii ''ab'',
     cf_instance_id = pad 16 [3], cf_authentication_salt = pad 32 [5],
     cf_argon2_policy = \<lparr>memory_kib = 8, iterations = 1, parallelism = 1\<rparr>\<rparr>"

text \<open>A server that has answered one request to open a session, for every Noise library and randomness.\<close>

theorem running_bounded_witness:
  "\<forall>(N :: (nat, nat) snow) R ip. \<exists>S.
     new_server rfc_cbor sample_config (fresh_store (pad 16 [3])) (pad 32 [4]) = Some S \<and>
     (let S' = snd (http_handshake rfc_cbor N 7 R ip None [1, 2] S) in
      service_inv plain_crypto (ap_storage (sv_application S')) \<and>
      length (sr_sessions (sv_sessions S')) \<le> MAX_SESSIONS \<and>
      length (ap_rate_limiter (sv_application S')) \<le> MAX_TRACKED_ADDRESSES)"
proof (intro allI)
  fix N :: "(nat, nat) snow" and R ip
  obtain S :: "nat server" where S: "new_server rfc_cbor sample_config (fresh_store (pad 16 [3])) (pad 32 [4]) = Some S"
    by (simp add: new_server_def encode_bootstrap_def)
  obtain r S' where run: "http_handshake rfc_cbor N 7 R ip None [1, 2] S = (r, S')" by fastforce
  have "running rfc_cbor plain_crypto N \<lparr>sy_now = 7, sy_server = S, sy_pending = [], sy_jobs = []\<rparr>"
    by (rule running_start [OF fresh_service S]) simp
  then have "running rfc_cbor plain_crypto N (\<lparr>sy_now = 7, sy_server = S, sy_pending = [], sy_jobs = []\<rparr>\<lparr>sy_server := S'\<rparr>)"
    by (rule running_step) (rule sys_handshake [where ip = ip and query = None and body = "[1, 2]" and R = R], simp add: run)
  note running_bounded [OF rfc.cbor_format_axioms this]
  with S run show "\<exists>S. new_server rfc_cbor sample_config (fresh_store (pad 16 [3])) (pad 32 [4]) = Some S \<and>
     (let S' = snd (http_handshake rfc_cbor N 7 R ip None [1, 2] S) in
      service_inv plain_crypto (ap_storage (sv_application S')) \<and>
      length (sr_sessions (sv_sessions S')) \<le> MAX_SESSIONS \<and>
      length (ap_rate_limiter (sv_application S')) \<le> MAX_TRACKED_ADDRESSES)"
    by simp
qed

end
