(* ===== verification/Storage_Start_Props.thy ===== *)
theory Storage_Start_Props
  imports Storage_Start Storage_Commits_Props
begin

text \<open>
  What start-up guarantees: the identity it creates is the one every later start finds, a different
  password is refused without a change, and a start that fails leaves the tables alone.
\<close>

section \<open>Metadata\<close>

lemma get_meta_set [simp]: "get_meta (set_meta k v st) k' = (if k' = k then Some v else get_meta st k')"
  by (simp add: get_meta_def set_meta_def update_conv')

lemma get_meta_frame [simp]:
  "get_meta (repair_heads v st) k = get_meta st k" "get_meta (put_file p c st) k = get_meta st k"
  "get_meta (st\<lparr>st_vault_id := v\<rparr>) k = get_meta st k"
  by (simp_all add: get_meta_def repair_heads_def put_file_def Let_def)

lemma file_at_frame [simp]:
  "st_files (repair_heads v st) = st_files st" "st_files (set_meta k w st) = st_files st"
  by (simp_all add: repair_heads_def set_meta_def Let_def)

definition start_keys :: "string list" where
  "start_keys = [META_INSTANCE_ID, META_VAULT_ID, META_AUTH_SALT, META_AUTH_VERIFIER, META_ARGON_MEMORY,
     META_ARGON_ITERATIONS, META_ARGON_PARALLELISM, META_MIGRATION_VERSION, META_VAULT_KEY_ENVELOPE]"

lemma start_keys_distinct: "distinct start_keys" "distinct (rev start_keys)"
  by (simp_all add: start_keys_def meta_keys)

lemmas keys_differ [simp] = start_keys_distinct [unfolded start_keys_def rev.simps append.simps, simplified]

lemma set_meta_same: "get_meta st k = Some v \<Longrightarrow> set_meta k v st = st"
  by (simp add: get_meta_def set_meta_def update_triv)

lemma from_to_be_bytes [simp]: "from_be_bytes (to_be_bytes v) = v" "length (to_be_bytes v) = 4"
proof -
  have "unat v < 256 ^ 4" using unat_u32 [of v] by simp
  then show "from_be_bytes (to_be_bytes v) = v" by (simp add: from_be_bytes_def to_be_bytes_def be_nat_be_bytes)
qed (simp add: to_be_bytes_def)

text \<open>What a step of the transaction may change: the metadata under its key.\<close>

definition meta_frame :: "string set \<Rightarrow> storage \<Rightarrow> storage \<Rightarrow> bool" where
  "meta_frame keys st st' \<longleftrightarrow> (\<forall>k. k \<notin> keys \<longrightarrow> get_meta st' k = get_meta st k) \<and>
     st' = st\<lparr>st_metadata := st_metadata st'\<rparr>"

lemma meta_frame_refl [simp]: "meta_frame keys st st"
  by (simp add: meta_frame_def)

lemma meta_frame_set: "k \<in> keys \<Longrightarrow> meta_frame keys st (set_meta k v st)"
  by (auto simp: meta_frame_def set_meta_def get_meta_def update_conv')

lemma meta_frame_trans:
  "meta_frame keys st st1 \<Longrightarrow> meta_frame keys' st1 st2 \<Longrightarrow> meta_frame (keys \<union> keys') st st2"
  by (simp add: meta_frame_def) (metis storage.surjective storage.update_convs(2))

lemma meta_frameD: "meta_frame keys st st' \<Longrightarrow> k \<notin> keys \<Longrightarrow> get_meta st' k = get_meta st k"
  by (simp add: meta_frame_def)

lemma get_or_create_fixed_Inr:
  assumes "get_or_create_fixed n k random st = Inr (v, st')" and "\<forall>w. random = Some w \<longrightarrow> length w = n"
  shows "get_meta st' k = Some v \<and> length v = n \<and> meta_frame {k} st st'"
  using assms meta_frame_set [of k "{k}" st v]
  by (auto simp: get_or_create_fixed_def result_iffs split: option.splits if_splits)

lemma get_or_create_fixed_found [simp]:
  "get_meta st k = Some v \<Longrightarrow> length v = n \<Longrightarrow> get_or_create_fixed n k random st = Inr (v, st)"
  by (simp add: get_or_create_fixed_def)

definition has_u32 :: "storage \<Rightarrow> string \<Rightarrow> u32 \<Rightarrow> bool" where
  "has_u32 st k v \<longleftrightarrow> (\<exists>bs. get_meta st k = Some bs \<and> length bs = 4 \<and> from_be_bytes bs = v)"

lemma get_or_create_u32_Inr:
  assumes "get_or_create_u32 k initial st = Inr (v, st')"
  shows "has_u32 st' k v \<and> meta_frame {k} st st'"
  using assms meta_frame_set [of k "{k}" st "to_be_bytes initial"]
  by (auto simp: get_or_create_u32_def has_u32_def split: option.splits if_splits)

lemma get_or_create_u32_found: "has_u32 st k v \<Longrightarrow> get_or_create_u32 k initial st = Inr (v, st)"
  by (auto simp: get_or_create_u32_def has_u32_def)

lemma has_u32_frame: "has_u32 st k v \<Longrightarrow> get_meta st' k = get_meta st k \<Longrightarrow> has_u32 st' k v"
  by (simp add: has_u32_def)

definition has_policy :: "storage \<Rightarrow> argon2_policy \<Rightarrow> bool" where
  "has_policy st p \<longleftrightarrow> has_u32 st META_ARGON_MEMORY (memory_kib p) \<and>
     has_u32 st META_ARGON_ITERATIONS (iterations p) \<and> has_u32 st META_ARGON_PARALLELISM (parallelism p)"

abbreviation policy_keys :: "string set" where
  "policy_keys \<equiv> {META_ARGON_MEMORY, META_ARGON_ITERATIONS, META_ARGON_PARALLELISM}"

lemma load_or_create_policy_Inr:
  assumes "load_or_create_policy X st = Inr (p, st')"
  shows "has_policy st' p \<and> meta_frame policy_keys st st' \<and> (\<exists>params. argon2 X p = Inr params)"
proof -
  from assms obtain m st1 i st2 l where
    m: "get_or_create_u32 META_ARGON_MEMORY (memory_kib SERVER_DEFAULT) st = Inr (m, st1)"
    and i: "get_or_create_u32 META_ARGON_ITERATIONS (iterations SERVER_DEFAULT) st1 = Inr (i, st2)"
    and l: "get_or_create_u32 META_ARGON_PARALLELISM (parallelism SERVER_DEFAULT) st2 = Inr (l, st')"
    and p: "p = \<lparr>memory_kib = m, iterations = i, parallelism = l\<rparr>" "\<exists>params. argon2 X p = Inr params"
    by (fastforce simp: load_or_create_policy_def result_iffs Let_def)
  note f = get_or_create_u32_Inr [OF m] get_or_create_u32_Inr [OF i] get_or_create_u32_Inr [OF l]
  have "meta_frame ({META_ARGON_MEMORY} \<union> {META_ARGON_ITERATIONS} \<union> {META_ARGON_PARALLELISM}) st st'"
    using f meta_frame_trans by blast
  then have "meta_frame policy_keys st st'" by (simp add: insert_commute)
  moreover have "has_u32 st' META_ARGON_MEMORY m"
    using f meta_frameD [of "{META_ARGON_ITERATIONS}" st1 st2] meta_frameD [of "{META_ARGON_PARALLELISM}" st2 st']
    by (auto intro!: has_u32_frame [of st1])
  moreover have "has_u32 st' META_ARGON_ITERATIONS i"
    using f meta_frameD [of "{META_ARGON_PARALLELISM}" st2 st'] by (auto intro!: has_u32_frame [of st2])
  ultimately show ?thesis using f p by (simp add: has_policy_def)
qed

lemma load_or_create_policy_found:
  assumes "has_policy st p" and "argon2 X p = Inr params"
  shows "load_or_create_policy X st = Inr (p, st)"
proof -
  obtain m i l where p: "p = \<lparr>memory_kib = m, iterations = i, parallelism = l\<rparr>" by (cases p)
  have u: "has_u32 st META_ARGON_MEMORY m" "has_u32 st META_ARGON_ITERATIONS i" "has_u32 st META_ARGON_PARALLELISM l"
    using assms(1) by (simp_all add: has_policy_def p)
  show ?thesis
    using assms(2) by (simp add: load_or_create_policy_def u [THEN get_or_create_u32_found] Let_def p)
qed

section \<open>What a successful start leaves behind\<close>

text \<open>The store holds an identity: start-up of it finds everything and draws nothing.\<close>

definition identified :: "crypto \<Rightarrow> initialized_storage \<Rightarrow> storage \<Rightarrow> bool" where
  "identified X I st \<longleftrightarrow>
     (\<exists>key. file_at st STORAGE_KEY_FILE = Some key \<and> length key = 32) \<and>
     get_meta st META_MIGRATION_VERSION = Some (to_be_bytes CURRENT_MIGRATION_VERSION) \<and>
     get_meta st META_INSTANCE_ID = Some (is_instance_id I) \<and> length (is_instance_id I) = 16 \<and>
     get_meta st META_VAULT_ID = Some (is_vault_id I) \<and> length (is_vault_id I) = 16 \<and>
     get_meta st META_AUTH_SALT = Some (is_authentication_salt I) \<and> length (is_authentication_salt I) = 16 \<and>
     has_policy st (is_argon2_policy I) \<and> (\<exists>params. argon2 X (is_argon2_policy I) = Inr params) \<and>
     get_meta st META_AUTH_VERIFIER = Some (server_auth_verifier X (is_authentication_key I)) \<and>
     st_vault_id st = is_vault_id I"

definition wf_random :: "start_random \<Rightarrow> bool" where
  "wf_random R \<longleftrightarrow> (\<forall>k. rn_storage_key R = Some k \<longrightarrow> length k = 32) \<and>
     (\<forall>i. rn_instance_id R = Some i \<longrightarrow> length i = 16) \<and> (\<forall>v. rn_vault_id R = Some v \<longrightarrow> length v = 16) \<and>
     (\<forall>s. rn_salt R = Some s \<longrightarrow> length s = 16)"

lemma check_verifier_Inr:
  assumes "crypto_laws X" and "check_verifier X key st = Inr st'"
  shows "get_meta st' META_AUTH_VERIFIER = Some (server_auth_verifier X key) \<and>
    meta_frame {META_AUTH_VERIFIER} st st'"
  using assms(2) meta_frame_set [of META_AUTH_VERIFIER "{META_AUTH_VERIFIER}" st "server_auth_verifier X key"]
  by (auto simp: check_verifier_def verify_server_auth_verifier_def split: option.splits if_splits)

lemma initialize_transaction_Inr:
  assumes X: "crypto_laws X" and R: "wf_random R"
    and run: "initialize_transaction X R password st = Inr (I, st')"
  shows "identified X I st' = (\<exists>key. file_at st STORAGE_KEY_FILE = Some key \<and> length key = 32) \<and>
    derive_server_auth_key X password (is_authentication_salt I) (is_argon2_policy I) =
      Inr (is_authentication_key I) \<and>
    (get_meta st META_VAULT_ID = None \<longrightarrow> rn_vault_id R = Some (is_vault_id I)) \<and>
    (\<forall>v. get_meta st META_VAULT_ID = Some v \<longrightarrow> is_vault_id I = v) \<and>
    get_meta st' META_VAULT_KEY_ENVELOPE = get_meta st META_VAULT_KEY_ENVELOPE \<and>
    st' = (repair_heads (is_vault_id I) st)\<lparr>st_vault_id := is_vault_id I, st_metadata := st_metadata st'\<rparr>"
proof -
  from run obtain i st1 v st2 s st3 p st4 key st5 where
    a: "get_or_create_fixed 16 META_INSTANCE_ID (rn_instance_id R) st = Inr (i, st1)"
    and b: "get_or_create_fixed 16 META_VAULT_ID (rn_vault_id R) st1 = Inr (v, st2)"
    and c: "get_or_create_fixed 16 META_AUTH_SALT (rn_salt R) (repair_heads v st2) = Inr (s, st3)"
    and d: "load_or_create_policy X st3 = Inr (p, st4)"
    and e: "derive_server_auth_key X password s p = Inr key"
    and f: "check_verifier X key st4 = Inr st5"
    and I: "I = \<lparr>is_instance_id = i, is_vault_id = v, is_authentication_salt = s, is_argon2_policy = p,
      is_authentication_key = key\<rparr>"
    and st': "st' = (set_meta META_MIGRATION_VERSION (to_be_bytes CURRENT_MIGRATION_VERSION) st5)
      \<lparr>st_vault_id := v\<rparr>"
    by (fastforce simp: initialize_transaction_def result_iffs Let_def)
  have ga: "get_meta st1 META_INSTANCE_ID = Some i" "length i = 16" "meta_frame {META_INSTANCE_ID} st st1"
    using get_or_create_fixed_Inr [OF a] R by (simp_all add: wf_random_def)
  have gb: "get_meta st2 META_VAULT_ID = Some v" "length v = 16" "meta_frame {META_VAULT_ID} st1 st2"
    using get_or_create_fixed_Inr [OF b] R by (simp_all add: wf_random_def)
  have gc: "get_meta st3 META_AUTH_SALT = Some s" "length s = 16"
    "meta_frame {META_AUTH_SALT} (repair_heads v st2) st3"
    using get_or_create_fixed_Inr [OF c] R by (simp_all add: wf_random_def)
  have gd: "has_policy st4 p" "meta_frame policy_keys st3 st4" "\<exists>params. argon2 X p = Inr params"
    using load_or_create_policy_Inr [OF d] by simp_all
  have gf: "get_meta st5 META_AUTH_VERIFIER = Some (server_auth_verifier X key)"
    "meta_frame {META_AUTH_VERIFIER} st4 st5" using check_verifier_Inr [OF X f] by simp_all
  note unchanged = meta_frameD [OF gf(2)] meta_frameD [OF gd(2)] meta_frameD [OF gc(3)] meta_frameD [OF gb(3)]
    meta_frameD [OF ga(3)]
  have pol: "has_policy st' p" using gd(1) by (simp add: has_policy_def has_u32_def st' unchanged(1))
  have meta: "get_meta st' META_INSTANCE_ID = Some i" "get_meta st' META_VAULT_ID = Some v"
    "get_meta st' META_AUTH_SALT = Some s"
    "get_meta st' META_AUTH_VERIFIER = Some (server_auth_verifier X key)"
    "get_meta st' META_VAULT_KEY_ENVELOPE = get_meta st META_VAULT_KEY_ENVELOPE"
    using ga(1) gb(1) gc(1) gf(1) by (simp_all add: st' unchanged)
  have s5: "st_files st5 = st_files st" "st5 = (repair_heads v st)\<lparr>st_metadata := st_metadata st5\<rparr>"
  proof -
    have e2: "st2 = st\<lparr>st_metadata := st_metadata st2\<rparr>"
      using ga(3) gb(3) by (simp add: meta_frame_def) (metis storage.surjective storage.update_convs(2))
    have "st5 = (repair_heads v st2)\<lparr>st_metadata := st_metadata st5\<rparr>"
      using gc(3) gd(2) gf(2) by (simp add: meta_frame_def) (metis storage.surjective storage.update_convs(2))
    moreover have "repair_heads v st2 = (repair_heads v st)\<lparr>st_metadata := st_metadata st2\<rparr>"
      by (subst e2) (simp add: repair_heads_def Let_def)
    ultimately show eq: "st5 = (repair_heads v st)\<lparr>st_metadata := st_metadata st5\<rparr>"
      by (metis storage.surjective storage.update_convs(2))
    show "st_files st5 = st_files st" by (subst eq) simp
  qed
  have shape: "st' = (repair_heads v st)\<lparr>st_vault_id := v, st_metadata := st_metadata st'\<rparr>"
    unfolding st' set_meta_def by (subst s5(2)) simp
  have none: "get_meta st META_VAULT_ID = None \<Longrightarrow> rn_vault_id R = Some v"
    using b unchanged(5) by (auto simp: get_or_create_fixed_def result_iffs)
  have some: "get_meta st META_VAULT_ID = Some w \<Longrightarrow> v = w" for w
    using b unchanged(5) by (auto simp: get_or_create_fixed_def result_iffs split: if_splits)
  have files: "st_files st' = st_files st" using s5(1) by (simp add: st')
  have last: "get_meta st' META_MIGRATION_VERSION = Some (to_be_bytes CURRENT_MIGRATION_VERSION)"
    "st_vault_id st' = v" by (simp_all add: st')
  have "identified X I st' = (\<exists>key. file_at st STORAGE_KEY_FILE = Some key \<and> length key = 32)"
    using meta pol gd(3) last ga(2) gb(2) gc(2) by (simp add: identified_def I files)
  moreover have "st' = (repair_heads (is_vault_id I) st)\<lparr>st_vault_id := is_vault_id I, st_metadata := st_metadata st'\<rparr>"
    using shape by (simp add: I)
  ultimately show ?thesis using e none some meta(5) by (intro conjI) (simp_all add: I)
qed

section \<open>Starting again\<close>

lemma ensure_storage_key_Inr:
  assumes "ensure_storage_key random st = (Inr u, st1)" and "\<forall>k. random = Some k \<longrightarrow> length k = 32"
  shows "(\<exists>key. file_at st1 STORAGE_KEY_FILE = Some key \<and> length key = 32) \<and>
    (st1 = st \<or> file_at st STORAGE_KEY_FILE = None \<and> (\<exists>key. st1 = put_file STORAGE_KEY_FILE key st))"
  using assms
  by (auto simp: ensure_storage_key_def put_file_def update_conv' split: option.splits if_splits)

lemma initialize_Inr:
  assumes "initialize X R password st = (Inr I, st')"
  obtains st1 where "ensure_storage_key (rn_storage_key R) st = (Inr (), st1)"
    "initialize_transaction X R password st1 = Inr (I, st')"
  using assms by (auto simp: initialize_def split: prod.splits sum.splits)

lemma initialize_identified:
  assumes "crypto_laws X" "wf_random R" "initialize X R password st = (Inr I, st')"
  shows "identified X I st' \<and> derive_server_auth_key X password (is_authentication_salt I) (is_argon2_policy I) =
    Inr (is_authentication_key I)"
proof -
  from assms(3) obtain st1 where k: "ensure_storage_key (rn_storage_key R) st = (Inr (), st1)"
    and t: "initialize_transaction X R password st1 = Inr (I, st')" by (rule initialize_Inr)
  have "\<exists>key. file_at st1 STORAGE_KEY_FILE = Some key \<and> length key = 32"
    using ensure_storage_key_Inr [OF k] assms(2) by (simp add: wf_random_def)
  with initialize_transaction_Inr [OF assms(1,2) t] show ?thesis by simp
qed

lemma repair_heads_idem:
  "repair_heads v ((repair_heads v st)\<lparr>st_vault_id := v, st_metadata := m\<rparr>) =
     (repair_heads v st)\<lparr>st_vault_id := v, st_metadata := m\<rparr>"
  by (simp add: repair_heads_def Let_def filter_empty_conv case_prod_beta')

lemma storage_vault_same: "st_vault_id st = v \<Longrightarrow> st\<lparr>st_vault_id := v\<rparr> = st"
  by (cases st) simp

lemma identified_transaction:
  assumes id: "identified X I st"
    and key: "derive_server_auth_key X password (is_authentication_salt I) (is_argon2_policy I) = Inr k"
  shows "initialize_transaction X R password st =
    rbind (check_verifier X k (repair_heads (st_vault_id st) st)) (\<lambda>st'.
      Inr (I\<lparr>is_authentication_key := k\<rparr>, (set_meta META_MIGRATION_VERSION
        (to_be_bytes CURRENT_MIGRATION_VERSION) st')\<lparr>st_vault_id := st_vault_id st\<rparr>))"
proof -
  let ?st = "repair_heads (st_vault_id st) st"
  note i = id [unfolded identified_def]
  from i obtain params where "argon2 X (is_argon2_policy I) = Inr params" by blast
  moreover have "has_policy ?st (is_argon2_policy I)" using i by (simp add: has_policy_def has_u32_def)
  ultimately have p: "load_or_create_policy X ?st = Inr (is_argon2_policy I, ?st)"
    by (intro load_or_create_policy_found)
  have "validate_migration_version st = Inr ()"
    using i by (simp add: validate_migration_version_def CURRENT_MIGRATION_VERSION_def)
  moreover obtain a b c d e where "I = \<lparr>is_instance_id = a, is_vault_id = b, is_authentication_salt = c,
      is_argon2_policy = d, is_authentication_key = e\<rparr>" by (cases I)
  ultimately show ?thesis using i p key by (simp add: initialize_transaction_def Let_def)
qed

lemma identified_ensure:
  "identified X I st \<Longrightarrow> ensure_storage_key random st = (Inr (), st)"
  by (auto simp: identified_def ensure_storage_key_def)

lemma start_again:
  assumes X: "crypto_laws X" and id: "identified X I st"
    and key: "derive_server_auth_key X password (is_authentication_salt I) (is_argon2_policy I) =
      Inr (is_authentication_key I)"
  shows "initialize X R password st = (Inr I, repair_heads (st_vault_id st) st)"
proof -
  let ?st = "repair_heads (st_vault_id st) st"
  note i = id [unfolded identified_def]
  have "check_verifier X (is_authentication_key I) ?st = Inr ?st"
    using i length_blake3 [OF X] by (simp add: check_verifier_def verify_server_auth_verifier_def server_auth_verifier_def)
  moreover have "set_meta META_MIGRATION_VERSION (to_be_bytes CURRENT_MIGRATION_VERSION) ?st = ?st"
    using i by (intro set_meta_same) simp
  moreover have "?st\<lparr>st_vault_id := st_vault_id st\<rparr> = ?st"
    by (rule storage_vault_same) (simp add: repair_heads_def Let_def)
  ultimately show ?thesis
    by (simp add: initialize_def identified_ensure [OF id] identified_transaction [OF id key])
qed

text \<open>
  The server's identity survives restarts: whatever a successful start returned, the next start
  with the same password returns again, whatever randomness it is given, and leaves the store as it is.
\<close>

theorem restart_same:
  assumes "crypto_laws X" and "wf_random R" and "initialize X R password st = (Inr I, st')"
  shows "initialize X R' password st' = (Inr I, st')"
proof -
  from assms(3) obtain st1 where t: "initialize_transaction X R password st1 = Inr (I, st')"
    by (rule initialize_Inr)
  note id = initialize_identified [OF assms]
  have "st' = (repair_heads (is_vault_id I) st1)\<lparr>st_vault_id := is_vault_id I, st_metadata := st_metadata st'\<rparr>"
    using initialize_transaction_Inr [OF assms(1,2) t] by blast
  then have "repair_heads (is_vault_id I) st' = st'"
    using repair_heads_idem [where v = "is_vault_id I" and st = st1 and m = "st_metadata st'"] by simp
  moreover have "st_vault_id st' = is_vault_id I" using id by (simp add: identified_def)
  ultimately show ?thesis using start_again [OF assms(1) conjunct1 [OF id] conjunct2 [OF id]] by simp
qed

text \<open>A data directory without contents; the vault identifier is set by the start.\<close>

definition blank_store :: storage where
  "blank_store = \<lparr>st_vault_id = [], st_metadata = [], st_devices = [], st_blobs = [],
     st_uploads = [], st_commits = [], st_commit_parents = [], st_heads = [], st_files = []\<rparr>"

definition sample_random :: start_random where
  "sample_random = \<lparr>rn_storage_key = Some (pad 32 [1]), rn_instance_id = Some (pad 16 [2]),
     rn_vault_id = Some (pad 16 [3]), rn_salt = Some (pad 16 [4])\<rparr>"

lemma sample_random_wf: "wf_random sample_random"
  by (simp add: wf_random_def sample_random_def)

lemma first_start:
  assumes "argon2 X SERVER_DEFAULT = Inr params" and "argon2id X params password salt = Some key"
    and "rn_storage_key R = Some k" "rn_instance_id R = Some i" "rn_vault_id R = Some v" "rn_salt R = Some salt"
  shows "\<exists>I st'. initialize X R password blank_store = (Inr I, st')"
  using assms
  by (simp add: initialize_def ensure_storage_key_def blank_store_def initialize_transaction_def put_file_def
      validate_migration_version_def get_or_create_fixed_def load_or_create_policy_def get_or_create_u32_def
      check_verifier_def derive_server_auth_key_def get_meta_def set_meta_def repair_heads_def Let_def SERVER_DEFAULT_def)

lemma sample_start: "\<exists>I st'. initialize plain_crypto sample_random [112] blank_store = (Inr I, st')"
  by (rule first_start) (simp_all add: argon2_def plain_crypto_def SERVER_DEFAULT_def sample_random_def)

theorem restart_same_witness:
  "\<exists>I st'. initialize plain_crypto sample_random [112] blank_store = (Inr I, st') \<and>
     initialize plain_crypto \<lparr>rn_storage_key = None, rn_instance_id = None, rn_vault_id = None, rn_salt = None\<rparr>
       [112] st' = (Inr I, st')"
proof -
  obtain I st' where s: "initialize plain_crypto sample_random [112] blank_store = (Inr I, st')"
    using sample_start by blast
  with restart_same [OF plain_crypto_laws sample_random_wf s] show ?thesis by blast
qed

section \<open>Starts that fail\<close>

text \<open>
  C34. Only the password of the first start opens the store: any other whose derived key has another verifier
  is refused, and nothing changes.
\<close>

theorem wrong_password_refused:
  assumes "crypto_laws X" and "wf_random R" and "initialize X R password st = (Inr I, st')"
    and "derive_server_auth_key X other (is_authentication_salt I) (is_argon2_policy I) = Inr k"
    and "server_auth_verifier X k \<noteq> server_auth_verifier X (is_authentication_key I)"
  shows "initialize X R' other st' = (Inl SE_PasswordMismatch, st')"
proof -
  note id = conjunct1 [OF initialize_identified [OF assms(1-3)]]
  have "get_meta st' META_AUTH_VERIFIER = Some (server_auth_verifier X (is_authentication_key I))"
    using id by (simp add: identified_def)
  then have "check_verifier X k (repair_heads (st_vault_id st') st') = Inl SE_PasswordMismatch"
    using assms(5) length_blake3 [OF assms(1)]
    by (simp add: check_verifier_def verify_server_auth_verifier_def server_auth_verifier_def)
  then show ?thesis by (simp add: initialize_def identified_ensure [OF id] identified_transaction [OF id assms(4)])
qed

definition tail_crypto :: crypto where
  "tail_crypto = plain_crypto\<lparr>blake3 := \<lambda>m. pad 32 (rev m)\<rparr>"

lemma tail_crypto_laws: "crypto_laws tail_crypto"
  by (simp add: crypto_laws_def tail_crypto_def plain_crypto_def)

lemma tail_derive:
  "argon2 tail_crypto policy = Inr params \<Longrightarrow>
     derive_server_auth_key tail_crypto password salt policy = Inr (pad 32 password)"
  by (simp add: derive_server_auth_key_def tail_crypto_def plain_crypto_def)

theorem wrong_password_refused_witness:
  "\<exists>I st'. initialize tail_crypto sample_random [112] blank_store = (Inr I, st') \<and>
     initialize tail_crypto sample_random [113] st' = (Inl SE_PasswordMismatch, st')"
proof -
  have "\<exists>I st'. initialize tail_crypto sample_random [112] blank_store = (Inr I, st')"
    by (rule first_start) (simp_all add: argon2_def tail_crypto_def plain_crypto_def SERVER_DEFAULT_def sample_random_def)
  then obtain I st' where s: "initialize tail_crypto sample_random [112] blank_store = (Inr I, st')" by blast
  note id = initialize_identified [OF tail_crypto_laws sample_random_wf s]
  from id obtain params where p: "argon2 tail_crypto (is_argon2_policy I) = Inr params"
    by (auto simp: identified_def)
  have "is_authentication_key I = pad 32 [112]" using id tail_derive [OF p] by simp
  then have "server_auth_verifier tail_crypto (pad 32 [113]) \<noteq>
      server_auth_verifier tail_crypto (is_authentication_key I)"
    by (simp add: server_auth_verifier_def tail_crypto_def pad_def)
  from wrong_password_refused [OF tail_crypto_laws sample_random_wf s tail_derive [OF p] this] s
  show ?thesis by blast
qed

text \<open>
  A start that fails leaves every table as it was; at most it has added the storage key file.
\<close>

theorem failed_start_keeps_tables:
  assumes "initialize X R password st = (Inl e, st')"
  shows "st' = st \<or> file_at st STORAGE_KEY_FILE = None \<and>
    (\<exists>key. rn_storage_key R = Some key \<and> st' = put_file STORAGE_KEY_FILE key st)"
  using assms
  by (auto simp: initialize_def ensure_storage_key_def split: option.splits if_splits sum.splits prod.splits)

theorem failed_start_keeps_tables_witness:
  "initialize plain_crypto (sample_random\<lparr>rn_instance_id := None\<rparr>) [112] blank_store =
     (Inl (SE_Crypto XE_Random), put_file STORAGE_KEY_FILE (pad 32 [1]) blank_store)"
proof -
  have run: "\<exists>st'. initialize plain_crypto (sample_random\<lparr>rn_instance_id := None\<rparr>) [112] blank_store =
     (Inl (SE_Crypto XE_Random), st') \<and> st' \<noteq> blank_store"
    by (simp add: initialize_def ensure_storage_key_def sample_random_def blank_store_def put_file_def
        initialize_transaction_def validate_migration_version_def get_meta_def get_or_create_fixed_def)
  then obtain st' where "initialize plain_crypto (sample_random\<lparr>rn_instance_id := None\<rparr>) [112] blank_store =
     (Inl (SE_Crypto XE_Random), st')" "st' \<noteq> blank_store" by blast
  with failed_start_keeps_tables [OF this(1)] show ?thesis by (simp add: sample_random_def)
qed

text \<open>
  A start interrupted while it writes the storage key leaves a store that no later start accepts:
  the short file is never replaced.
\<close>

theorem interrupted_key_stuck:
  assumes "n < 32"
  shows "initialize X R password (storage_key_crash n key st) = (Inl SE_CorruptMetadata, storage_key_crash n key st)"
proof -
  have "length (take n key) \<noteq> 32" using assms by simp
  then show ?thesis
    by (simp add: initialize_def ensure_storage_key_def storage_key_crash_def put_file_def update_conv' del: length_take)
qed

theorem interrupted_key_stuck_witness:
  "initialize plain_crypto sample_random [112] (storage_key_crash 0 (pad 32 [1]) blank_store) =
     (Inl SE_CorruptMetadata, storage_key_crash 0 (pad 32 [1]) blank_store)"
  by (rule interrupted_key_stuck) simp

end
