(* ===== verification/Server_Identity_Props.thy ===== *)
theory Server_Identity_Props
  imports Server_Identity Storage_Start_Props
begin

text \<open>
  The identity is created once and read back for ever; a start interrupted while it writes one of the two
  files is not recovered from; and which configured passwords are accepted.
\<close>

section \<open>Created once\<close>

definition identity_crates_ok :: "identity_crates \<Rightarrow> bool" where
  "identity_crates_ok K \<longleftrightarrow> (\<forall>k. length (x25519_public K k) = 32) \<and>
     (\<forall>h. list_all is_scalar (base32_unpadded K h) \<and> length (base32_unpadded K h) \<le> 2 * length h) \<and>
     (\<forall>m. length (sha256 K m) = 32)"

text \<open>The identity the files hold.\<close>

definition has_identity :: "identity_crates \<Rightarrow> server_identity \<Rightarrow> storage \<Rightarrow> bool" where
  "has_identity K i st \<longleftrightarrow> file_at st PRIVATE_KEY_FILE = Some (id_private_key i) \<and>
     file_at st PUBLIC_KEY_FILE = Some (id_public_key i) \<and> length (id_private_key i) = 32 \<and>
     length (id_public_key i) = 32 \<and> id_public_key i = x25519_public K (id_private_key i) \<and>
     id_fingerprint i = server_fingerprint K (id_public_key i)"

lemma identity_file_names [simp]: "PRIVATE_KEY_FILE \<noteq> PUBLIC_KEY_FILE" "PUBLIC_KEY_FILE \<noteq> PRIVATE_KEY_FILE"
  by (simp_all add: PRIVATE_KEY_FILE_def PUBLIC_KEY_FILE_def)

lemma read_exact_Inr: "read_exact_file n p st = Inr b \<longleftrightarrow> file_at st p = Some b \<and> length b = n"
  by (auto simp: read_exact_file_def split: option.splits)

lemma write_new_Inr: "write_new_file p b st = Inr st' \<longleftrightarrow> file_at st p = None \<and> st' = put_file p b st"
  by (auto simp: write_new_file_def split: option.splits)

lemma private_key_Inr:
  assumes "identity_private_key random st = Inr (k, st')" and "\<forall>k. random = Some k \<longrightarrow> length k = 32"
  shows "file_at st' PRIVATE_KEY_FILE = Some k \<and> length k = 32 \<and>
    (st' = st \<or> file_at st PRIVATE_KEY_FILE = None \<and> st' = put_file PRIVATE_KEY_FILE k st)"
  using assms
  by (auto simp: identity_private_key_def read_exact_Inr write_new_Inr result_iffs put_file_def update_conv'
      split: if_splits)

lemma public_key_Inr:
  assumes "identity_public_key d st = Inr (k, st')" and "length d = 32"
  shows "k = d \<and> file_at st' PUBLIC_KEY_FILE = Some k \<and>
    (st' = st \<or> file_at st PUBLIC_KEY_FILE = None \<and> st' = put_file PUBLIC_KEY_FILE k st)"
  using assms
  by (auto simp: identity_public_key_def read_exact_Inr write_new_Inr result_iffs put_file_def update_conv'
      split: if_splits)

lemma load_or_create_identity:
  assumes K: "identity_crates_ok K" and R: "\<forall>k. random = Some k \<longrightarrow> length k = 32"
    and run: "load_or_create K random st = (Inr i, st')"
  shows "has_identity K i st' \<and> st' = st\<lparr>st_files := st_files st'\<rparr> \<and>
    (\<forall>p. p \<notin> {PRIVATE_KEY_FILE, PUBLIC_KEY_FILE} \<longrightarrow> file_at st' p = file_at st p)"
proof -
  from run obtain k st1 pk where 1: "identity_private_key random st = Inr (k, st1)"
    and 2: "identity_public_key (x25519_public K k) st1 = Inr (pk, st')"
    and i: "i = \<lparr>id_private_key = k, id_public_key = pk, id_fingerprint = server_fingerprint K pk\<rparr>"
    by (auto simp: load_or_create_def split: sum.splits prod.splits)
  have "length (x25519_public K k) = 32" using K by (simp add: identity_crates_ok_def)
  note pub = public_key_Inr [OF 2 this] and priv = private_key_Inr [OF 1 R]
  show ?thesis
    using pub priv i \<open>length (x25519_public K k) = 32\<close>
    by (auto simp: has_identity_def put_file_def update_conv')
qed

lemma identity_stable:
  assumes "has_identity K i st"
  shows "load_or_create K random st = (Inr i, st)"
  using assms
  by (cases i) (simp add: load_or_create_def identity_private_key_def identity_public_key_def read_exact_file_def
      has_identity_def)

lemma fingerprint_text:
  assumes "identity_crates_ok K"
  shows "wf_str (server_fingerprint K k)"
proof -
  let ?b = "base32_unpadded K (sha256 K k)"
  have "\<forall>c \<in> set ?b. is_scalar (ascii_uppercase c)"
    using assms by (auto simp: identity_crates_ok_def list_all_iff ascii_uppercase_def is_scalar_def)
  then have s: "\<forall>c \<in> set (server_fingerprint K k). is_scalar c"
    by (auto simp: server_fingerprint_def ascii_def is_scalar_def)
  have "length ?b \<le> 2 * length (sha256 K k)" using assms unfolding identity_crates_ok_def by blast
  moreover have "length (sha256 K k) = 32" using assms by (simp add: identity_crates_ok_def)
  ultimately have "length ?b \<le> 64" by simp
  then have "length (server_fingerprint K k) \<le> 100" by (simp add: server_fingerprint_def ascii_def)
  moreover have "utf8_len xs \<le> 4 * length xs" for xs
    by (induction xs) (auto simp: utf8_char_def)
  then have "utf8_len (server_fingerprint K k) \<le> 4 * length (server_fingerprint K k)" .
  ultimately have "utf8_len (server_fingerprint K k) \<le> 1073741824" by linarith
  then have "fits64 (utf8_len (server_fingerprint K k))" by (rule fits64_small)
  with s show ?thesis by (simp add: wf_str_def)
qed

section \<open>Interrupted starts\<close>

text \<open>
  A start that stops after it has written the private key and before it writes the public key is
  completed by the next start, which keeps the key.
\<close>

theorem identity_completed:
  assumes "identity_crates_ok K" and "length key = 32" and "file_at st PUBLIC_KEY_FILE = None"
  shows "\<exists>i st'. load_or_create K random (put_file PRIVATE_KEY_FILE key st) = (Inr i, st') \<and>
    id_private_key i = key \<and> has_identity K i st'"
  using assms
  by (simp add: load_or_create_def identity_private_key_def identity_public_key_def read_exact_file_def
      write_new_file_def has_identity_def put_file_def update_conv' identity_crates_ok_def)

definition sample_crates :: identity_crates where
  "sample_crates = \<lparr>sha256 = pad 32, base32_unpadded = \<lambda>bs. replicate (length bs) 97, x25519_public = pad 32\<rparr>"

lemma sample_crates_ok: "identity_crates_ok sample_crates"
  by (simp add: identity_crates_ok_def sample_crates_def is_scalar_def list_all_iff)

theorem identity_completed_witness:
  "\<exists>i st'. load_or_create sample_crates None (put_file PRIVATE_KEY_FILE (pad 32 [1]) blank_store) = (Inr i, st') \<and>
     id_private_key i = pad 32 [1]"
proof -
  have "file_at blank_store PUBLIC_KEY_FILE = None" by (simp add: blank_store_def)
  from identity_completed [OF sample_crates_ok _ this, of "pad 32 [1]" None] show ?thesis by auto
qed

text \<open>
  A start that stops while it writes one of the two key files is not: the file is too short, and every
  later start fails with an I/O error before it reaches the storage.
\<close>

theorem interrupted_identity_stuck:
  assumes "n < 32" and "path = PRIVATE_KEY_FILE \<or>
      path = PUBLIC_KEY_FILE \<and> (\<exists>k. file_at st PRIVATE_KEY_FILE = Some k \<and> length k = 32)"
  shows "server_initialize C X K random R password (identity_crash path n contents st) =
    (Inl (GE_Identity XE_IdentityIo), identity_crash path n contents st)"
proof -
  have short: "length (take n contents) < 32" using assms(1) by simp
  then have "load_or_create K random (identity_crash path n contents st) = (Inl XE_IdentityIo, identity_crash path n contents st)"
    using assms(2)
    by (auto simp: load_or_create_def identity_crash_def identity_private_key_def identity_public_key_def
        read_exact_file_def put_file_def update_conv' simp del: length_take)
  then show ?thesis by (simp add: server_initialize_def)
qed

theorem interrupted_identity_stuck_witness:
  "\<exists>st. server_initialize rfc_cbor plain_crypto sample_crates None sample_random [112] st =
     (Inl (GE_Identity XE_IdentityIo) :: server_error + nat server, st) \<and>
     st = identity_crash PRIVATE_KEY_FILE 5 (pad 32 [1]) blank_store"
  using interrupted_identity_stuck [of 5 PRIVATE_KEY_FILE blank_store rfc_cbor plain_crypto sample_crates None
      sample_random "[112]" "pad 32 [1]"] by simp

section \<open>Passwords\<close>

lemma strip_prefix_Some: "strip_prefix p xs = Some ys \<longleftrightarrow> xs = p @ ys"
  by (auto simp: strip_prefix_def) (metis append_take_drop_id)

lemma strip_suffix_Some: "strip_suffix p xs = Some ys \<longleftrightarrow> xs = ys @ p"
  by (auto simp: strip_suffix_def strip_prefix_Some) (metis rev_append rev_rev_ident)+

lemma contains_iff: "contains xs p \<longleftrightarrow> (\<exists>us vs. xs = us @ p @ vs)"
proof (induction xs)
  case (Cons x xs)
  have "take (length p) (x # xs) = p \<longleftrightarrow> (\<exists>vs. x # xs = p @ vs)"
    by (metis append_eq_conv_conj)
  then show ?case using Cons.IH
    by (simp add: Cons_eq_append_conv) (metis append_Nil append_Cons)
qed simp

text \<open>
  A password that names a variable is the value of the variable; any other is taken as it is, unless it
  contains the placeholder's opening or closing; and what is accepted has at least sixteen characters.
\<close>

theorem load_password_iff:
  "load_password env raw = Inr password \<longleftrightarrow> 16 \<le> length password \<and>
     ((\<exists>name. raw = ascii ''${'' @ name @ ascii ''}'' \<and> name \<noteq> [] \<and> list_all is_variable_char name \<and>
        env name = Some password) \<or>
      (raw = password \<and> (\<nexists>us vs. raw = us @ ascii ''${'' @ vs) \<and> (\<nexists>us vs. raw = us @ ascii ''}'' @ vs)))"
proof (cases "\<exists>name. raw = ascii ''${'' @ name @ ascii ''}''")
  case True
  then obtain name where raw: "raw = ascii ''${'' @ name @ ascii ''}''" by blast
  then have "Option.bind (strip_prefix (ascii ''${'') raw) (strip_suffix (ascii ''}'')) = Some name"
    by (simp add: bind_eq_Some_conv strip_prefix_Some strip_suffix_Some)
  with raw show ?thesis
    by (auto simp: load_password_def expand_password_def result_iffs not_less)
next
  case False
  have none: "Option.bind (strip_prefix (ascii ''${'') raw) (strip_suffix (ascii ''}'')) = None"
  proof (rule ccontr)
    assume "\<not> ?thesis"
    then obtain name where "Option.bind (strip_prefix (ascii ''${'') raw) (strip_suffix (ascii ''}'')) = Some name"
      by blast
    then have "raw = ascii ''${'' @ name @ ascii ''}''"
      by (simp add: bind_eq_Some_conv strip_prefix_Some strip_suffix_Some)
    with False show False by blast
  qed
  have "expand_password env raw = Inr password \<longleftrightarrow>
      raw = password \<and> \<not> contains raw (ascii ''${'') \<and> \<not> contains raw (ascii ''}'')"
    unfolding expand_password_def none by simp
  moreover have "load_password env raw = Inr password \<longleftrightarrow> expand_password env raw = Inr password \<and> 16 \<le> length password"
    by (auto simp: load_password_def result_iffs)
  ultimately show ?thesis using False unfolding contains_iff by blast
qed

end
