(* ===== verification/Service_Restart.thy ===== *)
theory Service_Restart
  imports Service_System_Correct Server_Identity_Props
begin

text \<open>
  The life of a server across restarts: the first start establishes the service invariant, nothing a
  client can do to a running server touches what start-up relies on, and so a server stopped in
  any state it reaches starts again with its identity, its invariant and its commits.
\<close>

section \<open>The first start\<close>

text \<open>A data directory that may hold key files, but nothing of the service yet.\<close>

definition fresh_dir :: "storage \<Rightarrow> bool" where
  "fresh_dir st \<longleftrightarrow> st_metadata st = [] \<and> st_devices st = [] \<and> st_blobs st = [] \<and> st_uploads st = [] \<and>
     st_commits st = [] \<and> st_commit_parents st = [] \<and> st_heads st = [] \<and> (\<forall>h. file_at st (object_path h) = None)"

lemma fresh_blank: "fresh_dir blank_store"
  by (simp add: fresh_dir_def blank_store_def)

lemma object_path_key [simp]: "object_path h \<noteq> STORAGE_KEY_FILE"
  by (simp add: object_path_def STORAGE_KEY_FILE_def Let_def)

lemma fresh_put_key: "fresh_dir st \<Longrightarrow> fresh_dir (put_file STORAGE_KEY_FILE key st)"
  by (simp add: fresh_dir_def put_file_def update_conv')

lemma service_inv_repair:
  assumes "service_inv X st"
  shows "service_inv X (repair_heads (st_vault_id st) st)"
proof (rule service_invI)
  note inv = service_invD [OF assms]
  let ?st = "repair_heads (st_vault_id st) st"
  show "blobs_inv X ?st" by (rule blobs_inv_keep [OF inv(1)]) (simp_all add: repair_heads_def Let_def)
  show "committed ?st" by (rule committed_other [OF inv(2) same_commits_repair [OF inv(2)]])
  show "devices_wf ?st" by (rule devices_wf_cong [OF inv(3)]) (simp add: repair_heads_def Let_def)
  show "rows_ok ?st"
    by (rule rows_okI [OF inv(4)]) (use rows_okD(1,2) [OF inv(4)] in \<open>simp_all add: repair_heads_def Let_def\<close>)
qed

lemma first_start_service:
  assumes fresh: "fresh_dir st" and "crypto_laws X" "wf_random R" "initialize X R password st = (Inr I, st')"
  shows "service_inv X st' \<and> identified X I st' \<and> (\<forall>p. p \<noteq> STORAGE_KEY_FILE \<longrightarrow> file_at st' p = file_at st p)"
proof -
  note id = conjunct1 [OF initialize_identified [OF assms(2-4)]]
  from assms(4) obtain st1 where k: "ensure_storage_key (rn_storage_key R) st = (Inr (), st1)"
    and t: "initialize_transaction X R password st1 = Inr (I, st')" by (rule initialize_Inr)
  from ensure_storage_key_Inr [OF k] assms(3)
  have st1: "st1 = st \<or> (\<exists>key. st1 = put_file STORAGE_KEY_FILE key st)"
    by (auto simp: wf_random_def)
  then have fresh1: "fresh_dir st1" using fresh fresh_put_key by auto
  note tr = initialize_transaction_Inr [OF assms(2,3) t]
  have f: "st_devices st' = []" "st_blobs st' = []" "st_uploads st' = []" "st_commits st' = []"
    "st_commit_parents st' = []" "st_heads st' = []" "st_files st' = st_files st1"
  proof -
    have eq: "st' = (repair_heads (is_vault_id I) st1)\<lparr>st_vault_id := is_vault_id I, st_metadata := st_metadata st'\<rparr>"
      using tr by blast
    show "st_devices st' = []" "st_blobs st' = []" "st_uploads st' = []" "st_commits st' = []"
      "st_commit_parents st' = []" "st_heads st' = []" "st_files st' = st_files st1"
      by (subst eq, use fresh1 in \<open>simp add: repair_heads_def Let_def fresh_dir_def\<close>)+
  qed
  have "file_at st' (object_path h) = None" for h using fresh1 f(7) by (simp add: fresh_dir_def)
  then have "blobs_inv X st'" using f by (simp add: blobs_inv_def uploads_ok_def)
  moreover have "committed st'" by (rule committed_empty) (simp_all add: f)
  moreover have "get_meta st' META_VAULT_KEY_ENVELOPE = None"
    using tr fresh1 by (auto simp: fresh_dir_def get_meta_def)
  then have "rows_ok st'" using f id by (simp add: rows_ok_def identified_def)
  moreover have "\<forall>p. p \<noteq> STORAGE_KEY_FILE \<longrightarrow> file_at st' p = file_at st p"
    using st1 f(7) by (auto simp: put_file_def update_conv')
  ultimately show ?thesis using f id by (simp add: service_inv_def devices_wf_def)
qed

section \<open>What requests leave alone\<close>

definition key_files :: "string set" where
  "key_files = {STORAGE_KEY_FILE, PRIVATE_KEY_FILE, PUBLIC_KEY_FILE}"

definition keeps_identity :: "storage \<Rightarrow> storage \<Rightarrow> bool" where
  "keeps_identity st st' \<longleftrightarrow> st_vault_id st' = st_vault_id st \<and>
     (\<forall>p \<in> key_files. file_at st' p = file_at st p) \<and>
     (\<forall>k. k \<noteq> META_VAULT_KEY_ENVELOPE \<longrightarrow> get_meta st' k = get_meta st k)"

lemma identified_kept: "keeps_identity st st' \<Longrightarrow> identified X I st \<Longrightarrow> identified X I st'"
  by (simp add: keeps_identity_def identified_def has_policy_def has_u32_def key_files_def)

lemma key_path_differs [simp]:
  "p \<in> key_files \<Longrightarrow> upload_path u \<noteq> p" "p \<in> key_files \<Longrightarrow> object_path h \<noteq> p"
  "p \<in> key_files \<Longrightarrow> p \<noteq> upload_path u" "p \<in> key_files \<Longrightarrow> p \<noteq> object_path h"
  by (auto simp: key_files_def object_path_def upload_path_def STORAGE_KEY_FILE_def PRIVATE_KEY_FILE_def
      PUBLIC_KEY_FILE_def Let_def)

abbreviation key_kept :: "storage \<Rightarrow> storage \<Rightarrow> bool" where
  "key_kept st st' \<equiv> (\<forall>p \<in> key_files. file_at st' p = file_at st p)"

lemmas key_simps = put_file_def remove_file_def update_conv' delete_conv'

lemma begin_upload_key: "begin_upload f u now d n h st = (res, st') \<Longrightarrow> key_kept st st'"
  by (auto simp: begin_upload_def key_simps Let_def split: if_splits sum.splits option.splits)

lemma append_file_key: "append_file u offset chunk st = (res, st') \<Longrightarrow> key_kept st st'"
  by (auto simp: append_file_def key_simps split: if_splits option.splits)

lemma append_record_key: "append_record u offset n st = (res, st') \<Longrightarrow> key_kept st st'"
  by (auto simp: append_record_def Let_def split: if_splits sum.splits)

lemma publish_file_key: "publish_file X rec st = (res, st') \<Longrightarrow> key_kept st st'"
  by (auto simp: publish_file_def key_simps Let_def split: if_splits sum.splits option.splits)

lemma record_blob_key: "record_blob now rec st = (res, st') \<Longrightarrow> key_kept st st'"
  by (auto simp: record_blob_def Let_def split: sum.splits)

lemma append_upload_chunk_key:
  assumes "append_upload_chunk d u offset chunk st = (res, st')"
  shows "key_kept st st'"
proof -
  have "key_kept st st2" if "append_locked d u offset chunk st = (r, st2)" for r st2
    using that append_file_key append_record_key
    by (auto simp: append_locked_def split: if_splits sum.splits prod.splits)
  with assms show ?thesis by (auto simp: append_upload_chunk_def split: if_splits sum.splits)
qed

lemma commit_upload_key:
  assumes "commit_upload X now d u st = (res, st')"
  shows "key_kept st st'"
proof -
  have "key_kept st st2" if "commit_locked X now d u st = (r, st2)" for r st2
    using that publish_file_key record_blob_key
    by (auto simp: commit_locked_def split: if_splits sum.splits prod.splits)
  with assms show ?thesis by (auto simp: commit_upload_def split: sum.splits)
qed

lemma blob_frame_identity: "blob_frame st st' \<Longrightarrow> key_kept st st' \<Longrightarrow> keeps_identity st st'"
  by (simp add: keeps_identity_def blob_frame_def same_commits_def get_meta_def)

lemma storage_step_identity:
  assumes "storage_step C X st st'"
  shows "keeps_identity st st'"
  using assms
proof cases
  case (does_register now i k n q)
  from register_device_fields [OF does_register(1)] show ?thesis by (simp add: keeps_identity_def get_meta_def)
next
  case (does_revoke now i q)
  from register_device_fields revoke_device_fields [OF does_revoke] show ?thesis
    by (simp add: keeps_identity_def get_meta_def)
next
  case (does_begin f u now d n h q)
  show ?thesis by (rule blob_frame_identity [OF begin_upload_frame [OF does_begin(1)] begin_upload_key [OF does_begin(1)]])
next
  case (does_append d u offset chunk q)
  show ?thesis by (rule blob_frame_identity [OF append_upload_chunk_frame [OF does_append] append_upload_chunk_key [OF does_append]])
next
  case (does_commit now d u q)
  show ?thesis by (rule blob_frame_identity [OF commit_upload_frame [OF does_commit] commit_upload_key [OF does_commit]])
next
  case (does_accept now d c rec q)
  from accept_commit_frame [OF does_accept(1)] show ?thesis by (simp add: commit_frame_def keeps_identity_def get_meta_def)
next
  case (does_envelope e q)
  from put_envelope_fields [OF does_envelope] show ?thesis
    by (auto simp: keeps_identity_def) (simp add: set_meta_def)
qed

section \<open>Restart\<close>

abbreviation store_of :: "'t system \<Rightarrow> storage" where
  "store_of Y \<equiv> ap_storage (sv_application (sy_server Y))"

lemma handshake_store:
  "http_handshake C N now R ip query body S = (response, S') \<Longrightarrow>
     ap_storage (sv_application S') = ap_storage (sv_application S)"
  by (auto simp: http_handshake_def handshake_def set_limiter_def Let_def
      split: if_splits prod.splits sum.splits handshake_failure.splits option.splits)

lemma lookup_store:
  "envelope_lookup now ip query body S = (r, S') \<Longrightarrow> sv_application S' = sv_application S"
  by (auto simp: envelope_lookup_def Let_def split: if_splits prod.splits sum.splits option.splits)

lemma system_step_store:
  assumes C: "cbor_format C" and inv: "system_inv X Y" and step: "system_step C X N Y Y'"
  shows "store_of Y' = store_of Y \<or> storage_step C X (store_of Y) (store_of Y')"
  using step
proof cases
  case (sys_process t p E response S)
  let ?S = "sy_server Y"
  note I = system_invD [OF inv]
  obtain r s A where proc: "process_envelope C X N E (pe_peer_ip p) (sv_application ?S)
      (sr_objects (sv_sessions ?S) ! pe_session p) (pe_ciphertext p) = (r, s, A)" by (metis prod_cases3)
  have "sv_application S = A" using envelope_process_result [OF sys_process(6) I(2) proc] by blast
  moreover have "touched C X (sv_application ?S) A" using process_envelope_effect [OF C proc I(1) sys_process(5)] by blast
  ultimately show ?thesis using sys_process(1) by (auto simp: touched_def)
next
  case (sys_job s request E res s' A)
  have "touched C X (sv_application (sy_server Y)) A"
    by (rule dispatch_storage [OF _ sys_job(3,4)]) (use system_invD(6) [OF inv] sys_job(2) in auto)
  then show ?thesis using sys_job(1) by (auto simp: touched_def set_storage_def)
qed (auto simp: envelope_cancel_def envelope_abandon_def Let_def split: option.splits dest: handshake_store lookup_store)

lemma system_step_identity:
  assumes "cbor_format C" and "system_inv X Y" and "system_step C X N Y Y'"
  shows "keeps_identity (store_of Y) (store_of Y')"
  using system_step_store [OF assms]
proof
  assume "storage_step C X (store_of Y) (store_of Y')"
  then show ?thesis by (rule storage_step_identity)
qed (simp add: keeps_identity_def)

lemma has_identity_files:
  "file_at st' PRIVATE_KEY_FILE = file_at st PRIVATE_KEY_FILE \<Longrightarrow>
     file_at st' PUBLIC_KEY_FILE = file_at st PUBLIC_KEY_FILE \<Longrightarrow> has_identity K i st \<Longrightarrow> has_identity K i st'"
  unfolding has_identity_def by metis

lemma has_identity_kept: "keeps_identity st st' \<Longrightarrow> has_identity K i st \<Longrightarrow> has_identity K i st'"
  by (rule has_identity_files) (simp_all add: keeps_identity_def key_files_def)

sublocale cbor_format \<subseteq> restartable: relative_invariant "system_step C X N" "system_inv X"
    "\<lambda>Y. identified X I (store_of Y) \<and> has_identity K i (store_of Y)" for X N I K i
proof unfold_locales
  fix Y Y'
  assume step: "system_step C X N Y Y'" and inv: "system_inv X Y"
  show "system_inv X Y'" by (rule system_step_inv [OF cbor_format_axioms inv step])
  assume "identified X I (store_of Y) \<and> has_identity K i (store_of Y)"
  with system_step_identity [OF cbor_format_axioms inv step]
  show "identified X I (store_of Y') \<and> has_identity K i (store_of Y')"
    using identified_kept has_identity_kept by blast
qed

context cbor_format begin

lemma steps_identity:
  "(system_step C X N)\<^sup>*\<^sup>* Y Y' \<Longrightarrow> system_inv X Y \<Longrightarrow> identified X I (store_of Y) \<Longrightarrow>
    has_identity K i (store_of Y) \<Longrightarrow>
    system_inv X Y' \<and> identified X I (store_of Y') \<and> has_identity K i (store_of Y')"
  using restartable.steps_keep_both by blast

end

lemma server_initialize_first:
  assumes X: "crypto_laws X" and K: "identity_crates_ok K" and R: "wf_random R" "\<forall>k. random = Some k \<longrightarrow> length k = 32"
    and run: "server_initialize C X K random R password blank_store = (Inr S, st)"
  obtains i I where "has_identity K i st" "identified X I st" "service_inv X st" "app_state_new C i I st = Some S"
    "derive_server_auth_key X password (is_authentication_salt I) (is_argon2_policy I) = Inr (is_authentication_key I)"
proof -
  from run obtain i st1 I where 1: "load_or_create K random blank_store = (Inr i, st1)"
    and 2: "initialize X R password st1 = (Inr I, st)" and 3: "app_state_new C i I st = Some S"
    by (auto simp: server_initialize_def split: sum.splits prod.splits option.splits)
  note id = load_or_create_identity [OF K R(2) 1]
  have st1: "st1 = blank_store\<lparr>st_files := st_files st1\<rparr>"
    and files: "\<forall>p. p \<notin> {PRIVATE_KEY_FILE, PUBLIC_KEY_FILE} \<longrightarrow> file_at st1 p = file_at blank_store p"
    using id by blast+
  have "object_path h \<notin> {PRIVATE_KEY_FILE, PUBLIC_KEY_FILE}" for h
    by (simp add: object_path_def PRIVATE_KEY_FILE_def PUBLIC_KEY_FILE_def Let_def)
  then have none: "file_at st1 (object_path h) = None" for h using files by (simp add: blank_store_def)
  have "fresh_dir st1" unfolding fresh_dir_def by (subst (1 2 3 4 5 6 7) st1) (simp add: blank_store_def none)
  from first_start_service [OF this X R(1) 2]
  have first: "service_inv X st" "identified X I st" "\<forall>p. p \<noteq> STORAGE_KEY_FILE \<longrightarrow> file_at st p = file_at st1 p"
    by blast+
  have "has_identity K i st"
    by (rule has_identity_files [of _ st1])
      (use id first(3) in \<open>simp_all add: PRIVATE_KEY_FILE_def PUBLIC_KEY_FILE_def STORAGE_KEY_FILE_def\<close>)
  with first 3 initialize_identified [OF X R(1) 2] that show thesis by blast
qed

text \<open>A start on a directory that holds a service, with the password of the service, gives that service.\<close>

lemma identified_restarts:
  fixes S :: "'t server"
  assumes X: "crypto_laws X" and has: "has_identity K i st" and id: "identified X I st" and inv: "service_inv X st"
    and key: "derive_server_auth_key X password (is_authentication_salt I) (is_argon2_policy I) = Inr (is_authentication_key I)"
    and new: "app_state_new C i I st0 = Some S"
  shows "\<exists>S' st'. server_initialize C X K random R password st = (Inr (S' :: 't server), st') \<and>
    sv_config S' = sv_config S \<and> sv_bootstrap S' = sv_bootstrap S \<and>
    ap_authentication_key (sv_application S') = ap_authentication_key (sv_application S) \<and>
    ap_storage (sv_application S') = st' \<and> service_inv X st' \<and>
    st_devices st' = st_devices st \<and> st_blobs st' = st_blobs st \<and> st_commits st' = st_commits st \<and>
    st_files st' = st_files st \<and> storage_heads st' = storage_heads st"
proof -
  let ?st = "repair_heads (st_vault_id st) st"
  note com = service_invD(2) [OF inv] service_invD(2) [OF service_inv_repair [OF inv]]
  have heads: "storage_heads ?st = storage_heads st"
    using repaired_heads [OF com(1)] repaired_heads [OF com(2)]
      same_commits_abs [OF same_commits_repair [OF com(1)]] by simp
  obtain S' :: "'t server" where S': "app_state_new C i I ?st = Some S'"
    using new by (auto simp: app_state_new_def new_server_def encode_bootstrap_def)
  have "server_initialize C X K random R password st = (Inr S', ?st)"
    using identity_stable [OF has] start_again [OF X id key] S' by (simp add: server_initialize_def)
  moreover have "sv_config S' = sv_config S" "sv_bootstrap S' = sv_bootstrap S"
    "ap_authentication_key (sv_application S') = ap_authentication_key (sv_application S)"
    "ap_storage (sv_application S') = ?st"
    using S' new by (auto simp: app_state_new_def new_server_def encode_bootstrap_def)
  ultimately show ?thesis using service_inv_repair [OF inv] heads by (simp add: repair_heads_def Let_def)
qed

text \<open>
  A server can be stopped between any two steps and started again: whatever its clients did since
  the first start, the next start with the same password succeeds with the same configuration - key pair,
  fingerprint, instance, salt and policy - the same bootstrap document and authentication key, and the
  service then has its invariant, its devices, blobs, commits, files and heads.
\<close>

lemma service_restarts:
  fixes S :: "'t server"
  assumes "cbor_format C" and "crypto_laws X" and "identity_crates_ok K"
    and "wf_random R" and "\<forall>k. random = Some k \<longrightarrow> length k = 32"
    and "server_initialize C X K random R password blank_store = (Inr S, st)"
    and "(system_step C X N)\<^sup>*\<^sup>* \<lparr>sy_now = now, sy_server = S, sy_pending = [], sy_jobs = []\<rparr> Y"
  shows "\<exists>S' st'. server_initialize C X K random' R' password (store_of Y) = (Inr (S' :: 't server), st') \<and>
    sv_config S' = sv_config S \<and> sv_bootstrap S' = sv_bootstrap S \<and>
    ap_authentication_key (sv_application S') = ap_authentication_key (sv_application S) \<and>
    ap_storage (sv_application S') = st' \<and> service_inv X st' \<and>
    st_devices st' = st_devices (store_of Y) \<and> st_blobs st' = st_blobs (store_of Y) \<and>
    st_commits st' = st_commits (store_of Y) \<and> st_files st' = st_files (store_of Y) \<and>
    storage_heads st' = storage_heads (store_of Y)"
proof -
  obtain i I where first: "has_identity K i st" "identified X I st" "service_inv X st" "app_state_new C i I st = Some S"
    and key: "derive_server_auth_key X password (is_authentication_salt I) (is_argon2_policy I) = Inr (is_authentication_key I)"
    by (rule server_initialize_first [OF assms(2-6)])
  have store: "ap_storage (sv_application S) = st"
    using first(4) by (auto simp: app_state_new_def new_server_def split: sum.splits)
  have "system_inv X \<lparr>sy_now = now, sy_server = S, sy_pending = [], sy_jobs = []\<rparr>"
    using running_inv [OF assms(1) running_start [OF first(3) first(4) [unfolded app_state_new_def]]] by blast
  with cbor_format.steps_identity [OF assms(1,7)] first store
  have inv: "system_inv X Y" and id: "identified X I (store_of Y)" and has: "has_identity K i (store_of Y)" by auto
  show ?thesis by (rule identified_restarts [OF assms(2) has id system_invD(1) [OF inv] key first(4)])
qed

lemma sample_server_start:
  "\<exists>(S :: nat server) st. server_initialize rfc_cbor plain_crypto sample_crates (Some (pad 32 [5])) sample_random password
     blank_store = (Inr S, st) \<and> st_devices st = [] \<and> st_blobs st = [] \<and> st_uploads st = [] \<and>
   (\<forall>h. file_at st (object_path h) = None) \<and> (\<forall>u. file_at st (upload_path u) = None)"
  by (simp add: server_initialize_def load_or_create_def identity_private_key_def identity_public_key_def
      write_new_file_def sample_crates_def sample_random_def PRIVATE_KEY_FILE_def PUBLIC_KEY_FILE_def
      STORAGE_KEY_FILE_def initialize_def ensure_storage_key_def blank_store_def initialize_transaction_def put_file_def
      validate_migration_version_def get_or_create_fixed_def load_or_create_policy_def get_or_create_u32_def
      check_verifier_def derive_server_auth_key_def get_meta_def set_meta_def repair_heads_def Let_def SERVER_DEFAULT_def
      app_state_new_def new_server_def encode_bootstrap_def argon2_def plain_crypto_def object_path_def upload_path_def)

end
