(* ===== verification/Client_Service.thy ===== *)
theory Client_Service
  imports Client_Login Service_Restart
begin

text \<open>
  What a client gets from the service: a conversation over the encrypted channel has the answers and the
  effect of calling the dispatcher directly, and a server that was started serves a client that knows its
  fingerprint and password.
\<close>

section \<open>A server that was started\<close>

lemma started_server_ok:
  assumes "cbor_format C" and K: "identity_crates_ok K" and "has_identity K i st" and "identified X I st"
    and "app_state_new C i I st = Some S"
  shows "server_ok C K S \<and> ap_authentication_key (sv_application S) = is_authentication_key I \<and>
    cf_authentication_salt (sv_config S) = is_authentication_salt I \<and>
    cf_argon2_policy (sv_config S) = is_argon2_policy I \<and> ap_storage (sv_application S) = st"
  using assms fingerprint_text [OF K]
  by (auto simp: app_state_new_def new_server_def server_ok_def Let_def has_identity_def identified_def split: sum.splits)

lemma fresh_admits:
  assumes "app_state_new C i I st = Some S"
  shows "admits now ip handle S"
  using assms
  by (auto simp: app_state_new_def new_server_def admits_def allow_handshake_def Let_def retain_recent_def
      entry_or_new_def new_entry_def enter_handshake_def retain_live_def store_inv_def MAX_TRACKED_ADDRESSES_def
      MAX_HANDSHAKES_PER_WINDOW_def MAX_SESSIONS_def split: sum.splits prod.splits)

text \<open>
  C6. Logging in works. Premises: the server publishes its key and fingerprint and is admitting the peer, i.e. the
  rate limit of its address is not exhausted and the session table has room for a new handle; the suite of the
  program builds; the storage invariant holds (C4); the clock has not passed the session's lifetime when the proof
  arrives. Then a client that pinned the key's fingerprint completes the handshake, and with the password the
  server was started with - and, if it has one, a device registered and not revoked - it is answered that it is
  authenticated, on a session whose two ends are in step.
\<close>

theorem login_succeeds:
  assumes "cbor_format C" and "crypto_laws X" and "duplex_laws N D" and "nk_laws (x25519_public K) N D"
    and ok: "server_ok C K S" and draws: "wf_draws R handle" and adm: "admits now ip handle S"
    and "encode_noise_prologue C (cf_instance_id (sv_config S)) = Inr p"
    and "build_initiator_state N NOISE_SUITE (cf_public_key (sv_config S)) p = Some hi"
    and "build_responder N NOISE_SUITE (cf_private_key (sv_config S)) p = Some hr"
    and key: "derive_server_auth_key X password (cf_authentication_salt (sv_config S)) (cf_argon2_policy (sv_config S)) =
      Inr (ap_authentication_key (sv_application S))"
    and dev: "\<forall>d. device = Some d \<longrightarrow> registered X (ap_storage (sv_application S)) d"
    and inv: "service_inv X (ap_storage (sv_application S))"
    and u: "is_array 16 (en_upload_id E)" and now: "en_now E < now + SESSION_LIFETIME"
  shows "\<exists>ch msg rsp S1 ch1 frame ch2 body S2 ch3 s.
    begin_channel C K N (ht_body (http_bootstrap None S)) (cf_fingerprint (sv_config S)) = Inr (ch, msg) \<and>
    http_handshake C N now R ip None msg S = (binary_response 200 ''application/octet-stream'' rsp, S1) \<and>
    complete_handshake C N rsp ch = (Inr (), ch1) \<and>
    channel_authenticate C X N password device ch1 = (Inr frame, ch2) \<and>
    post C X N E ip frame S1 = (binary_response 200 ''application/octet-stream'' body, S2) \<and>
    channel_response C N body ch2 =
      (Inr (Authenticated (device \<noteq> None) (st_vault_id (ap_storage (sv_application S)))), ch3) \<and>
    session_open handle (now + SESSION_LIFETIME) s S2 \<and> messages_left s (MAX_SESSION_MESSAGES - 1) \<and>
    in_step D (NONCE_LIMIT - MESSAGE_RECORDS) (NONCE_LIMIT - MESSAGE_RECORDS) handle ch3 s \<and>
    ss_phase s = (case device of None \<Rightarrow> PasswordAuthenticated | Some d \<Rightarrow> DeviceAuthenticated (di_device_id d))"
proof -
  obtain ch msg rsp S1 ch1 s challenge where h:
    "begin_channel C K N (ht_body (http_bootstrap None S)) (cf_fingerprint (sv_config S)) = Inr (ch, msg)"
    "http_handshake C N now R ip None msg S = (binary_response 200 ''application/octet-stream'' rsp, S1)"
    "complete_handshake C N rsp ch = (Inr (), ch1)" "in_step D NONCE_LIMIT NONCE_LIMIT handle ch1 s"
    "session_open handle (now + SESSION_LIFETIME) s S1" "ss_phase s = AwaitingPassword" "ss_peer_ip s = ip"
    "messages_left s MAX_SESSION_MESSAGES"
    "sv_application S1 = (sv_application S)\<lparr>ap_rate_limiter := snd (allow_handshake now ip (ap_rate_limiter (sv_application S)))\<rparr>"
    "cc_challenge ch1 = Some challenge" "ac_authentication_salt challenge = cf_authentication_salt (sv_config S)"
    "ac_argon2_memory_kib challenge = memory_kib (cf_argon2_policy (sv_config S))"
    "ac_argon2_iterations challenge = iterations (cf_argon2_policy (sv_config S))"
    "ac_argon2_parallelism challenge = parallelism (cf_argon2_policy (sv_config S))"
    by (rule cbor_format.handshake_in_step [OF assms(1,4) ok draws adm assms(8-10)])
  have key1: "derive_server_auth_key X password (ac_authentication_salt challenge)
      \<lparr>memory_kib = ac_argon2_memory_kib challenge, iterations = ac_argon2_iterations challenge,
       parallelism = ac_argon2_parallelism challenge\<rparr> = Inr (ap_authentication_key (sv_application S1))"
    using key h(9,11-14) by simp
  have dev1: "\<forall>d. device = Some d \<longrightarrow> registered X (ap_storage (sv_application S1)) d"
    and inv1: "service_inv X (ap_storage (sv_application S1))" using dev inv h(9) by simp_all
  obtain frame ch2 body S2 ch3 s' where a:
    "channel_authenticate C X N password device ch1 = (Inr frame, ch2)"
    "post C X N E (ss_peer_ip s) frame S1 = (binary_response 200 ''application/octet-stream'' body, S2)"
    "channel_response C N body ch2 =
       (Inr (Authenticated (device \<noteq> None) (st_vault_id (ap_storage (sv_application S1)))), ch3)"
    "in_step D (NONCE_LIMIT - MESSAGE_RECORDS) (NONCE_LIMIT - MESSAGE_RECORDS) handle ch3 s'"
    "session_open handle (now + SESSION_LIFETIME) s' S2" "messages_left s' (MAX_SESSION_MESSAGES - 1)"
    "ss_phase s' = (case device of None \<Rightarrow> PasswordAuthenticated | Some d \<Rightarrow> DeviceAuthenticated (di_device_id d))"
    by (rule cbor_format.login_answered [OF assms(1,3,2) h(4,5,6,8,10) key1 dev1 inv1 u now])
  have vault: "ap_storage (sv_application S1) = ap_storage (sv_application S)" using h(9) by simp
  show ?thesis by (intro exI conjI) (rule h(1-3) a [unfolded h(7) vault])+
qed

definition sample_draws :: handshake_random where
  "sample_draws = \<lparr>hr_session_handle = Some (pad 32 [7]), hr_random_challenge = Some (pad 32 [8]),
     hr_session_id = Some (pad 16 [9])\<rparr>"

theorem login_succeeds_witness:
  "\<exists>(S :: nat server) ch msg rsp S1 ch1 frame ch2 body S2 ch3.
    server_initialize rfc_cbor plain_crypto sample_crates (Some (pad 32 [5])) sample_random [112] blank_store =
      (Inr S, ap_storage (sv_application S)) \<and>
    begin_channel rfc_cbor sample_crates plain_snow (ht_body (http_bootstrap None S)) (cf_fingerprint (sv_config S)) =
      Inr (ch, msg) \<and>
    http_handshake rfc_cbor plain_snow 5 sample_draws [127, 0, 0, 1] None msg S =
      (binary_response 200 ''application/octet-stream'' rsp, S1) \<and>
    complete_handshake rfc_cbor plain_snow rsp ch = (Inr (), ch1) \<and>
    channel_authenticate rfc_cbor plain_crypto plain_snow [112] None ch1 = (Inr frame, ch2) \<and>
    post rfc_cbor plain_crypto plain_snow sample_env [127, 0, 0, 1] frame S1 =
      (binary_response 200 ''application/octet-stream'' body, S2) \<and>
    channel_response rfc_cbor plain_snow body ch2 =
      (Inr (Authenticated False (st_vault_id (ap_storage (sv_application S)))), ch3)"
proof -
  obtain S :: "nat server" and st where s: "server_initialize rfc_cbor plain_crypto sample_crates (Some (pad 32 [5]))
      sample_random [112] blank_store = (Inr S, st)" using sample_server_start by blast
  have "\<forall>k. Some (pad 32 [5]) = Some k \<longrightarrow> length k = 32" by simp
  then obtain i I where f: "has_identity sample_crates i st" "identified plain_crypto I st" "service_inv plain_crypto st"
    "app_state_new rfc_cbor i I st = Some S"
    "derive_server_auth_key plain_crypto [112] (is_authentication_salt I) (is_argon2_policy I) = Inr (is_authentication_key I)"
    by (rule server_initialize_first [OF plain_crypto_laws sample_crates_ok sample_random_wf _ s])
  note ok = started_server_ok [OF rfc.cbor_format_axioms sample_crates_ok f(1,2,4)]
  obtain p where p: "encode_noise_prologue rfc_cbor (cf_instance_id (sv_config S)) = Inr p"
    by (simp add: encode_noise_prologue_def)
  have draws: "wf_draws sample_draws (pad 32 [7])" by (simp add: wf_draws_def sample_draws_def)
  have st: "ap_storage (sv_application S) = st" using ok by blast
  show ?thesis
    using login_succeeds [OF rfc.cbor_format_axioms plain_crypto_laws plain_snow_duplex plain_snow_nk ok [THEN conjunct1]
        draws fresh_admits [OF f(4)] p, of 0 0 "[112]" None sample_env 5 "[127, 0, 0, 1]"] s ok f(3,5)
    by (simp add: plain_snow_def sample_env_def SESSION_LIFETIME_def seconds_def) blast
qed

section \<open>Conversations\<close>

text \<open>
  C1. Refinement. Take an open session whose two ends are in step, a server whose storage satisfies the service
  invariant (which holds of every running server, C4), and any list of well-formed requests, device lists
  included, within the session's message limit, nonce budget and lifetime. If every answer the dispatcher gives to
  them directly is deliverable - which only a device list of over 1024 devices or of over 800000 bytes is not -
  then posting the requests one after the other gives exactly these responses, and leaves exactly the
  application state, of calling the dispatcher directly. Encryption, records, frames, sequence numbers, session
  lookup and HTTP are transparent; a conversation ends when an answer closes the session.
\<close>

theorem conversation_refines_dispatch:
  assumes "cbor_format C" and "duplex_laws N D"
    and "in_step D (length qs * MESSAGE_RECORDS) (length qs * MESSAGE_RECORDS) handle ch s"
    and "session_open handle until s S" and "messages_left s (length qs)"
    and "service_inv X (ap_storage (sv_application S))"
    and "\<forall>(E, q) \<in> set qs. wf_request q \<and> is_array 16 (en_upload_id E) \<and> en_now E < until"
    and "\<forall>r \<in> set (fst (serve C X qs (sv_application S) (view s))). deliverable r"
  shows "\<exists>rs ch' S'. conversation C X N (ss_peer_ip s) qs ch S = (rs, ch', S') \<and>
    serve C X qs (sv_application S) (view s) = (rs, sv_application S')"
  by (rule cbor_format.conversation_refines [OF assms])

definition sample_channel :: "(nat, nat) client_channel" where
  "sample_channel = \<lparr>cc_handshake = None, cc_transport = Some 0, cc_challenge = Some sample_challenge,
     cc_authentication_context = Some [1], cc_next_client_sequence = 0, cc_next_server_sequence = 0\<rparr>"

definition sample_session :: "nat session" where
  "sample_session = \<lparr>ss_peer_ip = [127, 0, 0, 1], ss_transport = 0, ss_authentication_context = [1],
     ss_phase = DeviceAuthenticated (pad 16 [1]), ss_next_client_sequence = 0, ss_next_server_sequence = 0,
     ss_message_count = 0\<rparr>"

definition listed_application :: application where
  "listed_application = empty_application\<lparr>ap_storage :=
     snd (register_device 1 (pad 16 [1]) (pad 32 [2]) [3] (ap_storage empty_application))\<rparr>"

definition sample_server :: "nat server" where
  "sample_server = \<lparr>sv_config = sample_config, sv_bootstrap = [], sv_application = listed_application,
     sv_sessions = \<lparr>sr_sessions = [(ac_session_handle sample_challenge, \<lparr>sn_session = 0, sn_expires_at = 100\<rparr>)],
       sr_objects = [sample_session]\<rparr>\<rparr>"

definition sample_record :: device_record where
  "sample_record = \<lparr>dr_device_id = pad 16 [1], dr_public_key = pad 32 [2], dr_encrypted_name = [3], dr_revoked = False\<rparr>"

lemma sample_served:
  "serve rfc_cbor plain_crypto [(sample_env, Ping), (sample_env, ListDevices)] listed_application (view sample_session) =
     ([Pong, Devices [sample_record]], listed_application)"
  by (simp add: listed_application_def empty_application_def register_device_def fresh_store_def device_row_of_def
      view_def sample_session_def sample_record_def keep_def app_list_devices_def app_ping_def with_device_def
      require_device_def require_active_device_def get_device_def from_storage_def success_def list_devices_def rmap_def)

theorem conversation_refines_dispatch_witness:
  "\<exists>ch' S'. conversation rfc_cbor plain_crypto plain_snow [127, 0, 0, 1]
      [(sample_env, Ping), (sample_env, ListDevices)] sample_channel sample_server =
    ([Pong, Devices [sample_record]], ch', S') \<and> sv_application S' = listed_application"
proof -
  let ?qs = "[(sample_env, Ping), (sample_env, ListDevices)]"
  have step: "in_step (\<lambda>m n s r. s = r) (length ?qs * MESSAGE_RECORDS) (length ?qs * MESSAGE_RECORDS)
      (ac_session_handle sample_challenge) sample_channel sample_session"
    by (simp add: in_step_def sample_channel_def sample_session_def sample_challenge_def)
  have opn: "session_open (ac_session_handle sample_challenge) 100 sample_session sample_server"
    by (simp add: session_open_def store_inv_def sample_server_def MAX_SESSIONS_def)
  have left: "messages_left sample_session (length ?qs)"
    by (simp add: messages_left_def sample_session_def MAX_SESSION_MESSAGES_def)
  have app: "sv_application sample_server = listed_application" by (simp add: sample_server_def)
  have "service_inv plain_crypto (fresh_store (pad 16 [3]))" by (simp add: fresh_service)
  from service_inv_register [OF this surjective_pairing, of "pad 16 [1]" "pad 32 [2]" "[3]" 1]
  have inv: "service_inv plain_crypto (ap_storage (sv_application sample_server))"
    by (simp add: app listed_application_def empty_application_def MAX_ENCRYPTED_DEVICE_NAME_BYTES_def)
  have qs: "\<forall>(E, q) \<in> set ?qs. wf_request q \<and> is_array 16 (en_upload_id E) \<and> en_now E < 100"
    by (simp add: sample_env_def)
  have few: "\<forall>r \<in> set (fst (serve rfc_cbor plain_crypto ?qs (sv_application sample_server) (view sample_session))). deliverable r"
    unfolding app sample_served by (simp add: deliverable_def device_list_bytes_def sample_record_def)
  from conversation_refines_dispatch [OF rfc.cbor_format_axioms plain_snow_duplex step opn left inv qs few]
  obtain rs ch' S' where r: "conversation rfc_cbor plain_crypto plain_snow (ss_peer_ip sample_session) ?qs sample_channel
      sample_server = (rs, ch', S')"
    "serve rfc_cbor plain_crypto ?qs (sv_application sample_server) (view sample_session) = (rs, sv_application S')" by blast
  then have "rs = [Pong, Devices [sample_record]]" "sv_application S' = listed_application"
    by (simp_all only: app sample_served prod.inject)
  with r(1) show ?thesis by (simp add: sample_session_def)
qed

end
