(* ===== verification/Client_Vault_Correct.thy ===== *)
theory Client_Vault_Correct
  imports Client_Vault Vault_Key_Correct Manifest_Correct
begin

text \<open>
  What the portable client's vault promises: a created vault opens again with its password, objects and
  the device identity round trip through it and no other vault opens them, and a signed commit opens to the
  body it was made from.
\<close>

section \<open>Vaults\<close>

text \<open>
  C18. A vault is reopened: from the envelope its creation returned, the same password gives the same
  master key and subkeys, and the envelope is one the server stores.
\<close>

theorem created_vault_opens:
  assumes "cbor_format C" and "crypto_laws X" and "is_array 32 key" "is_array 16 salt" "is_array 24 nonce"
    and "create_vault C X calibration measured (Some key, Some salt, Some nonce) vault_id password platform =
      Inr (v, envelope)"
  shows "unlock_vault C X vault_id password envelope = Inr v \<and> uv_vault_id v = vault_id \<and> uv_master v = key \<and>
    length envelope \<le> MAX_VAULT_KEY_ENVELOPE_BYTES"
proof -
  from assms(6) obtain policy master subkeys where
    c: "create_vault_key_envelope C X (Some key, Some salt, Some nonce) password policy = Inr (master, envelope)"
    and s: "derive_subkeys X master vault_id = Inr subkeys"
    and v: "v = \<lparr>uv_vault_id = vault_id, uv_master = master, uv_subkeys = subkeys\<rparr>"
    by (auto simp: create_vault_def result_iffs)
  from vault_key_opens [OF assms(1-5) c] s v show ?thesis by (simp add: unlock_vault_def)
qed

lemma sample_subkeys_derived: "\<exists>s. derive_subkeys plain_crypto master vault_id = Inr s"
  by (simp add: derive_subkeys_def expand_def plain_crypto_def)

theorem created_vault_opens_witness:
  "\<exists>v envelope. create_vault rfc_cbor plain_crypto (Some [], Some []) 100000000
      (Some (replicate 32 9), Some (replicate 16 8), Some (replicate 24 7)) (replicate 16 1) [112] Desktop = Inr (v, envelope) \<and>
    unlock_vault rfc_cbor plain_crypto (replicate 16 1) [112] envelope = Inr v"
proof -
  obtain v envelope where c: "create_vault rfc_cbor plain_crypto (Some [], Some []) 100000000
      (Some (replicate 32 9), Some (replicate 16 8), Some (replicate 24 7)) (replicate 16 1) [112] Desktop = Inr (v, envelope)"
    using sample_subkeys_derived [of "replicate 32 9" "replicate 16 1"]
    by (auto simp: create_vault_def calibrate_client_kdf_def select_calibrated_policy_def div_ceil_def Let_def
        create_vault_key_envelope_def wrap_vault_master_key_def derive_client_kek_def
        wrap_vault_master_key_with_material_def client_argon2_def memory_limits
        plain_crypto_def vault_key_aad_def encode_vault_key_envelope_def)
  from created_vault_opens [OF rfc.cbor_format_axioms plain_crypto_laws _ _ _ c] c show ?thesis by auto
qed

section \<open>Objects\<close>

lemma vault_decrypt_vault:
  "vault_decrypt C X v encoded = Inr (e, clear) \<Longrightarrow>
     decode_object_envelope C encoded = Inr e \<and> oe_vault_id e = uv_vault_id v"
  by (auto simp: vault_decrypt_def decrypt_object_def result_iffs Let_def split: if_splits)

lemma vault_object_opens:
  assumes "cbor_format C" and "crypto_laws X" and "is_array 32 dek" "is_array 24 n1" "is_array 24 n2"
    and "is_array 16 (uv_vault_id v)" "is_array 16 object_id"
    and "vault_encrypt C X (Some dek, Some n1, Some n2) v object_id revision ty plaintext = Inr encoded"
  obtains e where "vault_decrypt C X v encoded = Inr (e, plaintext)" "decode_object_envelope C encoded = Inr e"
    "oe_vault_id e = uv_vault_id v" "oe_object_id e = object_id" "oe_revision e = revision" "oe_object_type e = ty"
    "decrypt_object C X (uv_subkeys v) encoded = Inr (e, plaintext)"
proof -
  from assms(8) have enc: "encrypt_object C X (Some dek, Some n1, Some n2) (uv_subkeys v) (uv_vault_id v)
      object_id revision ty plaintext = Inr encoded" by (simp add: vault_encrypt_def result_iffs)
  from object_opens [OF assms(1-7) enc] obtain e where e:
    "decrypt_object C X (uv_subkeys v) encoded = Inr (e, plaintext)" "oe_vault_id e = uv_vault_id v"
    "oe_object_id e = object_id" "oe_revision e = revision" "oe_object_type e = ty" by blast
  then have d: "vault_decrypt C X v encoded = Inr (e, plaintext)" by (simp add: vault_decrypt_def)
  show thesis by (rule that [OF d _ e(2-5) e(1)]) (use vault_decrypt_vault [OF d] in blast)
qed

text \<open>
  C19. An object encrypted in a vault is decrypted in that vault to its plaintext, under the identifier,
  revision and type it was encrypted for, and in no vault of another identifier, whatever
  its keys.
\<close>

theorem vault_object_roundtrip:
  assumes "cbor_format C" and "crypto_laws X" and "is_array 32 dek" "is_array 24 n1" "is_array 24 n2"
    and "is_array 16 (uv_vault_id v)" "is_array 16 object_id"
    and "vault_encrypt C X (Some dek, Some n1, Some n2) v object_id revision ty plaintext = Inr encoded"
  shows "(\<exists>e. vault_decrypt C X v encoded = Inr (e, plaintext) \<and> oe_object_id e = object_id \<and>
      oe_revision e = revision \<and> oe_object_type e = ty) \<and>
    (uv_vault_id v' \<noteq> uv_vault_id v \<longrightarrow> (\<exists>err. vault_decrypt C X v' encoded = Inl err))"
proof -
  obtain e where e: "vault_decrypt C X v encoded = Inr (e, plaintext)" "decode_object_envelope C encoded = Inr e"
    "oe_vault_id e = uv_vault_id v" "oe_object_id e = object_id" "oe_revision e = revision" "oe_object_type e = ty"
    by (rule vault_object_opens [OF assms])
  have "\<exists>err. vault_decrypt C X v' encoded = Inl err" if "uv_vault_id v' \<noteq> uv_vault_id v"
  proof (cases "vault_decrypt C X v' encoded")
    case (Inr r)
    with vault_decrypt_vault [of C X v' encoded "fst r" "snd r"] e(2,3) that show ?thesis by simp
  qed simp
  with e show ?thesis by blast
qed

definition sample_vault :: unlocked_vault where
  "sample_vault = \<lparr>uv_vault_id = replicate 16 1, uv_master = replicate 32 9, uv_subkeys = sample_subkeys\<rparr>"

lemma sample_vault_encrypts:
  "length clear \<le> 1000 \<Longrightarrow> \<exists>encoded. vault_encrypt rfc_cbor plain_crypto
     (Some (replicate 32 9), Some (replicate 24 8), Some (replicate 24 7)) sample_vault object_id 1 ty clear = Inr encoded"
  by (simp add: vault_encrypt_def encrypt_object_def encrypt_object_with_material_def object_limits object_aad_def
      Let_def plain_crypto_def encode_object_envelope_def)

theorem vault_object_roundtrip_witness:
  "\<exists>encoded e. vault_encrypt rfc_cbor plain_crypto
      (Some (replicate 32 9), Some (replicate 24 8), Some (replicate 24 7)) sample_vault (replicate 16 2) 1 Content [1, 2] =
      Inr encoded \<and>
    vault_decrypt rfc_cbor plain_crypto sample_vault encoded = Inr (e, [1, 2]) \<and>
    (\<exists>err. vault_decrypt rfc_cbor plain_crypto (sample_vault\<lparr>uv_vault_id := replicate 16 5\<rparr>) encoded = Inl err)"
proof -
  obtain encoded where e: "vault_encrypt rfc_cbor plain_crypto
      (Some (replicate 32 9), Some (replicate 24 8), Some (replicate 24 7)) sample_vault (replicate 16 2) 1 Content [1, 2] =
      Inr encoded" using sample_vault_encrypts [of "[1, 2]"] by auto
  have v: "is_array 16 (uv_vault_id sample_vault)" by (simp add: sample_vault_def)
  from vault_object_roundtrip [OF rfc.cbor_format_axioms plain_crypto_laws _ _ _ v _ e,
      of "sample_vault\<lparr>uv_vault_id := replicate 16 5\<rparr>"] e
  show ?thesis by (auto simp: sample_vault_def)
qed

section \<open>Device identity\<close>

lemma stored_device_reads:
  assumes "cbor_format C" and "crypto_laws X" and "is_array 32 dek" "is_array 24 n1" "is_array 24 n2"
    and "is_array 16 (uv_vault_id v)" "is_array 16 (di_device_id d)" "is_array 32 (di_signing_key d)"
    and "device_encrypt_for_storage C X (Some dek, Some n1, Some n2) d v = Inr encoded"
  shows "device_from_encrypted C X v encoded =
      (if di_device_id d = replicate 16 0 then Inl LE_InvalidState else Inr d)"
    and "\<exists>e. decode_object_envelope C encoded = Inr e \<and> oe_vault_id e = uv_vault_id v"
proof -
  let ?clear = "DEVICE_SECRET_VERSION # di_device_id d @ di_signing_key d"
  have enc: "vault_encrypt C X (Some dek, Some n1, Some n2) v (di_device_id d) 1 Recovery ?clear = Inr encoded"
    using assms(9) by (simp add: device_encrypt_for_storage_def vault_encrypt_def)
  obtain e where e: "decode_object_envelope C encoded = Inr e"
    "oe_vault_id e = uv_vault_id v" "oe_object_id e = di_device_id d" "oe_revision e = 1" "oe_object_type e = Recovery"
    "decrypt_object C X (uv_subkeys v) encoded = Inr (e, ?clear)"
    by (rule vault_object_opens [OF assms(1-7) enc])
  show "device_from_encrypted C X v encoded =
      (if di_device_id d = replicate 16 0 then Inl LE_InvalidState else Inr d)"
    using e assms(7,8)
    by (cases d) (simp add: device_from_encrypted_def DEVICE_SECRET_BYTES_def Let_def)
  show "\<exists>e. decode_object_envelope C encoded = Inr e \<and> oe_vault_id e = uv_vault_id v" using e(1,2) by blast
qed

text \<open>
  C31. A device identity stored encrypted is restored, in its own vault only. The identifier of
  all zeros is the exception: it can be stored and is refused when it is read back.
\<close>

theorem device_identity_restored:
  assumes "cbor_format C" and "crypto_laws X" and "is_array 32 dek" "is_array 24 n1" "is_array 24 n2"
    and "is_array 16 (uv_vault_id v)" "is_array 16 (di_device_id d)" "is_array 32 (di_signing_key d)"
    and "device_encrypt_for_storage C X (Some dek, Some n1, Some n2) d v = Inr encoded"
  shows "device_from_encrypted C X v encoded =
      (if di_device_id d = replicate 16 0 then Inl LE_InvalidState else Inr d) \<and>
    (uv_vault_id v' \<noteq> uv_vault_id v \<longrightarrow> (\<exists>err. device_from_encrypted C X v' encoded = Inl err))"
proof -
  obtain e where e: "decode_object_envelope C encoded = Inr e" "oe_vault_id e = uv_vault_id v"
    using stored_device_reads(2) [OF assms] by blast
  have "\<exists>err. device_from_encrypted C X v' encoded = Inl err" if "uv_vault_id v' \<noteq> uv_vault_id v"
  proof (cases "decrypt_object C X (uv_subkeys v') encoded")
    case (Inr r)
    then have "fst r = e" using e(1) by (auto simp: decrypt_object_def result_iffs Let_def split: if_splits)
    with Inr e(2) that show ?thesis by (cases r) (simp add: device_from_encrypted_def)
  qed (simp add: device_from_encrypted_def)
  with stored_device_reads(1) [OF assms] show ?thesis by blast
qed

definition sample_device :: device_identity where
  "sample_device = \<lparr>di_device_id = replicate 16 3, di_signing_key = replicate 32 7\<rparr>"

theorem device_identity_restored_witness:
  "\<exists>encoded. device_encrypt_for_storage rfc_cbor plain_crypto
      (Some (replicate 32 9), Some (replicate 24 8), Some (replicate 24 7)) sample_device sample_vault = Inr encoded \<and>
    device_from_encrypted rfc_cbor plain_crypto sample_vault encoded = Inr sample_device"
proof -
  obtain encoded where e: "device_encrypt_for_storage rfc_cbor plain_crypto
      (Some (replicate 32 9), Some (replicate 24 8), Some (replicate 24 7)) sample_device sample_vault = Inr encoded"
    using sample_vault_encrypts [of "DEVICE_SECRET_VERSION # di_device_id sample_device @ di_signing_key sample_device"
        "di_device_id sample_device" Recovery]
    by (auto simp: device_encrypt_for_storage_def vault_encrypt_def sample_device_def)
  have a: "is_array 16 (uv_vault_id sample_vault)" "is_array 16 (di_device_id sample_device)"
    "is_array 32 (di_signing_key sample_device)" by (simp_all add: sample_vault_def sample_device_def)
  from device_identity_restored [OF rfc.cbor_format_axioms plain_crypto_laws _ _ _ a e] e
  show ?thesis by (auto simp: sample_device_def)
qed

section \<open>Commits\<close>

text \<open>A record made by \<open>create_signed_commit\<close>, as its receivers see it.\<close>

lemma signed_commit_made:
  assumes S: "sealed_format C X" and arrays: "is_array 32 dek" "is_array 24 n1" "is_array 24 n2"
    "is_array 16 (uv_vault_id v)" "is_array 16 object_id" "is_array 16 (di_device_id d)" "is_array 32 (di_signing_key d)"
    and parents: "\<forall>p \<in> set parents. is_array 32 p" and body: "wf_commit_body body"
    and run: "create_signed_commit C X (Some dek, Some n1, Some n2) object_id v d parents device_sequence body = Inr encoded"
  obtains c where "decode_signed_commit C X encoded = Inr c"
    "verify_signed_commit X c (device_public_key X d) = Inr ()"
    "open_signed_commit C X v encoded (device_public_key X d) = Inr (c, body)"
    "uc_vault_id (sc_unsigned c) = uv_vault_id v" "uc_parents (sc_unsigned c) = parents"
    "uc_device_id (sc_unsigned c) = di_device_id d" "uc_device_sequence (sc_unsigned c) = device_sequence"
proof -
  have cb: "cbor_format C" and laws: "crypto_laws X"
    using S by (auto simp: sealed_format_def sealed_format_axioms_def)
  from run obtain b encrypted c where b: "encode_commit_body C body = Inr b"
    and e: "vault_encrypt C X (Some dek, Some n1, Some n2) v object_id 1 Commit b = Inr encrypted"
    and c: "create_commit C X \<lparr>uc_vault_id = uv_vault_id v, uc_parents = parents, uc_device_id = di_device_id d,
        uc_device_sequence = device_sequence, uc_encrypted_body = encrypted\<rparr> (di_signing_key d) = Inr c"
    and out: "encode_signed_commit C X c = Inr encoded"
    by (auto simp: create_signed_commit_def result_iffs)
  let ?u = "\<lparr>uc_vault_id = uv_vault_id v, uc_parents = parents, uc_device_id = di_device_id d,
        uc_device_sequence = device_sequence, uc_encrypted_body = encrypted\<rparr>"
  have u: "sc_unsigned c = ?u" using c by (auto simp: create_commit_def rbind_Inr_iff Let_def)
  have "wf_unsigned ?u" using arrays parents by (simp add: wf_unsigned_def)
  then have "wf_commit c" using sealed_format.created_encodes [OF S _ arrays(7) c] by blast
  with out have dec: "decode_signed_commit C X encoded = Inr c"
    using sealed_format.signed_commit_law [OF S] by blast
  have ver: "verify_signed_commit X c (device_public_key X d) = Inr ()"
    using sealed_format.created_verifies [OF S arrays(7) c] by (simp add: device_public_key_def)
  obtain o' where o': "vault_decrypt C X v encrypted = Inr (o', b)"
    by (rule vault_object_opens [OF cb laws arrays(1-5) e])
  have "decode_commit_body C b = Inr body"
    using cbor_format.commit_body_law [OF cb] body b by blast
  then have "open_signed_commit C X v encoded (device_public_key X d) = Inr (c, body)"
    using dec ver o' u by (simp add: open_signed_commit_def)
  from that [OF dec ver this] u show thesis by simp
qed

text \<open>A commit of the sample vault and device, for evaluation.\<close>

lemma sample_body_encodes:
  "\<exists>b. encode_commit_body rfc_cbor sample_commit_body = Inr b \<and> length b \<le> 1000"
  by (simp add: encode_commit_body_def sample_commit_body_def validate_commit_body_def
      operation_shape_is_valid_def u64_try_from_def encode_operation_def encode_optional_fixed_def rfc_cbor_def
      cbor_head_def manifest_limits MAX_COMMIT_BODY_BYTES_def PROTOCOL_VERSION_def)

lemma sample_object_encrypts:
  assumes "length b \<le> 1000"
  obtains encoded e where "vault_encrypt rfc_cbor plain_crypto
      (Some (replicate 32 9), Some (replicate 24 8), Some (replicate 24 7)) sample_vault (replicate 16 2) 1 Commit b = Inr encoded"
    "decode_object_envelope rfc_cbor encoded = Inr e" "oe_vault_id e = replicate 16 1" "oe_object_type e = Commit"
    "length encoded \<le> 1500"
proof -
  have v: "is_array 16 (uv_vault_id sample_vault)" by (simp add: sample_vault_def)
  obtain encoded where c: "vault_encrypt rfc_cbor plain_crypto
      (Some (replicate 32 9), Some (replicate 24 8), Some (replicate 24 7)) sample_vault (replicate 16 2) 1 Commit b = Inr encoded"
    using sample_vault_encrypts [OF assms] by blast
  obtain e where e: "decode_object_envelope rfc_cbor encoded = Inr e" "oe_vault_id e = uv_vault_id sample_vault"
    "oe_object_type e = Commit" "decrypt_object rfc_cbor plain_crypto (uv_subkeys sample_vault) encoded = Inr (e, b)"
    by (rule vault_object_opens [OF rfc.cbor_format_axioms plain_crypto_laws _ _ _ v _ c]) simp_all
  have "length b = length (oe_ciphertext e) - 16"
    using e(1,4) by (auto simp: decrypt_object_def plain_crypto_def result_iffs Let_def split: if_splits)
  moreover have "length encoded \<le> length (oe_ciphertext e) + 400"
    using rfc.object_envelope_law [of encoded e] rfc.object_envelope_size [of e encoded] e(1) by blast
  ultimately have "length encoded \<le> 1500" using assms by simp
  with that c e show thesis by (simp add: sample_vault_def)
qed

lemma sample_child_made:
  assumes ps: "ps = [] \<or> ps = [replicate 32 4, replicate 32 5]" and n: "n = 1 \<or> n = 2"
  shows "\<exists>encoded. create_signed_commit rfc_cbor plain_crypto
     (Some (replicate 32 9), Some (replicate 24 8), Some (replicate 24 7)) (replicate 16 2) sample_vault sample_device
     ps n sample_commit_body = Inr encoded"
proof -
  obtain b where b: "encode_commit_body rfc_cbor sample_commit_body = Inr b" "length b \<le> 1000"
    using sample_body_encodes by blast
  obtain x e where x: "vault_encrypt rfc_cbor plain_crypto
      (Some (replicate 32 9), Some (replicate 24 8), Some (replicate 24 7)) sample_vault (replicate 16 2) 1 Commit b = Inr x"
    "decode_object_envelope rfc_cbor x = Inr e" "oe_vault_id e = replicate 16 1" "oe_object_type e = Commit"
    "length x \<le> 1500" by (rule sample_object_encrypts [OF b(2)])
  let ?u = "\<lparr>uc_vault_id = uv_vault_id sample_vault, uc_parents = ps, uc_device_id = di_device_id sample_device,
    uc_device_sequence = n, uc_encrypted_body = x\<rparr>"
  have val: "validate_unsigned rfc_cbor ?u = Inr ()"
    using x(2-5) ps n by (auto simp: validate_unsigned_Inr MAX_COMMIT_BODY_BYTES_def MAX_COMMIT_PARENTS_def replicate_numeral sample_vault_def)
  have "fits64 (length x)" using x(5) by (intro fits64_small) simp
  then obtain c where c: "create_commit rfc_cbor plain_crypto ?u (di_signing_key sample_device) = Inr c"
    using val by (simp add: create_commit_def encode_unsigned_def u64_try_from_def Let_def)
  have "wf_unsigned ?u" using ps by (auto simp add: wf_unsigned_def sample_vault_def sample_device_def)
  then obtain encoded where "encode_signed_commit rfc_cbor plain_crypto c = Inr encoded"
    using plain.created_encodes [OF _ _ c] by (auto simp: sample_device_def)
  with b(1) x(1) c show ?thesis by (simp add: create_signed_commit_def)
qed

lemmas sample_commit_made = sample_child_made [of "[]" 1, simplified]

end
