(* ===== verification/Client_Commit.thy ===== *)
theory Client_Commit
  imports Client_Vault_Correct Client_Login
begin

text \<open>
  Publishing a commit, from the body a client writes to the record another client reads: a client
  that builds on the heads the server gave it and uses its next sequence number has its commit
  stored, the commit becomes the only head, and whoever has the vault reads the body.
\<close>

section \<open>The shape of reachable commit tables\<close>

lemma committed_shape:
  "committed st \<Longrightarrow> (st_heads st = [] \<longleftrightarrow> st_commits st = []) \<and>
     (\<forall>r \<in> set (st_commits st). co_generation r < length (st_commits st))"
proof (induction rule: committed.induct)
  case (committed_accept st commit now d rec res st')
  show ?case
  proof (cases "st' = st")
    case False
    have wf: "commits_wf st" using committed_built [OF committed_accept(1)] by blast
    obtain n where n: "load_parent_generation st (st_vault_id st) (uc_parents (sc_unsigned commit)) = Inr n"
      and st': "st' = insert_commit_rows now (st_vault_id st) d commit (unat (uc_device_sequence (sc_unsigned commit)))
        n rec st"
      by (rule accept_commit_inserts [OF wf committed_accept(2,3) False])
    have "n \<le> length (st_commits st)"
    proof (cases "uc_parents (sc_unsigned commit) = []")
      case True
      with n show ?thesis by (simp add: load_parent_generation_def)
    next
      case False
      let ?row = "\<lambda>p. the (commit_row_of st (st_vault_id st) p)"
      let ?gs = "map (\<lambda>p. co_generation (?row p)) (uc_parents (sc_unsigned commit))"
      have rows: "\<forall>p \<in> set (uc_parents (sc_unsigned commit)). commit_row_of st (st_vault_id st) p \<noteq> None"
        and n1: "n = fold max ?gs 0 + 1"
        using n False fold_max_first [of ?gs]
        by (auto simp: load_parent_generation_def rbind_Inr_iff parent_maximum_Inr comp_def nat_add_distrib
            split: if_splits)
      have "g < length (st_commits st)" if "g \<in> set ?gs" for g
      proof -
        from that obtain p where p: "p \<in> set (uc_parents (sc_unsigned commit))" "g = co_generation (?row p)" by auto
        with rows obtain r where r: "commit_row_of st (st_vault_id st) p = Some r" by fastforce
        then have "r \<in> set (st_commits st)" unfolding commit_row_of_def by (auto simp: find_Some_iff)
        with p r committed_accept.IH show ?thesis by simp
      qed
      moreover have "fold max ?gs 0 = 0 \<or> fold max ?gs 0 \<in> set ?gs" using fold_max_mem [of ?gs 0] by auto
      moreover have "st_commits st \<noteq> []"
        using rows False by (cases "uc_parents (sc_unsigned commit)") (auto simp: commit_row_of_def)
      ultimately show ?thesis using n1 by (auto simp: Suc_le_eq)
    qed
    with committed_accept.IH st' show ?thesis by (auto simp: insert_commit_rows_def less_SucI)
  qed (use committed_accept.IH in simp)
next
  case (committed_other st st')
  then have "st_commits st' = st_commits st" "mset (st_heads st') = mset (st_heads st)"
    by (simp_all add: same_commits_def)
  with committed_other.IH show ?case by (metis mset_zero_iff)
qed auto

lemma heads_stored:
  assumes com: "committed st" and hs: "storage_heads st = Inr hs"
  shows "set hs = snd ` set (st_heads st)" "(hs = []) = (st_commits st = [])"
    and "h \<in> set hs \<Longrightarrow> is_array 32 h \<and> (\<exists>r. commit_row_of st (st_vault_id st) h = Some r \<and> r \<in> set (st_commits st))"
proof -
  have wf: "commits_wf st" using committed_built [OF com] by blast
  have h: "hs = sort (map snd (st_heads st))"
    using hs load_heads_abs [OF wf] by (simp add: storage_heads_def heads_def abs_graph_def)
  then show "set hs = snd ` set (st_heads st)" by simp
  have "(hs = []) = (st_heads st = [])" using h by (metis map_is_Nil_conv set_empty set_sort)
  then show "(hs = []) = (st_commits st = [])" using committed_shape [OF com] by simp
  assume "h \<in> set hs"
  with h have "h \<in> snd ` set (st_heads st)" by simp
  then obtain r where r: "r \<in> set (st_commits st)" "co_commit_id r = h" using commits_wfD(7) [OF wf] by force
  then have "find (\<lambda>r. co_commit_id r = h) (st_commits st) \<noteq> None" by (auto simp: find_None_iff)
  then obtain r' where r': "find (\<lambda>r. co_commit_id r = h) (st_commits st) = Some r'" by blast
  then have "r' \<in> set (st_commits st)" by (auto simp: find_Some_iff)
  with r r' commits_wfD(2) [OF wf r(1)] commit_row_of_find [OF wf, of h]
  show "is_array 32 h \<and> (\<exists>r. commit_row_of st (st_vault_id st) h = Some r \<and> r \<in> set (st_commits st))" by auto
qed

lemma heads_generation:
  assumes com: "committed st" and hs: "storage_heads st = Inr hs" and n: "length (st_commits st) < 2 ^ 62"
  shows "\<exists>g. load_parent_generation st (st_vault_id st) hs = Inr g"
proof (cases "hs = []")
  case False
  let ?v = "st_vault_id st"
  let ?gs = "map (\<lambda>p. int (co_generation (the (commit_row_of st ?v p)))) hs"
  have "parent_maximum st ?v (- 1) hs = Inr (fold max ?gs (- 1))"
    using heads_stored(3) [OF com hs] by (fastforce simp: parent_maximum_Inr)
  moreover have "fold max ?gs (- 1) \<in> insert (- 1) (set ?gs)" by (rule fold_max_mem)
  moreover have "g < int (length (st_commits st))" if "g \<in> set ?gs" for g
    using that heads_stored(3) [OF com hs] committed_shape [OF com] by fastforce
  ultimately have "fold max ?gs (- 1) + 1 < 2 ^ 63" using n by fastforce
  with \<open>parent_maximum st ?v (- 1) hs = _\<close> False show ?thesis by (simp add: load_parent_generation_def)
qed (simp add: load_parent_generation_def)

section \<open>Building on the heads\<close>

text \<open>A new commit on all heads is stored and becomes the only head.\<close>

lemma accept_on_heads:
  assumes com: "committed st" and hs: "storage_heads st = Inr (uc_parents (sc_unsigned c))"
    and act: "require_active_device st d = Inr row" and n: "length (st_commits st) < MAX_COMMITS_PER_VAULT"
    and own: "uc_device_id (sc_unsigned c) = d" "uc_vault_id (sc_unsigned c) = st_vault_id st"
    and len: "is_array 32 (sc_commit_id c)" and new: "sc_commit_id c \<notin> co_commit_id ` set (st_commits st)"
    and seq: "validate_next_device_sequence st (st_vault_id st) d (uc_device_sequence (sc_unsigned c)) = Inr ()"
  obtains st' where "accept_commit now d c rec st = (Inr (sc_commit_id c, [sc_commit_id c]), st')"
    "storage_heads st' = Inr [sc_commit_id c]" "get_commit st' (sc_commit_id c) = Inr rec"
proof -
  let ?u = "sc_unsigned c" and ?v = "st_vault_id st"
  have wf: "commits_wf st" using committed_built [OF com] by blast
  obtain g where g: "load_parent_generation st ?v (uc_parents ?u) = Inr g"
    using heads_generation [OF com hs] n by (auto simp: MAX_COMMITS_PER_VAULT_def)
  let ?st = "insert_commit_rows now ?v d c (unat (uc_device_sequence ?u)) g rec st"
  have find: "find (\<lambda>r. co_commit_id r = sc_commit_id c) (st_commits st) = None"
    using new by (force simp: find_None_iff)
  have all: "filter (\<lambda>r. co_vault_id r = ?v) (st_commits st) = st_commits st"
    using commits_wfD(1) [OF wf] by (intro filter_True) auto
  have ri: "require_active_in_transaction st d = Inr ()"
    using act by (auto simp: require_active_device_def get_device_def require_active_in_transaction_def result_iffs
        split: option.splits if_splits)
  have sm: "i64_try_from (unat (uc_device_sequence ?u)) = Inr (unat (uc_device_sequence ?u))"
    using seq by (auto simp: validate_next_device_sequence_def result_iffs i64_try_from_def Let_def split: if_splits)
  have "(v = ?v \<and> h \<in> set (uc_parents ?u))" if "(v, h) \<in> set (st_heads st)" for v h
    using that commits_wfD(6) [OF wf that] heads_stored(1) [OF com hs] by force
  then have heads: "st_heads ?st = [(?v, sc_commit_id c)]"
    by (auto simp: insert_commit_rows_def filter_empty_conv)
  have load: "load_heads ?st ?v = Inr [sc_commit_id c]"
    using len by (simp add: load_heads_def heads MAX_HEADS_def)
  have "accept_transaction now d c rec st = (Inr (sc_commit_id c, [sc_commit_id c]), ?st)"
    using find all ri n heads_stored(2) [OF com hs] seq g sm load
    by (auto simp: accept_transaction_def Let_def)
  then have "accept_commit now d c rec st = (Inr (sc_commit_id c, [sc_commit_id c]), ?st)"
    using act own by (simp add: accept_commit_def)
  moreover have "storage_heads ?st = Inr [sc_commit_id c]"
    using load by (simp add: storage_heads_def insert_commit_rows_def)
  moreover have "get_commit ?st (sc_commit_id c) = Inr rec"
  proof -
    have "find (\<lambda>r. co_vault_id r = ?v \<and> co_commit_id r = sc_commit_id c) (st_commits st) = None"
      using new by (force simp: find_None_iff)
    then show ?thesis
      by (simp add: get_commit_def commit_row_of_def insert_commit_rows_def find_append_key)
  qed
  ultimately show thesis by (rule that)
qed

text \<open>
  C5. Publishing. Premises: the storage invariant holds (C4), the session is authenticated for a registered device,
  fewer than MAX_COMMITS_PER_VAULT commits are stored, and no stored commit has the identifier of the new one. Then a
  commit that the client made on the heads the server has, with the device's next sequence number, is answered as
  stored and as the only head. The server then returns exactly that record, and it opens in the vault, under the
  device's key, to the body the client wrote (it does so whatever the server stores). At capacity, or for an identifier
  already stored, the answer is another, of which nothing is claimed here.
\<close>

theorem published_commit_read:
  assumes S: "sealed_format C X" and "is_array 32 dek" "is_array 24 n1" "is_array 24 n2" "is_array 16 object_id"
    and body: "wf_commit_body body" and inv: "service_inv X (ap_storage A)"
    and phase: "ss_phase s = DeviceAuthenticated (di_device_id d)" and dev: "registered X (ap_storage A) d"
    and vault: "uv_vault_id v = st_vault_id (ap_storage A)"
    and heads: "storage_heads (ap_storage A) = Inr parents"
    and count: "length (st_commits (ap_storage A)) < MAX_COMMITS_PER_VAULT"
    and seq: "validate_next_device_sequence (ap_storage A) (st_vault_id (ap_storage A)) (di_device_id d) n = Inr ()"
    and run: "create_signed_commit C X (Some dek, Some n1, Some n2) object_id v d parents n body = Inr encoded"
  shows "\<exists>c. open_signed_commit C X v encoded (device_public_key X d) = Inr (c, body) \<and>
    (sc_commit_id c \<notin> co_commit_id ` set (st_commits (ap_storage A)) \<longrightarrow>
      (\<exists>A'. dispatch C X E A s (PutCommit encoded) =
          (success (CommitStored (sc_commit_id c) [sc_commit_id c]), s, A') \<and>
        storage_heads (ap_storage A') = Inr [sc_commit_id c] \<and>
        get_commit (ap_storage A') (sc_commit_id c) = Inr encoded))"
proof -
  note com = service_invD(2) [OF inv]
  have arrays: "is_array 16 (uv_vault_id v)" "is_array 16 (di_device_id d)" "is_array 32 (di_signing_key d)"
    using rows_okD(3) [OF service_invD(4) [OF inv]] vault dev by (auto simp: registered_def)
  obtain row where row: "require_active_device (ap_storage A) (di_device_id d) = Inr row"
    "sd_public_key row = device_public_key X d" using dev by (auto simp: registered_def)
  have parents: "\<forall>p \<in> set parents. is_array 32 p" using heads_stored(3) [OF com heads] by blast
  obtain c where c: "decode_signed_commit C X encoded = Inr c"
    "verify_signed_commit X c (device_public_key X d) = Inr ()"
    "open_signed_commit C X v encoded (device_public_key X d) = Inr (c, body)"
    "uc_vault_id (sc_unsigned c) = uv_vault_id v" "uc_parents (sc_unsigned c) = parents"
    "uc_device_id (sc_unsigned c) = di_device_id d" "uc_device_sequence (sc_unsigned c) = n"
    by (rule signed_commit_made [OF S assms(2-4) arrays(1) assms(5) arrays(2,3) parents body run])
  have "\<exists>A'. dispatch C X E A s (PutCommit encoded) =
      (success (CommitStored (sc_commit_id c) [sc_commit_id c]), s, A') \<and>
      storage_heads (ap_storage A') = Inr [sc_commit_id c] \<and> get_commit (ap_storage A') (sc_commit_id c) = Inr encoded"
    if new: "sc_commit_id c \<notin> co_commit_id ` set (st_commits (ap_storage A))"
  proof -
    have len: "is_array 32 (sc_commit_id c)"
      using decode_signed_commit_submittable [OF c(1)] by (simp add: submittable_def)
    obtain st' where st': "accept_commit (en_clock E) (di_device_id d) c encoded (ap_storage A) =
        (Inr (sc_commit_id c, [sc_commit_id c]), st')"
      "storage_heads st' = Inr [sc_commit_id c]" "get_commit st' (sc_commit_id c) = Inr encoded"
      by (rule accept_on_heads [OF com _ row(1) count c(6) _ len new])
        (use heads c(4,5,7) vault seq in simp_all)
    have "dispatch C X E A s (PutCommit encoded) =
        (success (CommitStored (sc_commit_id c) [sc_commit_id c]), s, A\<lparr>ap_storage := st'\<rparr>)"
      using phase row c(1,2) st'(1)
      by (simp add: keep_def app_put_commit_def with_device_def require_device_def run_storage_def from_storage_def)
    with st' show ?thesis by auto
  qed
  with c(3) show ?thesis by blast
qed

definition sample_publisher :: application where
  "sample_publisher = \<lparr>ap_storage = snd (register_device 0 (di_device_id sample_device)
      (device_public_key plain_crypto sample_device) [] (fresh_store (replicate 16 1))),
    ap_authentication_key = pad 32 [4], ap_rate_limiter = []\<rparr>"

theorem published_commit_read_witness:
  "\<exists>encoded c A'. create_signed_commit rfc_cbor plain_crypto
      (Some (replicate 32 9), Some (replicate 24 8), Some (replicate 24 7)) (replicate 16 2) sample_vault sample_device
      [] 1 sample_commit_body = Inr encoded \<and>
    dispatch rfc_cbor plain_crypto sample_env sample_publisher
      (new_session\<lparr>ss_phase := DeviceAuthenticated (di_device_id sample_device)\<rparr>) (PutCommit encoded) =
      (success (CommitStored (sc_commit_id c) [sc_commit_id c]),
       new_session\<lparr>ss_phase := DeviceAuthenticated (di_device_id sample_device)\<rparr>, A') \<and>
    open_signed_commit rfc_cbor plain_crypto sample_vault encoded (device_public_key plain_crypto sample_device) =
      Inr (c, sample_commit_body)"
proof -
  let ?A = sample_publisher
  let ?s = "new_session\<lparr>ss_phase := DeviceAuthenticated (di_device_id sample_device)\<rparr>"
  obtain encoded where c: "create_signed_commit rfc_cbor plain_crypto
     (Some (replicate 32 9), Some (replicate 24 8), Some (replicate 24 7)) (replicate 16 2) sample_vault sample_device
     [] 1 sample_commit_body = Inr encoded" using sample_commit_made by blast
  have body: "wf_commit_body sample_commit_body"
    by (simp add: wf_commit_body_def sample_commit_body_def wf_operation_def)
  have fresh: "service_inv plain_crypto (fresh_store (replicate 16 1))" by (rule fresh_service) simp
  have "service_inv plain_crypto (ap_storage ?A)"
    unfolding sample_publisher_def
    by (simp, rule service_inv_register [OF fresh surjective_pairing])
      (simp_all add: sample_device_def device_public_key_def plain_crypto_def)
  moreover have "registered plain_crypto (ap_storage ?A) sample_device"
    by (simp add: registered_def sample_publisher_def register_device_def fresh_store_def device_row_of_def
        require_active_device_def get_device_def sample_device_def device_public_key_def plain_crypto_def)
  moreover have st: "st_commits (ap_storage ?A) = []" "st_vault_id (ap_storage ?A) = replicate 16 1"
    "storage_heads (ap_storage ?A) = Inr []"
    by (simp_all add: sample_publisher_def register_device_def fresh_store_def device_row_of_def storage_heads_def load_heads_def)
  moreover have "validate_next_device_sequence (ap_storage ?A) (st_vault_id (ap_storage ?A)) (di_device_id sample_device) 1 = Inr ()"
    by (simp add: validate_next_device_sequence_def device_sequences_def st i64_checked_succ_def i64_try_from_def)
  ultimately show ?thesis
    using published_commit_read [OF plain.sealed_format_axioms _ _ _ _ body _ _ _ _ _ _ _ c, of ?A ?s sample_env] c
    by (simp add: sample_vault_def MAX_COMMITS_PER_VAULT_def) blast
qed

end
