(* ===== verification/Server_Process.thy ===== *)
theory Server_Process
  imports Server_Identity_Props Service_Restart
begin

text \<open>
  The server process from its command line to the running service: the arguments (\<open>main.rs\<close>), the
  configuration file (\<open>config.rs\<close>) and the initialized service with what it prints (\<open>server.rs\<close>). The TOML
  and address parsers, the environment and the file's mode bits are arguments; sockets, signals
  and the serving loop are left out.
\<close>

section \<open>Configuration\<close>

record raw_config =
  rc_data_dir :: ustr
  rc_listen :: ustr
  rc_password :: ustr

record 'a server_settings =
  sg_data_dir :: ustr
  sg_listen :: 'a
  sg_password :: ustr
  sg_permission_warning :: bool

text \<open>What loading reads from its surroundings; \<open>None\<close> is an I/O error, and of a parser a rejected text.\<close>

record 'a config_env =
  ce_contents :: "ustr option"
  ce_mode :: "u32 option"
  ce_toml :: "ustr \<Rightarrow> raw_config option"
  ce_socket_addr :: "ustr \<Rightarrow> 'a option"
  ce_var :: "ustr \<Rightarrow> ustr option"

unbundle bit_operations_syntax

text \<open>The group and other bits, \<open>0o077\<close>.\<close>

definition insecure_config_permissions :: "u32 option \<Rightarrow> config_error + bool" where
  "insecure_config_permissions mode = rmap (\<lambda>m. m AND 63 \<noteq> 0) (ok_or KE_Io mode)"

definition config_load :: "'a config_env \<Rightarrow> config_error + 'a server_settings" where
  "config_load F =
     rbind (ok_or KE_Io (ce_contents F)) (\<lambda>contents.
     rbind (ok_or KE_Toml (ce_toml F contents)) (\<lambda>raw.
     rbind (ok_or KE_InvalidListen (ce_socket_addr F (rc_listen raw))) (\<lambda>listen.
     rbind (load_password (ce_var F) (rc_password raw)) (\<lambda>expanded.
     rbind (insecure_config_permissions (ce_mode F)) (\<lambda>permission_warning.
       Inr \<lparr>sg_data_dir = rc_data_dir raw, sg_listen = listen, sg_password = expanded,
         sg_permission_warning = permission_warning\<rparr>)))))"

section \<open>The process\<close>

record ('a, 't) learning_loop_server =
  ll_state :: "'t server"
  ll_listen :: 'a
  ll_data_dir :: ustr
  ll_fingerprint :: ustr
  ll_permission_warning :: bool

text \<open>
  \<open>LearningLoopServer::initialize\<close>; \<open>canonical\<close> is the absolute form of a path, if it has one. The
  fingerprint it keeps is the one of the configuration the state was made with.
\<close>

definition initialize_server ::
  "cbor \<Rightarrow> crypto \<Rightarrow> identity_crates \<Rightarrow> (ustr \<Rightarrow> ustr option) \<Rightarrow> bytes option \<Rightarrow> start_random \<Rightarrow> 'a server_settings \<Rightarrow>
     storage \<Rightarrow> (server_error + ('a, 't) learning_loop_server) \<times> storage" where
  "initialize_server C X K canonical random R config st =
     (let (state, st) = server_initialize C X K random R (utf8_encode (sg_password config)) st in
      (rmap (\<lambda>S. \<lparr>ll_state = S, ll_listen = sg_listen config,
           ll_data_dir = (case canonical (sg_data_dir config) of Some d \<Rightarrow> d | None \<Rightarrow> sg_data_dir config),
           ll_fingerprint = cf_fingerprint (sv_config S),
           ll_permission_warning = sg_permission_warning config\<rparr>) state, st))"

text \<open>The lines on the standard output and the standard error.\<close>

definition print_startup :: "('a \<Rightarrow> ustr) \<Rightarrow> 'a \<Rightarrow> ('a, 't) learning_loop_server \<Rightarrow> ustr list \<times> ustr list" where
  "print_startup show_address actual_address L =
     ([ascii ''Listening: '' @ show_address actual_address,
       ascii ''Server fingerprint: '' @ ll_fingerprint L,
       ascii ''Data directory: '' @ ll_data_dir L],
      if ll_permission_warning L
      then [ascii ''Warning: the configuration file is readable or writable by other Unix users''] else [])"

datatype 'a main_error = ME_Usage | ME_Config config_error | ME_Server server_error

definition config_path :: "ustr list \<Rightarrow> 'a main_error + ustr" where
  "config_path arguments =
     (case arguments of
        [] \<Rightarrow> Inr (ascii ''config.toml'')
      | path # rest \<Rightarrow> if rest \<noteq> [] then Inl ME_Usage else Inr path)"

text \<open>The process up to the point where it serves: \<open>files\<close> gives what a configuration path holds.\<close>

definition server_main ::
  "cbor \<Rightarrow> crypto \<Rightarrow> identity_crates \<Rightarrow> (ustr \<Rightarrow> ustr option) \<Rightarrow> bytes option \<Rightarrow> start_random \<Rightarrow>
     (ustr \<Rightarrow> 'a config_env) \<Rightarrow> ustr list \<Rightarrow> storage \<Rightarrow>
     ('a main_error + ('a, 't) learning_loop_server) \<times> storage" where
  "server_main C X K canonical random R files arguments st =
     (case config_path arguments of
        Inl e \<Rightarrow> (Inl e, st)
      | Inr path \<Rightarrow>
          (case config_load (files path) of
             Inl e \<Rightarrow> (Inl (ME_Config e), st)
           | Inr config \<Rightarrow>
               let (r, st) = initialize_server C X K canonical random R config st in (map_err ME_Server r, st)))"

section \<open>What a started process has checked\<close>

lemma config_load_Inr:
  "config_load F = Inr c \<longleftrightarrow> (\<exists>contents raw mode. ce_contents F = Some contents \<and> ce_toml F contents = Some raw \<and>
     ce_socket_addr F (rc_listen raw) = Some (sg_listen c) \<and>
     load_password (ce_var F) (rc_password raw) = Inr (sg_password c) \<and> ce_mode F = Some mode \<and>
     sg_data_dir c = rc_data_dir raw \<and> sg_permission_warning c = (mode AND 63 \<noteq> 0))"
  by (cases c) (auto simp: config_load_def insecure_config_permissions_def result_iffs)

lemma loaded_password_long: "load_password env raw = Inr password \<Longrightarrow> 16 \<le> length password"
  by (auto simp: load_password_def result_iffs not_less split: if_splits)

text \<open>
  A process that comes to serving was given at most one argument, has a listening address and a
  password of at least sixteen characters, prints the fingerprint of the public key that its
  clients are sent, and warns exactly when group or other permission bits of the configuration file
  are set.
\<close>

lemma started_process:
  assumes run: "server_main C X K canonical random R files arguments st =
    (Inr (L :: ('a, 't) learning_loop_server), st')"
  obtains path config mode where "length arguments \<le> 1"
    "config_path arguments = (Inr path :: 'a main_error + ustr)" "config_load (files path) = Inr config"
    "16 \<le> length (sg_password config)" "ll_listen L = sg_listen config" "ce_mode (files path) = Some mode"
    "server_initialize C X K random R (utf8_encode (sg_password config)) st = (Inr (ll_state L), st')"
    "ascii ''Server fingerprint: '' @ cf_fingerprint (sv_config (ll_state L)) \<in> set (fst (print_startup a b L))"
    "(snd (print_startup a b L) \<noteq> []) = (mode AND 63 \<noteq> 0)"
proof -
  obtain path where path: "config_path arguments = (Inr path :: 'a main_error + ustr)"
    using run by (cases "config_path arguments :: 'a main_error + ustr") (auto simp: server_main_def)
  obtain config where c: "config_load (files path) = Inr config"
    using run path by (cases "config_load (files path)") (auto simp: server_main_def)
  obtain mode where m: "ce_mode (files path) = Some mode" "sg_permission_warning config = (mode AND 63 \<noteq> 0)"
    "16 \<le> length (sg_password config)"
    using c loaded_password_long by (auto simp: config_load_Inr)
  obtain S :: "'t server" where S: "server_initialize C X K random R (utf8_encode (sg_password config)) st = (Inr S, st')"
    and L: "ll_state L = S" "ll_listen L = sg_listen config" "ll_fingerprint L = cf_fingerprint (sv_config S)"
      "ll_permission_warning L = sg_permission_warning config"
    using run path c by (auto simp: server_main_def initialize_server_def map_err_Inr_iff rmap_Inr_iff split: prod.splits)
  have "length arguments \<le> 1" using path by (cases arguments) (auto simp: config_path_def split: if_splits)
  with path c m S L show thesis by (intro that) (auto simp: print_startup_def)
qed

text \<open>
  One configuration file gives one server: a process started again with the same files and arguments,
  after any service in between, comes up with the same configuration, the same printed fingerprint and
  the data of its clients.
\<close>

theorem process_restarts:
  fixes L :: "('a, 't) learning_loop_server"
  assumes "cbor_format C" and "crypto_laws X" and "identity_crates_ok K"
    and "wf_random R" and "\<forall>k. random = Some k \<longrightarrow> length k = 32"
    and run: "server_main C X K canonical random R files arguments blank_store = (Inr L, st)"
    and served: "(system_step C X N)\<^sup>*\<^sup>* \<lparr>sy_now = now, sy_server = ll_state L, sy_pending = [], sy_jobs = []\<rparr> Y"
  shows "\<exists>L' st'. server_main C X K canonical random' R' files arguments (store_of Y) = (Inr (L' :: ('a, 't) learning_loop_server), st') \<and>
    print_startup a b L' = print_startup a b L \<and> sv_config (ll_state L') = sv_config (ll_state L) \<and>
    sv_bootstrap (ll_state L') = sv_bootstrap (ll_state L) \<and> service_inv X st' \<and>
    st_devices st' = st_devices (store_of Y) \<and> st_commits st' = st_commits (store_of Y) \<and>
    st_blobs st' = st_blobs (store_of Y) \<and> st_files st' = st_files (store_of Y)"
proof -
  obtain path where path: "config_path arguments = (Inr path :: 'a main_error + ustr)"
    using run by (cases "config_path arguments :: 'a main_error + ustr") (auto simp: server_main_def)
  obtain config where c: "config_load (files path) = Inr config"
    using run path by (cases "config_load (files path)") (auto simp: server_main_def)
  let ?pw = "utf8_encode (sg_password config)"
  obtain S :: "'t server" where S: "server_initialize C X K random R ?pw blank_store = (Inr S, st)"
    and L: "L = \<lparr>ll_state = S, ll_listen = sg_listen config,
      ll_data_dir = (case canonical (sg_data_dir config) of Some d \<Rightarrow> d | None \<Rightarrow> sg_data_dir config),
      ll_fingerprint = cf_fingerprint (sv_config S), ll_permission_warning = sg_permission_warning config\<rparr>"
    using run path c by (auto simp: server_main_def initialize_server_def map_err_Inr_iff rmap_Inr_iff split: prod.splits)
  from service_restarts [OF assms(1-5) S, of N now Y random' R'] served L obtain S' :: "'t server" and st' where
    S': "server_initialize C X K random' R' ?pw (store_of Y) = (Inr S', st')" "sv_config S' = sv_config S"
      "sv_bootstrap S' = sv_bootstrap S" "service_inv X st'" "st_devices st' = st_devices (store_of Y)"
      "st_blobs st' = st_blobs (store_of Y)" "st_commits st' = st_commits (store_of Y)"
      "st_files st' = st_files (store_of Y)" by auto
  let ?L' = "L\<lparr>ll_state := S'\<rparr>"
  have "server_main C X K canonical random' R' files arguments (store_of Y) = (Inr ?L', st')"
    using path c S'(1,2) by (simp add: server_main_def initialize_server_def L)
  with S' L show ?thesis by (auto simp: print_startup_def)
qed

definition sample_config_env :: "unit config_env" where
  "sample_config_env = \<lparr>ce_contents = Some [], ce_mode = Some 420,
     ce_toml = \<lambda>_. Some \<lparr>rc_data_dir = [100], rc_listen = [], rc_password = replicate 16 112\<rparr>,
     ce_socket_addr = \<lambda>_. Some (), ce_var = \<lambda>_. None\<rparr>"

theorem process_restarts_witness:
  "\<exists>(L :: (unit, nat) learning_loop_server) st L' st'.
    server_main rfc_cbor plain_crypto sample_crates Some (Some (pad 32 [5])) sample_random (\<lambda>_. sample_config_env) []
      blank_store = (Inr L, st) \<and>
    server_main rfc_cbor plain_crypto sample_crates Some None
      \<lparr>rn_storage_key = None, rn_instance_id = None, rn_vault_id = None, rn_salt = None\<rparr> (\<lambda>_. sample_config_env) []
      (ap_storage (sv_application (ll_state L))) = (Inr (L' :: (unit, nat) learning_loop_server), st') \<and>
    sv_config (ll_state L') = sv_config (ll_state L) \<and> snd (print_startup (\<lambda>_. []) () L) \<noteq> []"
proof -
  have "load_password (ce_var sample_config_env) (replicate 16 112) = Inr (replicate 16 112)"
    by (simp add: sample_config_env_def load_password_def expand_password_def strip_prefix_def strip_suffix_def
        ascii_def numeral_eq_Suc)
  then have load: "config_load sample_config_env = Inr \<lparr>sg_data_dir = [100], sg_listen = (),
      sg_password = replicate 16 112, sg_permission_warning = True\<rparr>"
    by (simp add: config_load_def sample_config_env_def insecure_config_permissions_def)
  obtain S :: "nat server" and st where s: "server_initialize rfc_cbor plain_crypto sample_crates (Some (pad 32 [5]))
      sample_random (utf8_encode (replicate 16 112)) blank_store = (Inr S, st)" using sample_server_start by blast
  obtain L :: "(unit, nat) learning_loop_server" where l: "server_main rfc_cbor plain_crypto sample_crates Some (Some (pad 32 [5]))
      sample_random (\<lambda>_. sample_config_env) [] blank_store = (Inr L, st)" "ll_permission_warning L"
    using s load by (simp add: server_main_def config_path_def initialize_server_def)
  have "(system_step rfc_cbor plain_crypto (undefined :: (nat, nat) snow))\<^sup>*\<^sup>*
      \<lparr>sy_now = 7, sy_server = ll_state L, sy_pending = [], sy_jobs = []\<rparr> \<lparr>sy_now = 7, sy_server = ll_state L, sy_pending = [], sy_jobs = []\<rparr>" by simp
  from process_restarts [OF rfc.cbor_format_axioms plain_crypto_laws sample_crates_ok sample_random_wf _ l(1) this]
  obtain L' :: "(unit, nat) learning_loop_server" and st' where
    "server_main rfc_cbor plain_crypto sample_crates Some None
      \<lparr>rn_storage_key = None, rn_instance_id = None, rn_vault_id = None, rn_salt = None\<rparr> (\<lambda>_. sample_config_env) []
      (ap_storage (sv_application (ll_state L))) = (Inr L', st')"
    "sv_config (ll_state L') = sv_config (ll_state L)" by fastforce
  with l show ?thesis by (auto simp: print_startup_def)
qed

end
