(* ===== verification/Storage_Schema.thy ===== *)
theory Storage_Schema
  imports Service_Restart
begin

text \<open>
  The constraints that \<open>crates/ll-server/src/storage/schema.rs\<close> declares, table by table, as a predicate on
  the stored rows, and their proof for every state of a served storage. The operations of the model
  insert and update without asking SQLite; that no constraint is ever violated is what justifies it.
\<close>

section \<open>The declared constraints\<close>

definition metadata_table :: "storage \<Rightarrow> bool" where
  "metadata_table st \<longleftrightarrow> distinct (map fst (st_metadata st))"

definition devices_table :: "storage \<Rightarrow> bool" where
  "devices_table st \<longleftrightarrow> distinct (map dv_device_id (st_devices st)) \<and>
     (\<forall>r \<in> set (st_devices st). length (dv_device_id r) = 16 \<and> length (dv_public_key r) = 32)"

definition blobs_table :: "storage \<Rightarrow> bool" where
  "blobs_table st \<longleftrightarrow> distinct (map bl_blob_id (st_blobs st)) \<and>
     (\<forall>b \<in> set (st_blobs st). length (bl_blob_id b) = 32 \<and> bl_ciphertext_size b < 2 ^ 63)"

abbreviation upload_key :: "upload_row \<Rightarrow> bytes \<times> nat \<times> bytes" where
  "upload_key r \<equiv> (up_device_id r, up_expected_size r, up_expected_hash r)"

definition uploads_table :: "storage \<Rightarrow> bool" where
  "uploads_table st \<longleftrightarrow> distinct (map up_upload_id (st_uploads st)) \<and> distinct (map upload_key (st_uploads st)) \<and>
     (\<forall>r \<in> set (st_uploads st). length (up_upload_id r) = 16 \<and>
        up_device_id r \<in> dv_device_id ` set (st_devices st) \<and> up_expected_size r < 2 ^ 63 \<and>
        length (up_expected_hash r) = 32 \<and> up_received_size r < 2 ^ 63)"

abbreviation commit_key :: "commit_row \<Rightarrow> bytes \<times> nat" where
  "commit_key r \<equiv> (co_device_id r, co_device_sequence r)"

definition commits_table :: "storage \<Rightarrow> bool" where
  "commits_table st \<longleftrightarrow> distinct (map co_commit_id (st_commits st)) \<and> distinct (map commit_key (st_commits st)) \<and>
     (\<forall>r \<in> set (st_commits st). length (co_commit_id r) = 32 \<and> length (co_vault_id r) = 16 \<and>
        co_device_id r \<in> dv_device_id ` set (st_devices st) \<and>
        0 < co_device_sequence r \<and> co_device_sequence r < 2 ^ 63 \<and> co_generation r < 2 ^ 63)"

definition commit_parents_table :: "storage \<Rightarrow> bool" where
  "commit_parents_table st \<longleftrightarrow> distinct (st_commit_parents st) \<and>
     (\<forall>(c, p) \<in> set (st_commit_parents st).
        c \<in> co_commit_id ` set (st_commits st) \<and> p \<in> co_commit_id ` set (st_commits st))"

definition heads_table :: "storage \<Rightarrow> bool" where
  "heads_table st \<longleftrightarrow> distinct (st_heads st) \<and>
     (\<forall>(v, c) \<in> set (st_heads st). length v = 16 \<and> c \<in> co_commit_id ` set (st_commits st))"

definition schema_ok :: "storage \<Rightarrow> bool" where
  "schema_ok st \<longleftrightarrow> metadata_table st \<and> devices_table st \<and> blobs_table st \<and> uploads_table st \<and>
     commits_table st \<and> commit_parents_table st \<and> heads_table st"

section \<open>What the service invariant leaves open\<close>

definition schema_rest :: "storage \<Rightarrow> bool" where
  "schema_rest st \<longleftrightarrow> metadata_table st \<and> (\<forall>b \<in> set (st_blobs st). bl_ciphertext_size b < 2 ^ 63) \<and>
     distinct (map upload_key (st_uploads st)) \<and>
     (\<forall>r \<in> set (st_uploads st). up_device_id r \<in> dv_device_id ` set (st_devices st)) \<and>
     (\<forall>r \<in> set (st_commits st). co_device_id r \<in> dv_device_id ` set (st_devices st) \<and> co_device_sequence r < 2 ^ 63) \<and>
     distinct (st_commit_parents st) \<and>
     (\<forall>(c, p) \<in> set (st_commit_parents st). p \<in> co_commit_id ` set (st_commits st))"

lemma distinct_by_first:
  "(\<And>d. distinct (map g (filter (\<lambda>r. f r = d) rs))) \<Longrightarrow> distinct (map (\<lambda>r. (f r, g r)) rs)"
proof (induction rs)
  case (Cons r rs)
  have "distinct (map g (filter (\<lambda>s. f s = d) rs))" for d
    using Cons.prems [of d] by (auto split: if_splits)
  moreover have "g r \<notin> g ` set (filter (\<lambda>s. f s = f r) rs)" using Cons.prems [of "f r"] by simp
  ultimately show ?case using Cons.IH by auto
qed simp

lemma schema_okI:
  assumes inv: "service_inv X st" and rest: "schema_rest st"
  shows "schema_ok st"
proof -
  note inv = service_invD [OF inv]
  have wf: "commits_wf st" using committed_built [OF inv(2)] by blast
  note R = rest [unfolded schema_rest_def]
  have vault: "filter (\<lambda>r. co_vault_id r = st_vault_id st \<and> co_device_id r = d) (st_commits st) =
      filter (\<lambda>r. co_device_id r = d) (st_commits st)" for d
    using commits_wfD(1) [OF wf] by (auto intro: filter_cong)
  have seq: "\<exists>k. map co_device_sequence (filter (\<lambda>r. co_device_id r = d) (st_commits st)) = [1..<Suc k]" for d
    using committed_sequences [OF inv(2), of d] by (simp add: device_sequences_def vault)
  have "distinct (map commit_key (st_commits st))"
    by (rule distinct_by_first) (use seq in \<open>metis distinct_upt\<close>)
  moreover have "0 < co_device_sequence r" if r: "r \<in> set (st_commits st)" for r
  proof -
    obtain k where k: "map co_device_sequence (filter (\<lambda>s. co_device_id s = co_device_id r) (st_commits st)) =
      [1..<Suc k]" using seq by blast
    have "co_device_sequence r \<in> set (map co_device_sequence (filter (\<lambda>s. co_device_id s = co_device_id r) (st_commits st)))"
      using r by simp
    then show ?thesis unfolding k by auto
  qed
  ultimately have "commits_table st"
    using R commits_wfD(1-4) [OF wf] rows_okD(3) [OF inv(4)] by (simp add: commits_table_def)
  moreover have "uploads_table st"
    using R uploads_okD(1) [OF blobs_invD(3) [OF inv(1)]] blobs_invD(3) [OF inv(1)]
    by (fastforce simp: uploads_table_def uploads_ok_def upload_ok_def MAX_OBJECT_BYTES_def)
  moreover have "heads_table st"
    using commits_wfD(6-8) [OF wf] rows_okD(3) [OF inv(4)] by (auto simp: heads_table_def distinct_map)
  moreover have "commit_parents_table st"
    using R commits_wfD(5) [OF wf] by (fastforce simp: commit_parents_table_def)
  moreover have "blobs_table st"
    using R blobs_invD(2,4) [OF inv(1)] by (auto simp: blobs_table_def blob_ok_def)
  ultimately show ?thesis using R inv(3) by (simp add: schema_ok_def devices_table_def devices_wf_def)
qed

section \<open>No operation violates them\<close>

lemma schema_restD:
  assumes "schema_rest st"
  shows "metadata_table st" "b \<in> set (st_blobs st) \<Longrightarrow> bl_ciphertext_size b < 2 ^ 63"
    "distinct (map upload_key (st_uploads st))"
    "u \<in> set (st_uploads st) \<Longrightarrow> up_device_id u \<in> dv_device_id ` set (st_devices st)"
    "c \<in> set (st_commits st) \<Longrightarrow> co_device_id c \<in> dv_device_id ` set (st_devices st) \<and> co_device_sequence c < 2 ^ 63"
    "distinct (st_commit_parents st)"
    "(k, p) \<in> set (st_commit_parents st) \<Longrightarrow> p \<in> co_commit_id ` set (st_commits st)"
  using assms by (auto simp: schema_rest_def)

text \<open>Devices are never deleted.\<close>

lemma schema_rest_devices:
  assumes "schema_rest st" and "dv_device_id ` set (st_devices st) \<subseteq> dv_device_id ` set (st_devices st')"
    and "st_metadata st' = st_metadata st" "st_blobs st' = st_blobs st" "st_uploads st' = st_uploads st"
      "st_commits st' = st_commits st" "st_commit_parents st' = st_commit_parents st"
  shows "schema_rest st'"
  using assms by (simp add: schema_rest_def metadata_table_def subset_iff)

lemma keys_of_map: "(\<And>r. f (g r) = f r) \<Longrightarrow> f ` set (map g rs) = f ` set rs"
  by (simp add: image_image)

lemma register_device_keys:
  "register_device now i k n st = (q, st') \<Longrightarrow> dv_device_id ` set (st_devices st) \<subseteq> dv_device_id ` set (st_devices st')"
  by (auto simp: register_device_def Let_def keys_of_map simp del: set_map split: if_splits)

lemma revoke_device_keys:
  "revoke_device now i st = (q, st') \<Longrightarrow> dv_device_id ` set (st_devices st) \<subseteq> dv_device_id ` set (st_devices st')"
  by (auto simp: revoke_device_def Let_def keys_of_map simp del: set_map split: if_splits)

text \<open>The blob operations: rows of \<open>uploads\<close> are inserted with a new key, or keep it, or go.\<close>

lemma schema_rest_uploads:
  assumes "schema_rest st" and "blob_frame st st'" and "distinct (map upload_key (st_uploads st'))"
    and "\<And>r. r \<in> set (st_uploads st') \<Longrightarrow> up_device_id r \<in> dv_device_id ` set (st_devices st)"
    and "\<And>b. b \<in> set (st_blobs st') \<Longrightarrow> b \<in> set (st_blobs st) \<or> bl_ciphertext_size b < 2 ^ 63"
  shows "schema_rest st'"
  using assms by (auto simp: schema_rest_def blob_frame_def same_commits_def metadata_table_def)

lemma begin_upload_schema:
  assumes rest: "schema_rest st" and run: "begin_upload f u now d n h st = (q, st')"
  shows "schema_rest st'"
  using begin_upload_cases [OF run]
proof (elim disjE conjE)
  let ?row = "new_upload u now d n h"
  assume st': "st' = (put_file (upload_path u) [] st)\<lparr>st_uploads := st_uploads st @ [?row]\<rparr>"
    and ok: "\<not> upload_insert_fails (put_file (upload_path u) [] st) ?row"
  from ok have "device_row_of st d \<noteq> None" by (simp add: upload_insert_fails_def device_row_of_def)
  then have "d \<in> dv_device_id ` set (st_devices st)"
    by (auto simp: device_row_of_def dest: find_Some_iff_mem)
  with ok rest show ?thesis
    by (intro schema_rest_uploads [OF rest begin_upload_frame [OF run]])
      (auto simp: st' schema_rest_def upload_insert_fails_def put_file_def)
next
  assume "st' = remove_file (upload_path u) (put_file (upload_path u) [] st)"
  with rest show ?thesis
    by (intro schema_rest_uploads [OF rest begin_upload_frame [OF run]])
      (auto simp: schema_rest_def put_file_def remove_file_def)
qed (use rest in simp)

lemma append_file_rows:
  "append_file u offset chunk st = (q, st') \<Longrightarrow> st_uploads st' = st_uploads st \<and> st_blobs st' = st_blobs st"
  by (auto simp: append_file_def split: if_splits option.splits)

lemma append_record_keys:
  assumes "append_record u offset n st = (q, st')"
  shows "map upload_key (st_uploads st') = map upload_key (st_uploads st) \<and> st_blobs st' = st_blobs st"
  using assms by (auto simp: append_record_def Let_def split: sum.splits if_splits)

lemma append_keys:
  assumes "append_upload_chunk d u offset chunk st = (q, st')"
  shows "map upload_key (st_uploads st') = map upload_key (st_uploads st) \<and> st_blobs st' = st_blobs st"
proof -
  have "map upload_key (st_uploads st2) = map upload_key (st_uploads st) \<and> st_blobs st2 = st_blobs st"
    if "append_locked d u offset chunk st = (r, st2)" for r st2
    using that by (auto simp: append_locked_def split: if_splits sum.splits prod.splits
        dest!: append_file_rows append_record_keys)
  with assms show ?thesis by (auto simp: append_upload_chunk_def split: if_splits sum.splits)
qed

lemma append_schema:
  assumes rest: "schema_rest st" and run: "append_upload_chunk d u offset chunk st = (q, st')"
  shows "schema_rest st'"
proof (rule schema_rest_uploads [OF rest append_upload_chunk_frame [OF run]])
  note k = conjunct1 [OF append_keys [OF run]] and b = conjunct2 [OF append_keys [OF run]]
  show "distinct (map upload_key (st_uploads st'))" unfolding k by (rule schema_restD(3) [OF rest])
  show "up_device_id r \<in> dv_device_id ` set (st_devices st)" if "r \<in> set (st_uploads st')" for r
  proof -
    have "upload_key r \<in> set (map upload_key (st_uploads st'))" using that by auto
    then show ?thesis unfolding k using schema_restD(4) [OF rest] by auto
  qed
  show "c \<in> set (st_blobs st) \<or> bl_ciphertext_size c < 2 ^ 63" if "c \<in> set (st_blobs st')" for c
    using that unfolding b by blast
qed

lemma publish_file_rows:
  "publish_file X rc st = (q, st') \<Longrightarrow> st_uploads st' = st_uploads st \<and> st_blobs st' = st_blobs st"
  by (drule publish_file_cases) auto

lemma record_blob_rows:
  "record_blob now rc st = (q, st') \<Longrightarrow> (\<exists>P. st_uploads st' = filter P (st_uploads st)) \<and>
     (\<forall>b \<in> set (st_blobs st'). b \<in> set (st_blobs st) \<or> bl_ciphertext_size b < 2 ^ 63)"
  by (auto simp: record_blob_def Let_def i64_try_from_def remove_file_def split: sum.splits if_splits
      intro: exI [of _ "\<lambda>_. True"])

text \<open>Rows of \<open>uploads\<close> may go, and recorded blobs have sizes of the column.\<close>

definition fewer_uploads :: "storage \<Rightarrow> storage \<Rightarrow> bool" where
  "fewer_uploads st st' \<longleftrightarrow> (\<exists>P. st_uploads st' = filter P (st_uploads st)) \<and>
     (\<forall>b \<in> set (st_blobs st'). b \<in> set (st_blobs st) \<or> bl_ciphertext_size b < 2 ^ 63)"

lemma fewer_uploads_same:
  "st_uploads st' = st_uploads st \<Longrightarrow> st_blobs st' = st_blobs st \<Longrightarrow> fewer_uploads st st'"
  by (auto simp: fewer_uploads_def intro: exI [of _ "\<lambda>_. True"])

lemma commit_locked_rows:
  assumes "commit_locked X now d u st = (q, st')"
  shows "fewer_uploads st st'"
proof -
  consider "st' = st" | rc r where "publish_file X rc st = (r, st')"
    | rc r st1 q where "publish_file X rc st = (r, st1)" "record_blob now rc st1 = (q, st')"
    using assms by (auto simp: commit_locked_def split: if_splits sum.splits prod.splits)
  then show ?thesis
  proof cases
    case 3
    with publish_file_rows [OF 3(1)] record_blob_rows [OF 3(2)] show ?thesis by (simp add: fewer_uploads_def)
  qed (auto intro: fewer_uploads_same dest: publish_file_rows)
qed

lemma commit_schema:
  assumes rest: "schema_rest st" and run: "commit_upload X now d u st = (q, st')"
  shows "schema_rest st'"
proof -
  have rows: "fewer_uploads st st'"
    using run commit_locked_rows fewer_uploads_same by (auto simp: commit_upload_def split: sum.splits)
  then obtain P where P: "st_uploads st' = filter P (st_uploads st)" by (auto simp: fewer_uploads_def)
  show ?thesis
    by (rule schema_rest_uploads [OF rest commit_upload_frame [OF run]])
      (use rows schema_restD(3,4) [OF rest] in \<open>auto simp: P fewer_uploads_def distinct_map_filter\<close>)
qed

lemma parent_maximum_rows:
  "parent_maximum st v m ps = Inr n \<Longrightarrow> p \<in> set ps \<Longrightarrow> p \<in> co_commit_id ` set (st_commits st)"
  by (induction ps arbitrary: m)
    (auto simp: result_iffs commit_row_of_def dest!: find_Some_iff_mem)

lemma accept_schema:
  assumes rest: "schema_rest st" and wf: "commits_wf st" and sub: "submittable c"
    and run: "accept_commit now d c rc st = (q, st')"
  shows "schema_rest st'"
proof (cases "st' = st")
  case False
  show ?thesis
  proof (rule accept_commit_inserts [OF wf sub run False])
    fix n hs
    let ?c = "sc_commit_id c" and ?ps = "uc_parents (sc_unsigned c)" and ?s = "unat (uc_device_sequence (sc_unsigned c))"
    assume new: "find (\<lambda>r. co_commit_id r = ?c) (st_commits st) = None"
      and gen: "load_parent_generation st (st_vault_id st) ?ps = Inr n"
      and val: "validate_next_device_sequence st (st_vault_id st) d (uc_device_sequence (sc_unsigned c)) = Inr ()"
      and st': "st' = insert_commit_rows now (st_vault_id st) d c ?s n rc st" and act: "active st d"
    have ps: "p \<in> co_commit_id ` set (st_commits st)" if "p \<in> set ?ps" for p
      using gen that parent_maximum_rows by (auto simp: load_parent_generation_def result_iffs split: if_splits)
    have "?c \<notin> fst ` set (st_commit_parents st)"
      using new commits_wfD(5) [OF wf] by (fastforce simp: find_None_iff)
    moreover have "distinct ?ps" using sub by (auto simp: submittable_def successively_less_iff dest: strict_sorted_iff [THEN iffD1])
    ultimately have "distinct (st_commit_parents st')"
      using schema_restD(6) [OF rest] by (force simp: st' insert_commit_rows_def distinct_map inj_on_def)
    moreover have "?s < 2 ^ 63"
      using val by (auto simp: validate_next_device_sequence_def result_iffs i64_try_from_def split: if_splits)
    moreover have "d \<in> dv_device_id ` set (st_devices st)"
      using act by (auto simp: active_def device_row_of_def dest: find_Some_iff_mem)
    ultimately show ?thesis
      using rest ps by (fastforce simp: schema_rest_def st' insert_commit_rows_def metadata_table_def)
  qed
qed (use rest in simp)

lemma put_envelope_schema:
  assumes "schema_rest st" and "put_vault_key_envelope e st = (q, st')"
  shows "schema_rest st'"
  using put_envelope_fields [OF assms(2)] assms(1)
  by (auto simp: schema_rest_def metadata_table_def set_meta_def distinct_update)

lemma storage_step_schema:
  assumes step: "storage_step C X st st'" and inv: "service_inv X st" and rest: "schema_rest st"
  shows "schema_rest st'"
  using step
proof cases
  case (does_register now i k n q)
  show ?thesis
    by (rule schema_rest_devices [OF rest register_device_keys [OF does_register(1)]])
      (use register_device_fields [OF does_register(1)] in simp_all)
next
  case (does_revoke now i q)
  have "st_metadata st' = st_metadata st" using revoke_device_fields [OF does_revoke] by simp
  then show ?thesis
    by (intro schema_rest_devices [OF rest revoke_device_keys [OF does_revoke]])
      (use revoke_device_fields [OF does_revoke] in simp_all)
next
  case (does_begin f u now d n h q)
  then show ?thesis by (intro begin_upload_schema [OF rest])
next
  case (does_append d u offset chunk q)
  then show ?thesis by (rule append_schema [OF rest])
next
  case (does_commit now d u q)
  then show ?thesis by (rule commit_schema [OF rest])
next
  case (does_accept now d c rc q)
  have "submittable c" using decode_signed_commit_submittable [OF does_accept(2)] by blast
  with committed_built [OF service_invD(2) [OF inv]] show ?thesis
    by (intro accept_schema [OF rest _ _ does_accept(1)]) blast+
next
  case (does_envelope e q)
  then show ?thesis by (rule put_envelope_schema [OF rest])
qed

section \<open>A served storage\<close>

lemma metadata_set [simp]: "metadata_table st \<Longrightarrow> metadata_table (set_meta k v st)"
  by (simp add: metadata_table_def set_meta_def distinct_update)

lemma metadata_fixed: "get_or_create_fixed n k r st = Inr (v, st') \<Longrightarrow> metadata_table st \<Longrightarrow> metadata_table st'"
  by (auto simp: get_or_create_fixed_def result_iffs split: option.splits if_splits)

lemma metadata_u32: "get_or_create_u32 k v st = Inr (w, st') \<Longrightarrow> metadata_table st \<Longrightarrow> metadata_table st'"
  by (auto simp: get_or_create_u32_def split: option.splits if_splits)

lemma metadata_policy: "load_or_create_policy X st = Inr (p, st') \<Longrightarrow> metadata_table st \<Longrightarrow> metadata_table st'"
  by (auto simp: load_or_create_policy_def result_iffs Let_def dest!: metadata_u32)

lemma metadata_verifier: "check_verifier X key st = Inr st' \<Longrightarrow> metadata_table st \<Longrightarrow> metadata_table st'"
  by (auto simp: check_verifier_def result_iffs split: option.splits if_splits)

lemma metadata_repair [simp]: "metadata_table (repair_heads v st) = metadata_table st"
  "metadata_table (st\<lparr>st_vault_id := w\<rparr>) = metadata_table st"
  by (simp_all add: metadata_table_def repair_heads_def Let_def)

lemma initialize_transaction_metadata:
  assumes "initialize_transaction X R password st = Inr (I, st')" and "metadata_table st"
  shows "metadata_table st'"
  using assms
  by (auto simp: initialize_transaction_def result_iffs Let_def
      dest!: metadata_fixed metadata_policy metadata_verifier)

lemma initialize_schema:
  assumes "crypto_laws X" and "wf_random R" and run: "initialize X R password st = (Inr I, st')"
    and rest: "schema_rest st"
  shows "schema_rest st'"
proof -
  from run obtain st1 where k: "ensure_storage_key (rn_storage_key R) st = (Inr (), st1)"
    and t: "initialize_transaction X R password st1 = Inr (I, st')" by (rule initialize_Inr)
  from ensure_storage_key_Inr [OF k] assms(2)
  have st1: "st1 = st \<or> (\<exists>key. st1 = put_file STORAGE_KEY_FILE key st)" by (auto simp: wf_random_def)
  then have rest1: "schema_rest st1" using rest by (auto simp: schema_rest_def metadata_table_def put_file_def)
  then have meta: "metadata_table st'" using initialize_transaction_metadata [OF t] by (simp add: schema_rest_def)
  have eq: "st' = (repair_heads (is_vault_id I) st1)\<lparr>st_vault_id := is_vault_id I, st_metadata := st_metadata st'\<rparr>"
    using initialize_transaction_Inr [OF assms(1,2) t] by blast
  have "st_devices st' = st_devices st1" "st_blobs st' = st_blobs st1" "st_uploads st' = st_uploads st1"
    "st_commits st' = st_commits st1" "st_commit_parents st' = st_commit_parents st1"
    by (subst eq, simp add: repair_heads_def Let_def)+
  with rest1 meta show ?thesis by (simp add: schema_rest_def)
qed

interpretation declared: relative_invariant "storage_step C X" "service_inv X" schema_rest for C X
  by unfold_locales (rule storage_step_schema)

sublocale cbor_format \<subseteq> tables: relative_invariant "system_step C X N" "system_inv X"
    "\<lambda>Y. schema_rest (store_of Y)" for X N
proof unfold_locales
  fix Y Y'
  assume step: "system_step C X N Y Y'" and inv: "system_inv X Y" and rest: "schema_rest (store_of Y)"
  show "schema_rest (store_of Y')"
    using system_step_store [OF cbor_format_axioms inv step]
      declared.step_keeps_extra [OF _ system_invD(1) [OF inv] rest] rest by metis
qed

context cbor_format begin

lemma steps_schema:
  "(system_step C X N)\<^sup>*\<^sup>* Y Y' \<Longrightarrow> system_inv X Y \<Longrightarrow> schema_rest (store_of Y) \<Longrightarrow>
    system_inv X Y' \<and> schema_rest (store_of Y')"
  by (rule tables.steps_keep_both)

end

text \<open>
  The tables never violate a constraint of the schema. From the first start on an empty data directory, whatever
  requests are served and however they interleave: keys are unique, references resolve, lengths and ranges
  hold. So none of the inserts and updates of the program is refused by the database.
\<close>

theorem schema_respected:
  assumes "cbor_format C" and "crypto_laws X" and "identity_crates_ok K"
    and "wf_random R" and "\<forall>k. random = Some k \<longrightarrow> length k = 32"
    and "server_initialize C X K random R password blank_store = (Inr S, st)"
    and "(system_step C X N)\<^sup>*\<^sup>* \<lparr>sy_now = now, sy_server = S, sy_pending = [], sy_jobs = []\<rparr> Y"
  shows "schema_ok (store_of Y)"
proof -
  let ?Y = "\<lparr>sy_now = now, sy_server = S, sy_pending = [], sy_jobs = []\<rparr>"
  obtain i I where first: "service_inv X st" "app_state_new C i I st = Some S"
    by (rule server_initialize_first [OF assms(2-6)])
  have store: "store_of ?Y = st"
    using first(2) by (auto simp: app_state_new_def new_server_def split: sum.splits)
  from assms(6) obtain i' st1 I' where 1: "load_or_create K random blank_store = (Inr i', st1)"
    and 2: "initialize X R password st1 = (Inr I', st)"
    by (auto simp: server_initialize_def split: sum.splits prod.splits option.splits)
  have st1: "st1 = blank_store\<lparr>st_files := st_files st1\<rparr>"
    using load_or_create_identity [OF assms(3,5) 1] by blast
  have "schema_rest st1" by (subst st1) (simp add: schema_rest_def metadata_table_def blank_store_def)
  with initialize_schema [OF assms(2,4) 2] have "schema_rest st" .
  moreover have "system_inv X ?Y"
    using running_inv [OF assms(1) running_start [OF first(1) first(2) [unfolded app_state_new_def]]] by blast
  ultimately have "system_inv X Y" "schema_rest (store_of Y)"
    using cbor_format.steps_schema [OF assms(1,7)] store by simp_all
  then show ?thesis using schema_okI system_invD(1) by blast
qed

theorem schema_respected_witness:
  "\<exists>(S :: nat server) st. server_initialize rfc_cbor plain_crypto sample_crates (Some (pad 32 [5])) sample_random [1]
     blank_store = (Inr S, st) \<and> schema_ok (ap_storage (sv_application S))"
proof -
  obtain S :: "nat server" and st where s: "server_initialize rfc_cbor plain_crypto sample_crates (Some (pad 32 [5]))
      sample_random [1] blank_store = (Inr S, st)" using sample_server_start by blast
  have "(system_step rfc_cbor plain_crypto (undefined :: (nat, nat) snow))\<^sup>*\<^sup>*
      \<lparr>sy_now = 0, sy_server = S, sy_pending = [], sy_jobs = []\<rparr> \<lparr>sy_now = 7, sy_server = S, sy_pending = [], sy_jobs = []\<rparr>"
    using sys_tick [of "\<lparr>sy_now = 0, sy_server = S, sy_pending = [], sy_jobs = []\<rparr>" 7] by (intro r_into_rtranclp) simp
  from schema_respected [OF rfc.cbor_format_axioms plain_crypto_laws sample_crates_ok sample_random_wf _ s this]
  have "schema_ok (ap_storage (sv_application S))" by simp
  with s show ?thesis by blast
qed

end
