(* ===== verification/Process_Life.thy ===== *)
theory Process_Life
  imports Server_Process Storage_Schema
begin

text \<open>
  The life of a data directory: starts that succeed or are refused, with any password and any randomness,
  service, stops, and power losses in the middle of a start or of a request, in any order and number.
  The tables keep their constraints throughout, the first successful start fixes the identity for
  good, and what a client was told is stored stays stored.
\<close>

section \<open>Power loss\<close>

text \<open>
  Several storage jobs can be under way when the power goes: \<^const>\<open>power_loss\<close> says what is left of one
  of them, and its iteration what is left of any number of them.
\<close>

lemma power_loss_blobs:
  assumes loss: "power_loss X st st'" and inv: "blobs_inv X st"
  shows "blob_frame st st' \<and> key_kept st st' \<and> blobs_inv X st'"
proof -
  have "blob_frame st st' \<and> key_kept st st'" using loss
  proof cases
    case (loss_begin u)
    then show ?thesis by (auto simp: frame_defs update_conv')
  next
    case (loss_append u d rec offset chunk res)
    then show ?thesis using append_file_frame append_file_key by blast
  next
    case (loss_publish u d rec res)
    then show ?thesis using publish_file_frame publish_file_key by blast
  next
    case (loss_unlink u d rec st1 now h st2)
    have "blob_frame st st1" "blob_frame st1 st2" "key_kept st st1"
      using publish_file_frame [OF loss_unlink(4)] record_blob_frame [OF loss_unlink(5)]
        publish_file_key [OF loss_unlink(4)] by blast+
    then show ?thesis using loss_unlink(1) by (simp add: blob_frame_def same_commits_def)
  qed simp
  with power_loss_inv [OF loss inv] show ?thesis by blast
qed

lemma power_loss_rows:
  assumes "power_loss X st st'"
  shows "fewer_uploads st st'"
  using assms
proof cases
  case (loss_unlink u d rec st1 now h st2)
  with publish_file_rows [OF loss_unlink(4)] record_blob_rows [OF loss_unlink(5)] show ?thesis
    by (simp add: fewer_uploads_def)
qed (auto intro: fewer_uploads_same dest: append_file_rows publish_file_rows)

lemma fewer_uploads_schema:
  assumes rest: "schema_rest st" and "blob_frame st st'" and rows: "fewer_uploads st st'"
  shows "schema_rest st'"
proof -
  from rows obtain P where P: "st_uploads st' = filter P (st_uploads st)" by (auto simp: fewer_uploads_def)
  show ?thesis
    by (rule schema_rest_uploads [OF rest assms(2)])
      (use rows schema_restD(3,4) [OF rest] in \<open>auto simp: P fewer_uploads_def distinct_map_filter\<close>)
qed

section \<open>Directories that hold a service\<close>

definition owned :: "crypto \<Rightarrow> identity_crates \<Rightarrow> server_identity \<Rightarrow> initialized_storage \<Rightarrow> storage \<Rightarrow> bool" where
  "owned X K i I st \<longleftrightarrow> has_identity K i st \<and> identified X I st \<and> service_inv X st \<and> schema_rest st"

lemma ownedD:
  assumes "owned X K i I st"
  shows "has_identity K i st" "identified X I st" "service_inv X st" "schema_rest st"
  using assms by (simp_all add: owned_def)

lemma power_loss_owned:
  assumes loss: "power_loss X st st'" and own: "owned X K i I st"
  shows "owned X K i I st'"
proof -
  note o = ownedD [OF own]
  note b = power_loss_blobs [OF loss service_invD(1) [OF o(3)]]
  have "keeps_identity st st'" using b blob_frame_identity by blast
  then show ?thesis
    using o b has_identity_kept identified_kept service_inv_blob fewer_uploads_schema power_loss_rows [OF loss]
    unfolding owned_def by blast
qed

lemma power_losses_owned: "(power_loss X)\<^sup>*\<^sup>* st st' \<Longrightarrow> owned X K i I st \<Longrightarrow> owned X K i I st'"
  by (induction rule: rtranclp_induct) (auto intro: power_loss_owned)

section \<open>Starts\<close>

lemma load_or_create_files:
  assumes "load_or_create K random st = (r, st')"
  shows "st' = st\<lparr>st_files := st_files st'\<rparr> \<and>
    (\<forall>p. p \<notin> {PRIVATE_KEY_FILE, PUBLIC_KEY_FILE} \<longrightarrow> file_at st' p = file_at st p)"
  using assms
  by (auto simp: load_or_create_def identity_private_key_def identity_public_key_def result_iffs write_new_Inr
      put_file_def update_conv' split: sum.splits if_splits)

lemma object_path_identity [simp]: "object_path h \<noteq> PRIVATE_KEY_FILE" "object_path h \<noteq> PUBLIC_KEY_FILE"
  by (simp_all add: object_path_def PRIVATE_KEY_FILE_def PUBLIC_KEY_FILE_def Let_def)

lemma fresh_files:
  assumes "fresh_dir st" and "st' = st\<lparr>st_files := st_files st'\<rparr>"
    and "\<And>h. file_at st' (object_path h) = file_at st (object_path h)"
  shows "fresh_dir st'"
proof -
  have "st_metadata st' = st_metadata st" "st_devices st' = st_devices st" "st_blobs st' = st_blobs st"
    "st_uploads st' = st_uploads st" "st_commits st' = st_commits st" "st_commit_parents st' = st_commit_parents st"
    "st_heads st' = st_heads st" by (subst assms(2), simp)+
  with assms(1,3) show ?thesis by (simp add: fresh_dir_def)
qed

lemma fresh_load_or_create:
  "fresh_dir st \<Longrightarrow> load_or_create K random st = (r, st') \<Longrightarrow> fresh_dir st'"
  using load_or_create_files [of K random st r st'] by (intro fresh_files [of st st']) auto

lemma fresh_schema: "fresh_dir st \<Longrightarrow> schema_rest st \<and> schema_ok st"
  by (simp add: fresh_dir_def schema_rest_def schema_ok_def metadata_table_def devices_table_def blobs_table_def
      uploads_table_def commits_table_def commit_parents_table_def heads_table_def)

lemma initialize_refused:
  assumes "initialize X R password st = (Inl e, st')"
  shows "st' = st \<or> (\<exists>key. st' = put_file STORAGE_KEY_FILE key st)"
  using assms by (auto simp: initialize_def ensure_storage_key_def split: option.splits if_splits sum.splits prod.splits)

text \<open>The key that a password gives is the one the verifier was made from.\<close>

definition opens_with :: "crypto \<Rightarrow> initialized_storage \<Rightarrow> bytes \<Rightarrow> bytes \<Rightarrow> bool" where
  "opens_with X I password k \<longleftrightarrow>
     derive_server_auth_key X password (is_authentication_salt I) (is_argon2_policy I) = Inr k \<and>
     server_auth_verifier X k = server_auth_verifier X (is_authentication_key I)"

lemma identified_no_key:
  assumes id: "identified X I st"
    and key: "derive_server_auth_key X password (is_authentication_salt I) (is_argon2_policy I) = Inl e"
  shows "initialize_transaction X R password st = Inl (SE_Crypto e)"
proof -
  let ?st = "repair_heads (st_vault_id st) st"
  note i = id [unfolded identified_def]
  from i obtain params where "argon2 X (is_argon2_policy I) = Inr params" by blast
  moreover have "has_policy ?st (is_argon2_policy I)" using i by (simp add: has_policy_def has_u32_def)
  ultimately have p: "load_or_create_policy X ?st = Inr (is_argon2_policy I, ?st)"
    by (intro load_or_create_policy_found)
  have "validate_migration_version st = Inr ()"
    using i by (simp add: validate_migration_version_def CURRENT_MIGRATION_VERSION_def)
  then show ?thesis using i p key by (simp add: initialize_transaction_def Let_def)
qed

lemma identified_initialize:
  assumes X: "crypto_laws X" and id: "identified X I st" and run: "initialize X R password st = (res, st')"
  shows "st' = st \<and> (\<exists>e. res = Inl e) \<or>
    st' = repair_heads (st_vault_id st) st \<and> (\<exists>k. opens_with X I password k \<and> res = Inr (I\<lparr>is_authentication_key := k\<rparr>))"
proof (cases "derive_server_auth_key X password (is_authentication_salt I) (is_argon2_policy I)")
  case (Inl e)
  from identified_no_key [OF id this] run identified_ensure [OF id] show ?thesis by (auto simp: initialize_def)
next
  case (Inr k)
  let ?st = "repair_heads (st_vault_id st) st"
  note i = id [unfolded identified_def]
  note t = identified_transaction [OF id Inr]
  have v: "check_verifier X k ?st = (if server_auth_verifier X k = server_auth_verifier X (is_authentication_key I)
      then Inr ?st else Inl SE_PasswordMismatch)"
    using i length_blake3 [OF X] by (simp add: check_verifier_def verify_server_auth_verifier_def server_auth_verifier_def)
  have "set_meta META_MIGRATION_VERSION (to_be_bytes CURRENT_MIGRATION_VERSION) ?st = ?st"
    using i by (intro set_meta_same) simp
  moreover have "?st\<lparr>st_vault_id := st_vault_id st\<rparr> = ?st"
    by (rule storage_vault_same) (simp add: repair_heads_def Let_def)
  ultimately show ?thesis
    using run v Inr identified_ensure [OF id] by (auto simp: initialize_def t opens_with_def split: if_splits)
qed

lemma repair_owned:
  assumes "owned X K i I st"
  shows "owned X K i I (repair_heads (st_vault_id st) st)"
proof -
  note o = ownedD [OF assms]
  let ?st = "repair_heads (st_vault_id st) st"
  have "keeps_identity st ?st" by (simp add: keeps_identity_def) (simp add: repair_heads_def Let_def)
  moreover have "schema_rest ?st" using o(4) by (simp add: schema_rest_def) (simp add: repair_heads_def Let_def)
  ultimately show ?thesis
    using o has_identity_kept identified_kept service_inv_repair unfolding owned_def by blast
qed

lemma later_start:
  assumes X: "crypto_laws X" and own: "owned X K i I st"
    and run: "server_initialize C X K random R password st = (r, st')"
  shows "(st' = st \<or> st' = repair_heads (st_vault_id st) st) \<and> owned X K i I st' \<and>
    (\<forall>S. r = Inr S \<longrightarrow> (\<exists>k. opens_with X I password k \<and> app_state_new C i (I\<lparr>is_authentication_key := k\<rparr>) st' = Some S))"
proof -
  note o = ownedD [OF own]
  obtain res st1 where init: "initialize X R password st = (res, st1)" by fastforce
  from run identity_stable [OF o(1), of random] init have st': "st' = st1"
    by (auto simp: server_initialize_def split: sum.splits option.splits)
  from identified_initialize [OF X o(2) init] show ?thesis
  proof (elim disjE exE conjE)
    fix k
    assume k: "st1 = repair_heads (st_vault_id st) st" "opens_with X I password k" "res = Inr (I\<lparr>is_authentication_key := k\<rparr>)"
    with run identity_stable [OF o(1), of random] init st' repair_owned [OF own] show ?thesis
      by (auto simp: server_initialize_def split: option.splits)
  next
    fix e
    assume "st1 = st" "res = Inl e"
    with run identity_stable [OF o(1), of random] init st' own show ?thesis
      by (auto simp: server_initialize_def)
  qed
qed

lemma first_server_start:
  assumes X: "crypto_laws X" and K: "identity_crates_ok K" and R: "wf_random R" "\<forall>k. random = Some k \<longrightarrow> length k = 32"
    and fresh: "fresh_dir st" and run: "server_initialize C X K random R password st = (r, st')"
  shows "fresh_dir st' \<and> (\<exists>e. r = Inl e) \<or>
    (\<exists>i I. owned X K i I st' \<and> (\<forall>S. r = Inr S \<longrightarrow> opens_with X I password (is_authentication_key I) \<and>
       app_state_new C i I st' = Some S))"
proof -
  obtain ri st1 where 1: "load_or_create K random st = (ri, st1)" by fastforce
  note fresh1 = fresh_load_or_create [OF fresh 1]
  show ?thesis
  proof (cases ri)
    case (Inl e)
    with 1 fresh1 run show ?thesis by (auto simp: server_initialize_def)
  next
    case (Inr i)
    obtain res st2 where 2: "initialize X R password st1 = (res, st2)" by fastforce
    show ?thesis
    proof (cases res)
      case (Inl e)
      have "fresh_dir st2" using initialize_refused [OF 2 [unfolded Inl]] fresh1 fresh_put_key by blast
      with 1 2 Inl Inr run show ?thesis by (auto simp: server_initialize_def)
    next
      case init: (Inr I)
      note first = first_start_service [OF fresh1 X R(1) 2 [unfolded init]]
      have "has_identity K i st1" using load_or_create_identity [OF K R(2) 1 [unfolded Inr]] by blast
      then have "has_identity K i st2"
        by (rule has_identity_files [rotated 2])
          (use first in \<open>simp_all add: PRIVATE_KEY_FILE_def PUBLIC_KEY_FILE_def STORAGE_KEY_FILE_def\<close>)
      moreover have "schema_rest st2"
        using initialize_schema [OF X R(1) 2 [unfolded init]] fresh_schema [OF fresh1] by blast
      ultimately have "owned X K i I st2" using first by (simp add: owned_def)
      moreover have "opens_with X I password (is_authentication_key I)"
        using initialize_identified [OF X R(1) 2 [unfolded init]] by (simp add: opens_with_def)
      ultimately show ?thesis
        using 1 2 Inr init run by (auto simp: server_initialize_def split: option.splits)
    qed
  qed
qed

section \<open>Lives\<close>

datatype 't process = Stopped storage | Serving "'t system"

primrec disk :: "'t process \<Rightarrow> storage" where
  "disk (Stopped st) = st"
| "disk (Serving Y) = store_of Y"

text \<open>
  One step: a start that serves or is refused, a start cut off while it writes a key file that was not there,
  a step of the service, a stop, and a power loss with any number of storage jobs under way.
\<close>

inductive process_step ::
  "cbor \<Rightarrow> crypto \<Rightarrow> identity_crates \<Rightarrow> ('h, 't) snow \<Rightarrow> 't process \<Rightarrow> 't process \<Rightarrow> bool" for C X K N where
  life_start: "wf_random R \<Longrightarrow> \<forall>k. random = Some k \<longrightarrow> length k = 32 \<Longrightarrow>
    server_initialize C X K random R password st = (Inr S, st') \<Longrightarrow>
    process_step C X K N (Stopped st) (Serving \<lparr>sy_now = now, sy_server = S, sy_pending = [], sy_jobs = []\<rparr>)"
| life_refused: "wf_random R \<Longrightarrow> \<forall>k. random = Some k \<longrightarrow> length k = 32 \<Longrightarrow>
    server_initialize C X K random R password st = (Inl e :: server_error + 't server, st') \<Longrightarrow>
    process_step C X K N (Stopped st) (Stopped st')"
| life_cut: "path \<in> key_files \<Longrightarrow> file_at st path = None \<Longrightarrow>
    process_step C X K N (Stopped st) (Stopped (put_file path (take n contents) st))"
| life_serve: "system_step C X N Y Y' \<Longrightarrow> process_step C X K N (Serving Y) (Serving Y')"
| life_stop: "process_step C X K N (Serving Y) (Stopped (store_of Y))"
| life_loss: "(power_loss X)\<^sup>*\<^sup>* (store_of Y) st \<Longrightarrow> process_step C X K N (Serving Y) (Stopped st)"

inductive_cases process_step_cases: "process_step C X K N P P'"

text \<open>A directory that holds a service keeps it; one that does not has empty tables and no server.\<close>

definition life_owned :: "crypto \<Rightarrow> identity_crates \<Rightarrow> server_identity \<Rightarrow> initialized_storage \<Rightarrow> 't process \<Rightarrow> bool" where
  "life_owned X K i I P \<longleftrightarrow> owned X K i I (disk P) \<and> (\<forall>Y. P = Serving Y \<longrightarrow> system_inv X Y)"

definition life_inv :: "crypto \<Rightarrow> identity_crates \<Rightarrow> 't process \<Rightarrow> bool" where
  "life_inv X K P \<longleftrightarrow> (\<exists>st. P = Stopped st \<and> fresh_dir st) \<or> (\<exists>i I. life_owned X K i I P)"

lemma started_store: "app_state_new C i I st = Some S \<Longrightarrow> ap_storage (sv_application S) = st"
  by (auto simp: app_state_new_def new_server_def split: sum.splits)

lemma started_disk:
  "server_initialize C X K random R password st = (Inr S, st') \<Longrightarrow> ap_storage (sv_application S) = st'"
  by (auto simp: server_initialize_def started_store split: sum.splits prod.splits option.splits)

lemma started_owned:
  assumes "cbor_format C" and own: "owned X K i I st" and new: "app_state_new C i I' st = Some S"
  shows "life_owned X K i I (Serving \<lparr>sy_now = now, sy_server = S, sy_pending = [], sy_jobs = []\<rparr>)"
proof -
  have "system_inv X \<lparr>sy_now = now, sy_server = S, sy_pending = [], sy_jobs = []\<rparr>"
    using running_inv [OF assms(1) running_start [OF ownedD(3) [OF own] new [unfolded app_state_new_def]]] by blast
  with own started_store [OF new] show ?thesis by (simp add: life_owned_def)
qed

lemma serve_owned:
  assumes C: "cbor_format C" and step: "system_step C X N Y Y'" and own: "life_owned X K i I (Serving Y)"
  shows "life_owned X K i I (Serving Y')"
proof -
  note o = own [unfolded life_owned_def, simplified]
  have steps: "(system_step C X N)\<^sup>*\<^sup>* Y Y'" using step by (rule r_into_rtranclp)
  have "schema_rest (store_of Y')"
    using cbor_format.steps_schema [OF C steps] o by (simp add: owned_def)
  moreover have "system_inv X Y' \<and> identified X I (store_of Y') \<and> has_identity K i (store_of Y')"
    by (rule cbor_format.steps_identity [OF C steps]) (use o in \<open>simp_all add: owned_def\<close>)
  ultimately show ?thesis using system_invD(1) by (auto simp: life_owned_def owned_def)
qed

lemma life_step_owned:
  assumes C: "cbor_format C" and X: "crypto_laws X" and step: "process_step C X K N P P'" and own: "life_owned X K i I P"
  shows "life_owned X K i I P'"
  using step
proof cases
  case (life_start R random password st S st' now)
  have "owned X K i I st" using own life_start(1) by (simp add: life_owned_def)
  from later_start [OF X this life_start(5)] show ?thesis
    unfolding life_start(2) by (auto intro: started_owned [OF C])
next
  case (life_refused R random password st e st')
  have "owned X K i I st" using own life_refused(1) by (simp add: life_owned_def)
  from later_start [OF X this life_refused(5)] show ?thesis by (simp add: life_refused(2) life_owned_def)
next
  case (life_cut path st n contents)
  then have "has_identity K i st" "identified X I st" using own by (simp_all add: life_owned_def owned_def)
  then have "file_at st path \<noteq> None"
    using life_cut(3) by (auto simp: has_identity_def identified_def key_files_def)
  with life_cut(4) show ?thesis by contradiction
next
  case (life_serve Y Y')
  with serve_owned [OF C life_serve(3)] own show ?thesis by simp
next
  case (life_stop Y)
  then show ?thesis using own by (simp add: life_owned_def)
next
  case (life_loss Y st)
  then show ?thesis using own power_losses_owned [OF life_loss(3)] by (simp add: life_owned_def)
qed

lemma life_step_inv:
  assumes C: "cbor_format C" and X: "crypto_laws X" and K: "identity_crates_ok K"
    and step: "process_step C X K N P P'" and inv: "life_inv X K P"
  shows "life_inv X K P'"
  using inv unfolding life_inv_def [of X K P]
proof (elim disjE exE conjE)
  fix i I
  assume "life_owned X K i I P"
  from life_step_owned [OF C X step this] show ?thesis by (auto simp: life_inv_def)
next
  fix st
  assume P: "P = Stopped st" and fresh: "fresh_dir st"
  show ?thesis using step unfolding P
  proof cases
    case (life_start R random password S st' now)
    from first_server_start [OF X K life_start(2,3) fresh life_start(4)] show ?thesis
      unfolding life_start(1) life_inv_def by (auto intro: started_owned [OF C])
  next
    case (life_refused R random password e st')
    from first_server_start [OF X K life_refused(2,3) fresh life_refused(4)] show ?thesis
      unfolding life_refused(1) life_inv_def life_owned_def by auto
  next
    case (life_cut path n contents)
    have "fresh_dir (put_file path (take n contents) st)"
      by (rule fresh_files [OF fresh]) (use life_cut(2) in \<open>auto simp: put_file_def update_conv'\<close>)
    then show ?thesis unfolding life_cut(1) life_inv_def by blast
  qed
qed

locale service_laws = cbor_format C for C +
  fixes X :: crypto and K :: identity_crates
  assumes crypto: "crypto_laws X" and crates: "identity_crates_ok K"

sublocale service_laws \<subseteq> life: relative_invariant "process_step C X K N" "life_inv X K" "life_owned X K i I" for N i I
  by unfold_locales (blast intro: life_step_inv life_step_owned cbor_format_axioms crypto crates)+

interpretation sample_life: service_laws rfc_cbor plain_crypto sample_crates
  by unfold_locales (rule plain_crypto_laws sample_crates_ok)+

lemma service_lawsI: "cbor_format C \<Longrightarrow> crypto_laws X \<Longrightarrow> identity_crates_ok K \<Longrightarrow> service_laws C X K"
  by (intro service_laws.intro service_laws_axioms.intro)

context service_laws begin

lemma life_keeps_owned:
  assumes steps: "(process_step C X K N)\<^sup>*\<^sup>* P P'" and own: "life_owned X K i I P"
  shows "life_owned X K i I P'"
proof -
  have "life_inv X K P" using own by (auto simp: life_inv_def)
  from life.steps_keep_both [OF steps this own] show ?thesis ..
qed

lemma life_from_blank:
  assumes "(process_step C X K N)\<^sup>*\<^sup>* (Stopped blank_store) P"
  shows "life_inv X K P"
  by (rule life.steps_keep [OF assms]) (auto simp: life_inv_def intro: fresh_blank)

lemma life_cases:
  assumes "(process_step C X K N)\<^sup>*\<^sup>* (Stopped blank_store) P"
  obtains (fresh) st where "P = Stopped st" "fresh_dir st" | (owned) i I where "life_owned X K i I P"
  using life_from_blank [OF assms] by (auto simp: life_inv_def)

end

end
