(* ===== verification/Process_Life_Correct.thy ===== *)
theory Process_Life_Correct
  imports Process_Life
begin

text \<open>
  What holds for the life of a data directory: the constraints of the schema, one identity, and that what
  was stored stays stored.
\<close>

section \<open>The schema for life\<close>

text \<open>
  C8. The tables never violate a constraint of the schema, whatever happens to a data directory that began empty:
  starts, refused starts and service with requests in any interleaving, cut off anywhere by a power loss. Keys are
  unique, references resolve, lengths and ranges hold, so no insert or update of the program is refused by
  the database.
\<close>

theorem schema_for_life:
  assumes "cbor_format C" and "crypto_laws X" and "identity_crates_ok K"
    and "(process_step C X K N)\<^sup>*\<^sup>* (Stopped blank_store) P"
  shows "schema_ok (disk P)"
proof -
  consider (fresh) st where "P = Stopped st" "fresh_dir st" | (owned) i I where "life_owned X K i I P"
    using service_laws.life_cases [OF service_lawsI [OF assms(1-3)] assms(4)] by blast
  then show ?thesis
  proof cases
    case (fresh st)
    then show ?thesis using fresh_schema by simp
  next
    case (owned i I)
    then show ?thesis using schema_okI by (auto simp: life_owned_def owned_def)
  qed
qed

lemma sample_life:
  "\<exists>S :: nat server. process_step rfc_cbor plain_crypto sample_crates N (Stopped blank_store)
     (Serving \<lparr>sy_now = 0, sy_server = S, sy_pending = [], sy_jobs = []\<rparr>)"
proof -
  obtain S :: "nat server" and st where "server_initialize rfc_cbor plain_crypto sample_crates (Some (pad 32 [5]))
      sample_random [1] blank_store = (Inr S, st)" using sample_server_start by blast
  then have "process_step rfc_cbor plain_crypto sample_crates N (Stopped blank_store)
      (Serving \<lparr>sy_now = 0, sy_server = S, sy_pending = [], sy_jobs = []\<rparr>)"
    by (rule life_start [OF sample_random_wf, rotated]) simp
  then show ?thesis by blast
qed

theorem schema_for_life_witness:
  "\<exists>S :: nat server. process_step rfc_cbor plain_crypto sample_crates (undefined :: (nat, nat) snow) (Stopped blank_store)
     (Serving \<lparr>sy_now = 0, sy_server = S, sy_pending = [], sy_jobs = []\<rparr>) \<and> schema_ok (ap_storage (sv_application S))"
proof -
  let ?N = "undefined :: (nat, nat) snow"
  obtain S :: "nat server" where s: "process_step rfc_cbor plain_crypto sample_crates ?N (Stopped blank_store)
     (Serving \<lparr>sy_now = 0, sy_server = S, sy_pending = [], sy_jobs = []\<rparr>)" using sample_life by blast
  have "process_step rfc_cbor plain_crypto sample_crates ?N (Serving \<lparr>sy_now = 0, sy_server = S, sy_pending = [], sy_jobs = []\<rparr>)
      (Stopped (ap_storage (sv_application S)))" by (intro life_loss) simp
  with s have "(process_step rfc_cbor plain_crypto sample_crates ?N)\<^sup>*\<^sup>* (Stopped blank_store)
      (Stopped (ap_storage (sv_application S)))" by (blast intro: rtranclp.rtrancl_into_rtrancl)
  from schema_for_life [OF rfc.cbor_format_axioms plain_crypto_laws sample_crates_ok this] s show ?thesis by auto
qed

section \<open>One identity for life\<close>

lemma opens_owned:
  "opens_with X I password k \<Longrightarrow> owned X K i I st \<Longrightarrow> owned X K i (I\<lparr>is_authentication_key := k\<rparr>) st"
  by (simp add: owned_def identified_def opens_with_def)

lemma any_start:
  assumes X: "crypto_laws X" and K: "identity_crates_ok K" and R: "wf_random R" "\<forall>k. random = Some k \<longrightarrow> length k = 32"
    and inv: "life_inv X K (Stopped st)" and run: "server_initialize C X K random R password st = (Inr S, st')"
  obtains i I where "owned X K i I st'" "opens_with X I password (is_authentication_key I)" "app_state_new C i I st' = Some S"
  using inv unfolding life_inv_def
proof (elim disjE exE conjE)
  fix st1
  assume "Stopped st = Stopped st1" and "fresh_dir st1"
  with first_server_start [OF X K R _ run] that show thesis by auto
next
  fix i I
  assume "life_owned X K i I (Stopped st)"
  then have "owned X K i I st" by (simp add: life_owned_def)
  from later_start [OF X this run] obtain k where own: "owned X K i I st'" and k: "opens_with X I password k"
    and new: "app_state_new C i (I\<lparr>is_authentication_key := k\<rparr>) st' = Some S" by blast
  have "opens_with X (I\<lparr>is_authentication_key := k\<rparr>) password k" using k by (simp add: opens_with_def)
  with that [OF opens_owned [OF k own]] new show thesis by simp
qed

text \<open>
  C7. One configuration file gives one server, for the life of the data directory. Take any directory with a past, and a
  process that comes to serving on it. Whatever happens afterwards - service, stops, power losses, starts
  with this or another configuration - the next start with the same files and arguments succeeds with the same
  key pair, fingerprint, bootstrap document and start-up lines, and with the devices, commits, blobs, files and heads
  the directory holds.
\<close>

theorem restarts_for_life:
  fixes L :: "('a, 't) learning_loop_server"
  assumes "cbor_format C" and "crypto_laws X" and "identity_crates_ok K"
    and past: "(process_step C X K N)\<^sup>*\<^sup>* (Stopped blank_store) (Stopped st0)"
    and "wf_random R" and "\<forall>k. random = Some k \<longrightarrow> length k = 32"
    and run: "server_main C X K canonical random R files arguments st0 = (Inr L, st)"
    and later: "(process_step C X K N)\<^sup>*\<^sup>* (Serving \<lparr>sy_now = now, sy_server = ll_state L, sy_pending = [], sy_jobs = []\<rparr>) P"
  shows "\<exists>L' st'. server_main C X K canonical random' R' files arguments (disk P) = (Inr (L' :: ('a, 't) learning_loop_server), st') \<and>
    print_startup a b L' = print_startup a b L \<and> sv_config (ll_state L') = sv_config (ll_state L) \<and>
    sv_bootstrap (ll_state L') = sv_bootstrap (ll_state L) \<and> service_inv X st' \<and>
    st_devices st' = st_devices (disk P) \<and> st_commits st' = st_commits (disk P) \<and>
    st_blobs st' = st_blobs (disk P) \<and> st_files st' = st_files (disk P) \<and> storage_heads st' = storage_heads (disk P)"
proof -
  note laws = service_lawsI [OF assms(1-3)]
  obtain path where path: "config_path arguments = (Inr path :: 'a main_error + ustr)"
    using run by (cases "config_path arguments :: 'a main_error + ustr") (auto simp: server_main_def)
  obtain config where c: "config_load (files path) = Inr config"
    using run path by (cases "config_load (files path)") (auto simp: server_main_def)
  let ?pw = "utf8_encode (sg_password config)"
  obtain S :: "'t server" where S: "server_initialize C X K random R ?pw st0 = (Inr S, st)"
    and L: "L = \<lparr>ll_state = S, ll_listen = sg_listen config,
      ll_data_dir = (case canonical (sg_data_dir config) of Some d \<Rightarrow> d | None \<Rightarrow> sg_data_dir config),
      ll_fingerprint = cf_fingerprint (sv_config S), ll_permission_warning = sg_permission_warning config\<rparr>"
    using run path c by (auto simp: server_main_def initialize_server_def map_err_Inr_iff rmap_Inr_iff split: prod.splits)
  obtain i I where own: "owned X K i I st" and opens: "opens_with X I ?pw (is_authentication_key I)"
    and new: "app_state_new C i I st = Some S"
    by (rule any_start [OF assms(2,3,5,6) service_laws.life_from_blank [OF laws past] S])
  have "life_owned X K i I (Serving \<lparr>sy_now = now, sy_server = ll_state L, sy_pending = [], sy_jobs = []\<rparr>)"
    using started_owned [OF assms(1) own new] by (simp add: L)
  then have "owned X K i I (disk P)"
    using service_laws.life_keeps_owned [OF laws later] by (simp add: life_owned_def)
  note o = ownedD [OF this]
  have key: "derive_server_auth_key X ?pw (is_authentication_salt I) (is_argon2_policy I) = Inr (is_authentication_key I)"
    using opens by (simp add: opens_with_def)
  obtain S' :: "'t server" and st' where S': "server_initialize C X K random' R' ?pw (disk P) = (Inr S', st')"
      "sv_config S' = sv_config S" "sv_bootstrap S' = sv_bootstrap S" "service_inv X st'"
      "st_devices st' = st_devices (disk P)" "st_blobs st' = st_blobs (disk P)" "st_commits st' = st_commits (disk P)"
      "st_files st' = st_files (disk P)" "storage_heads st' = storage_heads (disk P)"
    using identified_restarts [OF assms(2) o(1-3) key new, where random = random' and R = R'] by auto
  have "server_main C X K canonical random' R' files arguments (disk P) = (Inr (L\<lparr>ll_state := S'\<rparr>), st')"
    using path c S'(1,2) by (simp add: server_main_def initialize_server_def L)
  with S' L show ?thesis by (auto simp: print_startup_def)
qed

text \<open>A start cut off after the private key, a start that completes it, a power loss, and the same files again.\<close>

theorem restarts_for_life_witness:
  "\<exists>(L :: (unit, nat) learning_loop_server) st L' st'.
    server_main rfc_cbor plain_crypto sample_crates Some None sample_random (\<lambda>_. sample_config_env) []
      (put_file PRIVATE_KEY_FILE (pad 32 [5]) blank_store) = (Inr L, st) \<and>
    server_main rfc_cbor plain_crypto sample_crates Some None
      \<lparr>rn_storage_key = None, rn_instance_id = None, rn_vault_id = None, rn_salt = None\<rparr> (\<lambda>_. sample_config_env) []
      (ap_storage (sv_application (ll_state L))) = (Inr (L' :: (unit, nat) learning_loop_server), st') \<and>
    sv_config (ll_state L') = sv_config (ll_state L)"
proof -
  let ?N = "undefined :: (nat, nat) snow" and ?st0 = "put_file PRIVATE_KEY_FILE (pad 32 [5]) blank_store"
  have "process_step rfc_cbor plain_crypto sample_crates ?N (Stopped blank_store)
      (Stopped (put_file PRIVATE_KEY_FILE (take 32 (pad 32 [5])) blank_store))"
    by (rule life_cut) (simp_all add: key_files_def blank_store_def)
  then have past: "(process_step rfc_cbor plain_crypto sample_crates ?N)\<^sup>*\<^sup>* (Stopped blank_store) (Stopped ?st0)" by simp
  have "load_password (ce_var sample_config_env) (replicate 16 112) = Inr (replicate 16 112)"
    by (simp add: sample_config_env_def load_password_def expand_password_def strip_prefix_def strip_suffix_def
        ascii_def numeral_eq_Suc)
  then have load: "config_load sample_config_env = Inr \<lparr>sg_data_dir = [100], sg_listen = (),
      sg_password = replicate 16 112, sg_permission_warning = True\<rparr>"
    by (simp add: config_load_def sample_config_env_def insecure_config_permissions_def)
  have "\<exists>(S :: nat server) st. server_initialize rfc_cbor plain_crypto sample_crates None sample_random
      (utf8_encode (replicate 16 112)) ?st0 = (Inr S, st)"
    by (simp add: server_initialize_def load_or_create_def identity_private_key_def identity_public_key_def read_exact_file_def
      write_new_file_def sample_crates_def sample_random_def PRIVATE_KEY_FILE_def PUBLIC_KEY_FILE_def
      STORAGE_KEY_FILE_def initialize_def ensure_storage_key_def blank_store_def initialize_transaction_def put_file_def
      validate_migration_version_def get_or_create_fixed_def load_or_create_policy_def get_or_create_u32_def
      check_verifier_def derive_server_auth_key_def get_meta_def set_meta_def repair_heads_def Let_def SERVER_DEFAULT_def
      app_state_new_def new_server_def encode_bootstrap_def argon2_def plain_crypto_def)
  then obtain S :: "nat server" and st where s: "server_initialize rfc_cbor plain_crypto sample_crates None sample_random
      (utf8_encode (replicate 16 112)) ?st0 = (Inr S, st)" by blast
  obtain L :: "(unit, nat) learning_loop_server" where l: "server_main rfc_cbor plain_crypto sample_crates Some None
      sample_random (\<lambda>_. sample_config_env) [] ?st0 = (Inr L, st)"
    using s load by (simp add: server_main_def config_path_def initialize_server_def)
  let ?Y = "\<lparr>sy_now = 7, sy_server = ll_state L, sy_pending = [], sy_jobs = []\<rparr>"
  have "(process_step rfc_cbor plain_crypto sample_crates ?N)\<^sup>*\<^sup>* (Serving ?Y) (Stopped (store_of ?Y))"
    by (intro r_into_rtranclp life_loss rtranclp.rtrancl_refl)
  from restarts_for_life [OF rfc.cbor_format_axioms plain_crypto_laws sample_crates_ok past sample_random_wf _ l this]
  obtain L' :: "(unit, nat) learning_loop_server" and st' where
    "server_main rfc_cbor plain_crypto sample_crates Some None
      \<lparr>rn_storage_key = None, rn_instance_id = None, rn_vault_id = None, rn_salt = None\<rparr> (\<lambda>_. sample_config_env) []
      (ap_storage (sv_application (ll_state L))) = (Inr L', st')"
    "sv_config (ll_state L') = sv_config (ll_state L)" by fastforce
  with l show ?thesis by blast
qed

section \<open>What was stored stays\<close>

definition retains :: "storage \<Rightarrow> storage \<Rightarrow> bool" where
  "retains st st' \<longleftrightarrow> (\<forall>h c. file_at st (object_path h) = Some c \<longrightarrow> file_at st' (object_path h) = Some c) \<and>
     set (st_blobs st) \<subseteq> set (st_blobs st') \<and> set (st_commits st) \<subseteq> set (st_commits st')"

lemma retains_refl [simp]: "retains st st"
  by (simp add: retains_def)

lemma retains_trans: "retains st st1 \<Longrightarrow> retains st1 st2 \<Longrightarrow> retains st st2"
  unfolding retains_def by blast

lemma retains_blob:
  assumes "blob_step X st st'" and "st_commits st' = st_commits st"
  shows "retains st st'"
  using blobs_immutable [OF assms(1)] assms(2) by (simp add: retains_def)

lemma accept_commit_rows:
  assumes "accept_commit now d commit rec st = (res, st')"
  shows "set (st_commits st) \<subseteq> set (st_commits st')"
  using accept_commit_cases [OF assms]
proof (elim disjE exE conjE)
  fix c hs
  assume tr: "accept_transaction now d commit rec st = (Inr (c, hs), st')"
  show ?thesis
  proof (cases "find (\<lambda>r. co_commit_id r = sc_commit_id commit) (st_commits st)")
    case None
    show ?thesis by (rule accept_transaction_new [OF tr None]) (auto simp: insert_commit_rows_def)
  next
    case (Some row)
    from accept_transaction_known [OF tr Some] show ?thesis by simp
  qed
qed simp

lemma blob_frame_commits: "blob_frame st st' \<Longrightarrow> st_commits st' = st_commits st"
  by (simp add: blob_frame_def same_commits_def)

lemma storage_step_retains:
  assumes "storage_step C X st st'"
  shows "retains st st'"
  using assms
proof cases
  case (does_register now i k n q)
  from register_device_fields [OF does_register(1)] show ?thesis by (simp add: retains_def)
next
  case (does_revoke now i q)
  from revoke_device_fields [OF does_revoke] show ?thesis by (simp add: retains_def)
next
  case (does_begin f u now d n h q)
  then have "blob_step X st st'" by (rule step_begin)
  then show ?thesis by (rule retains_blob) (rule blob_frame_commits [OF begin_upload_frame [OF does_begin(1)]])
next
  case (does_append d u offset chunk q)
  then have "blob_step X st st'" by (rule step_append)
  then show ?thesis by (rule retains_blob) (rule blob_frame_commits [OF append_upload_chunk_frame [OF does_append]])
next
  case (does_commit now d u q)
  then have "blob_step X st st'" by (rule step_commit)
  then show ?thesis by (rule retains_blob) (rule blob_frame_commits [OF commit_upload_frame [OF does_commit]])
next
  case (does_accept now d c rec q)
  from accept_commit_frame [OF does_accept(1)] accept_commit_rows [OF does_accept(1)] show ?thesis
    by (simp add: retains_def commit_frame_def)
next
  case (does_envelope e q)
  from put_envelope_fields [OF does_envelope] show ?thesis by (auto simp: retains_def set_meta_def)
qed

lemma power_loss_retains:
  assumes loss: "power_loss X st st'"
  shows "retains st st'"
proof (rule retains_blob [OF step_crash [OF loss]])
  show "st_commits st' = st_commits st" using loss
  proof cases
    case (loss_unlink u d rec st1 now h st2)
    then show ?thesis
      using blob_frame_commits [OF publish_file_frame] blob_frame_commits [OF record_blob_frame] by simp
  next
    case (loss_begin u)
    then show ?thesis by (simp only: put_file_def) simp
  qed (auto dest: blob_frame_commits [OF append_file_frame] blob_frame_commits [OF publish_file_frame])
qed

lemma power_losses_retain: "(power_loss X)\<^sup>*\<^sup>* st st' \<Longrightarrow> retains st st'"
  by (induction rule: rtranclp_induct) (auto intro: retains_trans power_loss_retains)

lemma life_step_retains:
  assumes C: "cbor_format C" and X: "crypto_laws X" and K: "identity_crates_ok K"
    and inv: "life_inv X K P" and step: "process_step C X K N P P'"
  shows "retains (disk P) (disk P')"
proof -
  have start: "retains st st'" if P: "P = Stopped st" and "wf_random R" "\<forall>k. random = Some k \<longrightarrow> length k = 32"
      and run: "server_initialize C X K random R password st = (r :: server_error + 'c server, st')" for st R random password r st'
    using inv unfolding P life_inv_def
  proof (elim disjE exE conjE)
    fix st1
    assume "Stopped st = Stopped st1" "fresh_dir st1"
    then show ?thesis by (simp add: retains_def fresh_dir_def)
  next
    fix i I
    assume "life_owned X K i I (Stopped st)"
    then have "owned X K i I st" by (simp add: life_owned_def)
    from later_start [OF X this run] show ?thesis by (auto simp: retains_def) (simp_all add: repair_heads_def Let_def)
  qed
  show ?thesis using step
  proof cases
    case (life_serve Y Y')
    then have "system_inv X Y" using inv by (auto simp: life_inv_def life_owned_def)
    from system_step_store [OF C this life_serve(3)] storage_step_retains life_serve(1,2) show ?thesis by auto
  next
    case (life_cut path st n contents)
    then show ?thesis by (auto simp: retains_def) (simp_all add: put_file_def)
  next
    case (life_loss Y st)
    then show ?thesis using power_losses_retain by simp
  next
    case (life_start R random password st S st' now)
    from start [OF life_start(1,3,4,5)] started_disk [OF life_start(5)] show ?thesis by (simp add: life_start(1,2))
  next
    case (life_refused R random password st e st')
    from start [OF life_refused(1,3,4,5)] show ?thesis by (simp add: life_refused(1,2))
  qed simp
qed

context service_laws begin

lemma life_retains:
  assumes steps: "(process_step C X K N)\<^sup>*\<^sup>* P P'" and inv: "life_inv X K P"
  shows "life_inv X K P' \<and> retains (disk P) (disk P')"
  using steps
proof (induction rule: rtranclp_induct)
  case (step P1 P2)
  then have i: "life_inv X K P1" by blast
  with step life.step_keeps [OF step(2) i] life_step_retains [OF cbor_format_axioms crypto crates i step(2)]
  show ?case using retains_trans by blast
qed (use inv in simp)

end

lemma life_tables:
  assumes "life_inv X K P"
  shows "distinct (map bl_blob_id (st_blobs (disk P))) \<and> distinct (map co_commit_id (st_commits (disk P)))"
  using assms unfolding life_inv_def
proof (elim disjE exE conjE)
  fix i I
  assume "life_owned X K i I P"
  then have "schema_ok (disk P)" using schema_okI by (auto simp: life_owned_def owned_def)
  then show ?thesis by (simp add: schema_ok_def blobs_table_def commits_table_def)
qed (simp add: fresh_dir_def)

text \<open>A blob is a row and its file, so what could be read can be read.\<close>

lemma retained_chunk:
  assumes keep: "retains st st'" and d: "distinct (map bl_blob_id (st_blobs st'))"
    and read: "read_blob_chunk st h offset maximum = Inr r"
  shows "read_blob_chunk st' h offset maximum = Inr r"
proof -
  from read obtain b where b: "find (\<lambda>b. bl_blob_id b = h) (st_blobs st) = Some b"
    by (auto simp: read_blob_chunk_def split: if_splits option.splits)
  then have m: "b \<in> set (st_blobs st)" "bl_blob_id b = h" by (auto dest: find_Some_iff_mem)
  with keep have "b \<in> set (st_blobs st')" by (auto simp: retains_def)
  from find_distinct_key [OF d this] have b': "find (\<lambda>b. bl_blob_id b = h) (st_blobs st') = Some b" by (simp add: m(2))
  obtain c where c: "file_at st (object_path h) = Some c"
    using read b by (auto simp: read_blob_chunk_def Let_def split: if_splits option.splits)
  with keep have "file_at st' (object_path h) = Some c" by (simp add: retains_def)
  with c b b' read show ?thesis by (auto simp: read_blob_chunk_def Let_def split: if_splits)
qed

lemma retained_commit:
  assumes keep: "retains st st'" and d: "distinct (map co_commit_id (st_commits st'))"
    and v: "st_vault_id st' = st_vault_id st" and got: "get_commit st c = Inr rec"
  shows "get_commit st' c = Inr rec"
proof -
  let ?hit = "\<lambda>r. co_vault_id r = st_vault_id st \<and> co_commit_id r = c"
  from got obtain r where r: "find ?hit (st_commits st) = Some r" "co_signed_record r = rec"
    by (auto simp: get_commit_def commit_row_of_def ok_or_Inr_iff)
  from find_Some_iff_mem [OF r(1)] have m: "r \<in> set (st_commits st)" "?hit r" by auto
  with keep have m': "r \<in> set (st_commits st')" by (auto simp: retains_def)
  obtain r' where r': "find ?hit (st_commits st') = Some r'" using m m' by (metis (mono_tags, lifting) find_None_iff not_None_eq)
  from find_Some_iff_mem [OF r'] m m' d have "r' = r" by (auto simp: distinct_map inj_on_def)
  with r r' v show ?thesis by (simp add: get_commit_def commit_row_of_def)
qed

text \<open>
  C16. What was stored stays stored. In the life of a data directory - the invariant \<open>life_inv\<close> holds of every life that
  began on an empty one - a blob range or a commit that can be read can be read for ever, with the same
  bytes: across other requests, dropped requests whose storage job takes effect later or never, stops, refused and
  successful starts and power losses with any number of jobs under way. A request or a job is one step. Excluded are
  thus jobs of dropped requests that overlap in time with other operations on the same upload: there the program can
  fail, an append that outlived its request holds the open file and can overwrite it after it was published under its
  hash (the finding on blob.rs).
\<close>

theorem stored_for_life:
  assumes "cbor_format C" and "crypto_laws X" and "identity_crates_ok K"
    and inv: "life_inv X K P" and steps: "(process_step C X K N)\<^sup>*\<^sup>* P P'"
  shows "(read_blob_chunk (disk P) h offset maximum = Inr r \<longrightarrow> read_blob_chunk (disk P') h offset maximum = Inr r) \<and>
    (get_commit (disk P) c = Inr rec \<longrightarrow> get_commit (disk P') c = Inr rec)"
proof -
  note laws = service_lawsI [OF assms(1-3)]
  have keep: "life_inv X K P'" "retains (disk P) (disk P')" using service_laws.life_retains [OF laws steps inv] by blast+
  note tables = life_tables [OF keep(1)]
  have "get_commit (disk P') c = Inr rec" if got: "get_commit (disk P) c = Inr rec"
    using inv unfolding life_inv_def
  proof (elim disjE exE conjE)
    fix st
    assume "P = Stopped st" "fresh_dir st"
    with got show ?thesis by (simp add: get_commit_def commit_row_of_def fresh_dir_def)
  next
    fix i I
    assume own: "life_owned X K i I P"
    with service_laws.life_keeps_owned [OF laws steps own] have "st_vault_id (disk P') = st_vault_id (disk P)"
      by (simp add: life_owned_def owned_def identified_def)
    from retained_commit [OF keep(2) _ this got] tables show ?thesis by blast
  qed
  then show ?thesis using retained_chunk [OF keep(2)] tables by blast
qed

text \<open>A started directory with one blob.\<close>

definition one_blob_dir :: "storage \<Rightarrow> storage" where
  "one_blob_dir st = (put_file (object_path (pad 32 [5, 6, 7])) [5, 6, 7] st)\<lparr>st_blobs :=
     [\<lparr>bl_blob_id = pad 32 [5, 6, 7], bl_ciphertext_size = 3, bl_created_at = 0\<rparr>]\<rparr>"

lemma one_blob_owned:
  assumes "owned plain_crypto K i I st" and "st_blobs st = []" "st_uploads st = []"
  shows "owned plain_crypto K i I (one_blob_dir st)"
proof -
  note o = ownedD [OF assms(1)]
  let ?st = "one_blob_dir st"
  have f: "blob_frame st ?st" by (simp add: one_blob_dir_def frame_defs)
  have k: "key_kept st ?st" by (simp add: one_blob_dir_def put_file_def update_conv')
  have b: "blobs_inv plain_crypto ?st"
    using blobs_invD(1) [OF service_invD(1) [OF o(3)]] assms(2,3)
    by (auto simp: blobs_inv_def blob_ok_def uploads_ok_def one_blob_dir_def put_file_def update_conv' plain_crypto_def)
  have "schema_rest ?st"
    using o(4) assms(2,3) by (simp add: schema_rest_def metadata_table_def one_blob_dir_def put_file_def)
  with o b f blob_frame_identity [OF f k] show ?thesis
    using has_identity_kept identified_kept service_inv_blob unfolding owned_def by blast
qed

theorem stored_for_life_witness:
  "\<exists>(S :: nat server) st (S' :: nat server). server_initialize rfc_cbor plain_crypto sample_crates (Some (pad 32 [5]))
     sample_random [1] blank_store = (Inr S, st) \<and>
   process_step rfc_cbor plain_crypto sample_crates (undefined :: (nat, nat) snow) (Stopped (one_blob_dir st))
     (Serving \<lparr>sy_now = 9, sy_server = S', sy_pending = [], sy_jobs = []\<rparr>) \<and>
   read_blob_chunk (ap_storage (sv_application S')) (pad 32 [5, 6, 7]) 1 10 = Inr (3, True, [6, 7])"
proof -
  let ?N = "undefined :: (nat, nat) snow"
  obtain S :: "nat server" and st where s: "server_initialize rfc_cbor plain_crypto sample_crates (Some (pad 32 [5]))
      sample_random [1] blank_store = (Inr S, st)" "st_blobs st = []" "st_uploads st = []"
    using sample_server_start by blast
  have R: "\<forall>k. Some (pad 32 [5]) = Some k \<longrightarrow> length k = 32" by simp
  have blank: "life_inv plain_crypto sample_crates (Stopped blank_store :: nat process)"
    by (auto simp: life_inv_def intro: fresh_blank)
  obtain i I where own: "owned plain_crypto sample_crates i I st"
    and o: "opens_with plain_crypto I [1] (is_authentication_key I)" and new: "app_state_new rfc_cbor i I st = Some S"
    by (rule any_start [OF plain_crypto_laws sample_crates_ok sample_random_wf R blank s(1)])
  note own1 = one_blob_owned [OF own s(2,3)]
  have key: "derive_server_auth_key plain_crypto [1] (is_authentication_salt I) (is_argon2_policy I) = Inr (is_authentication_key I)"
    using o by (simp add: opens_with_def)
  obtain S' :: "nat server" and st' where s': "server_initialize rfc_cbor plain_crypto sample_crates (Some (pad 32 [5]))
      sample_random [1] (one_blob_dir st) = (Inr S', st')"
    using identified_restarts [OF plain_crypto_laws ownedD(1-3) [OF own1] key new, where R = sample_random] by blast
  let ?Y = "\<lparr>sy_now = 9, sy_server = S', sy_pending = [], sy_jobs = []\<rparr>"
  have step: "process_step rfc_cbor plain_crypto sample_crates ?N (Stopped (one_blob_dir st)) (Serving ?Y)"
    by (rule life_start [OF sample_random_wf R s'])
  have inv: "life_inv plain_crypto sample_crates (Stopped (one_blob_dir st) :: nat process)"
    using own1 by (auto simp: life_inv_def life_owned_def)
  have "read_blob_chunk (one_blob_dir st) (pad 32 [5, 6, 7]) 1 10 = Inr (3, True, [6, 7])"
    by (simp add: one_blob_dir_def read_blob_chunk_def MAX_CHUNK_BYTES_def)
  with stored_for_life [OF rfc.cbor_format_axioms plain_crypto_laws sample_crates_ok inv r_into_rtranclp, OF step]
  have "read_blob_chunk (store_of ?Y) (pad 32 [5, 6, 7]) 1 10 = Inr (3, True, [6, 7])" by simp
  with s(1) step show ?thesis by auto
qed

end
