(* ===== verification/Chunk_Reassembly.thy ===== *)
theory Chunk_Reassembly
  imports Application_Correct Message_Sizes
begin

text \<open>
  The reassembly of a blob from the chunk responses of a server (\<open>fuzz/fuzz_targets/chunk_reassembly.rs\<close>), over an
  input of messages with two-byte lengths: what it accumulates on any input, and that the chunks
  this server serves for a blob add up to the blob.
\<close>

section \<open>The loop\<close>

record reassembly =
  ra_expected :: u64
  ra_declared :: "u64 option"
  ra_assembled :: bytes

definition reassembly_start :: reassembly where
  "reassembly_start = \<lparr>ra_expected = 0, ra_declared = None, ra_assembled = []\<rparr>"

text \<open>One chunk; the flag says whether the loop goes on.\<close>

definition reassemble_chunk :: "u64 \<Rightarrow> u64 \<Rightarrow> bool \<Rightarrow> bytes \<Rightarrow> reassembly \<Rightarrow> bool \<times> reassembly" where
  "reassemble_chunk offset total_size complete chunk r =
     (if offset \<noteq> ra_expected r \<or> length chunk > MAX_CHUNK_BYTES
         \<or> (case ra_declared r of None \<Rightarrow> False | Some known \<Rightarrow> known \<noteq> total_size)
      then (False, r)
      else let r = r\<lparr>ra_declared := Some total_size\<rparr> in
        if unat (ra_expected r) + length chunk \<ge> 2 ^ 64 then (False, r)
        else let following = ra_expected r + of_nat (length chunk) in
          if following > total_size then (False, r)
          else (\<not> complete \<and> chunk \<noteq> [],
            r\<lparr>ra_assembled := ra_assembled r @ chunk, ra_expected := following\<rparr>))"

definition reassemble_candidate :: "cbor \<Rightarrow> bytes \<Rightarrow> reassembly \<Rightarrow> bool \<times> reassembly" where
  "reassemble_candidate C candidate r =
     (case decode_server_message C candidate of
        Inl _ \<Rightarrow> (True, r)
      | Inr m \<Rightarrow>
          (case sm_response m of
             BlobChunk offset total_size complete chunk \<Rightarrow> reassemble_chunk offset total_size complete chunk r
           | _ \<Rightarrow> (True, r)))"

text \<open>A length beyond the end of the data is cut to it.\<close>

function reassemble :: "cbor \<Rightarrow> bytes \<Rightarrow> reassembly \<Rightarrow> reassembly" where
  "reassemble C data r =
     (if length data < 2 then r
      else let len = be_nat (take 2 data);
               (continues, r) = reassemble_candidate C (take len (drop 2 data)) r in
        if continues then reassemble C (drop (2 + len) data) r else r)"
  by pat_completeness auto
termination by (relation "measure (\<lambda>(C, data, r). length data)") auto

declare reassemble.simps [simp del]

section \<open>Any input\<close>

text \<open>
  On any input the assembled bytes are as many as the offset the next chunk is expected at,
  and no more than the total the chunks declare.
\<close>

definition reassembly_ok :: "reassembly \<Rightarrow> bool" where
  "reassembly_ok r \<longleftrightarrow> length (ra_assembled r) = unat (ra_expected r) \<and>
     (ra_declared r = None \<longrightarrow> ra_assembled r = []) \<and> (\<forall>t. ra_declared r = Some t \<longrightarrow> ra_expected r \<le> t)"

lemma reassemble_chunk_ok:
  assumes "reassembly_ok r" and "reassemble_chunk offset n complete chunk r = (go, r')"
  shows "reassembly_ok r' \<and> (\<forall>t. ra_declared r = Some t \<longrightarrow> ra_declared r' = Some t)"
proof -
  have len: "unat (ra_expected r + of_nat (length chunk)) = unat (ra_expected r) + length chunk"
    if "unat (ra_expected r) + length chunk < 2 ^ 64"
    using that by (simp add: unat_word_ariths unat_of_nat take_bit_eq_mod)
  show ?thesis
    using assms len
    by (auto simp: reassemble_chunk_def reassembly_ok_def Let_def not_le not_less word_le_nat_alt
        split: if_splits option.splits)
qed

lemma reassemble_candidate_ok:
  assumes "reassembly_ok r" and "reassemble_candidate C candidate r = (go, r')"
  shows "reassembly_ok r' \<and> (\<forall>t. ra_declared r = Some t \<longrightarrow> ra_declared r' = Some t)"
  using assms reassemble_chunk_ok
  by (auto simp: reassemble_candidate_def split: sum.splits response.splits)

lemma reassemble_ok:
  "reassembly_ok r \<Longrightarrow> reassembly_ok (reassemble C data r) \<and>
     (\<forall>t. ra_declared r = Some t \<longrightarrow> ra_declared (reassemble C data r) = Some t)"
proof (induction C data r rule: reassemble.induct)
  case (1 C data r)
  show ?case
  proof (cases "length data < 2")
    case False
    obtain go r' where c: "reassemble_candidate C (take (be_nat (take 2 data)) (drop 2 data)) r = (go, r')" by fastforce
    note keep = reassemble_candidate_ok [OF 1(2) c]
    show ?thesis
    proof (cases go)
      case True
      with 1(1) [OF False refl c [symmetric] refl] keep False c show ?thesis
        by (subst (1 2) reassemble.simps) (simp add: Let_def)
    next
      case stop: False
      with keep False c show ?thesis by (subst (1 2) reassemble.simps) (simp add: Let_def)
    qed
  qed (use 1(2) in \<open>simp add: reassemble.simps\<close>)
qed

section \<open>The chunks of this server\<close>

text \<open>A message with its length, as the input is laid out.\<close>

definition framed :: "cbor \<Rightarrow> server_message \<Rightarrow> bytes" where
  "framed C m = (case encode_server_message C m of Inl _ \<Rightarrow> [] | Inr b \<Rightarrow> be_bytes 2 (length b) @ b)"

context cbor_format begin

lemma chunk_message_size:
  assumes "encode_server_message C \<lparr>sm_sequence = q, sm_response = BlobChunk offset n complete chunk\<rparr> = Inr b"
  shows "length b \<le> 81 + length chunk"
proof -
  have "b = e_array C 3 @ e_u16 C PROTOCOL_VERSION @ e_u64 C q @ encode_response C (BlobChunk offset n complete chunk)"
    using assms by (simp add: encode_server_message_def)
  also have "length \<dots> \<le> 9 + (9 + (9 + (9 + (9 + (9 + (9 + (9 + (9 + length chunk))))))))"
    unfolding encode_response.simps by (intro size_rules)
  finally show ?thesis by simp
qed

lemma reassemble_framed:
  assumes short: "length chunk \<le> 65000"
    and step: "reassemble_chunk offset n complete chunk r = (go, r')"
  shows "reassemble C (framed C \<lparr>sm_sequence = q, sm_response = BlobChunk offset n complete chunk\<rparr> @ rest) r =
    (if go then reassemble C rest r' else r')"
proof -
  let ?m = "\<lparr>sm_sequence = q, sm_response = BlobChunk offset n complete chunk\<rparr>"
  obtain b where b: "encode_server_message C ?m = Inr b" by (simp add: encode_server_message_def)
  have dec: "decode_server_message C b = Inr ?m"
    using b short by (simp add: server_message_law MAX_CHUNK_BYTES_def)
  have "length b < 256 ^ 2" using chunk_message_size [OF b] short by simp
  then have "be_nat (be_bytes 2 (length b)) = length b" by (rule be_nat_be_bytes)
  then show ?thesis
    using step dec by (subst reassemble.simps) (simp add: framed_def b reassemble_candidate_def)
qed

end

text \<open>The state after the chunks before offset \<open>k\<close> of a content.\<close>

definition assembled_to :: "bytes \<Rightarrow> nat \<Rightarrow> reassembly" where
  "assembled_to c k = \<lparr>ra_expected = of_nat k, ra_declared = (if k = 0 then None else Some (of_nat (length c))),
     ra_assembled = take k c\<rparr>"

lemma u64_of_nat: "k < 2 ^ 64 \<Longrightarrow> unat (of_nat k :: u64) = k"
  by (simp add: unat_of_nat take_bit_eq_mod)

lemma reassemble_next:
  assumes "k \<le> length c" "length c < 2 ^ 63" "0 < m" "m \<le> 65000"
    and piece: "piece = take m (drop k c)" and "k = 0 \<or> k < length c"
  shows "reassemble_chunk (of_nat k) (of_nat (length c)) (k + length piece = length c) piece (assembled_to c k) =
    (k + length piece \<noteq> length c, \<lparr>ra_expected = of_nat (k + length piece), ra_declared = Some (of_nat (length c)),
       ra_assembled = take (k + length piece) c\<rparr>)"
proof -
  have len: "length piece = min m (length c - k)" by (simp add: piece)
  have sum: "k + length piece \<le> length c" using assms(1) len by simp
  have "(of_nat (k + length piece) :: u64) \<le> of_nat (length c)"
    using sum assms(2) by (simp add: word_le_nat_alt u64_of_nat del: of_nat_add)
  moreover have "unat (of_nat k :: u64) + length piece < 2 ^ 64"
    using sum assms(2) by (simp add: u64_of_nat)
  moreover have "take k c @ piece = take (k + length piece) c"
    using len by (simp add: piece take_add [symmetric] min_def)
  moreover have "length piece \<le> MAX_CHUNK_BYTES" using len assms(4) by (simp add: MAX_CHUNK_BYTES_def)
  moreover have "k + length piece \<noteq> length c \<Longrightarrow> piece \<noteq> []" using len assms(1,3) by auto
  ultimately show ?thesis
    by (auto simp: reassemble_chunk_def assembled_to_def Let_def not_le not_less)
qed

text \<open>What the server answers to the request for at most \<open>m\<close> bytes of a blob from offset \<open>k\<close>, as a framed message.\<close>

definition served_chunk :: "cbor \<Rightarrow> application \<Rightarrow> ('t, 'm) session_scheme \<Rightarrow> bytes \<Rightarrow> nat \<Rightarrow> u64 \<Rightarrow> nat \<Rightarrow> bytes" where
  "served_chunk C A s h m q k = framed C \<lparr>sm_sequence = q,
     sm_response = ar_response (fst (app_get_blob A s h (of_nat k) (of_nat m)))\<rparr>"

lemma served_response:
  assumes dev: "require_device A s = Inr d" and row: "find (\<lambda>b. bl_blob_id b = h) (st_blobs (ap_storage A)) = Some b"
    and c: "file_at (ap_storage A) (object_path h) = Some c" "length c = bl_ciphertext_size b" "length c < 2 ^ 63"
    and "0 < m" "m \<le> 65000" "k \<le> length c"
  shows "ar_response (fst (app_get_blob A s h (of_nat k) (of_nat m))) =
    BlobChunk (of_nat k) (of_nat (length c)) (k + length (take m (drop k c)) = length c) (take m (drop k c))"
proof -
  have u: "unat (of_nat k :: u64) = k" "unat (of_nat m :: u32) = m"
    using assms(5-8) by (simp_all add: unat_of_nat take_bit_eq_mod)
  have "take (min (length c - k) m) (drop k c) = take m (drop k c)" by (simp add: min_def)
  then have "read_blob_chunk (ap_storage A) h k m =
      Inr (length c, k + length (take m (drop k c)) = length c, take m (drop k c))"
    using row c assms(6-8) by (simp add: read_blob_chunk_def Let_def MAX_CHUNK_BYTES_def min.commute)
  then show ?thesis by (simp add: app_get_blob_def with_device_def dev from_storage_def success_def u)
qed

definition chunk_count :: "nat \<Rightarrow> nat \<Rightarrow> nat" where
  "chunk_count n m = max 1 ((n + m - 1) div m)"

lemma chunk_count:
  assumes "0 < m"
  shows "0 < chunk_count n m" "n \<le> chunk_count n m * m" "i < chunk_count n m \<Longrightarrow> i = 0 \<or> i * m < n"
proof -
  show "0 < chunk_count n m" by (simp add: chunk_count_def)
  have "n + m - 1 < ((n + m - 1) div m + 1) * m" using assms by (metis Suc_eq_plus1 dividend_less_div_times mult.commute mult_Suc)
  then have "n \<le> (n + m - 1) div m * m" using assms by simp
  also have "\<dots> \<le> chunk_count n m * m" by (simp add: chunk_count_def)
  finally show "n \<le> chunk_count n m * m" .
  assume "i < chunk_count n m"
  then have "i = 0 \<or> i + 1 \<le> (n + m - 1) div m" by (auto simp: chunk_count_def)
  moreover have "i * m < n" if "i + 1 \<le> (n + m - 1) div m"
  proof -
    have "(i + 1) * m \<le> n + m - 1" using that by (meson div_times_less_eq_dividend le_trans mult_le_mono1)
    then show ?thesis using assms by (cases n) auto
  qed
  ultimately show "i = 0 \<or> i * m < n" by blast
qed

context cbor_format begin

lemma reassemble_served:
  assumes dev: "require_device A s = Inr d" and row: "find (\<lambda>b. bl_blob_id b = h) (st_blobs (ap_storage A)) = Some b"
    and c: "file_at (ap_storage A) (object_path h) = Some c" "length c = bl_ciphertext_size b" "length c < 2 ^ 63"
    and m: "0 < m" "m \<le> 65000" and i: "i < chunk_count (length c) m"
  shows "reassemble C (concat (map (\<lambda>i. served_chunk C A s h m (q i) (i * m)) [i..<chunk_count (length c) m]))
    (assembled_to c (i * m)) = \<lparr>ra_expected = of_nat (length c), ra_declared = Some (of_nat (length c)), ra_assembled = c\<rparr>"
  using i
proof (induction "chunk_count (length c) m - i" arbitrary: i rule: less_induct)
  case less
  let ?n = "chunk_count (length c) m" and ?k = "i * m"
  let ?piece = "take m (drop ?k c)"
  have k: "?k = 0 \<or> ?k < length c" "?k \<le> length c" using chunk_count(3) [OF m(1) less(2)] by auto
  note response = served_response [OF dev row c m k(2)]
  note next_state = reassemble_next [OF k(2) c(3) m refl k(1)]
  have split: "[i..<?n] = i # [Suc i..<?n]" using less(2) by (simp add: upt_conv_Cons)
  have run: "reassemble C (concat (map (\<lambda>i. served_chunk C A s h m (q i) (i * m)) [i..<?n])) (assembled_to c ?k) =
      (if ?k + length ?piece \<noteq> length c
       then reassemble C (concat (map (\<lambda>i. served_chunk C A s h m (q i) (i * m)) [Suc i..<?n]))
         \<lparr>ra_expected = of_nat (?k + length ?piece), ra_declared = Some (of_nat (length c)), ra_assembled = take (?k + length ?piece) c\<rparr>
       else \<lparr>ra_expected = of_nat (?k + length ?piece), ra_declared = Some (of_nat (length c)), ra_assembled = take (?k + length ?piece) c\<rparr>)"
    unfolding split list.map concat.simps served_chunk_def response
    by (rule reassemble_framed [OF _ next_state]) (use m in simp)
  show ?case
  proof (cases "?k + length ?piece = length c")
    case True
    then show ?thesis by (simp add: run)
  next
    case False
    then have "?k + min (length c - ?k) m \<noteq> length c" by simp
    then have long: "m < length c - ?k" using k(2) by (cases "length c - ?k \<le> m") (simp_all add: min_def)
    then have full: "length ?piece = m" and k': "?k + m = Suc i * m" by simp_all
    have more: "Suc i < ?n"
    proof (rule ccontr)
      assume "\<not> Suc i < ?n"
      then have "?n = Suc i" using less(2) by simp
      with chunk_count(2) [OF m(1), of "length c"] long show False by simp
    qed
    have "\<lparr>ra_expected = of_nat (?k + m), ra_declared = Some (of_nat (length c)), ra_assembled = take (?k + m) c\<rparr> =
        assembled_to c (Suc i * m)"
      unfolding k' using m(1) by (simp add: assembled_to_def)
    with less(1) [OF _ more] less(2) False full show ?thesis by (simp add: run)
  qed
qed

end

text \<open>
  C33. A blob is reassembled from its chunks. For a device that may read, a recorded blob and any chunk size
  up to 65000 bytes, the responses of the server to the requests for the offsets 0, m, 2m, ... that
  cover the blob, as decoded messages, add up to exactly the bytes whose hash is the blob identifier,
  also for an empty blob, for which one request is enough.
\<close>

theorem served_blob_reassembled:
  assumes "cbor_format C" and inv: "blobs_inv X (ap_storage A)" and b: "b \<in> set (st_blobs (ap_storage A))"
    and "bl_ciphertext_size b < 2 ^ 63" and "require_device A s = Inr d" and "0 < m" "m \<le> 65000"
  shows "\<exists>content. blake3 X content = bl_blob_id b \<and> length content = bl_ciphertext_size b \<and>
    reassemble C (concat (map (\<lambda>i. served_chunk C A s (bl_blob_id b) m (q i) (i * m)) [0..<chunk_count (bl_ciphertext_size b) m]))
      reassembly_start =
    \<lparr>ra_expected = of_nat (length content), ra_declared = Some (of_nat (length content)), ra_assembled = content\<rparr>"
proof -
  obtain c where c: "file_at (ap_storage A) (object_path (bl_blob_id b)) = Some c" "length c = bl_ciphertext_size b"
    and id: "is_array 32 (bl_blob_id b)"
    using blobs_invD(2) [OF inv b] by (auto simp: blob_ok_def)
  have start: "reassembly_start = assembled_to c (0 * m)" by (simp add: reassembly_start_def assembled_to_def)
  have "length c < 2 ^ 63" using c(2) assms(4) by simp
  from cbor_format.reassemble_served [OF assms(1,5) find_blob [OF inv b] c this assms(6,7) chunk_count(1) [OF assms(6)]]
  show ?thesis using blobs_invD(1) [OF inv id c(1)] c(2) unfolding start by auto
qed

definition reader_device :: device_row where
  "reader_device = \<lparr>dv_device_id = pad 16 [1], dv_public_key = pad 32 [2], dv_encrypted_name = [3],
     dv_registered_at = 0, dv_revoked_at = None\<rparr>"

definition sample_holder :: application where
  "sample_holder = \<lparr>ap_storage = one_blob_store\<lparr>st_devices := [reader_device]\<rparr>, ap_authentication_key = [],
     ap_rate_limiter = []\<rparr>"

definition sample_reader :: "nat session" where
  "sample_reader = \<lparr>ss_peer_ip = [127, 0, 0, 1], ss_transport = 0, ss_authentication_context = [1],
     ss_phase = DeviceAuthenticated (pad 16 [1]), ss_next_client_sequence = 0, ss_next_server_sequence = 0,
     ss_message_count = 0\<rparr>"

text \<open>The three bytes of a blob in chunks of two.\<close>

theorem served_blob_reassembled_witness:
  "\<exists>content. blake3 plain_crypto content = pad 32 [5, 6, 7] \<and> length content = 3 \<and>
    reassemble rfc_cbor (served_chunk rfc_cbor sample_holder sample_reader (pad 32 [5, 6, 7]) 2 8 0 @
      served_chunk rfc_cbor sample_holder sample_reader (pad 32 [5, 6, 7]) 2 9 2) reassembly_start =
    \<lparr>ra_expected = 3, ra_declared = Some 3, ra_assembled = content\<rparr>"
proof -
  let ?b = "\<lparr>bl_blob_id = pad 32 [5, 6, 7], bl_ciphertext_size = 3, bl_created_at = 0\<rparr>"
  have inv: "blobs_inv plain_crypto (ap_storage sample_holder)"
    by (rule blobs_inv_cong [THEN iffD2, OF _ _ _ one_blob_store_inv]) (simp_all add: sample_holder_def)
  have dev: "require_device sample_holder sample_reader = Inr (pad 16 [1])"
    by (simp add: require_device_def sample_reader_def sample_holder_def require_active_device_def get_device_def
        device_row_of_def reader_device_def)
  have b: "?b \<in> set (st_blobs (ap_storage sample_holder))" by (simp add: sample_holder_def one_blob_store_def)
  have two: "[0..<chunk_count 3 2] = [0, 1]" by (simp add: chunk_count_def upt_rec)
  from served_blob_reassembled [OF rfc.cbor_format_axioms inv b _ dev, of 2 "\<lambda>i. 8 + of_nat i"] two
  show ?thesis by auto
qed

end
