(* ===== verification/Content_Sharing.thy ===== *)
theory Content_Sharing
  imports Client_Conversation Client_Commit Chunk_Reassembly Process_Life_Correct
begin

text \<open>
  The parts together: an object that one client encrypts and uploads request by request is what another
  client that has the vault downloads chunk by chunk and decrypts, whatever happened to the server's data
  directory in between.
\<close>

section \<open>An upload, request by request\<close>

text \<open>The chunks with their environments, sent at the offset reached, and the commit at the end.\<close>

fun upload_requests :: "bytes \<Rightarrow> nat \<Rightarrow> (env \<times> bytes) list \<Rightarrow> env \<Rightarrow> (env \<times> request) list" where
  "upload_requests u k [] E = [(E, CommitUpload u)]"
| "upload_requests u k ((E', c) # cs) E = (E', UploadChunk u (of_nat k) c) # upload_requests u (k + length c) cs E"

fun upload_responses :: "bytes \<Rightarrow> nat \<Rightarrow> bytes list \<Rightarrow> response list" where
  "upload_responses h k [] = [UploadCommitted h]"
| "upload_responses h k (c # cs) = ChunkAccepted (of_nat (k + length c)) # upload_responses h (k + length c) cs"

lemma active_same: "st_devices st' = st_devices st \<Longrightarrow> require_active_device st' d = require_active_device st d"
  by (simp add: require_active_device_def get_device_def device_row_of_def)

lemma serve_upload:
  assumes phase: "ss_phase s = DeviceAuthenticated d" and act: "require_active_device (ap_storage A) d = Inr dev"
    and sent: "append_all d u k (map snd cs) (ap_storage A) = (Inr n, st1)" and small: "n < 2 ^ 64"
    and commit: "commit_upload X (en_clock E) d u st1 = (Inr h, st2)"
  shows "serve C X (upload_requests u k cs E) A s = (upload_responses h k (map snd cs), A\<lparr>ap_storage := st2\<rparr>)"
  using act sent
proof (induction cs arbitrary: k A)
  case Nil
  then have "st1 = ap_storage A" by simp
  with Nil(1) phase commit show ?case
    by (simp add: keep_def app_commit_upload_def with_device_def require_device_def run_storage_def from_storage_def success_def)
next
  case (Cons x cs)
  obtain E' c where x: "x = (E', c)" by (cases x)
  obtain r st3 where step: "append_upload_chunk d u k c (ap_storage A) = (r, st3)" by fastforce
  with Cons.prems(2) x obtain k' where r: "r = Inr k'" by (cases r) auto
  have k': "k' = k + length c"
    using step r by (auto simp: append_upload_chunk_def append_locked_def append_record_def append_file_def Let_def
        split: if_splits sum.splits prod.splits option.splits)
  have rest: "append_all d u (k + length c) (map snd cs) st3 = (Inr n, st1)"
    using Cons.prems(2) step by (simp add: x r k')
  have grows: "append_all d u m bs st = (Inr n, st1) \<Longrightarrow> m \<le> n" for m bs st
  proof (induction bs arbitrary: m st)
    case (Cons b bs)
    then show ?case
      by (fastforce simp: append_upload_chunk_def append_locked_def append_record_def append_file_def Let_def
          split: if_splits sum.splits prod.splits option.splits)
  qed simp
  have k: "unat (of_nat k :: u64) = k" using grows [OF rest] small by (simp add: u64_of_nat)
  have "blob_frame (ap_storage A) st3" by (rule append_upload_chunk_frame [OF step])
  then have act3: "require_active_device st3 d = Inr dev"
    using Cons.prems(1) active_same [of st3 "ap_storage A" d] by (simp add: blob_frame_def)
  have "serve C X (upload_requests u (k + length c) cs E) (A\<lparr>ap_storage := st3\<rparr>) s =
      (upload_responses h (k + length c) (map snd cs), A\<lparr>ap_storage := st2\<rparr>)"
    using Cons.IH [of "A\<lparr>ap_storage := st3\<rparr>" "k + length c"] act3 rest by simp
  with step r k phase Cons.prems(1) show ?case
    by (simp add: x k' keep_def app_upload_chunk_def with_device_def require_device_def run_storage_def from_storage_def
        success_def)
qed

text \<open>An upload that is new starts empty.\<close>

lemma new_upload_holds:
  assumes run: "begin_upload free u now d n h st = (Inr (u, k), st0)" and inv: "blobs_inv X st"
    and new: "u \<notin> up_upload_id ` set (st_uploads st)"
  shows "k = 0 \<and> holds st0 d u n h [] \<and> (\<forall>g. file_at st0 (object_path g) = file_at st (object_path g))"
proof -
  have "k = 0 \<and> st0 = (put_file (upload_path u) [] st)\<lparr>st_uploads := st_uploads st @ [new_upload u now d n h]\<rparr>"
    using run new by (auto simp: begin_upload_def Let_def split: if_splits sum.splits option.splits
        dest!: find_Some_iff_mem)
  then have k: "k = 0" and st0: "st0 = (put_file (upload_path u) [] st)\<lparr>st_uploads := st_uploads st @ [new_upload u now d n h]\<rparr>"
    by blast+
  have "distinct (map up_upload_id (st_uploads st))" using blobs_invD(3) [OF inv] by (simp add: uploads_ok_def)
  with new k show ?thesis by (auto simp: st0 holds_def put_file_def update_conv')
qed

section \<open>The directory under direct requests\<close>

lemma storage_step_owned:
  assumes step: "storage_step C X st st'" and own: "owned X K i I st"
  shows "owned X K i I st'"
proof -
  note o = ownedD [OF own]
  have "keeps_identity st st'" by (rule storage_step_identity [OF step])
  then show ?thesis
    using o has_identity_kept identified_kept storage_step_inv [OF step o(3)]
      declared.step_keeps_extra [OF step o(3,4)] unfolding owned_def by blast
qed

lemma requests_owned:
  assumes "\<forall>(E, q) \<in> set qs. wf_request q \<and> is_array 16 (en_upload_id E)" and "owned X K i I (ap_storage A)"
    and "serve C X qs A s = (rs, A')"
  shows "owned X K i I (ap_storage A')"
  using assms
proof (induction qs arbitrary: A s rs A')
  case (Cons x qs)
  obtain E q where x: "x = (E, q)" by (cases x)
  obtain res s1 A1 where d: "dispatch C X E A s q = (res, s1, A1)" by (metis prod_cases3)
  have "touched C X A A1" using dispatch_storage [OF _ _ d] Cons.prems(1) x by simp
  then have own: "owned X K i I (ap_storage A1)"
    using Cons.prems(2) storage_step_owned by (auto simp: touched_def)
  obtain rs2 A2 where rest: "serve C X qs A1 s1 = (rs2, A2)" by fastforce
  have "owned X K i I (ap_storage A2)" using Cons.IH [OF _ own rest] Cons.prems(1) by simp
  with Cons.prems(3) own rest show ?case by (auto simp: x d split: if_splits)
qed simp

lemma upload_requests_wf:
  "is_array 16 u \<Longrightarrow> \<forall>(E, c) \<in> set cs. length c \<le> MAX_CHUNK_BYTES \<and> is_array 16 (en_upload_id E) \<Longrightarrow>
    is_array 16 (en_upload_id E') \<Longrightarrow>
    \<forall>(E, q) \<in> set (upload_requests u k cs E'). wf_request q \<and> is_array 16 (en_upload_id E)"
  by (induction u k cs E' rule: upload_requests.induct) auto

lemma upload_owned:
  assumes X: "crypto_laws X" and own: "owned X K i I (ap_storage A)"
    and u: "is_array 16 (en_upload_id E)" "is_array 16 (en_upload_id E')"
    and cs: "\<forall>(E, c) \<in> set cs. c \<noteq> [] \<and> length c \<le> MAX_CHUNK_BYTES \<and> is_array 16 (en_upload_id E)"
    and run: "serve C X ((E, BeginUpload n (blake3 X data)) # upload_requests (en_upload_id E) 0 cs E') A s = (responses, A')"
  shows "owned X K i I (ap_storage A')"
proof (rule requests_owned [OF _ own run])
  have "\<forall>(E, c) \<in> set cs. length c \<le> MAX_CHUNK_BYTES \<and> is_array 16 (en_upload_id E)" using cs by auto
  from upload_requests_wf [OF u(1) this u(2)] u(1) length_blake3 [OF X]
  show "\<forall>(E, q) \<in> set ((E, BeginUpload n (blake3 X data)) # upload_requests (en_upload_id E) 0 cs E').
      wf_request q \<and> is_array 16 (en_upload_id E)" by simp
qed

section \<open>From one client to another\<close>

lemma append_all_frame: "append_all d u k cs st = (r, st') \<Longrightarrow> blob_frame st st'"
proof (induction cs arbitrary: k st)
  case (Cons c cs)
  obtain r1 st1 where s: "append_upload_chunk d u k c st = (r1, st1)" by fastforce
  note f = append_upload_chunk_frame [OF s]
  show ?case
  proof (cases r1)
    case (Inr k')
    with Cons.prems s have "append_all d u k' cs st1 = (r, st')" by simp
    from blob_frame_trans [OF f Cons.IH [OF this]] show ?thesis .
  qed (use Cons.prems s f in simp)
qed simp

text \<open>A new upload of data is granted request by request, and leaves the blob.\<close>

lemma upload_served:
  assumes X: "crypto_laws X" and inv: "blobs_inv X (ap_storage A)"
    and phase: "ss_phase s = DeviceAuthenticated d" and act: "require_active_device (ap_storage A) d = Inr dev"
    and accepted: "begin_upload (en_free_space E) (en_upload_id E) (en_clock E) d (length data) (blake3 X data)
      (ap_storage A) = (Inr (en_upload_id E, k), st0)"
    and new: "is_array 16 (en_upload_id E)" "en_upload_id E \<notin> up_upload_id ` set (st_uploads (ap_storage A))"
    and unique: "file_at (ap_storage A) (object_path (blake3 X data)) \<in> {None, Some data}"
    and cs: "concat (map snd cs) = data" "\<forall>(E, c) \<in> set cs. c \<noteq> [] \<and> length c \<le> MAX_CHUNK_BYTES"
    and run: "serve C X ((E, BeginUpload (of_nat (length data)) (blake3 X data)) #
      upload_requests (en_upload_id E) 0 cs E') A s = (responses, A')"
  obtains b where "responses = UploadReady (en_upload_id E) 0 # upload_responses (blake3 X data) 0 (map snd cs)"
    "blob_frame (ap_storage A) (ap_storage A')" "b \<in> set (st_blobs (ap_storage A'))" "bl_blob_id b = blake3 X data"
    "bl_ciphertext_size b = length data" "file_at (ap_storage A') (object_path (blake3 X data)) = Some data"
    "length data < 2 ^ 63"
proof -
  let ?h = "blake3 X data" and ?n = "length data" and ?u = "en_upload_id E"
  have h: "is_array 32 ?h" by (rule length_blake3 [OF X])
  note up = new_upload_holds [OF accepted inv new(2)]
  have k: "k = 0" and empty: "holds st0 d ?u ?n ?h []" using up by blast+
  have inv0: "blobs_inv X st0" by (rule begin_upload_inv [OF inv accepted new(1) h])
  have act0: "require_active_device st0 d = Inr dev"
    using active_same [of st0 "ap_storage A" d] begin_upload_frame [OF accepted] act by (simp add: blob_frame_def)
  have dest: "file_at st0 (object_path ?h) = None \<or> file_at st0 (object_path ?h) = Some (concat (map snd cs))"
    using unique up cs(1) by auto
  obtain st1 st2 b where sent: "append_all d ?u 0 (map snd cs) st0 = (Inr ?n, st1)"
    "commit_upload X (en_clock E') d ?u st1 = (Inr ?h, st2)" "b \<in> set (st_blobs st2)" "bl_blob_id b = ?h"
    "bl_ciphertext_size b = ?n" "file_at st2 (object_path ?h) = Some data" "?n \<le> MAX_OBJECT_BYTES"
    by (rule full_upload_stored [OF inv0 empty act0 h _ _ _ dest]) (use cs in auto)
  have small: "?n < 2 ^ 63" using sent(7) by (simp add: MAX_OBJECT_BYTES_def)
  have "serve C X (upload_requests ?u 0 cs E') (A\<lparr>ap_storage := st0\<rparr>) s =
      (upload_responses ?h 0 (map snd cs), A\<lparr>ap_storage := st2\<rparr>)"
    using serve_upload [OF phase, of "A\<lparr>ap_storage := st0\<rparr>" dev ?u 0 cs ?n st1 X E' ?h st2 C] act0 sent(1,2) small by simp
  moreover have "unat (of_nat ?n :: u64) = ?n" using small by (simp add: u64_of_nat)
  ultimately have res: "responses = UploadReady ?u 0 # upload_responses ?h 0 (map snd cs)" and A': "ap_storage A' = st2"
    using run accepted phase act
    by (auto simp: k keep_def app_begin_upload_def with_device_def require_device_def run_storage_def from_storage_def success_def)
  have "blob_frame (ap_storage A) st2"
    using begin_upload_frame [OF accepted] append_all_frame [OF sent(1)] commit_upload_frame [OF sent(2)]
    by (blast intro: blob_frame_trans)
  with res A' sent(3-6) small show thesis by (intro that) simp_all
qed

text \<open>
  C15. What one client stores another reads. Premises: a client encrypted an object in its vault; its session is
  authenticated for an active device, in a directory that a start made (\<open>owned\<close>); the server accepts the
  BeginUpload, as a new upload under a fresh identifier (it does not when a limit or the free disk space
  is exceeded); no other content with the object's hash is stored. Then, if the requests of the upload follow
  each other with no request of another client in between, with the bytes in any chunks and any clocks, each is
  granted and the blob has the hash of the object. Let the data directory then live on - other requests, stops,
  power losses, starts with any configuration, as in C16 and with its exclusion: a job that outlives its request is one step,
  it does not overlap another operation on the same upload. Any device that may read gets chunks, of any
  size up to 65000 bytes, that are reassembled to an object that the vault decrypts to the plaintext, with its
  identifier, revision and type.
\<close>

theorem object_shared:
  assumes C: "cbor_format C" and X: "crypto_laws X" and K: "identity_crates_ok K"
    and arrays: "is_array 32 dek" "is_array 24 n1" "is_array 24 n2" "is_array 16 (uv_vault_id w)" "is_array 16 object_id"
    and made: "vault_encrypt C X (Some dek, Some n1, Some n2) w object_id revision ty plaintext = Inr encoded"
    and own: "owned X K i I (ap_storage A)"
    and phase: "ss_phase s = DeviceAuthenticated d" and act: "require_active_device (ap_storage A) d = Inr dev"
    and accepted: "begin_upload (en_free_space E) (en_upload_id E) (en_clock E) d (length encoded) (blake3 X encoded)
      (ap_storage A) = (Inr (en_upload_id E, k), st0)"
    and new: "is_array 16 (en_upload_id E)" "en_upload_id E \<notin> up_upload_id ` set (st_uploads (ap_storage A))"
    and unique: "file_at (ap_storage A) (object_path (blake3 X encoded)) \<in> {None, Some encoded}"
    and cs: "concat (map snd cs) = encoded"
      "\<forall>(E, c) \<in> set cs. c \<noteq> [] \<and> length c \<le> MAX_CHUNK_BYTES \<and> is_array 16 (en_upload_id E)" "is_array 16 (en_upload_id E')"
    and run: "serve C X ((E, BeginUpload (of_nat (length encoded)) (blake3 X encoded)) #
      upload_requests (en_upload_id E) 0 cs E') A s = (responses, A')"
    and P: "disk P = ap_storage A'" "\<forall>Y. P = Serving Y \<longrightarrow> system_inv X Y"
    and later: "(process_step C X K N)\<^sup>*\<^sup>* P P'" and P': "disk P' = ap_storage A''"
    and reader: "require_device A'' s'' = Inr d''" and m: "0 < m" "m \<le> 65000"
  shows "responses = UploadReady (en_upload_id E) 0 # upload_responses (blake3 X encoded) 0 (map snd cs) \<and>
    (\<exists>e. vault_decrypt C X w (ra_assembled (reassemble C (concat (map (\<lambda>i.
         served_chunk C A'' s'' (blake3 X encoded) m (q i) (i * m)) [0..<chunk_count (length encoded) m])) reassembly_start)) =
       Inr (e, plaintext) \<and> oe_object_id e = object_id \<and> oe_revision e = revision \<and> oe_object_type e = ty)"
proof -
  let ?h = "blake3 X encoded" and ?n = "length encoded" and ?u = "en_upload_id E"
  have h: "is_array 32 ?h" by (rule length_blake3 [OF X])
  note inv = service_invD(1) [OF ownedD(3) [OF own]]
  obtain b where sent: "responses = UploadReady ?u 0 # upload_responses ?h 0 (map snd cs)"
    "b \<in> set (st_blobs (ap_storage A'))" "bl_blob_id b = ?h" "bl_ciphertext_size b = ?n"
    "file_at (ap_storage A') (object_path ?h) = Some encoded" "?n < 2 ^ 63"
    by (rule upload_served [OF X inv phase act accepted new unique cs(1) _ run]) (use cs(2) in auto)
  have "owned X K i I (ap_storage A')"
    by (rule upload_owned [OF X own new(1) cs(3,2) run])
  then have own1: "life_owned X K i I P" using P by (simp add: life_owned_def)
  then have "life_inv X K P" by (auto simp: life_inv_def)
  note laws = service_lawsI [OF C X K]
  have keep: "retains (ap_storage A') (ap_storage A'')"
    using service_laws.life_retains [OF laws later \<open>life_inv X K P\<close>] P(1) P' by simp
  have "owned X K i I (ap_storage A'')"
    using service_laws.life_keeps_owned [OF laws later own1] P' by (simp add: life_owned_def)
  note inv2 = service_invD(1) [OF ownedD(3) [OF this]]
  have b: "b \<in> set (st_blobs (ap_storage A''))" and stored: "file_at (ap_storage A'') (object_path ?h) = Some encoded"
    using keep sent(2,5) by (auto simp: retains_def)
  have start: "reassembly_start = assembled_to encoded (0 * m)" by (simp add: reassembly_start_def assembled_to_def)
  have "ra_assembled (reassemble C (concat (map (\<lambda>i. served_chunk C A'' s'' ?h m (q i) (i * m))
      [0..<chunk_count ?n m])) reassembly_start) = encoded"
    unfolding start
    using cbor_format.reassemble_served [OF C reader _ stored _ sent(6) m chunk_count(1) [OF m(1)], of b q]
      find_blob [OF inv2 b] sent(3,4) by simp
  moreover obtain e where "vault_decrypt C X w encoded = Inr (e, plaintext)" "oe_object_id e = object_id"
    "oe_revision e = revision" "oe_object_type e = ty"
    by (rule vault_object_opens [OF C X arrays made])
  ultimately show ?thesis using sent(1) by auto
qed

section \<open>A shared object\<close>

lemma sample_vault_encrypts_small:
  assumes "vault_encrypt rfc_cbor plain_crypto
     (Some (replicate 32 9), Some (replicate 24 8), Some (replicate 24 7)) sample_vault (replicate 16 2) 1 ty clear = Inr encoded"
  shows "length encoded \<le> length clear + 416"
proof -
  have v: "is_array 16 (uv_vault_id sample_vault)" by (simp add: sample_vault_def)
  obtain e where e: "decode_object_envelope rfc_cbor encoded = Inr e"
    "decrypt_object rfc_cbor plain_crypto (uv_subkeys sample_vault) encoded = Inr (e, clear)"
    by (rule vault_object_opens [OF rfc.cbor_format_axioms plain_crypto_laws _ _ _ v _ assms]) simp_all
  from e have "length (oe_ciphertext e) \<le> length clear + 16"
    by (auto simp: decrypt_object_def result_iffs Let_def plain_crypto_def split: if_splits option.splits)
  moreover have "wf_object e \<and> encode_object_envelope rfc_cbor e = Inr encoded"
    by (rule decode_object_envelope_sound [OF e(1)])
  ultimately show ?thesis using rfc.object_envelope_size [of e encoded] by simp
qed

definition sharing_env :: env where
  "sharing_env = \<lparr>en_now = 5, en_clock = 100, en_upload_id = pad 16 [9], en_free_space = Some (2 ^ 63)\<rparr>"

text \<open>A first start, a device that registers, an upload byte by byte, a power loss, a new start, and a reader.\<close>

theorem object_shared_witness:
  "\<exists>encoded (S :: nat server) st A responses A' (S' :: nat server) e.
    vault_encrypt rfc_cbor plain_crypto (Some (replicate 32 9), Some (replicate 24 8), Some (replicate 24 7))
      sample_vault (replicate 16 2) 1 Content [1, 2] = Inr encoded \<and>
    server_initialize rfc_cbor plain_crypto sample_crates (Some (pad 32 [5])) sample_random [1] blank_store = (Inr S, st) \<and>
    register_device 50 (pad 16 [1]) (pad 32 [2]) [3] st = (Inr (), ap_storage A) \<and>
    serve rfc_cbor plain_crypto ((sharing_env, BeginUpload (of_nat (length encoded)) (blake3 plain_crypto encoded)) #
      upload_requests (pad 16 [9]) 0 (map (\<lambda>x. (sharing_env, [x])) encoded) sharing_env) A (view sample_reader) = (responses, A') \<and>
    process_step rfc_cbor plain_crypto sample_crates (undefined :: (nat, nat) snow) (Stopped (ap_storage A'))
      (Serving \<lparr>sy_now = 9, sy_server = S', sy_pending = [], sy_jobs = []\<rparr>) \<and>
    vault_decrypt rfc_cbor plain_crypto sample_vault (ra_assembled (reassemble rfc_cbor (concat (map (\<lambda>i.
      served_chunk rfc_cbor (sv_application S') sample_reader (blake3 plain_crypto encoded) 2 (of_nat i) (i * 2))
      [0..<chunk_count (length encoded) 2])) reassembly_start)) = Inr (e, [1, 2])"
proof -
  let ?N = "undefined :: (nat, nat) snow" and ?d = "pad 16 [1] :: bytes"
  obtain encoded where made: "vault_encrypt rfc_cbor plain_crypto (Some (replicate 32 9), Some (replicate 24 8),
      Some (replicate 24 7)) sample_vault (replicate 16 2) 1 Content [1, 2] = Inr encoded"
    using sample_vault_encrypts [of "[1, 2]"] by auto
  then have small: "length encoded \<le> 418" using sample_vault_encrypts_small by fastforce
  obtain S :: "nat server" and st where s: "server_initialize rfc_cbor plain_crypto sample_crates (Some (pad 32 [5]))
      sample_random [1] blank_store = (Inr S, st)" "st_devices st = []" "st_uploads st = []"
      "\<forall>h. file_at st (object_path h) = None" "\<forall>u. file_at st (upload_path u) = None"
    using sample_server_start by blast
  have R: "\<forall>k. Some (pad 32 [5]) = Some k \<longrightarrow> length k = 32" by simp
  have blank: "life_inv plain_crypto sample_crates (Stopped blank_store :: nat process)"
    by (auto simp: life_inv_def intro: fresh_blank)
  obtain i I where own: "owned plain_crypto sample_crates i I st"
    and o: "opens_with plain_crypto I [1] (is_authentication_key I)" and new: "app_state_new rfc_cbor i I st = Some S"
    by (rule any_start [OF plain_crypto_laws sample_crates_ok sample_random_wf R blank s(1)])
  define st1 where "st1 = st\<lparr>st_devices := [\<lparr>dv_device_id = ?d, dv_public_key = pad 32 [2], dv_encrypted_name = [3],
    dv_registered_at = 50, dv_revoked_at = None\<rparr>]\<rparr>"
  have reg: "register_device 50 ?d (pad 32 [2]) [3] st = (Inr (), st1)"
    using s(2) by (simp add: st1_def register_device_def device_row_of_def)
  have own1: "owned plain_crypto sample_crates i I st1"
    by (rule storage_step_owned [OF does_register [OF reg] own]) (simp_all add: MAX_ENCRYPTED_DEVICE_NAME_BYTES_def)
  have act: "\<exists>dev. require_active_device x ?d = Inr dev" if "st_devices x = st_devices st1" for x
    using that by (simp add: st1_def require_active_device_def get_device_def device_row_of_def)
  let ?A = "sv_application S\<lparr>ap_storage := st1\<rparr>" and ?cs = "map (\<lambda>x. (sharing_env, [x])) encoded"
  have own2: "owned plain_crypto sample_crates i I (ap_storage ?A)" using own1 by simp
  obtain dev where dev: "require_active_device (ap_storage ?A) ?d = Inr dev" using act [of st1] by auto
  have "\<exists>st0. begin_upload (en_free_space sharing_env) (en_upload_id sharing_env) (en_clock sharing_env) ?d (length encoded)
      (blake3 plain_crypto encoded) (ap_storage ?A) = (Inr (en_upload_id sharing_env, 0), st0)"
    using dev small s(3,5)
    by (simp add: begin_upload_def sharing_env_def st1_def MAX_OBJECT_BYTES_def MINIMUM_FREE_DISK_BYTES_def
        MAX_ACTIVE_UPLOADS_def MAX_ACTIVE_UPLOADS_PER_DEVICE_def upload_insert_fails_def plain_crypto_def Let_def device_row_of_def put_file_def)
  then obtain st0 where acc: "begin_upload (en_free_space sharing_env) (en_upload_id sharing_env) (en_clock sharing_env) ?d
      (length encoded) (blake3 plain_crypto encoded) (ap_storage ?A) = (Inr (en_upload_id sharing_env, 0), st0)" by blast
  obtain responses A' where run: "serve rfc_cbor plain_crypto ((sharing_env, BeginUpload (of_nat (length encoded))
      (blake3 plain_crypto encoded)) # upload_requests (en_upload_id sharing_env) 0 ?cs sharing_env) ?A (view sample_reader) =
      (responses, A')" by fastforce
  have id: "en_upload_id sharing_env = pad 16 [9]" by (simp add: sharing_env_def)
  have phase: "ss_phase (view sample_reader) = DeviceAuthenticated ?d" by (simp add: sample_reader_def view_def)
  have u: "is_array 16 (en_upload_id sharing_env)" "en_upload_id sharing_env \<notin> up_upload_id ` set (st_uploads (ap_storage ?A))"
    using s(3) by (simp_all add: sharing_env_def st1_def)
  have free: "file_at (ap_storage ?A) (object_path (blake3 plain_crypto encoded)) \<in> {None, Some encoded}"
    using s(4) by (simp add: st1_def)
  have "concat (map (\<lambda>x. [x]) xs) = xs" for xs :: bytes by (induction xs) simp_all
  then have cs: "concat (map snd ?cs) = encoded"
    "\<forall>(E, c) \<in> set ?cs. c \<noteq> [] \<and> length c \<le> MAX_CHUNK_BYTES \<and> is_array 16 (en_upload_id E)"
    using u(1) by (auto simp: o_def MAX_CHUNK_BYTES_def)
  obtain b where "blob_frame (ap_storage ?A) (ap_storage A')"
    by (rule upload_served [OF plain_crypto_laws service_invD(1) [OF ownedD(3) [OF own2]] phase dev acc u free cs(1) _ run])
      (use cs(2) in auto)
  then have devs: "st_devices (ap_storage A') = st_devices st1" by (simp add: blob_frame_def)
  have "owned plain_crypto sample_crates i I (ap_storage A')"
    by (rule upload_owned [OF plain_crypto_laws own2 u(1,1) cs(2) run])
  note o' = ownedD [OF this]
  have key: "derive_server_auth_key plain_crypto [1] (is_authentication_salt I) (is_argon2_policy I) = Inr (is_authentication_key I)"
    using o by (simp add: opens_with_def)
  obtain S' :: "nat server" and st' where s': "server_initialize rfc_cbor plain_crypto sample_crates (Some (pad 32 [5]))
      sample_random [1] (ap_storage A') = (Inr S', st')" "ap_storage (sv_application S') = st'"
      "st_devices st' = st_devices (ap_storage A')"
    using identified_restarts [OF plain_crypto_laws o'(1-3) key new, where R = sample_random] by blast
  have step: "process_step rfc_cbor plain_crypto sample_crates ?N (Stopped (ap_storage A'))
      (Serving \<lparr>sy_now = 9, sy_server = S', sy_pending = [], sy_jobs = []\<rparr>)"
    by (rule life_start [OF sample_random_wf R s'(1)])
  then have steps: "(process_step rfc_cbor plain_crypto sample_crates ?N)\<^sup>*\<^sup>* (Stopped (ap_storage A'))
      (Serving \<lparr>sy_now = 9, sy_server = S', sy_pending = [], sy_jobs = []\<rparr>)" by blast
  have reader: "require_device (sv_application S') sample_reader = Inr ?d"
    using act [of st'] s'(2,3) devs by (auto simp: require_device_def sample_reader_def)
  have v: "is_array 16 (uv_vault_id sample_vault)" by (simp add: sample_vault_def)
  obtain e where "vault_decrypt rfc_cbor plain_crypto sample_vault (ra_assembled (reassemble rfc_cbor (concat (map (\<lambda>i.
      served_chunk rfc_cbor (sv_application S') sample_reader (blake3 plain_crypto encoded) 2 (of_nat i) (i * 2))
      [0..<chunk_count (length encoded) 2])) reassembly_start)) = Inr (e, [1, 2])"
    using object_shared [OF rfc.cbor_format_axioms plain_crypto_laws sample_crates_ok _ _ _ v _ made own2 phase dev acc u free
        cs u(1) run _ _ steps _ reader, of 2 of_nat] by auto
  moreover have "register_device 50 ?d (pad 32 [2]) [3] st = (Inr (), ap_storage ?A)" using reg by simp
  ultimately show ?thesis using made s(1) run step unfolding id by blast
qed

end
