(* ===== verification/Identifiers.thy ===== *)
theory Identifiers
  imports Client_Vault_Correct Server_Identity_Props
begin

text \<open>
  Identifiers and clocks: the object identifiers of \<open>ll-versioning\<close> (\<open>identity.rs\<close>), the second clock of the storage
  (\<open>storage/mod.rs\<close>) and the runtime fixtures of \<open>ll-testkit\<close>. The generator of the uuid crate is a parameter
  whose law is the documented layout of version 7.
\<close>

section \<open>Clocks\<close>

text \<open>The system time in nanoseconds since the epoch, which a wrong clock may be before.\<close>

definition duration_since_epoch :: "int \<Rightarrow> nat option" where
  "duration_since_epoch now = (if now < 0 then None else Some (nat now))"

definition duration_seconds :: "nat \<Rightarrow> nat" where
  "duration_seconds d = d div 1000000000"

definition subsec_nanos :: "nat \<Rightarrow> nat" where
  "subsec_nanos d = d mod 1000000000"

definition now_unix_seconds :: "int \<Rightarrow> int" where
  "now_unix_seconds now =
     (case duration_since_epoch now of
        None \<Rightarrow> 0
      | Some d \<Rightarrow> if duration_seconds d < 2 ^ 63 then int (duration_seconds d) else 2 ^ 63 - 1)"

section \<open>Object identifiers\<close>

text \<open>\<open>Uuid::new_v7\<close> of a timestamp in seconds and nanoseconds, and the random bits it draws.\<close>

type_synonym uuid_v7 = "nat \<Rightarrow> nat \<Rightarrow> bytes \<Rightarrow> bytes"

definition milliseconds :: "nat \<Rightarrow> nat \<Rightarrow> nat" where
  "milliseconds secs nanos = secs * 1000 + nanos div 1000000"

text \<open>RFC 9562: 48 bits of milliseconds, then the version, in 16 bytes.\<close>

definition uuid_v7_layout :: "uuid_v7 \<Rightarrow> bool" where
  "uuid_v7_layout U \<longleftrightarrow> (\<forall>secs nanos random. length (U secs nanos random) = 16 \<and>
     take 6 (U secs nanos random) = be_bytes 6 (milliseconds secs nanos mod 2 ^ 48) \<and>
     unat (U secs nanos random ! 6) div 16 = 7)"

definition new_object_id :: "uuid_v7 \<Rightarrow> int \<Rightarrow> bytes \<Rightarrow> bytes" where
  "new_object_id U now random =
     (let elapsed = (case duration_since_epoch now of None \<Rightarrow> 0 | Some d \<Rightarrow> d) in
      U (duration_seconds elapsed) (subsec_nanos elapsed) random)"

text \<open>The exports of the JavaScript client.\<close>

definition new_object_id_bytes :: "uuid_v7 \<Rightarrow> int \<Rightarrow> bytes \<Rightarrow> bytes" where
  "new_object_id_bytes U now random = new_object_id U now random"

definition blake3_hash_bytes :: "crypto \<Rightarrow> bytes \<Rightarrow> bytes" where
  "blake3_hash_bytes X input = blake3 X input"

lemma new_object_id_layout:
  assumes "uuid_v7_layout U"
  shows "is_array 16 (new_object_id U now random)" "unat (new_object_id U now random ! 6) div 16 = 7"
    "take 6 (new_object_id U now random) = be_bytes 6 (nat now div 1000000 mod 2 ^ 48)"
proof -
  have ms: "milliseconds (d div 1000000000) (d mod 1000000000) = d div 1000000" for d
  proof -
    have "d mod 1000000000 div 1000000 = d div 1000000 mod 1000"
      using div_mult2_eq' mod_mult2_eq' by (simp add: mod_mult2_eq [of d 1000000 1000, simplified])
    moreover have "d div 1000000000 = d div 1000000 div 1000" by (simp add: div_mult2_eq [symmetric])
    ultimately show ?thesis by (simp add: milliseconds_def)
  qed
  show "is_array 16 (new_object_id U now random)" "unat (new_object_id U now random ! 6) div 16 = 7"
    using assms by (simp_all add: new_object_id_def uuid_v7_layout_def Let_def)
  show "take 6 (new_object_id U now random) = be_bytes 6 (nat now div 1000000 mod 2 ^ 48)"
    using assms
    by (auto simp: new_object_id_def uuid_v7_layout_def Let_def duration_since_epoch_def duration_seconds_def
        subsec_nanos_def ms)
qed

lemma new_object_id_not_zero:
  assumes "uuid_v7_layout U"
  shows "new_object_id U now random \<noteq> replicate 16 0"
proof
  assume "new_object_id U now random = replicate 16 0"
  then have "new_object_id U now random ! 6 = 0" by simp
  with new_object_id_layout(2) [OF assms, of now random] show False by simp
qed

section \<open>Order\<close>

text \<open>Byte strings of one length compare as the numbers they write.\<close>

lemma be_nat_Cons: "be_nat (x # xs) = unat x * 256 ^ length xs + be_nat xs"
proof (induction xs rule: rev_induct)
  case (snoc y ys)
  have "be_nat (x # ys @ [y]) = be_nat ((x # ys) @ [y])" by simp
  also have "\<dots> = be_nat (x # ys) * 256 + unat y" by (rule be_nat_snoc)
  finally show ?case using snoc by (simp add: algebra_simps)
qed (simp add: be_nat_def)

lemma be_nat_less:
  "length as = length bs \<Longrightarrow> be_nat as < be_nat bs \<Longrightarrow> as @ r < bs @ s" for as bs :: bytes
proof (induction as bs rule: list_induct2)
  case (Cons a as b bs)
  have bound: "be_nat as < 256 ^ length as" "be_nat bs < 256 ^ length as"
    using be_nat_bound [of as] be_nat_bound [of bs] Cons.hyps by simp_all
  consider "a < b" | "a = b" | "b < a" by (rule linorder_cases)
  then show ?case
  proof cases
    case 3
    then have "unat b < unat a" by (simp add: word_less_nat_alt)
    then have "(unat b + 1) * 256 ^ length as \<le> unat a * 256 ^ length as" by (intro mult_le_mono1) simp
    with bound Cons.prems Cons.hyps show ?thesis by (simp add: be_nat_Cons algebra_simps)
  qed (use Cons in \<open>auto simp: be_nat_Cons\<close>)
qed simp

text \<open>
  Identifiers are sortable by time: one made in a later millisecond than another is the greater, whatever
  random bits the two drew. The guarantee needs a clock past the epoch and ends with the 48 bits of milliseconds.
\<close>

theorem object_ids_sorted:
  assumes U: "uuid_v7_layout U" and "0 \<le> earlier" and less: "earlier div 1000000 < later div 1000000"
    and "later div 1000000 < 2 ^ 48"
  shows "new_object_id U earlier random < new_object_id U later random'"
proof -
  have t: "nat earlier div 1000000 < nat later div 1000000" "nat later div 1000000 < 2 ^ 48"
  proof -
    have first: "0 \<le> earlier div 1000000" using assms(2) by simp
    then have pos: "0 < later div 1000000" "0 \<le> later"
      using less pos_imp_zdiv_nonneg_iff [of 1000000 later] by linarith+
    have "nat earlier div 1000000 = nat (earlier div 1000000)" "nat later div 1000000 = nat (later div 1000000)"
      using assms(2) pos by (simp_all add: nat_div_distrib)
    then show "nat earlier div 1000000 < nat later div 1000000" "nat later div 1000000 < 2 ^ 48"
      using less assms(4) pos by (simp_all add: nat_less_iff)
  qed
  then have "be_nat (be_bytes 6 (nat earlier div 1000000)) < be_nat (be_bytes 6 (nat later div 1000000))"
    by (simp add: be_nat_be_bytes)
  then have "be_bytes 6 (nat earlier div 1000000) @ drop 6 (new_object_id U earlier random) <
      be_bytes 6 (nat later div 1000000) @ drop 6 (new_object_id U later random')"
    by (intro be_nat_less) simp_all
  moreover have "take 6 (new_object_id U earlier random) = be_bytes 6 (nat earlier div 1000000)"
    "take 6 (new_object_id U later random') = be_bytes 6 (nat later div 1000000)"
    using new_object_id_layout(3) [OF U] t by simp_all
  ultimately show ?thesis by (metis append_take_drop_id)
qed

definition sample_uuid_v7 :: uuid_v7 where
  "sample_uuid_v7 secs nanos random = be_bytes 6 (milliseconds secs nanos mod 2 ^ 48) @ [0x70] @ pad 9 random"

lemma sample_uuid_v7_layout: "uuid_v7_layout sample_uuid_v7"
  by (simp add: uuid_v7_layout_def sample_uuid_v7_def nth_append)

theorem object_ids_sorted_witness:
  "new_object_id sample_uuid_v7 1700000000999999999 [255] < new_object_id sample_uuid_v7 1700000001000000000 [0]"
  by (rule object_ids_sorted [OF sample_uuid_v7_layout]) simp_all

text \<open>
  A generated device can always be restored: the identifier of zeros, which the reader refuses, is not of
  version 7, so what \<open>generate\<close> makes and the vault stores encrypted is what the vault reads back.
\<close>

theorem generated_device_restored:
  assumes "cbor_format C" and "crypto_laws X" and U: "uuid_v7_layout U"
    and "is_array 32 dek" "is_array 24 n1" "is_array 24 n2" "is_array 16 (uv_vault_id v)" "is_array 32 seed"
    and made: "generate_device (new_object_id U now random) (Some seed) = Inr d"
    and stored: "device_encrypt_for_storage C X (Some dek, Some n1, Some n2) d v = Inr encoded"
  shows "device_from_encrypted C X v encoded = Inr d"
proof -
  have d: "di_device_id d = new_object_id U now random" "di_signing_key d = seed"
    using made by (auto simp: generate_device_def)
  have "is_array 16 (di_device_id d)" "is_array 32 (di_signing_key d)"
    using d new_object_id_layout(1) [OF U] assms(8) by simp_all
  from stored_device_reads(1) [OF assms(1,2,4-7) this stored] show ?thesis
    using d new_object_id_not_zero [OF U] by simp
qed

theorem generated_device_restored_witness:
  "\<exists>d encoded. generate_device (new_object_id sample_uuid_v7 1700000000000000000 [1]) (Some (replicate 32 7)) = Inr d \<and>
    device_encrypt_for_storage rfc_cbor plain_crypto
      (Some (replicate 32 9), Some (replicate 24 8), Some (replicate 24 7)) d sample_vault = Inr encoded \<and>
    device_from_encrypted rfc_cbor plain_crypto sample_vault encoded = Inr d"
proof -
  let ?id = "new_object_id sample_uuid_v7 1700000000000000000 [1]"
  let ?d = "\<lparr>di_device_id = ?id, di_signing_key = replicate 32 7\<rparr>"
  have made: "generate_device ?id (Some (replicate 32 7)) = Inr ?d" by (simp add: generate_device_def)
  have a: "is_array 16 ?id" by (rule new_object_id_layout(1) [OF sample_uuid_v7_layout])
  obtain encoded where e: "device_encrypt_for_storage rfc_cbor plain_crypto
      (Some (replicate 32 9), Some (replicate 24 8), Some (replicate 24 7)) ?d sample_vault = Inr encoded"
    using sample_vault_encrypts [of "DEVICE_SECRET_VERSION # di_device_id ?d @ di_signing_key ?d" "di_device_id ?d" Recovery] a
    by (auto simp: device_encrypt_for_storage_def vault_encrypt_def)
  have v: "is_array 16 (uv_vault_id sample_vault)" by (simp add: sample_vault_def)
  have "device_from_encrypted rfc_cbor plain_crypto sample_vault encoded = Inr ?d"
    by (rule generated_device_restored [OF rfc.cbor_format_axioms plain_crypto_laws sample_uuid_v7_layout _ _ _ v _ made e]) simp_all
  with made e show ?thesis by blast
qed

section \<open>Test kit\<close>

text \<open>The random bytes are \<open>None\<close> when the system has none.\<close>

datatype testkit_error = TE_Random

definition random_test_password :: "bytes option \<Rightarrow> testkit_error + ustr" where
  "random_test_password random = rmap (\<lambda>bytes. ascii (hex_encode bytes)) (ok_or TE_Random random)"

definition random_device_signing_key :: "bytes option \<Rightarrow> testkit_error + bytes" where
  "random_device_signing_key random = ok_or TE_Random random"

definition test_uuid :: "uuid_v7 \<Rightarrow> nat \<Rightarrow> nat \<Rightarrow> bytes \<Rightarrow> bytes" where
  "test_uuid U secs nanos random = U secs nanos random"

lemma hex_digit_plain:
  assumes "n < 16"
  shows "of_char (hex_digit n) \<notin> {36, 123, 125 :: nat}"
proof -
  from assms have "hex_digit n \<in> set ''0123456789abcdef''" unfolding hex_digit_def by (intro nth_mem) simp
  then show ?thesis by auto
qed

lemma hex_plain: "c \<in> set (ascii (hex_encode bs)) \<Longrightarrow> c \<notin> {36, 123, 125}"
proof (induction bs)
  case (Cons b bs)
  have "unat b < 256" by simp
  then have "unat b div 16 < 16" by linarith
  moreover have "unat b mod 16 < 16" by simp
  ultimately show ?case using Cons hex_digit_plain by (auto simp: ascii_def)
qed (simp add: ascii_def)

lemma contains_first: "contains xs (p # ps) \<Longrightarrow> p \<in> set xs"
  by (induction xs "p # ps" rule: contains.induct) auto

text \<open>A generated password passes the checks of the configuration as it is: it is long enough and no placeholder.\<close>

lemma test_password_loads:
  assumes "random_test_password (Some bs) = Inr password" and "length bs = 24"
  shows "load_password env password = Inr password"
proof -
  have p: "password = ascii (hex_encode bs)" using assms(1) by (simp add: random_test_password_def)
  have plain: "36 \<notin> set password" "123 \<notin> set password" "125 \<notin> set password" using hex_plain unfolding p by blast+
  have "strip_prefix (ascii ''${'') password = None"
    using plain(1) by (cases password) (auto simp: strip_prefix_def ascii_def)
  moreover have "\<not> contains password (ascii ''${'')" "\<not> contains password (ascii ''}'')"
    using plain contains_first [of password 36] contains_first [of password 125] by (auto simp: ascii_def)
  moreover have "length password = 48" using assms(2) by (simp add: p ascii_def)
  ultimately show ?thesis by (simp add: load_password_def expand_password_def)
qed

end
