(* ===== verification/Wasm_Text.thy ===== *)
theory Wasm_Text
  imports Client_Channel Portable_Path
begin

text \<open>
  What crosses the WebAssembly boundary of \<open>wasm/ll-client-core\<close>: 64-bit integers as decimal text,
  fixed arrays as byte strings or hexadecimal text, lists of identifiers as one flat byte string, and the
  errors. The hex and JSON crates are parameters, with the laws \<open>text_laws\<close>.
\<close>

section \<open>Errors\<close>

text \<open>
  A JavaScript error is the text of an error: a fixed text, or the display of an error of the crates,
  which is kept as the error.
\<close>

datatype js_error =
    JE_Text string | JE_Client client_error | JE_Versioning versioning_error | JE_Crypto crypto_error
  | JE_Hex | JE_Json

section \<open>Integers\<close>

text \<open>\<open>u64::to_string\<close> and \<open>str::parse::<u64>\<close>: a single leading plus sign is accepted.\<close>

fun to_decimal :: "nat \<Rightarrow> ustr" where
  "to_decimal n = (if n < 10 then [48 + n] else to_decimal (n div 10) @ [48 + n mod 10])"

declare to_decimal.simps [simp del]

definition u64_to_string :: "u64 \<Rightarrow> ustr" where
  "u64_to_string n = to_decimal (unat n)"

fun parse_digits :: "nat \<Rightarrow> ustr \<Rightarrow> nat option" where
  "parse_digits acc [] = Some acc"
| "parse_digits acc (c # cs) =
     (if 48 \<le> c \<and> c \<le> 57 \<and> acc * 10 + (c - 48) < 2 ^ 64 then parse_digits (acc * 10 + (c - 48)) cs else None)"

definition str_parse_u64 :: "ustr \<Rightarrow> u64 option" where
  "str_parse_u64 s =
     (let digits = (case s of c # cs \<Rightarrow> if c = 43 then cs else s | [] \<Rightarrow> []) in
      if digits = [] then None else map_option of_nat (parse_digits 0 digits))"

definition js_parse_u64 :: "string \<Rightarrow> ustr \<Rightarrow> js_error + u64" where
  "js_parse_u64 message s = ok_or (JE_Text message) (str_parse_u64 s)"

definition parse_u64 :: "ustr \<Rightarrow> js_error + u64" where
  "parse_u64 s = js_parse_u64 ''invalid unsigned integer'' s"

subsection \<open>What parsing accepts\<close>

abbreviation is_digit :: "nat \<Rightarrow> bool" where
  "is_digit c \<equiv> 48 \<le> c \<and> c \<le> 57"

definition decimal_value :: "nat \<Rightarrow> ustr \<Rightarrow> nat" where
  "decimal_value acc s = foldl (\<lambda>a c. a * 10 + (c - 48)) acc s"

lemma decimal_value_simps [simp]:
  "decimal_value acc [] = acc" "decimal_value acc (c # cs) = decimal_value (acc * 10 + (c - 48)) cs"
  "decimal_value acc (s @ t) = decimal_value (decimal_value acc s) t"
  by (simp_all add: decimal_value_def)

lemma decimal_value_ge: "acc \<le> decimal_value acc s"
proof (induction s arbitrary: acc)
  case (Cons c s)
  have "acc \<le> acc * 10 + (c - 48)" by simp
  also have "\<dots> \<le> decimal_value (acc * 10 + (c - 48)) s" by (rule Cons)
  finally show ?case by simp
qed simp

lemma parse_digits_Some:
  "acc < 2 ^ 64 \<Longrightarrow> parse_digits acc s = Some n \<longleftrightarrow>
     (\<forall>c \<in> set s. is_digit c) \<and> n = decimal_value acc s \<and> n < 2 ^ 64"
proof (induction s arbitrary: acc)
  case (Cons c s)
  let ?a = "acc * 10 + (c - 48)"
  show ?case
  proof (cases "is_digit c \<and> ?a < 2 ^ 64")
    case True
    then have "parse_digits acc (c # s) = parse_digits ?a s" by (subst parse_digits.simps, intro if_P) blast
    with Cons.IH [of ?a] True show ?thesis by (simp only: decimal_value_simps list.set ball_simps) blast
  next
    case False
    then have "\<not> is_digit c \<or> 2 ^ 64 \<le> decimal_value ?a s"
      using decimal_value_ge [of ?a s] by linarith
    moreover have "parse_digits acc (c # s) = None" using False by auto
    ultimately show ?thesis by (simp only: decimal_value_simps list.set ball_simps) force
  qed
qed auto

lemma to_decimal_digits: "(\<forall>c \<in> set (to_decimal n). is_digit c) \<and> to_decimal n \<noteq> []"
proof (induction n rule: to_decimal.induct)
  case (1 n)
  then show ?case by (cases "n < 10") (auto simp: to_decimal.simps [of n])
qed

lemma decimal_value_print: "decimal_value 0 (to_decimal n) = n"
proof (induction n rule: to_decimal.induct)
  case (1 n)
  then show ?case by (cases "n < 10") (auto simp: to_decimal.simps [of n])
qed

lemma str_parse_u64_Some:
  "str_parse_u64 s = Some n \<longleftrightarrow>
     (\<exists>ds. (s = ds \<or> s = 43 # ds) \<and> ds \<noteq> [] \<and> (\<forall>c \<in> set ds. is_digit c) \<and> decimal_value 0 ds = unat n)"
proof -
  let ?ds = "case s of c # cs \<Rightarrow> if c = 43 then cs else s | [] \<Rightarrow> []"
  have "str_parse_u64 s = Some n \<longleftrightarrow>
      ?ds \<noteq> [] \<and> (\<exists>k. parse_digits 0 ?ds = Some k \<and> n = of_nat k)"
    by (auto simp: str_parse_u64_def Let_def)
  also have "\<dots> \<longleftrightarrow> ?ds \<noteq> [] \<and> (\<forall>c \<in> set ?ds. is_digit c) \<and> decimal_value 0 ?ds = unat n"
    using unsigned_less [of n] by (auto simp: parse_digits_Some unat_of_nat)
  also have "\<dots> \<longleftrightarrow> (\<exists>ds. (s = ds \<or> s = 43 # ds) \<and> ds \<noteq> [] \<and> (\<forall>c \<in> set ds. is_digit c) \<and> decimal_value 0 ds = unat n)"
    by (cases s) auto
  finally show ?thesis .
qed

lemma parse_printed [simp]: "str_parse_u64 (u64_to_string n) = Some n"
  using to_decimal_digits [of "unat n"]
  by (auto simp: str_parse_u64_Some u64_to_string_def decimal_value_print)

lemma parse_u64_printed [simp]: "parse_u64 (u64_to_string n) = Inr n" "js_parse_u64 m (u64_to_string n) = Inr n"
  by (simp_all add: parse_u64_def js_parse_u64_def)

section \<open>Arrays\<close>

text \<open>\<open>try_into\<close> a fixed array, and lists of arrays.\<close>

definition fixed :: "nat \<Rightarrow> bytes \<Rightarrow> js_error + bytes" where
  "fixed n v = (if length v = n then Inr v else Inl (JE_Text ''fixed byte field has invalid length''))"

fun collect_results :: "('a \<Rightarrow> 'e + 'b) \<Rightarrow> 'a list \<Rightarrow> 'e + 'b list" where
  "collect_results f [] = Inr []"
| "collect_results f (x # xs) = rbind (f x) (\<lambda>y. rbind (collect_results f xs) (\<lambda>ys. Inr (y # ys)))"

function chunks_exact :: "nat \<Rightarrow> 'a list \<Rightarrow> 'a list list" where
  "chunks_exact n xs = (if n = 0 \<or> length xs < n then [] else take n xs # chunks_exact n (drop n xs))"
  by auto
termination by (relation "measure (\<lambda>(n, xs). length xs)") auto

declare chunks_exact.simps [simp del]

text \<open>\<open>parse_parents\<close>.\<close>

definition parse_flat :: "string \<Rightarrow> bytes \<Rightarrow> js_error + bytes list" where
  "parse_flat message input =
     (if length input mod 32 \<noteq> 0 then Inl (JE_Text message)
      else collect_results (fixed 32) (chunks_exact 32 input))"

definition parse_parents :: "bytes \<Rightarrow> js_error + bytes list" where
  "parse_parents input = parse_flat ''parent IDs have invalid length'' input"

lemma collect_results_Inr:
  "collect_results f xs = Inr ys \<longleftrightarrow> list_all2 (\<lambda>x y. f x = Inr y) xs ys"
  by (induction xs arbitrary: ys) (auto simp: rbind_Inr_iff list_all2_Cons1)

lemma collect_results_map [simp]:
  assumes "\<And>x. x \<in> set xs \<Longrightarrow> f (g x) = Inr x"
  shows "collect_results f (map g xs) = Inr xs"
  using assms by (induction xs) simp_all

lemma chunks_exact_concat:
  assumes "0 < n" and "\<forall>x \<in> set xss. length x = n"
  shows "chunks_exact n (concat xss) = xss"
  using assms(2) by (induction xss) (use assms(1) in \<open>simp_all add: chunks_exact.simps [of n]\<close>)

lemma concat_chunks_exact:
  "n dvd length xs \<Longrightarrow> 0 < n \<Longrightarrow>
     concat (chunks_exact n xs) = xs \<and> (\<forall>c \<in> set (chunks_exact n xs). length c = n)"
proof (induction n xs rule: chunks_exact.induct)
  case (1 n xs)
  show ?case
  proof (cases "length xs < n")
    case True
    with 1(2) have "xs = []" by (auto dest: nat_dvd_not_less)
    with True show ?thesis by (simp add: chunks_exact.simps [of n])
  next
    case False
    with 1(2) have d: "n dvd length (drop n xs)" by (simp add: dvd_minus_self)
    have g: "\<not> (n = 0 \<or> length xs < n)" using False 1(3) by simp
    note ih = 1(1) [OF g d 1(3)]
    have eq: "chunks_exact n xs = take n xs # chunks_exact n (drop n xs)"
      using g by (subst chunks_exact.simps) (rule if_not_P)
    have "concat (chunks_exact n xs) = xs" unfolding eq using ih by (simp only: concat.simps append_take_drop_id)
    moreover have "length (take n xs) = n" using False by simp
    ultimately show ?thesis using ih by (simp only: eq list.set ball_simps) blast
  qed
qed

lemma parse_flat_Inr:
  "parse_flat m input = Inr ids \<longleftrightarrow> input = concat ids \<and> (\<forall>i \<in> set ids. is_array 32 i)"
proof
  assume r: "parse_flat m input = Inr ids"
  then have d: "32 dvd length input" and c: "list_all2 (\<lambda>x y. fixed 32 x = Inr y) (chunks_exact 32 input) ids"
    by (auto simp: parse_flat_def collect_results_Inr split: if_splits)
  from c have "chunks_exact 32 input = ids"
    by (induction rule: list_all2_induct) (auto simp: fixed_def split: if_splits)
  with concat_chunks_exact [OF d] show "input = concat ids \<and> (\<forall>i \<in> set ids. is_array 32 i)" by simp
next
  assume r: "input = concat ids \<and> (\<forall>i \<in> set ids. is_array 32 i)"
  then have "chunks_exact 32 input = ids" by (simp add: chunks_exact_concat)
  moreover have "length (concat is') = 32 * length is'" if "\<forall>i \<in> set is'. is_array 32 i" for is'
    using that by (induction is') simp_all
  then have "length input mod 32 = 0" using r by simp
  moreover have "collect_results (fixed 32) ids = Inr ids"
    using r by (auto simp: collect_results_Inr fixed_def list_all2_same)
  ultimately show "parse_flat m input = Inr ids" by (simp add: parse_flat_def)
qed

end
