(* ===== verification/Wasm_Client.thy ===== *)
theory Wasm_Client
  imports Wasm_Text Protocol_Codec
begin

text \<open>
  The channel and the responses a JavaScript client sees: \<open>wasm/ll-client-core/src/transport.rs\<close> and the
  path and text functions of \<open>lib.rs\<close>. An operation that takes the channel by mutable reference
  returns the channel it leaves. JSON texts have the type \<open>'j\<close>.
\<close>

section \<open>The text crates\<close>

record device_text =
  dt_device_id_hex :: ustr
  dt_public_key_hex :: ustr
  dt_encrypted_name_hex :: ustr
  dt_revoked :: bool

record entry_text =
  et_object_id_hex :: ustr
  et_revision :: ustr
  et_object_type :: byte
  et_encrypted_path_blob_id_hex :: ustr
  et_content_blob_id_hex :: "ustr option"
  et_metadata_blob_id_hex :: "ustr option"
  et_canonical_plaintext_hash_hex :: ustr
  et_tombstone :: bool

record manifest_text =
  mt_vault_id_hex :: ustr
  mt_entries :: "entry_text list"

record operation_text =
  ot_kind :: byte
  ot_object_id_hex :: ustr
  ot_base_revision :: ustr
  ot_revision :: ustr
  ot_encrypted_path_blob_id_hex :: "ustr option"
  ot_content_blob_id_hex :: "ustr option"

record commit_body_text =
  bt_logical_timestamp :: ustr
  bt_operations :: "operation_text list"
  bt_manifest_root_hex :: ustr
  bt_manifest_blob_id_hex :: ustr
  bt_merge_base_hex :: "ustr option"
  bt_conflict_object_ids_hex :: "ustr list"

record signed_commit_text =
  ct_commit_id_hex :: ustr
  ct_parent_ids_hex :: "ustr list"
  ct_device_id_hex :: ustr
  ct_device_sequence :: ustr
  ct_body :: commit_body_text

text \<open>
  Decoding of hexadecimal text, and the JSON crate's reading and writing of the records above; the records
  the code reads and those it writes have the same fields.
\<close>

record 'j text_crates =
  hex_decode :: "ustr \<Rightarrow> bytes option"
  write_device :: "device_text \<Rightarrow> 'j"
  read_manifest :: "'j \<Rightarrow> manifest_text option"
  write_manifest :: "manifest_text \<Rightarrow> 'j"
  read_commit_body :: "'j \<Rightarrow> commit_body_text option"
  write_signed_commit :: "signed_commit_text \<Rightarrow> 'j option"

abbreviation hex_text :: "bytes \<Rightarrow> ustr" where
  "hex_text bs \<equiv> ascii (hex_encode bs)"

section \<open>Paths and texts\<close>

definition canonicalize_path :: "(ustr \<Rightarrow> ustr) \<Rightarrow> ustr \<Rightarrow> js_error + ustr" where
  "canonicalize_path nfc input = map_err (\<lambda>e. JE_Text (path_error_code e)) (parse_path nfc input)"

definition portable_collision_key :: "(ustr \<Rightarrow> ustr) \<Rightarrow> (ustr \<Rightarrow> ustr) \<Rightarrow> ustr \<Rightarrow> js_error + ustr" where
  "portable_collision_key nfc fold_case input =
     map_err (\<lambda>e. JE_Text (path_error_code e)) (rmap (collision_key nfc fold_case) (parse_path nfc input))"

definition canonicalize_text_bytes :: "bytes \<Rightarrow> js_error + bytes" where
  "canonicalize_text_bytes input = map_err (\<lambda>_. JE_Text ''invalid_utf8'') (canonicalize_text input)"

section \<open>The channel\<close>

record ('h, 't) wasm_channel =
  wc_inner :: "('h, 't) client_channel"
  wc_initial_message :: "bytes option"

type_synonym ('h, 't) wasm_result = "(js_error + bytes) \<times> ('h, 't) wasm_channel"

definition new_channel ::
  "cbor \<Rightarrow> identity_crates \<Rightarrow> ('h, 't) snow \<Rightarrow> bytes \<Rightarrow> ustr \<Rightarrow> js_error + ('h, 't) wasm_channel" where
  "new_channel C K N bootstrap pinned_fingerprint =
     rmap (\<lambda>(inner, msg). \<lparr>wc_inner = inner, wc_initial_message = Some msg\<rparr>)
       (map_err JE_Client (begin_channel C K N bootstrap pinned_fingerprint))"

definition take_handshake_message :: "('h, 't) wasm_channel \<Rightarrow> ('h, 't) wasm_result" where
  "take_handshake_message W =
     (ok_or (JE_Text ''handshake message already consumed'') (wc_initial_message W),
      W\<lparr>wc_initial_message := None\<rparr>)"

text \<open>Run an operation of the inner channel and put it back.\<close>

definition on_channel ::
  "(('h, 't) client_channel \<Rightarrow> (client_error + 'a) \<times> ('h, 't) client_channel) \<Rightarrow> ('h, 't) wasm_channel \<Rightarrow>
     (js_error + 'a) \<times> ('h, 't) wasm_channel" where
  "on_channel f W = (let (r, ch) = f (wc_inner W) in (map_err JE_Client r, W\<lparr>wc_inner := ch\<rparr>))"

definition wasm_complete_handshake ::
  "cbor \<Rightarrow> ('h, 't) snow \<Rightarrow> bytes \<Rightarrow> ('h, 't) wasm_channel \<Rightarrow> (js_error + unit) \<times> ('h, 't) wasm_channel" where
  "wasm_complete_handshake C N response W = on_channel (complete_handshake C N response) W"

definition authenticate_new_device ::
  "cbor \<Rightarrow> crypto \<Rightarrow> ('t, 'm) transport_scheme \<Rightarrow> bytes \<Rightarrow> ('h, 't) wasm_channel \<Rightarrow> ('h, 't) wasm_result" where
  "authenticate_new_device C X N server_password W =
     on_channel (channel_authenticate C X N server_password None) W"

definition authenticate_existing_device ::
  "cbor \<Rightarrow> crypto \<Rightarrow> ('t, 'm) transport_scheme \<Rightarrow> bytes \<Rightarrow> device_identity \<Rightarrow> ('h, 't) wasm_channel \<Rightarrow>
     ('h, 't) wasm_result" where
  "authenticate_existing_device C X N server_password device W =
     on_channel (channel_authenticate C X N server_password (Some device)) W"

definition wasm_register_device ::
  "cbor \<Rightarrow> crypto \<Rightarrow> ('t, 'm) transport_scheme \<Rightarrow> device_identity \<Rightarrow> bytes \<Rightarrow> ('h, 't) wasm_channel \<Rightarrow>
     ('h, 't) wasm_result" where
  "wasm_register_device C X N device encrypted_name W =
     on_channel (channel_register_device C X N device encrypted_name) W"

definition wasm_request ::
  "cbor \<Rightarrow> ('t, 'm) transport_scheme \<Rightarrow> request \<Rightarrow> ('h, 't) wasm_channel \<Rightarrow> ('h, 't) wasm_result" where
  "wasm_request C N q W = on_channel (channel_request C N q) W"

text \<open>A request whose arguments may not convert; then the channel is not touched.\<close>

definition wasm_try_request ::
  "cbor \<Rightarrow> ('t, 'm) transport_scheme \<Rightarrow> js_error + request \<Rightarrow> ('h, 't) wasm_channel \<Rightarrow> ('h, 't) wasm_result" where
  "wasm_try_request C N q W = (case q of Inl e \<Rightarrow> (Inl e, W) | Inr q \<Rightarrow> wasm_request C N q W)"

definition request_put_vault_key_envelope :: "bytes \<Rightarrow> js_error + request" where
  "request_put_vault_key_envelope envelope = Inr (PutVaultKeyEnvelope envelope)"

definition request_revoke_device :: "bytes \<Rightarrow> js_error + request" where
  "request_revoke_device device_id = rmap RevokeDevice (fixed 16 device_id)"

definition request_begin_upload :: "ustr \<Rightarrow> bytes \<Rightarrow> js_error + request" where
  "request_begin_upload expected_size expected_hash =
     rbind (parse_u64 expected_size) (\<lambda>size. rbind (fixed 32 expected_hash) (\<lambda>hash. Inr (BeginUpload size hash)))"

definition request_upload_chunk :: "bytes \<Rightarrow> ustr \<Rightarrow> bytes \<Rightarrow> js_error + request" where
  "request_upload_chunk upload_id offset chunk =
     rbind (fixed 16 upload_id) (\<lambda>upload_id. rbind (parse_u64 offset) (\<lambda>offset.
       Inr (UploadChunk upload_id offset chunk)))"

definition request_commit_upload :: "bytes \<Rightarrow> js_error + request" where
  "request_commit_upload upload_id = rmap CommitUpload (fixed 16 upload_id)"

definition request_get_blob :: "bytes \<Rightarrow> ustr \<Rightarrow> u32 \<Rightarrow> js_error + request" where
  "request_get_blob blob_id offset maximum_bytes =
     rbind (fixed 32 blob_id) (\<lambda>blob_id. rbind (parse_u64 offset) (\<lambda>offset.
       Inr (GetBlob blob_id offset maximum_bytes)))"

definition request_put_commit :: "bytes \<Rightarrow> js_error + request" where
  "request_put_commit signed_commit = Inr (PutCommit signed_commit)"

definition request_get_commit :: "bytes \<Rightarrow> js_error + request" where
  "request_get_commit commit_id = rmap GetCommit (fixed 32 commit_id)"

definition request_get_changes :: "bytes \<Rightarrow> u16 \<Rightarrow> js_error + request" where
  "request_get_changes known_ids_flat maximum_commits =
     rbind (parse_flat ''known commit IDs have invalid length'' known_ids_flat) (\<lambda>known_commit_ids.
       Inr (GetChanges known_commit_ids maximum_commits))"

text \<open>The operations, which build their request and send it.\<close>

definition wasm_put_vault_key_envelope ::
  "cbor \<Rightarrow> ('t, 'm) transport_scheme \<Rightarrow> bytes \<Rightarrow> ('h, 't) wasm_channel \<Rightarrow> ('h, 't) wasm_result" where
  "wasm_put_vault_key_envelope C N envelope W = wasm_try_request C N (request_put_vault_key_envelope envelope) W"

definition wasm_revoke_device ::
  "cbor \<Rightarrow> ('t, 'm) transport_scheme \<Rightarrow> bytes \<Rightarrow> ('h, 't) wasm_channel \<Rightarrow> ('h, 't) wasm_result" where
  "wasm_revoke_device C N device_id W = wasm_try_request C N (request_revoke_device device_id) W"

definition wasm_begin_upload ::
  "cbor \<Rightarrow> ('t, 'm) transport_scheme \<Rightarrow> ustr \<Rightarrow> bytes \<Rightarrow> ('h, 't) wasm_channel \<Rightarrow> ('h, 't) wasm_result" where
  "wasm_begin_upload C N expected_size expected_hash W = wasm_try_request C N (request_begin_upload expected_size expected_hash) W"

definition wasm_upload_chunk ::
  "cbor \<Rightarrow> ('t, 'm) transport_scheme \<Rightarrow> bytes \<Rightarrow> ustr \<Rightarrow> bytes \<Rightarrow> ('h, 't) wasm_channel \<Rightarrow> ('h, 't) wasm_result" where
  "wasm_upload_chunk C N upload_id offset chunk W = wasm_try_request C N (request_upload_chunk upload_id offset chunk) W"

definition wasm_commit_upload ::
  "cbor \<Rightarrow> ('t, 'm) transport_scheme \<Rightarrow> bytes \<Rightarrow> ('h, 't) wasm_channel \<Rightarrow> ('h, 't) wasm_result" where
  "wasm_commit_upload C N upload_id W = wasm_try_request C N (request_commit_upload upload_id) W"

definition wasm_get_blob ::
  "cbor \<Rightarrow> ('t, 'm) transport_scheme \<Rightarrow> bytes \<Rightarrow> ustr \<Rightarrow> u32 \<Rightarrow> ('h, 't) wasm_channel \<Rightarrow> ('h, 't) wasm_result" where
  "wasm_get_blob C N blob_id offset maximum_bytes W = wasm_try_request C N (request_get_blob blob_id offset maximum_bytes) W"

definition wasm_put_commit ::
  "cbor \<Rightarrow> ('t, 'm) transport_scheme \<Rightarrow> bytes \<Rightarrow> ('h, 't) wasm_channel \<Rightarrow> ('h, 't) wasm_result" where
  "wasm_put_commit C N signed_commit W = wasm_try_request C N (request_put_commit signed_commit) W"

definition wasm_get_commit ::
  "cbor \<Rightarrow> ('t, 'm) transport_scheme \<Rightarrow> bytes \<Rightarrow> ('h, 't) wasm_channel \<Rightarrow> ('h, 't) wasm_result" where
  "wasm_get_commit C N commit_id W = wasm_try_request C N (request_get_commit commit_id) W"

definition wasm_get_changes ::
  "cbor \<Rightarrow> ('t, 'm) transport_scheme \<Rightarrow> bytes \<Rightarrow> u16 \<Rightarrow> ('h, 't) wasm_channel \<Rightarrow> ('h, 't) wasm_result" where
  "wasm_get_changes C N known_ids_flat maximum_commits W = wasm_try_request C N (request_get_changes known_ids_flat maximum_commits) W"

text \<open>The operations without arguments: \<open>getVaultKeyEnvelope\<close>, \<open>listDevices\<close>, \<open>getHeads\<close> and \<open>ping\<close>.\<close>

definition wasm_get_vault_key_envelope ::
  "cbor \<Rightarrow> ('t, 'm) transport_scheme \<Rightarrow> ('h, 't) wasm_channel \<Rightarrow> ('h, 't) wasm_result" where
  "wasm_get_vault_key_envelope C N W = wasm_request C N GetVaultKeyEnvelope W"

definition wasm_list_devices ::
  "cbor \<Rightarrow> ('t, 'm) transport_scheme \<Rightarrow> ('h, 't) wasm_channel \<Rightarrow> ('h, 't) wasm_result" where
  "wasm_list_devices C N W = wasm_request C N ListDevices W"

definition wasm_get_heads ::
  "cbor \<Rightarrow> ('t, 'm) transport_scheme \<Rightarrow> ('h, 't) wasm_channel \<Rightarrow> ('h, 't) wasm_result" where
  "wasm_get_heads C N W = wasm_request C N GetHeads W"

definition wasm_ping ::
  "cbor \<Rightarrow> ('t, 'm) transport_scheme \<Rightarrow> ('h, 't) wasm_channel \<Rightarrow> ('h, 't) wasm_result" where
  "wasm_ping C N W = wasm_request C N Ping W"

definition wasm_response ::
  "cbor \<Rightarrow> ('t, 'm) transport_scheme \<Rightarrow> bytes \<Rightarrow> ('h, 't) wasm_channel \<Rightarrow>
     (js_error + response) \<times> ('h, 't) wasm_channel" where
  "wasm_response C N frame W = on_channel (channel_response C N frame) W"

section \<open>Responses\<close>

fun response_kind :: "response \<Rightarrow> u16" where
  "response_kind (Authenticated _ _) = 1"
| "response_kind DeviceRegistered = 2"
| "response_kind (Devices _) = 3"
| "response_kind DeviceRevoked = 4"
| "response_kind (UploadReady _ _) = 5"
| "response_kind (ChunkAccepted _) = 6"
| "response_kind (UploadCommitted _) = 7"
| "response_kind (BlobChunk _ _ _ _) = 8"
| "response_kind Pong = 9"
| "response_kind (CommitStored _ _) = 10"
| "response_kind (CommitRecord _) = 11"
| "response_kind (Heads _) = 12"
| "response_kind (Changes _ _) = 13"
| "response_kind VaultKeyEnvelopeStored = 14"
| "response_kind (VaultKeyEnvelope _) = 15"
| "response_kind (Error _) = 255"

definition response_flag :: "response \<Rightarrow> bool" where
  "response_flag r =
     (case r of
        Authenticated device_authenticated _ \<Rightarrow> device_authenticated
      | BlobChunk _ _ complete _ \<Rightarrow> complete
      | Changes _ has_more \<Rightarrow> has_more
      | _ \<Rightarrow> False)"

definition response_id :: "response \<Rightarrow> bytes" where
  "response_id r =
     (case r of
        Authenticated _ vault_id \<Rightarrow> vault_id
      | UploadReady upload_id _ \<Rightarrow> upload_id
      | UploadCommitted blob_id \<Rightarrow> blob_id
      | CommitStored commit_id _ \<Rightarrow> commit_id
      | _ \<Rightarrow> [])"

definition response_bytes :: "response \<Rightarrow> bytes" where
  "response_bytes r =
     (case r of
        BlobChunk _ _ _ chunk \<Rightarrow> chunk
      | CommitRecord signed_commit \<Rightarrow> signed_commit
      | VaultKeyEnvelope envelope \<Rightarrow> envelope
      | _ \<Rightarrow> [])"

definition response_offset :: "response \<Rightarrow> ustr" where
  "response_offset r =
     (case r of
        UploadReady _ offset \<Rightarrow> u64_to_string offset
      | ChunkAccepted offset \<Rightarrow> u64_to_string offset
      | BlobChunk offset _ _ _ \<Rightarrow> u64_to_string offset
      | _ \<Rightarrow> [])"

definition response_total :: "response \<Rightarrow> ustr" where
  "response_total r = (case r of BlobChunk _ total_size _ _ \<Rightarrow> u64_to_string total_size | _ \<Rightarrow> [])"

definition response_heads_flat :: "response \<Rightarrow> bytes" where
  "response_heads_flat r =
     (case r of Heads hs \<Rightarrow> concat hs | CommitStored _ hs \<Rightarrow> concat hs | _ \<Rightarrow> [])"

definition response_count :: "response \<Rightarrow> nat" where
  "response_count r =
     (case r of Changes commits _ \<Rightarrow> length commits | Devices devices \<Rightarrow> length devices | _ \<Rightarrow> 0)"

definition response_commit :: "response \<Rightarrow> nat \<Rightarrow> bytes" where
  "response_commit r index =
     (case r of Changes commits _ \<Rightarrow> if index < length commits then commits ! index else [] | _ \<Rightarrow> [])"

definition device_json :: "device_record \<Rightarrow> device_text" where
  "device_json d =
     \<lparr>dt_device_id_hex = hex_text (dr_device_id d), dt_public_key_hex = hex_text (dr_public_key d),
      dt_encrypted_name_hex = hex_text (dr_encrypted_name d), dt_revoked = dr_revoked d\<rparr>"

text \<open>\<open>None\<close> is the empty text.\<close>

definition response_device :: "'j text_crates \<Rightarrow> response \<Rightarrow> nat \<Rightarrow> 'j option" where
  "response_device T r index =
     (case r of
        Devices devices \<Rightarrow>
          if index < length devices then Some (write_device T (device_json (devices ! index))) else None
      | _ \<Rightarrow> None)"

definition response_error_code :: "response \<Rightarrow> u16" where
  "response_error_code r = (case r of Error code \<Rightarrow> error_code_number code | _ \<Rightarrow> 0)"

end
