(* ===== verification/Wasm_Formats.thy ===== *)
theory Wasm_Formats
  imports Wasm_Client
begin

text \<open>
  Manifests, commit bodies, vaults and device identities at the JavaScript boundary:
  \<open>wasm/ll-client-core/src/formats.rs\<close> and \<open>vault.rs\<close>.
\<close>

section \<open>Reading descriptions\<close>

definition decode_hex :: "'j text_crates \<Rightarrow> nat \<Rightarrow> ustr \<Rightarrow> js_error + bytes" where
  "decode_hex T n v =
     rbind (ok_or JE_Hex (hex_decode T v)) (\<lambda>bs.
       if length bs = n then Inr bs else Inl (JE_Text ''hex field has invalid length''))"

definition decode_optional :: "'j text_crates \<Rightarrow> nat \<Rightarrow> ustr option \<Rightarrow> js_error + bytes option" where
  "decode_optional T n v = (case v of None \<Rightarrow> Inr None | Some h \<Rightarrow> rmap Some (decode_hex T n h))"

definition read_entry :: "'j text_crates \<Rightarrow> entry_text \<Rightarrow> js_error + manifest_entry" where
  "read_entry T t =
     rbind (decode_hex T 16 (et_object_id_hex t)) (\<lambda>object_id.
     rbind (parse_u64 (et_revision t)) (\<lambda>revision.
     rbind (map_err JE_Crypto (object_type_try_from (et_object_type t))) (\<lambda>object_type.
     rbind (decode_hex T 32 (et_encrypted_path_blob_id_hex t)) (\<lambda>path.
     rbind (decode_optional T 32 (et_content_blob_id_hex t)) (\<lambda>content.
     rbind (decode_optional T 32 (et_metadata_blob_id_hex t)) (\<lambda>metadata.
     rbind (decode_hex T 32 (et_canonical_plaintext_hash_hex t)) (\<lambda>hash.
       Inr \<lparr>me_object_id = object_id, me_revision = revision, me_object_type = object_type,
         me_encrypted_path_blob_id = path, me_content_blob_id = content, me_metadata_blob_id = metadata,
         me_canonical_plaintext_hash = hash, me_tombstone = et_tombstone t\<rparr>)))))))"

definition encode_manifest_json :: "'j text_crates \<Rightarrow> cbor \<Rightarrow> 'j \<Rightarrow> js_error + bytes" where
  "encode_manifest_json T C input =
     rbind (ok_or JE_Json (read_manifest T input)) (\<lambda>t.
     rbind (decode_hex T 16 (mt_vault_id_hex t)) (\<lambda>vault_id.
     rbind (collect_results (read_entry T) (mt_entries t)) (\<lambda>entries.
     rbind (map_err JE_Versioning (new_manifest vault_id entries)) (\<lambda>m.
       map_err JE_Versioning (encode_manifest C m)))))"

definition manifest_root_json :: "'j text_crates \<Rightarrow> cbor \<Rightarrow> crypto \<Rightarrow> 'j \<Rightarrow> js_error + bytes" where
  "manifest_root_json T C X input =
     rbind (encode_manifest_json T C input) (\<lambda>encoded.
     rbind (map_err JE_Versioning (decode_manifest C encoded)) (\<lambda>m.
       map_err JE_Versioning (manifest_root C X m)))"

definition read_operation :: "'j text_crates \<Rightarrow> operation_text \<Rightarrow> js_error + operation" where
  "read_operation T t =
     rbind (map_err JE_Versioning (operation_kind_try_from (ot_kind t))) (\<lambda>kind.
     rbind (decode_hex T 16 (ot_object_id_hex t)) (\<lambda>object_id.
     rbind (parse_u64 (ot_base_revision t)) (\<lambda>base_revision.
     rbind (parse_u64 (ot_revision t)) (\<lambda>revision.
     rbind (decode_optional T 32 (ot_encrypted_path_blob_id_hex t)) (\<lambda>path.
     rbind (decode_optional T 32 (ot_content_blob_id_hex t)) (\<lambda>content.
       Inr \<lparr>op_kind = kind, op_object_id = object_id, op_base_revision = base_revision,
         op_revision = revision, op_encrypted_path_blob_id = path, op_content_blob_id = content\<rparr>))))))"

definition read_body :: "'j text_crates \<Rightarrow> commit_body_text \<Rightarrow> js_error + commit_body" where
  "read_body T t =
     rbind (parse_u64 (bt_logical_timestamp t)) (\<lambda>timestamp.
     rbind (collect_results (read_operation T) (bt_operations t)) (\<lambda>operations.
     rbind (decode_hex T 32 (bt_manifest_root_hex t)) (\<lambda>root.
     rbind (decode_hex T 32 (bt_manifest_blob_id_hex t)) (\<lambda>blob_id.
     rbind (decode_optional T 32 (bt_merge_base_hex t)) (\<lambda>merge_base.
     rbind (collect_results (decode_hex T 16) (bt_conflict_object_ids_hex t)) (\<lambda>conflict_objects.
       Inr \<lparr>cb_logical_timestamp = timestamp, cb_operations = operations, cb_manifest_root = root,
         cb_manifest_blob_id = blob_id, cb_merge_base = merge_base, cb_conflict_objects = conflict_objects\<rparr>))))))"

definition decode_commit_body_input :: "'j text_crates \<Rightarrow> 'j \<Rightarrow> js_error + commit_body" where
  "decode_commit_body_input T input = rbind (ok_or JE_Json (read_commit_body T input)) (read_body T)"

definition encode_commit_body_json :: "'j text_crates \<Rightarrow> cbor \<Rightarrow> 'j \<Rightarrow> js_error + bytes" where
  "encode_commit_body_json T C input =
     rbind (decode_commit_body_input T input) (\<lambda>b. map_err JE_Versioning (encode_commit_body C b))"

section \<open>Writing descriptions\<close>

definition write_entry :: "manifest_entry \<Rightarrow> entry_text" where
  "write_entry e =
     \<lparr>et_object_id_hex = hex_text (me_object_id e), et_revision = u64_to_string (me_revision e),
      et_object_type = object_type_number (me_object_type e),
      et_encrypted_path_blob_id_hex = hex_text (me_encrypted_path_blob_id e),
      et_content_blob_id_hex = map_option hex_text (me_content_blob_id e),
      et_metadata_blob_id_hex = map_option hex_text (me_metadata_blob_id e),
      et_canonical_plaintext_hash_hex = hex_text (me_canonical_plaintext_hash e),
      et_tombstone = me_tombstone e\<rparr>"

definition decode_manifest_json :: "'j text_crates \<Rightarrow> cbor \<Rightarrow> bytes \<Rightarrow> js_error + 'j" where
  "decode_manifest_json T C encoded =
     rbind (map_err JE_Versioning (decode_manifest C encoded)) (\<lambda>m.
       Inr (write_manifest T \<lparr>mt_vault_id_hex = hex_text (mf_vault_id m),
         mt_entries = map write_entry (mf_entries m)\<rparr>))"

definition write_operation :: "operation \<Rightarrow> operation_text" where
  "write_operation p =
     \<lparr>ot_kind = operation_kind_number (op_kind p), ot_object_id_hex = hex_text (op_object_id p),
      ot_base_revision = u64_to_string (op_base_revision p), ot_revision = u64_to_string (op_revision p),
      ot_encrypted_path_blob_id_hex = map_option hex_text (op_encrypted_path_blob_id p),
      ot_content_blob_id_hex = map_option hex_text (op_content_blob_id p)\<rparr>"

definition write_body :: "commit_body \<Rightarrow> commit_body_text" where
  "write_body b =
     \<lparr>bt_logical_timestamp = u64_to_string (cb_logical_timestamp b),
      bt_operations = map write_operation (cb_operations b),
      bt_manifest_root_hex = hex_text (cb_manifest_root b),
      bt_manifest_blob_id_hex = hex_text (cb_manifest_blob_id b),
      bt_merge_base_hex = map_option hex_text (cb_merge_base b),
      bt_conflict_object_ids_hex = map hex_text (cb_conflict_objects b)\<rparr>"

definition write_commit :: "signed_commit \<Rightarrow> commit_body \<Rightarrow> signed_commit_text" where
  "write_commit commit body =
     \<lparr>ct_commit_id_hex = hex_text (sc_commit_id commit),
      ct_parent_ids_hex = map hex_text (uc_parents (sc_unsigned commit)),
      ct_device_id_hex = hex_text (uc_device_id (sc_unsigned commit)),
      ct_device_sequence = u64_to_string (uc_device_sequence (sc_unsigned commit)),
      ct_body = write_body body\<rparr>"

definition decode_signed_commit_output ::
  "'j text_crates \<Rightarrow> cbor \<Rightarrow> crypto \<Rightarrow> unlocked_vault \<Rightarrow> bytes \<Rightarrow> bytes \<Rightarrow> js_error + 'j" where
  "decode_signed_commit_output T C X vault encoded public_key =
     rbind (map_err JE_Versioning (decode_signed_commit C X encoded)) (\<lambda>commit.
     rbind (map_err JE_Versioning (verify_signed_commit X commit public_key)) (\<lambda>_.
     rbind (map_err JE_Client (vault_decrypt C X vault (uc_encrypted_body (sc_unsigned commit)))) (\<lambda>(_, clear).
     rbind (map_err JE_Versioning (decode_commit_body C clear)) (\<lambda>body.
       ok_or JE_Json (write_signed_commit T (write_commit commit body))))))"

section \<open>Vaults\<close>

record wasm_vault =
  wv_inner :: unlocked_vault
  wv_created_envelope :: "bytes option"

definition wasm_create_vault ::
  "cbor \<Rightarrow> crypto \<Rightarrow> bytes option \<times> bytes option \<Rightarrow> nat \<Rightarrow> bytes option \<times> bytes option \<times> bytes option \<Rightarrow>
     bytes \<Rightarrow> bytes \<Rightarrow> bool \<Rightarrow> js_error + wasm_vault" where
  "wasm_create_vault C X calibration measured material vault_id client_password android =
     (let platform = if android then Android else Desktop in
      rbind (fixed 16 vault_id) (\<lambda>vault_id.
      rbind (map_err JE_Client (create_vault C X calibration measured material vault_id client_password platform))
        (\<lambda>(inner, envelope). Inr \<lparr>wv_inner = inner, wv_created_envelope = Some envelope\<rparr>)))"

definition wasm_unlock_vault :: "cbor \<Rightarrow> crypto \<Rightarrow> bytes \<Rightarrow> bytes \<Rightarrow> bytes \<Rightarrow> js_error + wasm_vault" where
  "wasm_unlock_vault C X vault_id client_password envelope =
     rbind (fixed 16 vault_id) (\<lambda>vault_id.
     rbind (map_err JE_Client (unlock_vault C X vault_id client_password envelope)) (\<lambda>inner.
       Inr \<lparr>wv_inner = inner, wv_created_envelope = None\<rparr>))"

definition take_created_envelope :: "wasm_vault \<Rightarrow> (js_error + bytes) \<times> wasm_vault" where
  "take_created_envelope V =
     (ok_or (JE_Text ''vault has no new key envelope'') (wv_created_envelope V), V\<lparr>wv_created_envelope := None\<rparr>)"

type_synonym material = "bytes option \<times> bytes option \<times> bytes option"

definition wasm_encrypt ::
  "cbor \<Rightarrow> crypto \<Rightarrow> material \<Rightarrow> wasm_vault \<Rightarrow> bytes \<Rightarrow> ustr \<Rightarrow> byte \<Rightarrow> bytes \<Rightarrow> js_error + bytes" where
  "wasm_encrypt C X material V object_id revision object_type cleartext =
     rbind (fixed 16 object_id) (\<lambda>object_id.
     rbind (js_parse_u64 ''invalid revision'' revision) (\<lambda>revision.
     rbind (map_err JE_Crypto (object_type_try_from object_type)) (\<lambda>object_type.
       map_err JE_Client (vault_encrypt C X material (wv_inner V) object_id revision object_type cleartext))))"

definition wasm_decrypt :: "cbor \<Rightarrow> crypto \<Rightarrow> wasm_vault \<Rightarrow> bytes \<Rightarrow> js_error + bytes" where
  "wasm_decrypt C X V encoded = map_err JE_Client (rmap snd (vault_decrypt C X (wv_inner V) encoded))"

definition wasm_decode_signed_commit ::
  "'j text_crates \<Rightarrow> cbor \<Rightarrow> crypto \<Rightarrow> wasm_vault \<Rightarrow> bytes \<Rightarrow> bytes \<Rightarrow> js_error + 'j" where
  "wasm_decode_signed_commit T C X V encoded public_key =
     rbind (fixed 32 public_key) (\<lambda>public_key. decode_signed_commit_output T C X (wv_inner V) encoded public_key)"

definition wasm_create_signed_commit ::
  "'j text_crates \<Rightarrow> cbor \<Rightarrow> crypto \<Rightarrow> material \<Rightarrow> bytes \<Rightarrow> wasm_vault \<Rightarrow> device_identity \<Rightarrow> bytes \<Rightarrow> ustr \<Rightarrow> 'j \<Rightarrow>
     js_error + bytes" where
  "wasm_create_signed_commit T C X material object_id V device parents_flat device_sequence body_json =
     rbind (decode_commit_body_input T body_json) (\<lambda>body.
     rbind (parse_parents parents_flat) (\<lambda>parents.
     rbind (js_parse_u64 ''invalid device sequence'' device_sequence) (\<lambda>device_sequence.
       map_err JE_Client
         (create_signed_commit C X material object_id (wv_inner V) device parents device_sequence body))))"

section \<open>Device identities\<close>

definition wasm_generate_device :: "bytes \<Rightarrow> bytes option \<Rightarrow> js_error + device_identity" where
  "wasm_generate_device device_id random = map_err JE_Client (generate_device device_id random)"

definition wasm_restore_device :: "cbor \<Rightarrow> crypto \<Rightarrow> wasm_vault \<Rightarrow> bytes \<Rightarrow> js_error + device_identity" where
  "wasm_restore_device C X V encrypted = map_err JE_Client (device_from_encrypted C X (wv_inner V) encrypted)"

definition wasm_encrypt_for_storage ::
  "cbor \<Rightarrow> crypto \<Rightarrow> material \<Rightarrow> device_identity \<Rightarrow> wasm_vault \<Rightarrow> js_error + bytes" where
  "wasm_encrypt_for_storage C X material device V =
     map_err JE_Client (device_encrypt_for_storage C X material device (wv_inner V))"

definition wasm_encrypt_name ::
  "cbor \<Rightarrow> crypto \<Rightarrow> material \<Rightarrow> device_identity \<Rightarrow> wasm_vault \<Rightarrow> ustr \<Rightarrow> js_error + bytes" where
  "wasm_encrypt_name C X material device V name =
     map_err JE_Client
       (vault_encrypt C X material (wv_inner V) (di_device_id device) 1 Metadata (utf8_encode name))"

definition wasm_device_id :: "device_identity \<Rightarrow> bytes" where
  "wasm_device_id device = di_device_id device"

definition wasm_public_key :: "crypto \<Rightarrow> device_identity \<Rightarrow> bytes" where
  "wasm_public_key X device = device_public_key X device"

end
