(* ===== verification/Wasm_Correct.thy ===== *)
theory Wasm_Correct
  imports Wasm_Formats Client_Vault_Correct
begin

text \<open>
  Nothing is lost at the JavaScript boundary: the accessors of a response determine it, what a response
  hands out is taken back by later requests, and manifests and commit bodies round trip through their
  textual descriptions.
\<close>

section \<open>Texts\<close>

definition text_laws :: "'j text_crates \<Rightarrow> bool" where
  "text_laws T \<longleftrightarrow> (\<forall>bs. hex_decode T (hex_text bs) = Some bs) \<and> inj (write_device T) \<and>
     (\<forall>m. read_manifest T (write_manifest T m) = Some m)"

lemma ascii_inj: "ascii s = ascii t \<Longrightarrow> s = t"
  by (auto simp: ascii_def inj_map_eq_map inj_def)

lemma hex_text_inj [simp]: "hex_text a = hex_text b \<longleftrightarrow> a = b"
  using ascii_inj hex_encode_inj by blast

lemma u64_to_string_inj [simp]: "u64_to_string a = u64_to_string b \<longleftrightarrow> a = b"
  by (metis option.inject parse_printed)

lemma decode_hex_printed: "text_laws T \<Longrightarrow> length bs = n \<Longrightarrow> decode_hex T n (hex_text bs) = Inr bs"
  by (simp add: decode_hex_def text_laws_def)

lemma decode_optional_printed:
  "text_laws T \<Longrightarrow> wf_optional n v \<Longrightarrow> decode_optional T n (map_option hex_text v) = Inr v"
  by (cases v) (simp_all add: decode_optional_def decode_hex_printed)

lemma decode_hex_length: "decode_hex T n v = Inr bs \<Longrightarrow> length bs = n"
  by (auto simp: decode_hex_def result_iffs split: if_splits)

lemma decode_optional_wf: "decode_optional T n v = Inr bs \<Longrightarrow> wf_optional n bs"
  by (auto simp: decode_optional_def result_iffs dest: decode_hex_length split: option.splits)

text \<open>
  Which texts are taken for a 64-bit integer: one or more decimal digits of a value below \<open>2^64\<close>, after at
  most one plus sign; leading zeros are accepted, and what the code prints is read back.
\<close>

theorem parse_u64_accepts:
  "(parse_u64 s = Inr n \<longleftrightarrow>
     (\<exists>ds. (s = ds \<or> s = 43 # ds) \<and> ds \<noteq> [] \<and> (\<forall>c \<in> set ds. is_digit c) \<and> decimal_value 0 ds = unat n)) \<and>
   parse_u64 (u64_to_string n) = Inr n"
  by (simp add: parse_u64_def js_parse_u64_def ok_or_Inr_iff str_parse_u64_Some)

section \<open>Responses\<close>

definition same_response_view :: "'j text_crates \<Rightarrow> response \<Rightarrow> response \<Rightarrow> bool" where
  "same_response_view T r r' \<longleftrightarrow> response_kind r = response_kind r' \<and> response_flag r = response_flag r' \<and>
     response_id r = response_id r' \<and> response_bytes r = response_bytes r' \<and>
     response_offset r = response_offset r' \<and> response_total r = response_total r' \<and>
     response_heads_flat r = response_heads_flat r' \<and> response_count r = response_count r' \<and>
     (\<forall>i. response_commit r i = response_commit r' i) \<and> (\<forall>i. response_device T r i = response_device T r' i) \<and>
     response_error_code r = response_error_code r'"

lemma flat_heads_inj:
  "\<forall>h \<in> set hs. is_array 32 h \<Longrightarrow> \<forall>h \<in> set hs'. is_array 32 h \<Longrightarrow> concat hs = concat hs' \<longleftrightarrow> hs = hs'"
  by (metis chunks_exact_concat zero_less_numeral)

lemma device_json_inj: "device_json d = device_json d' \<longleftrightarrow> d = d'"
  by (cases d; cases d') (simp add: device_json_def)

lemma error_code_number_inj: "error_code_number c = error_code_number c' \<longleftrightarrow> c = c'"
  by (cases c; cases c') simp_all

lemma commits_seen:
  "length cs = length cs' \<Longrightarrow> \<forall>i. response_commit (Changes cs m) i = response_commit (Changes cs' m') i \<Longrightarrow> cs = cs'"
  by (rule nth_equalityI) (auto simp: response_commit_def split: if_splits)

lemma devices_seen:
  assumes "inj (write_device T)" and n: "length ds = length ds'"
    and s: "\<forall>i. response_device T (Devices ds) i = response_device T (Devices ds') i"
  shows "ds = ds'"
proof (rule nth_equalityI [OF n])
  fix i
  assume "i < length ds"
  with s n have "write_device T (device_json (ds ! i)) = write_device T (device_json (ds' ! i))"
    by (auto simp: response_device_def dest!: spec [of _ i])
  then show "ds ! i = ds' ! i" using injD [OF assms(1)] device_json_inj by blast
qed

lemmas response_views = response_flag_def response_id_def response_bytes_def response_offset_def response_total_def
  response_heads_flat_def response_count_def response_error_code_def

text \<open>
  C22. The accessors lose nothing: two responses the protocol allows that look the same to JavaScript are the
  same response. The kind is the type number of the wire format.
\<close>

theorem response_view_faithful:
  assumes "inj (write_device T)" and "wf_response r" and "wf_response r'" and "same_response_view T r r'"
  shows "r = r' \<and> (\<exists>n rest. encode_response C r = e_array C n @ e_u8 C (ucast (response_kind r)) @ rest)"
proof
  have k: "response_kind r = response_kind r'" using assms(4) by (simp add: same_response_view_def)
  show "r = r'"
  proof (cases r)
    case (Devices ds)
    then obtain ds' where r': "r' = Devices ds'" using k by (cases r') simp_all
    have "length ds = length ds'" "\<forall>i. response_device T (Devices ds) i = response_device T (Devices ds') i"
      using assms(4) by (simp_all add: Devices r' same_response_view_def response_count_def)
    with devices_seen [OF assms(1)] Devices r' show ?thesis by blast
  next
    case (Changes cs m)
    then obtain cs' m' where r': "r' = Changes cs' m'" using k by (cases r') simp_all
    have "\<forall>i. response_commit (Changes cs m) i = response_commit (Changes cs' m') i"
      using assms(4) unfolding Changes r' same_response_view_def by blast
    moreover have "length cs = length cs'" "m = m'"
      using assms(4) by (simp_all add: Changes r' same_response_view_def response_count_def response_flag_def)
    ultimately show ?thesis using commits_seen Changes r' by blast
  next
    case (Heads hs)
    then obtain hs' where r': "r' = Heads hs'" using k by (cases r') simp_all
    with assms flat_heads_inj [of hs hs'] Heads show ?thesis
      by (simp add: same_response_view_def response_heads_flat_def)
  next
    case (CommitStored c hs)
    then obtain c' hs' where r': "r' = CommitStored c' hs'" using k by (cases r') simp_all
    with assms flat_heads_inj [of hs hs'] CommitStored show ?thesis
      by (simp add: same_response_view_def response_heads_flat_def response_id_def)
  qed (use k assms(4) in \<open>cases r'; simp add: same_response_view_def response_views error_code_number_inj\<close>)+
  show "\<exists>n rest. encode_response C r = e_array C n @ e_u8 C (ucast (response_kind r)) @ rest"
    by (cases r) (auto simp: response_types encode_vault_stored_def encode_tagged_bytes_def, (metis append_Nil2)+)
qed

text \<open>Texts that are their own JSON, and hexadecimal text read back by comparing with what is printed.\<close>

datatype sample_json = SJ_Device device_text | SJ_Manifest manifest_text | SJ_Body commit_body_text |
  SJ_Commit signed_commit_text

definition hex_value :: "nat \<Rightarrow> nat option" where
  "hex_value c = (if 48 \<le> c \<and> c \<le> 57 then Some (c - 48) else if 97 \<le> c \<and> c \<le> 102 then Some (c - 87)
     else if 65 \<le> c \<and> c \<le> 70 then Some (c - 55) else None)"

fun hex_pairs :: "ustr \<Rightarrow> bytes option" where
  "hex_pairs [] = Some []"
| "hex_pairs [c] = None"
| "hex_pairs (c # d # s) =
     (case (hex_value c, hex_value d, hex_pairs s) of
        (Some i, Some j, Some bs) \<Rightarrow> Some (of_nat (i * 16 + j) # bs)
      | _ \<Rightarrow> None)"

definition sample_texts :: "sample_json text_crates" where
  "sample_texts =
     \<lparr>hex_decode = hex_pairs, write_device = SJ_Device,
      read_manifest = (\<lambda>j. case j of SJ_Manifest m \<Rightarrow> Some m | _ \<Rightarrow> None), write_manifest = SJ_Manifest,
      read_commit_body = (\<lambda>j. case j of SJ_Body b \<Rightarrow> Some b | _ \<Rightarrow> None),
      write_signed_commit = (\<lambda>c. Some (SJ_Commit c))\<rparr>"

lemma hex_value_digit: "i < 16 \<Longrightarrow> hex_value (of_char (hex_digit i)) = Some i"
proof -
  have "\<forall>i < 16. hex_value (of_char (hex_digit i)) = Some i" by code_simp
  then show "i < 16 \<Longrightarrow> ?thesis" by blast
qed

lemma hex_pairs_text: "hex_pairs (hex_text bs) = Some bs"
proof (induction bs)
  case (Cons b bs)
  have "unat b div 16 < 16" using unat_byte_less [of b] by linarith
  moreover have "(of_nat (unat b div 16 * 16 + unat b mod 16) :: byte) = b" by (simp only: div_mult_mod_eq) simp
  ultimately show ?case using Cons by (simp add: ascii_def hex_value_digit)
qed (simp add: ascii_def)

lemma sample_texts_laws: "text_laws sample_texts"
  by (simp add: text_laws_def sample_texts_def hex_pairs_text inj_def)

theorem response_view_faithful_witness:
  "response_kind (UploadReady (pad 16 [1]) 7) = 5 \<and>
   (\<exists>n rest. encode_response rfc_cbor (UploadReady (pad 16 [1]) 7) = e_array rfc_cbor n @ e_u8 rfc_cbor 5 @ rest)"
proof -
  have i: "inj (write_device sample_texts)" using sample_texts_laws by (simp add: text_laws_def)
  have w: "wf_response (UploadReady (pad 16 [1]) 7)" by simp
  have s: "same_response_view sample_texts (UploadReady (pad 16 [1]) 7) (UploadReady (pad 16 [1]) 7)"
    by (simp add: same_response_view_def)
  from response_view_faithful [OF i w w s, of rfc_cbor] show ?thesis by simp
qed

text \<open>
  What a response hands to JavaScript is taken back unchanged by the requests that follow: an upload
  resumes at the identifier and offset that were answered, and the heads that were answered are the known
  commits of the next request for changes, or the parents of the next commit.
\<close>

theorem answers_taken_back:
  assumes "wf_response r"
  shows "(\<forall>u off. r = UploadReady u off \<longrightarrow>
      request_upload_chunk (response_id r) (response_offset r) chunk = Inr (UploadChunk u off chunk) \<and>
      request_commit_upload (response_id r) = Inr (CommitUpload u)) \<and>
    (\<forall>u off. is_array 16 u \<and> r = ChunkAccepted off \<longrightarrow>
      request_upload_chunk u (response_offset r) chunk = Inr (UploadChunk u off chunk)) \<and>
    (\<forall>b. r = UploadCommitted b \<longrightarrow> request_get_blob (response_id r) (u64_to_string n) k = Inr (GetBlob b n k)) \<and>
    (\<forall>c hs. r = CommitStored c hs \<or> r = Heads hs \<longrightarrow>
      request_get_changes (response_heads_flat r) m = Inr (GetChanges hs m) \<and>
      parse_parents (response_heads_flat r) = Inr hs)"
proof -
  have heads: "parse_flat t (concat hs) = Inr hs" if "\<forall>h \<in> set hs. is_array 32 h" for t hs
    using that by (simp add: parse_flat_Inr)
  show ?thesis
    using assms
    by (cases r) (simp_all add: request_upload_chunk_def request_commit_upload_def request_get_blob_def
        request_get_changes_def parse_parents_def fixed_def heads response_views)
qed

theorem answers_taken_back_witness:
  "request_upload_chunk (response_id (UploadReady (pad 16 [1]) 70)) (response_offset (UploadReady (pad 16 [1]) 70)) [5] =
     Inr (UploadChunk (pad 16 [1]) 70 [5])"
  using answers_taken_back [of "UploadReady (pad 16 [1]) 70" "[5]"] by simp

section \<open>Manifests\<close>

lemma read_write_entry:
  assumes "text_laws T" and "wf_entry e"
  shows "read_entry T (write_entry e) = Inr e"
  using assms
  by (cases e) (simp add: read_entry_def write_entry_def wf_entry_def decode_hex_printed decode_optional_printed)

lemma write_entries_read:
  "text_laws T \<Longrightarrow> \<forall>e \<in> set es. wf_entry e \<Longrightarrow> collect_results (read_entry T) (map write_entry es) = Inr es"
  by (rule collect_results_map) (simp add: read_write_entry)

text \<open>
  C32. Manifests round trip through JSON: the description of a decodable manifest encodes to exactly the bytes
  it was read from, and has the root of that manifest.
\<close>

theorem manifest_text_roundtrip:
  assumes "cbor_format C" and "text_laws T" and "decode_manifest_json T C encoded = Inr js"
  shows "encode_manifest_json T C js = Inr encoded \<and>
    (\<exists>m. decode_manifest C encoded = Inr m \<and>
      manifest_root_json T C X js = map_err JE_Versioning (manifest_root C X m))"
proof -
  from assms(3) obtain m where m: "decode_manifest C encoded = Inr m"
    and js: "js = write_manifest T \<lparr>mt_vault_id_hex = hex_text (mf_vault_id m), mt_entries = map write_entry (mf_entries m)\<rparr>"
    by (auto simp: decode_manifest_json_def result_iffs)
  from m have wf: "wf_manifest m" and enc: "encode_manifest C m = Inr encoded"
    using cbor_format.manifest_law [OF assms(1)] by blast+
  have val: "validate_manifest m = Inr ()" using enc by (auto simp: encode_manifest_def result_iffs)
  then have "sort_key me_object_id (mf_entries m) = mf_entries m"
    by (intro sort_key_id_if_sorted) (simp add: validate_manifest_Inr)
  then have "new_manifest (mf_vault_id m) (mf_entries m) = Inr m"
    using val by (simp add: new_manifest_Inr validate_manifest_Inr)
  then have e: "encode_manifest_json T C js = Inr encoded"
    using assms(2) wf enc write_entries_read [OF assms(2), of "mf_entries m"]
    by (simp add: encode_manifest_json_def js text_laws_def wf_manifest_def decode_hex_printed [OF assms(2)])
  then show ?thesis using m by (simp add: manifest_root_json_def)
qed

theorem manifest_text_roundtrip_witness:
  "\<exists>encoded js. encode_manifest rfc_cbor sample_manifest = Inr encoded \<and>
     decode_manifest_json sample_texts rfc_cbor encoded = Inr js \<and>
     encode_manifest_json sample_texts rfc_cbor js = Inr encoded"
proof -
  obtain encoded where e: "encode_manifest rfc_cbor sample_manifest = Inr encoded"
    using sample_manifest_encodes by blast
  moreover have "wf_manifest sample_manifest" by (simp add: wf_manifest_def sample_manifest_def)
  ultimately have "decode_manifest rfc_cbor encoded = Inr sample_manifest" using rfc.manifest_law by blast
  then obtain js where t: "decode_manifest_json sample_texts rfc_cbor encoded = Inr js"
    by (simp add: decode_manifest_json_def)
  from manifest_text_roundtrip [OF rfc.cbor_format_axioms sample_texts_laws t] e t show ?thesis by blast
qed

section \<open>Commits\<close>

lemma read_write_operation:
  assumes "text_laws T" and "wf_operation p"
  shows "read_operation T (write_operation p) = Inr p"
proof -
  have k: "operation_kind_try_from (operation_kind_number k) = Inr k" for k
    by (cases k) (simp_all add: operation_kind_try_from_def)
  show ?thesis
    using assms k
    by (cases p) (simp add: read_operation_def write_operation_def wf_operation_def decode_hex_printed
        decode_optional_printed)
qed

lemma read_write_body:
  assumes T: "text_laws T" and wf: "wf_commit_body b"
  shows "read_body T (write_body b) = Inr b"
proof -
  have "collect_results (read_operation T) (map write_operation (cb_operations b)) = Inr (cb_operations b)"
    using wf by (intro collect_results_map read_write_operation [OF T]) (simp add: wf_commit_body_def)
  moreover have "collect_results (decode_hex T 16) (map hex_text (cb_conflict_objects b)) = Inr (cb_conflict_objects b)"
    by (rule collect_results_map) (use assms in \<open>simp add: wf_commit_body_def decode_hex_printed\<close>)
  ultimately show ?thesis
    using assms
    by (cases b) (simp add: read_body_def write_body_def wf_commit_body_def decode_hex_printed decode_optional_printed)
qed

lemma read_operation_wf: "read_operation T t = Inr p \<Longrightarrow> wf_operation p"
  by (auto simp: read_operation_def result_iffs wf_operation_def dest: decode_hex_length decode_optional_wf)

lemma collected: "collect_results f xs = Inr ys \<Longrightarrow> (\<And>x y. f x = Inr y \<Longrightarrow> P y) \<Longrightarrow> \<forall>y \<in> set ys. P y"
  by (induction xs arbitrary: ys) (auto simp: rbind_Inr_iff)

lemma read_body_wf:
  assumes "read_body T t = Inr b"
  shows "wf_commit_body b"
proof -
  from assms have o: "collect_results (read_operation T) (bt_operations t) = Inr (cb_operations b)"
    and c: "collect_results (decode_hex T 16) (bt_conflict_object_ids_hex t) = Inr (cb_conflict_objects b)"
    and f: "is_array 32 (cb_manifest_root b)" "is_array 32 (cb_manifest_blob_id b)" "wf_optional 32 (cb_merge_base b)"
    by (auto simp: read_body_def result_iffs dest: decode_hex_length decode_optional_wf)
  have "\<forall>p \<in> set (cb_operations b). wf_operation p" by (rule collected [OF o]) (rule read_operation_wf)
  moreover have "\<forall>i \<in> set (cb_conflict_objects b). is_array 16 i" by (rule collected [OF c]) (rule decode_hex_length)
  ultimately show ?thesis using f by (simp add: wf_commit_body_def)
qed

text \<open>
  C17. A commit crosses two JavaScript boundaries unharmed: a commit that one client creates from a JSON
  body is read by a client that has the vault as a description each field of which is pinned: the identifier of the
  decoded commit, one hexadecimal text per parent the commit was created with, in order, the creating device, the
  sequence number in decimal, which parses back to the number given, and a body that reads back as the
  body given.
\<close>

theorem commit_text_roundtrip:
  assumes S: "sealed_format C X" and T: "text_laws T" and arrays: "is_array 32 dek" "is_array 24 n1" "is_array 24 n2"
    and ids: "is_array 16 (uv_vault_id (wv_inner V))" "is_array 16 object_id" "is_array 16 (di_device_id d)"
      "is_array 32 (di_signing_key d)"
    and run: "wasm_create_signed_commit T C X (Some dek, Some n1, Some n2) object_id V d parents_flat sequence json =
      Inr encoded"
  shows "\<exists>b ps n c t. decode_commit_body_input T json = Inr b \<and> decode_signed_commit C X encoded = Inr c \<and>
    concat ps = parents_flat \<and> list_all (is_array 32) ps \<and> str_parse_u64 sequence = Some n \<and>
    wasm_decode_signed_commit T C X V encoded (wasm_public_key X d) = ok_or JE_Json (write_signed_commit T t) \<and>
    ct_commit_id_hex t = hex_text (sc_commit_id c) \<and> ct_parent_ids_hex t = map hex_text ps \<and>
    ct_device_id_hex t = hex_text (di_device_id d) \<and> ct_device_sequence t = u64_to_string n \<and>
    str_parse_u64 (ct_device_sequence t) = Some n \<and> read_body T (ct_body t) = Inr b"
proof -
  from run obtain b ps n where b: "decode_commit_body_input T json = Inr b"
    and ps: "parse_parents parents_flat = Inr ps" and n: "str_parse_u64 sequence = Some n"
    and cr: "create_signed_commit C X (Some dek, Some n1, Some n2) object_id (wv_inner V) d ps n b = Inr encoded"
    by (auto simp: wasm_create_signed_commit_def result_iffs js_parse_u64_def)
  from ps have p: "parents_flat = concat ps" "\<forall>p \<in> set ps. is_array 32 p"
    by (simp_all add: parse_parents_def parse_flat_Inr)
  have wf: "wf_commit_body b" using b read_body_wf by (auto simp: decode_commit_body_input_def result_iffs)
  obtain c where c: "open_signed_commit C X (wv_inner V) encoded (device_public_key X d) = Inr (c, b)"
    "uc_parents (sc_unsigned c) = ps" "uc_device_id (sc_unsigned c) = di_device_id d"
    "uc_device_sequence (sc_unsigned c) = n"
    by (rule signed_commit_made [OF S arrays ids p(2) wf cr])
  have pk: "is_array 32 (wasm_public_key X d)"
    using S ids(4) by (auto simp: sealed_format_def sealed_format_axioms_def crypto_laws_def wasm_public_key_def
        device_public_key_def)
  obtain clear e where decoded: "decode_signed_commit C X encoded = Inr c"
    "verify_signed_commit X c (wasm_public_key X d) = Inr ()"
    "vault_decrypt C X (wv_inner V) (uc_encrypted_body (sc_unsigned c)) = Inr (e, clear)"
    "decode_commit_body C clear = Inr b"
    using c(1) by (auto simp: open_signed_commit_def result_iffs wasm_public_key_def)
  then have "wasm_decode_signed_commit T C X V encoded (wasm_public_key X d) =
      ok_or JE_Json (write_signed_commit T (write_commit c b))"
    using pk by (simp add: wasm_decode_signed_commit_def fixed_def decode_signed_commit_output_def)
  moreover have "read_body T (ct_body (write_commit c b)) = Inr b"
    using read_write_body [OF T wf] by (simp add: write_commit_def)
  moreover have "ct_commit_id_hex (write_commit c b) = hex_text (sc_commit_id c)"
    "ct_parent_ids_hex (write_commit c b) = map hex_text ps"
    "ct_device_id_hex (write_commit c b) = hex_text (di_device_id d)"
    "ct_device_sequence (write_commit c b) = u64_to_string n"
    using c(2-4) by (simp_all add: write_commit_def)
  moreover have "concat ps = parents_flat" "list_all (is_array 32) ps" using p by (auto simp: list_all_iff)
  moreover have "str_parse_u64 (u64_to_string n) = Some n" by simp
  ultimately show ?thesis using b n decoded(1) by metis
qed

theorem commit_text_roundtrip_witness:
  "\<exists>encoded t. wasm_create_signed_commit sample_texts rfc_cbor plain_crypto
      (Some (replicate 32 9), Some (replicate 24 8), Some (replicate 24 7)) (replicate 16 2)
      \<lparr>wv_inner = sample_vault, wv_created_envelope = None\<rparr> sample_device (replicate 32 4 @ replicate 32 5)
      (u64_to_string 2) (SJ_Body (write_body sample_commit_body)) = Inr encoded \<and>
    wasm_decode_signed_commit sample_texts rfc_cbor plain_crypto \<lparr>wv_inner = sample_vault, wv_created_envelope = None\<rparr>
      encoded (wasm_public_key plain_crypto sample_device) = Inr (SJ_Commit t) \<and>
    ct_parent_ids_hex t = [hex_text (replicate 32 4), hex_text (replicate 32 5)] \<and>
    ct_device_sequence t = u64_to_string 2 \<and> read_body sample_texts (ct_body t) = Inr sample_commit_body"
proof -
  let ?V = "\<lparr>wv_inner = sample_vault, wv_created_envelope = None\<rparr>"
  let ?j = "SJ_Body (write_body sample_commit_body)" and ?ps = "[replicate 32 4, replicate 32 (5 :: byte)]"
  let ?flat = "replicate 32 4 @ replicate 32 (5 :: byte)"
  have wf: "wf_commit_body sample_commit_body"
    by (simp add: wf_commit_body_def sample_commit_body_def wf_operation_def)
  have j: "decode_commit_body_input sample_texts ?j = Inr sample_commit_body"
    using read_write_body [OF sample_texts_laws wf] by (simp add: decode_commit_body_input_def sample_texts_def)
  have p: "parse_parents ?flat = Inr ?ps" by (simp add: parse_parents_def parse_flat_Inr)
  obtain encoded where c: "wasm_create_signed_commit sample_texts rfc_cbor plain_crypto
      (Some (replicate 32 9), Some (replicate 24 8), Some (replicate 24 7)) (replicate 16 2)
      ?V sample_device ?flat (u64_to_string 2) ?j = Inr encoded"
    using sample_child_made [of ?ps 2] by (auto simp: wasm_create_signed_commit_def j p)
  have a: "is_array 16 (uv_vault_id (wv_inner ?V))" "is_array 16 (replicate 16 (2 :: byte))"
    "is_array 16 (di_device_id sample_device)" "is_array 32 (di_signing_key sample_device)"
    by (simp_all add: sample_vault_def sample_device_def)
  from commit_text_roundtrip [OF plain.sealed_format_axioms sample_texts_laws _ _ _ a c] j obtain ps t where
    t: "concat ps = ?flat" "list_all (is_array 32) ps"
      "wasm_decode_signed_commit sample_texts rfc_cbor plain_crypto ?V encoded (wasm_public_key plain_crypto sample_device) =
        ok_or JE_Json (write_signed_commit sample_texts t)"
      "ct_parent_ids_hex t = map hex_text ps" "ct_device_sequence t = u64_to_string 2"
      "read_body sample_texts (ct_body t) = Inr sample_commit_body" by auto
  have "parse_parents ?flat = Inr ps" using t(1,2) by (simp add: parse_parents_def parse_flat_Inr list_all_iff)
  with p have "ps = ?ps" by simp
  with c t(3-6) show ?thesis by (auto simp: sample_texts_def)
qed

end
