(* ===== verification/Known_Answers.thy ===== *)
theory Known_Answers
  imports Manifest_Correct Vault_Key_Correct Path_Collisions
begin

text \<open>
  The model against the repository's shared test vectors,
  \<open>protocol/test-vectors\<close>: the encodings of the model, with the CBOR heads of RFC 8949,
  are the bytes that the unit tests of \<open>ll-crypto\<close> and \<open>ll-versioning\<close> require of the code, and the decoders
  read them back; the paths that are to be refused are refused with the codes listed there. What a hash, a cipher or
  a signature of the vectors must be is a premise on the crypto crates.
\<close>

section \<open>Hexadecimal fixtures\<close>

fun hex_value :: "char \<Rightarrow> byte" where
  "hex_value c = (let n = of_char c in if n < 58 then n - 48 else n - 87)"

fun unhex :: "string \<Rightarrow> bytes" where
  "unhex (a # b # s) = (16 * hex_value a + hex_value b) # unhex s"
| "unhex _ = []"



section \<open>Manifest and commit body\<close>

definition manifest_vector :: "versioning_error + manifest" where
  "manifest_vector = new_manifest (replicate 16 0x22)
     [\<lparr>me_object_id = replicate 16 0x33, me_revision = 7, me_object_type = Content,
       me_encrypted_path_blob_id = replicate 32 0x44, me_content_blob_id = Some (replicate 32 0x55),
       me_metadata_blob_id = None, me_canonical_plaintext_hash = replicate 32 0x66, me_tombstone = False\<rparr>]"

definition manifest_encoded :: string where
  "manifest_encoded =
       ''a300010150222222222222222222222222222222220281885033333333333333333333333333333333070158204444444444'' @
       ''4444444444444444444444444444444444444444444444444444445820555555555555555555555555555555555555555555'' @
       ''55555555555555555555554058206666666666666666666666666666666666666666666666666666666666666666f4''"

lemma manifest_matches_vector:
  "rbind manifest_vector (encode_manifest rfc_cbor) = Inr (unhex manifest_encoded)"
  by (simp add: manifest_vector_def new_manifest_def validate_manifest_def entry_is_invalid_def manifest_limits
     encode_manifest_def encode_entry_def encode_optional_fixed_def u64_try_from_def fits64_def
     rfc_cbor_def cbor_head_def PROTOCOL_VERSION_def manifest_encoded_def Let_def replicate_numeral)

definition commit_body_vector :: commit_body where
  "commit_body_vector = \<lparr>cb_logical_timestamp = 9,
     cb_operations = [\<lparr>op_kind = Modify, op_object_id = replicate 16 0x33, op_base_revision = 6, op_revision = 7,
       op_encrypted_path_blob_id = None, op_content_blob_id = Some (replicate 32 0x55)\<rparr>],
     cb_manifest_root = unhex ''01781f6da98ee1aecdbefe042fe9f0613c5a35ccf590ee09fdeae8bbb5017860'',
     cb_manifest_blob_id = replicate 32 0x77, cb_merge_base = Some (replicate 32 0x88),
     cb_conflict_objects = [replicate 16 0x99]\<rparr>"

definition commit_body_encoded :: string where
  "commit_body_encoded =
       ''a700010109028186025033333333333333333333333333333333060740582055555555555555555555555555555555555555'' @
       ''5555555555555555555555555503582001781f6da98ee1aecdbefe042fe9f0613c5a35ccf590ee09fdeae8bbb50178600458'' @
       ''2077777777777777777777777777777777777777777777777777777777777777770558208888888888888888888888888888'' @
       ''88888888888888888888888888888888888806815099999999999999999999999999999999''"

lemma commit_body_matches_vector:
  "encode_commit_body rfc_cbor commit_body_vector = Inr (unhex commit_body_encoded)"
  by (simp add: commit_body_vector_def validate_commit_body_def operation_shape_is_valid_def manifest_limits
     encode_commit_body_def encode_operation_def encode_optional_fixed_def u64_try_from_def fits64_def MAX_COMMIT_BODY_BYTES_def
     rfc_cbor_def cbor_head_def PROTOCOL_VERSION_def commit_body_encoded_def Let_def replicate_numeral)

section \<open>Object envelope\<close>

definition object_encoded :: string where
  "object_encoded =
       ''a900010150222222222222222222222222222222220250333333333333333333333333333333330307040405581855555555'' @
       ''5555555555555555555555555555555555555555065818666666666666666666666666666666666666666666666666075830'' @
       ''a3c91a7021a52014a981c3ba39d3d4ea8237806572bae16e2ba1336ec5f18dec192cfacfc1ea7bacfab1c70e479a85960858'' @
       ''3c411dcbac2202b60a1deb54f4016a6f628b7a6ef8debaa3baa7a97567e20c66658c3fe823f10a5354cbad1d2c6726a91060'' @
       ''0894afde8cdce907c4ade1''"

definition object_vector :: object_envelope where
  "object_vector = \<lparr>oe_vault_id = replicate 16 0x22, oe_object_id = replicate 16 0x33, oe_revision = 7,
     oe_object_type = Commit, oe_payload_nonce = replicate 24 0x55, oe_wrapped_dek_nonce = replicate 24 0x66,
     oe_wrapped_dek = unhex ''a3c91a7021a52014a981c3ba39d3d4ea8237806572bae16e2ba1336ec5f18dec192cfacfc1ea7bacfab1c70e479a8596'',
     oe_ciphertext = unhex (''411dcbac2202b60a1deb54f4016a6f628b7a6ef8debaa3baa7a97567e20c66658c3fe823f10a5354cbad1d2c6726a9106008'' @
            ''94afde8cdce907c4ade1'')\<rparr>"

lemma object_matches_vector: "encode_object_envelope rfc_cbor object_vector = Inr (unhex object_encoded)"
  by (simp add: object_vector_def encode_object_envelope_def rfc_cbor_def cbor_head_def PROTOCOL_VERSION_def
     object_encoded_def replicate_numeral)

text \<open>
  What encryption with the fixed nonces and key of the vector writes, for any cipher that gives the two
  ciphertexts of the vector.
\<close>

lemma encryption_matches_vector:
  assumes "object_aad rfc_cbor (object_vector\<lparr>oe_wrapped_dek := [], oe_ciphertext := []\<rparr>) (ascii_bytes ''payload'') = Inr a"
    and "object_aad rfc_cbor (object_vector\<lparr>oe_wrapped_dek := [], oe_ciphertext := []\<rparr>) (ascii_bytes ''wrapped-dek'') = Inr w"
    and "aead_encrypt X (replicate 32 0x44) (replicate 24 0x55) a plaintext = Some (oe_ciphertext object_vector)"
    and "aead_encrypt X (sk_commit subkeys) (replicate 24 0x66) w (replicate 32 0x44) = Some (oe_wrapped_dek object_vector)"
  shows "encrypt_object_with_material rfc_cbor X subkeys
     \<lparr>oi_vault_id = replicate 16 0x22, oi_object_id = replicate 16 0x33, oi_revision = 7, oi_object_type = Commit\<rparr> plaintext
     \<lparr>em_dek = replicate 32 0x44, em_payload_nonce = replicate 24 0x55, em_wrapped_dek_nonce = replicate 24 0x66\<rparr> =
   Inr (unhex object_encoded)"
  using assms object_matches_vector
  by (simp add: encrypt_object_with_material_def) (simp add: object_vector_def)

section \<open>Vault key envelope\<close>

definition vault_key_encoded :: string where
  "vault_key_encoded =
       ''a7000101502222222222222222222222222222222202194c0003010401055818333333333333333333333333333333333333'' @
       ''3333333333330658300c909f1b1b56fda1b6b7ee6555433ecc0945e6b5d8aef8707e8194ed804fda6f804979ede04ab26317'' @
       ''9facce70c3911f''"

definition vault_key_vector :: vault_key_envelope where
  "vault_key_vector = \<lparr>vk_salt = replicate 16 0x22,
     vk_policy = \<lparr>ck_memory_kib = 19456, ck_iterations = 1, ck_parallelism = 1\<rparr>, vk_nonce = replicate 24 0x33,
     vk_wrapped_vmk = unhex ''0c909f1b1b56fda1b6b7ee6555433ecc0945e6b5d8aef8707e8194ed804fda6f804979ede04ab263179facce70c3911f''\<rparr>"

lemma vault_key_matches_vector: "encode_vault_key_envelope rfc_cbor vault_key_vector = Inr (unhex vault_key_encoded)"
  by (simp add: vault_key_vector_def encode_vault_key_envelope_def rfc_cbor_def cbor_head_def PROTOCOL_VERSION_def
     vault_key_encoded_def replicate_numeral be_bytes_numeral)

section \<open>Signed commit\<close>

definition unsigned_encoded :: string where
  "unsigned_encoded =
       ''a8000101502222222222222222222222222222222202815820cccccccccccccccccccccccccccccccccccccccccccccccccc'' @
       ''cccccccccccccc0350bbbbbbbbbbbbbbbbbbbbbbbbbbbbbbbb040c0518d30658206ca03075916d98de42e40f805fb077321f'' @
       ''8bc7190a662f8556cbd27298e1a4bd0758d3'' @
       object_encoded"

definition commit_id_vector :: string where
  "commit_id_vector = ''883f8b969089b4f7d68300917562e3dbb6e1165c02c3bf7ef308a7b2ccdbe1e5''"

definition signature_vector :: string where
  "signature_vector =
       ''cfadcdd254e27db4bf15e206198f06faebb3825586848444815671dcbc09bac057101056bd474ca7766c75d5e54dad735a36'' @
       ''ef3c3f4c24ca8000af48b465780c''"

definition commit_vector :: unsigned_commit where
  "commit_vector = \<lparr>uc_vault_id = replicate 16 0x22, uc_parents = [replicate 32 0xcc], uc_device_id = replicate 16 0xbb,
     uc_device_sequence = 12, uc_encrypted_body = unhex object_encoded\<rparr>"

lemma object_vector_decodes: "decode_object_envelope rfc_cbor (unhex object_encoded) = Inr object_vector"
proof (rule rfc.object_envelope_decodes [OF _ object_matches_vector])
  show "wf_object object_vector" by (simp add: wf_object_def object_vector_def object_limits)
qed

lemma unsigned_matches_vector:
  assumes "blake3 X (unhex object_encoded) = unhex ''6ca03075916d98de42e40f805fb077321f8bc7190a662f8556cbd27298e1a4bd''"
  shows "encode_unsigned rfc_cbor X commit_vector = Inr (unhex unsigned_encoded)"
proof -
  have "validate_unsigned rfc_cbor commit_vector = Inr ()"
    by (simp add: validate_unsigned_def commit_vector_def object_vector_decodes object_vector_def
       MAX_COMMIT_PARENTS_def MAX_COMMIT_BODY_BYTES_def) (simp add: object_encoded_def)
  moreover have "length (unhex object_encoded) = 211" by (simp add: object_encoded_def)
  moreover have "unhex unsigned_encoded = unhex (''a8000101502222222222222222222222222222222202815820cccccccccccccccccccccccccccccccccccccccccccccccccc'' @
            ''cccccccccccccc0350bbbbbbbbbbbbbbbbbbbbbbbbbbbbbbbb040c0518d30658206ca03075916d98de42e40f805fb077321f'' @
            ''8bc7190a662f8556cbd27298e1a4bd0758d3'') @ unhex object_encoded"
    by (simp add: unsigned_encoded_def)
  ultimately show ?thesis
    using assms by (simp add: encode_unsigned_def) (simp add: commit_vector_def u64_try_from_def fits64_def
       rfc_cbor_def cbor_head_def PROTOCOL_VERSION_def replicate_numeral be_bytes_numeral)
qed

text \<open>
  What \<open>SignedCommit::create\<close> makes of the commit, for any hash and signature scheme that agree with
  the vector on its three inputs.
\<close>

lemma signed_commit_matches_vector:
  assumes "blake3 X (unhex object_encoded) = unhex ''6ca03075916d98de42e40f805fb077321f8bc7190a662f8556cbd27298e1a4bd''"
    and "commit_id_of X (unhex unsigned_encoded) = unhex commit_id_vector"
    and "ed25519_sign X (replicate 32 0xaa) (commit_signature_context (unhex commit_id_vector)) = unhex signature_vector"
  shows "rbind (create_commit rfc_cbor X commit_vector (replicate 32 0xaa)) (encode_signed_commit rfc_cbor X) =
    Inr (unhex ''a300590149'' @ unhex unsigned_encoded @ unhex ''015820'' @ unhex commit_id_vector @
      unhex ''025840'' @ unhex signature_vector)"
proof -
  note u = unsigned_matches_vector [OF assms(1)]
  then have "validate_unsigned rfc_cbor commit_vector = Inr ()" by (auto simp: encode_unsigned_def rbind_Inr_iff)
  moreover have "length (unhex unsigned_encoded) = 329" "length (unhex commit_id_vector) = 32"
    "length (unhex signature_vector) = 64"
    by (simp_all add: unsigned_encoded_def object_encoded_def commit_id_vector_def signature_vector_def)
  ultimately show ?thesis using u assms(2,3)
    by (simp add: create_commit_def encode_signed_commit_def Let_def MAX_SIGNED_COMMIT_BYTES_def)
      (simp add: rfc_cbor_def cbor_head_def be_bytes_numeral)
qed

section \<open>Decoding the vectors\<close>

lemma vectors_decode:
  "\<exists>m. manifest_vector = Inr m \<and> decode_manifest rfc_cbor (unhex manifest_encoded) = Inr m"
  "decode_commit_body rfc_cbor (unhex commit_body_encoded) = Inr commit_body_vector"
proof -
  obtain m where m: "manifest_vector = Inr m" and e: "encode_manifest rfc_cbor m = Inr (unhex manifest_encoded)"
    using manifest_matches_vector by (auto simp: rbind_Inr_iff)
  have "wf_manifest m"
    using m by (auto simp: manifest_vector_def new_manifest_def Let_def rbind_Inr_iff wf_manifest_def wf_entry_def wf_optional_def)
  from rfc.manifest_decodes [OF this e] m
  show "\<exists>m. manifest_vector = Inr m \<and> decode_manifest rfc_cbor (unhex manifest_encoded) = Inr m"
    by blast
  show "decode_commit_body rfc_cbor (unhex commit_body_encoded) = Inr commit_body_vector"
    by (rule rfc.commit_body_decodes [OF _ commit_body_matches_vector])
      (simp add: commit_body_vector_def wf_commit_body_def wf_operation_def wf_optional_def)
qed

lemma vault_key_vector_decodes:
  assumes "argon2_params_ok X (19456, 1, 1)"
  shows "decode_vault_key_envelope rfc_cbor X (unhex vault_key_encoded) = Inr vault_key_vector"
proof (rule rfc.vault_key_decodes [OF _ vault_key_matches_vector])
  show "wf_vault_key X vault_key_vector"
    using assms by (simp add: wf_vault_key_def vault_key_vector_def vmk_sizes client_argon2_def memory_limits)
qed

section \<open>Refused paths\<close>

definition invalid_paths :: "(ustr \<times> string) list" where
  "invalid_paths =
     [([], ''empty_path''), (ascii ''/absolute.md'', ''absolute_path''), (ascii ''folder//note.md'', ''empty_segment''),
      (ascii ''./note.md'', ''dot_segment''), (ascii ''../note.md'', ''dot_segment''),
      (ascii ''folder'' @ 92 # ascii ''note.md'', ''forbidden_character''), (ascii ''bad<name.md'', ''forbidden_character''),
      (ascii ''control'' @ 0 # ascii ''name.md'', ''control_character''),
      (ascii ''trailing-space '', ''trailing_space_or_dot''), (ascii ''trailing-dot.'', ''trailing_space_or_dot''),
      (ascii ''CON'', ''reserved_name''), (ascii ''aux.txt'', ''reserved_name''), (ascii ''COM9.log'', ''reserved_name''),
      (ascii ''LPT1'', ''reserved_name'')]"

text \<open>Normalization leaves ASCII text as it is.\<close>

lemma invalid_paths_refused:
  assumes "\<And>s. \<forall>c \<in> set s. c < 128 \<Longrightarrow> nfc s = s"
  shows "list_all (\<lambda>(input, code). map_err path_error_code (parse_path nfc input) = Inl code) invalid_paths"
  by (simp add: invalid_paths_def parse_path_def ascii_def assms validate_segment_eval MAX_PATH_BYTES_def upt_rec)

end
