(* ===== verification/Scenarios.thy ===== *)
theory Scenarios
  imports Commit_Graph_Queries Vault_Key_Correct Transport_Frame
begin

text \<open>
  Unit tests of the repository, translated and evaluated on the model: the definitions answer as the code is
  required to.
\<close>

section \<open>Commit graph\<close>

definition test_id :: "byte \<Rightarrow> bytes" where
  "test_id v = replicate 32 v"

lemma replicate_less: "0 < n \<Longrightarrow> replicate n a < replicate n b \<longleftrightarrow> a < (b :: 'a :: linorder)"
  by (induction n) auto

lemma test_id_eq [simp]: "test_id a = test_id b \<longleftrightarrow> a = b"
  by (simp add: test_id_def)

lemma test_id_less [simp]: "test_id a < test_id b \<longleftrightarrow> a < b"
  by (simp add: test_id_def replicate_less)

lemma test_id_le [simp]: "test_id a \<le> test_id b \<longleftrightarrow> a \<le> b"
  by (auto simp: le_less)

fun graph_of :: "commit_graph \<Rightarrow> (byte \<times> byte list) list \<Rightarrow> versioning_error + commit_graph" where
  "graph_of g [] = Inr g"
| "graph_of g ((c, ps) # rest) = rbind (insert_commit g (test_id c) (map test_id ps)) (\<lambda>(_, g'). graph_of g' rest)"

definition concurrent_heads_merge :: "versioning_error + bool" where
  "concurrent_heads_merge =
     rbind (graph_of empty_graph [(1, []), (2, [1]), (3, [1]), (4, [1])]) (\<lambda>g.
     rbind (graph_of g [(5, [2, 3, 4])]) (\<lambda>merged.
     rbind (common_ancestor g (test_id 2) (test_id 3)) (\<lambda>base.
     rbind (insert_commit merged (test_id 5) [test_id 2, test_id 3, test_id 4]) (\<lambda>(new, _).
       Inr (heads g = [test_id 2, test_id 3, test_id 4] \<and> base = Some (test_id 1) \<and>
         heads merged = [test_id 5] \<and> recovered_heads merged = heads merged \<and> \<not> new)))))"

definition out_of_order_rejected :: bool where
  "out_of_order_rejected \<longleftrightarrow> graph_of empty_graph [(2, [1])] = Inl VE_MissingParent \<and>
     graph_of empty_graph [(1, []), (9, [])] = Inl VE_InvalidRoot"

definition missing_set_stable :: bool where
  "missing_set_stable \<longleftrightarrow>
     rmap (\<lambda>g. missing_from g {test_id 1}) (graph_of empty_graph [(1, []), (2, [1]), (3, [2])]) =
       Inr [test_id 2, test_id 3] \<and>
     rmap (\<lambda>g. missing_from g {}) (graph_of empty_graph [(9, []), (1, [9])]) = Inr [test_id 9, test_id 1]"

text \<open>Of equal generations the greatest identifier is the base (\<open>tests/adversarial_graph.rs\<close>).\<close>

definition criss_cross_base :: "versioning_error + bytes option" where
  "criss_cross_base = rbind (graph_of empty_graph [(1, []), (2, [1]), (3, [1]), (4, [2, 3]), (5, [2, 3]), (6, [4]), (7, [5])])
     (\<lambda>g. common_ancestor g (test_id 6) (test_id 7))"

lemmas graph_eval = insert_commit_def empty_graph_def next_generation_def checked_succ_def bs_insert_def bs_remove_def
  common_ancestor_def ancestors_def heads_def recovered_heads_def commit_order_def missing_from_def less_prod_def

lemma graph_tests_pass:
  "concurrent_heads_merge = Inr True" "out_of_order_rejected" "missing_set_stable" "criss_cross_base = Inr (Some (test_id 3))"
  by (simp_all add: concurrent_heads_merge_def out_of_order_rejected_def missing_set_stable_def criss_cross_base_def graph_eval)

section \<open>Text, frames and key derivation\<close>

definition canonical_text_test :: bool where
  "canonical_text_test \<longleftrightarrow>
     canonicalize_text ([0xEF, 0xBB, 0xBF] @ ascii_bytes ''one'' @ [13, 10] @ ascii_bytes ''two'' @ [13] @
       ascii_bytes ''three'' @ [10]) =
       Inr (ascii_bytes ''one'' @ [10] @ ascii_bytes ''two'' @ [10] @ ascii_bytes ''three'' @ [10]) \<and>
     canonicalize_text (ascii_bytes ''content'') = Inr (ascii_bytes ''content'') \<and>
     canonicalize_text [0xFF] = Inl InvalidUtf8"

lemma canonical_text_test_passes: canonical_text_test
  by (simp add: canonical_text_test_def ascii_bytes_def canonicalize_text_def utf8_decode_def utf8_scan.simps is_cont_def
     strip_bom_def utf8_encode_def utf8_char_def is_scalar_def)

definition frame_test :: bool where
  "frame_test \<longleftrightarrow>
     rbind (encode_transport_frame (replicate 32 7) (ascii_bytes ''ciphertext'')) decode_transport_frame =
       Inr \<lparr>tf_session_handle = replicate 32 7, tf_ciphertext = ascii_bytes ''ciphertext''\<rparr> \<and>
     rbind (encode_transport_frame (replicate 32 0) (ascii_bytes ''x'')) (\<lambda>e. decode_transport_frame (e[39 := 2])) =
       Inl FE_InvalidLength"

lemma frame_test_passes: frame_test
proof -
  have "[0, 0, 0, 1][3 := 2] = [0, 0, 0, 2 :: byte]" by (simp add: numeral_3_eq_3)
  then show ?thesis
    by (simp add: frame_test_def encode_transport_frame_def decode_transport_frame_def MAX_TRANSPORT_CIPHERTEXT_BYTES_def
      ascii_bytes_def be_bytes_numeral be_nat_def list_update_append)
qed

definition calibration_test :: bool where
  "calibration_test \<longleftrightarrow>
     select_calibrated_policy Android (128 * 1024) 100000000 =
       \<lparr>ck_memory_kib = MAX_ANDROID_MEMORY_KIB, ck_iterations = 8, ck_parallelism = 1\<rparr> \<and>
     ck_iterations (select_calibrated_policy Desktop (64 * 1024) 2000000000) = 1"

lemma calibration_test_passes: calibration_test
  by (simp add: calibration_test_def select_calibrated_policy_def div_ceil_def memory_limits)

end
