(* ===== verification/Scenarios_Storage.thy ===== *)
theory Scenarios_Storage
  imports Service_Restart Scenarios
begin

text \<open>
  The unit tests of \<open>storage/blob.rs\<close> and \<open>storage/mod.rs\<close>, translated and evaluated on the model for any
  device, identifiers, clock and hash function.
\<close>

section \<open>Uploads\<close>

text \<open>What the tests start from: a service without devices, uploads and blobs.\<close>

definition empty_service :: "storage \<Rightarrow> bool" where
  "empty_service st \<longleftrightarrow> st_devices st = [] \<and> st_uploads st = [] \<and> st_blobs st = [] \<and>
     (\<forall>h. file_at st (object_path h) = None) \<and> (\<forall>u. file_at st (upload_path u) = None)"

abbreviation plenty :: "nat option" where
  "plenty \<equiv> Some (2 ^ 63)"

definition upload_is_resumable :: "crypto \<Rightarrow> int \<Rightarrow> bytes \<Rightarrow> bytes \<Rightarrow> storage \<Rightarrow> bool" where
  "upload_is_resumable X now d u st =
     (let ciphertext = ascii_bytes ''opaque ciphertext bytes''; hash = blake3 X ciphertext;
          (_, st) = register_device now d (replicate 32 3) [4] st;
          (begun, st) = begin_upload plenty u now d (length ciphertext) hash st;
          (appended, st) = append_upload_chunk d u 0 ciphertext st;
          (committed, st) = commit_upload X now d u st in
      begun = Inr (u, 0) \<and> appended = Inr (length ciphertext) \<and> committed = Inr hash \<and>
      read_blob_chunk st hash 0 1024 = Inr (length ciphertext, True, ciphertext))"

text \<open>The two requests of the test run at once; the lock of the upload orders them (\<open>Upload_Locks\<close>), either way alike.\<close>

definition duplicate_chunk_serialized :: "crypto \<Rightarrow> int \<Rightarrow> bytes \<Rightarrow> bytes \<Rightarrow> storage \<Rightarrow> bool" where
  "duplicate_chunk_serialized X now d u st =
     (let ciphertext = ascii_bytes ''one durable opaque chunk''; hash = blake3 X ciphertext;
          (_, st) = register_device now d (replicate 32 7) [8] st;
          (_, st) = begin_upload plenty u now d (length ciphertext) hash st;
          st = put_file (upload_path u) (ascii_bytes ''uncommitted crash tail'') st;
          (first, st) = append_upload_chunk d u 0 ciphertext st;
          (second, st) = append_upload_chunk d u 0 ciphertext st;
          (committed, st) = commit_upload X now d u st in
      first = Inr (length ciphertext) \<and> second = Inl SE_OffsetMismatch \<and> committed = Inr hash)"

definition corrupt_hash_fails_closed :: "crypto \<Rightarrow> int \<Rightarrow> bytes \<Rightarrow> bytes \<Rightarrow> bytes \<Rightarrow> storage \<Rightarrow> bool" where
  "corrupt_hash_fails_closed X now d u v st =
     (let content = ascii_bytes ''opaque''; wrong_hash = replicate 32 0x55;
          (_, st) = register_device now d (replicate 32 9) [10] st;
          (_, st) = begin_upload plenty u now d (length content) wrong_hash st;
          (misplaced, st) = append_upload_chunk d u 1 content st;
          (empty, st) = append_upload_chunk d u 0 [] st;
          (appended, st) = append_upload_chunk d u 0 content st;
          (committed, st) = commit_upload X now d u st;
          (_, st) = begin_upload plenty v now d (length content) (blake3 X content) st;
          st = remove_file (upload_path v) st;
          (missing, st) = append_upload_chunk d v 0 content st in
      misplaced = Inl SE_OffsetMismatch \<and> empty = Inl SE_LimitExceeded \<and> appended = Inr (length content) \<and>
      committed = Inl SE_IntegrityFailure \<and> missing = Inl SE_Io)"

lemmas upload_eval = empty_service_def Let_def register_device_def device_row_of_def begin_upload_def require_active_device_def
  get_device_def append_upload_chunk_def append_locked_def append_file_def append_record_def load_upload_def commit_upload_def
  commit_locked_def publish_file_def verify_file_def record_blob_def read_blob_chunk_def upload_insert_fails_def
  i64_try_from_def MAX_OBJECT_BYTES_def MINIMUM_FREE_DISK_BYTES_def MAX_ACTIVE_UPLOADS_def MAX_ACTIVE_UPLOADS_PER_DEVICE_def
  MAX_CHUNK_BYTES_def

lemma upload_tests_pass:
  assumes "crypto_laws X" and "is_array 16 d" "is_array 16 u" "is_array 16 v" "u \<noteq> v" and "empty_service st"
  shows "upload_is_resumable X now d u st" "duplicate_chunk_serialized X now d u st"
    "blake3 X (ascii_bytes ''opaque'') \<noteq> replicate 32 0x55 \<Longrightarrow> corrupt_hash_fails_closed X now d u v st"
proof -
  note h = length_blake3 [OF assms(1)]
  have "length (ascii_bytes ''opaque ciphertext bytes'') = 23" "ascii_bytes ''opaque ciphertext bytes'' \<noteq> []"
    by (simp_all add: ascii_bytes_def)
  then show "upload_is_resumable X now d u st" using assms(2-) h unfolding upload_is_resumable_def by (simp add: upload_eval)
  have "length (ascii_bytes ''one durable opaque chunk'') = 24" "ascii_bytes ''one durable opaque chunk'' \<noteq> []"
    by (simp_all add: ascii_bytes_def)
  then show "duplicate_chunk_serialized X now d u st" using assms(2-) h
    unfolding duplicate_chunk_serialized_def by (simp add: upload_eval)
  assume "blake3 X (ascii_bytes ''opaque'') \<noteq> replicate 32 0x55"
  moreover have "length (ascii_bytes ''opaque'') = 6" "ascii_bytes ''opaque'' \<noteq> []"
    by (simp_all add: ascii_bytes_def)
  ultimately show "corrupt_hash_fails_closed X now d u v st" using assms(2-) h
    unfolding corrupt_hash_fails_closed_def by (simp add: upload_eval)
qed

section \<open>Starting again\<close>

definition survives_restart :: "crypto \<Rightarrow> start_random \<Rightarrow> start_random \<Rightarrow> bytes \<Rightarrow> storage \<Rightarrow> storage_error + bool" where
  "survives_restart X R R' password st =
     (case initialize X R password st of
        (Inl e, _) \<Rightarrow> Inl e
      | (Inr one, st1) \<Rightarrow> rmap (\<lambda>two. is_instance_id two = is_instance_id one \<and> is_vault_id two = is_vault_id one)
          (fst (initialize X R' password st1)))"

definition refuses_future_schema :: "crypto \<Rightarrow> start_random \<Rightarrow> start_random \<Rightarrow> bytes \<Rightarrow> storage \<Rightarrow> storage_error + bool" where
  "refuses_future_schema X R R' password st =
     (case initialize X R password st of
        (Inl e, _) \<Rightarrow> Inl e
      | (Inr _, st1) \<Rightarrow> Inr (fst (initialize X R' password (set_meta META_MIGRATION_VERSION (to_be_bytes 999) st1)) =
          Inl SE_CorruptMetadata))"

definition rebuilds_heads :: "crypto \<Rightarrow> start_random \<Rightarrow> start_random \<Rightarrow> bytes \<Rightarrow> int \<Rightarrow> storage \<Rightarrow> storage_error + bytes list" where
  "rebuilds_heads X R R' password now st =
     (case initialize X R password st of
        (Inl e, _) \<Rightarrow> Inl e
      | (Inr one, st1) \<Rightarrow>
          (let d = replicate 16 1; (_, st) = register_device now d (replicate 32 2) [] st1;
               row = (\<lambda>(c, n, g). \<lparr>co_commit_id = replicate 32 c, co_vault_id = is_vault_id one, co_device_id = d,
                 co_device_sequence = n, co_generation = g, co_signed_record = [of_nat n], co_inserted_at = 1\<rparr>);
               st = st\<lparr>st_commits := st_commits st @ map row [(10, 1, 0), (11, 2, 1), (12, 3, 1)],
                 st_commit_parents := st_commit_parents st @ map (\<lambda>c. (replicate 32 c, replicate 32 10)) [11, 12]\<rparr>;
               (restarted, st) = initialize X R' password st in
             rbind restarted (\<lambda>_. storage_heads st)))"

lemma restart_tests_pass:
  assumes X: "crypto_laws X" and R: "wf_random R" and run: "initialize X R password st = (Inr I, st1)"
  shows "survives_restart X R R' password st = Inr True" "refuses_future_schema X R R' password st = Inr True"
    "st_commits st1 = [] \<Longrightarrow> st_commit_parents st1 = [] \<Longrightarrow> st_heads st1 = [] \<Longrightarrow>
     rebuilds_heads X R R' password now st = Inr [replicate 32 11, replicate 32 12]"
proof -
  note i = initialize_identified [OF X R run]
  then have id: "identified X I st1" and key: "derive_server_auth_key X password (is_authentication_salt I)
      (is_argon2_policy I) = Inr (is_authentication_key I)" by blast+
  show "survives_restart X R R' password st = Inr True"
    using run start_again [OF X id key] by (simp add: survives_restart_def)
  have version: "validate_migration_version (set_meta META_MIGRATION_VERSION (to_be_bytes 999) x) = Inl SE_CorruptMetadata" for x
    by (simp add: validate_migration_version_def get_meta_def set_meta_def update_conv' to_be_bytes_def from_be_bytes_def
        be_bytes_numeral be_nat_def CURRENT_MIGRATION_VERSION_def)
  obtain k where "file_at st1 STORAGE_KEY_FILE = Some k" "length k = 32" using id by (auto simp: identified_def)
  then have "ensure_storage_key x (set_meta META_MIGRATION_VERSION (to_be_bytes 999) st1) =
      (Inr (), set_meta META_MIGRATION_VERSION (to_be_bytes 999) st1)" for x
    by (simp add: ensure_storage_key_def set_meta_def)
  with run version show "refuses_future_schema X R R' password st = Inr True"
    by (simp add: refuses_future_schema_def initialize_def initialize_transaction_def)
  assume empty: "st_commits st1 = []" "st_commit_parents st1 = []" "st_heads st1 = []"
  let ?row = "\<lambda>c n g. \<lparr>co_commit_id = replicate 32 c, co_vault_id = is_vault_id I, co_device_id = replicate 16 1,
     co_device_sequence = n, co_generation = g, co_signed_record = [of_nat n], co_inserted_at = 1\<rparr>"
  obtain q st2 where reg: "register_device now (replicate 16 1) (replicate 32 2) [] st1 = (q, st2)" by fastforce
  define st3 where "st3 = st2\<lparr>st_commits := [?row 10 1 0, ?row 11 2 1, ?row 12 3 1],
     st_commit_parents := [(replicate 32 11, replicate 32 10), (replicate 32 12, replicate 32 10)]\<rparr>"
  note f = register_device_fields [OF reg]
  have "keeps_identity st1 st3" using f by (simp add: keeps_identity_def st3_def get_meta_def)
  then have id3: "identified X I st3" using id by (rule identified_kept)
  then have v: "st_vault_id st3 = is_vault_id I" by (simp add: identified_def)
  have order: "(replicate 32 11 :: bytes) \<le> replicate 32 12" by (simp add: le_less replicate_less)
  have "storage_heads (repair_heads (is_vault_id I) st3) = Inr [replicate 32 11, replicate 32 12]"
    using f empty v order by (simp add: storage_heads_def load_heads_def repair_heads_def st3_def MAX_HEADS_def)
  then show "rebuilds_heads X R R' password now st = Inr [replicate 32 11, replicate 32 12]"
    using run reg start_again [OF X id3 key] f empty v by (simp add: rebuilds_heads_def st3_def)
qed

end
