(* ===== verification/Spec2Isabelle.thy ===== *)
theory Spec2Isabelle
  imports
    Canonical_Text
    Path_Collisions
    Protocol_Roundtrip
    Transport_Frame
    Noise_Records
    Object_Crypto
    Commit_Graph_Queries
    Signed_Commit_Correct
    Upload_Locks_Correct
    Storage_Commits_Props
    Rate_Limit_Props
    Server_Sequence
    Service_Responses
    Manifest_Correct
    Vault_Key_Correct
    Client_Service
    Client_Commit
    Process_Life_Correct
    Content_Sharing
    Identifiers
    Wasm_Correct
    Known_Answers
    Scenarios_Storage
begin

text \<open>
  Learning Loop: an end-to-end encrypted synchronisation service.

  \<^bold>\<open>The program.\<close> A client (\<open>crates/ll-client\<close>, for JavaScript \<open>wasm/ll-client-core\<close>) brings paths and
  text to a portable form (\<open>ll-canonical\<close>), encrypts objects under keys derived from a vault master key
  (\<open>ll-crypto\<close>), describes each state of the vault by a signed commit with its parents (\<open>ll-versioning\<close>),
  and sends requests (\<open>ll-protocol\<close>) in HTTP bodies over a pinned Noise channel. The server
  (\<open>ll-server\<close>) keeps sessions, limits the handshakes of an address, checks the password and device proofs
  and stores ciphertext blobs and commit records, which it cannot read.

  \<^bold>\<open>The model.\<close> Every fallible function returns \<open>error + value\<close> with the error enum of the source; a
  stateful one also returns the new state. Numbers have the width of the source: \<open>u8\<close> to \<open>u64\<close> are words
  and every conversion and checked addition is written out; \<open>usize\<close> is a natural number
  (64-bit lengths). Randomness, clocks and measured durations are arguments. Crates are records of
  functions (\<open>cbor\<close>, \<open>crypto\<close>, \<open>snow\<close>, \<open>identity_crates\<close>, \<open>text_crates\<close>, \<open>uuid_v7\<close>) whose documented laws are the
  hypotheses \<open>cbor_format\<close>, \<open>crypto_laws\<close>, \<open>noise_laws\<close>, \<open>duplex_laws\<close>, \<open>nk_laws\<close>, \<open>identity_crates_ok\<close>,
  \<open>text_laws\<close> and \<open>uuid_v7_layout\<close>; each has an instance, and every theorem that needs them a witness on it. \<open>nk_laws\<close>
  speaks of the one Noise suite of the program, and of the Argon2 crate only the parameters it documents as valid
  (\<open>argon2_valid\<close>) are taken to be accepted. Hashes are never
  assumed injective: a theorem that relies on one names the collision that would break it.

  \<^bold>\<open>Foundations.\<close>
  \<^item> \<open>Prelude\<close>: bytes, results, big-endian numbers, hexadecimal text, ordered maps and lists; the locales
    \<open>invariant\<close> and \<open>relative_invariant\<close> that the step relations below interpret.
  \<^item> \<open>Cbor\<close>: the CBOR crate as the locale \<open>cbor_format\<close>, with RFC 8949 as instance; \<open>Codec_Contract\<close>: the
    contract \<open>deterministic_codec\<close> (what is accepted is exactly what the encoder produces), a sublocale
    for every canonical codec of the program.
  \<^item> \<open>Crypto_Primitives\<close>: the cryptographic crates, and \<open>password.rs\<close> and \<open>device.rs\<close> of \<open>ll-crypto\<close>.

  \<^bold>\<open>Shared crates.\<close>
  \<^item> \<open>Canonical_Text\<close> (\<open>content.rs\<close>), \<open>Portable_Path\<close> and \<open>Path_Collisions\<close> (\<open>path.rs\<close>).
  \<^item> \<open>Protocol_Types\<close> (\<open>types.rs\<close>, \<open>limits.rs\<close>), \<open>Protocol_Codec\<close> with \<open>Protocol_Roundtrip\<close> (\<open>codec.rs\<close>),
    \<open>Transport_Frame\<close> (\<open>frame.rs\<close>); \<open>Message_Sizes\<close>: what fits one record stream.
  \<^item> \<open>Noise_Records\<close> (\<open>noise.rs\<close>), \<open>Object_Envelope\<close> with \<open>Object_Crypto\<close> (\<open>object.rs\<close>, subkeys of
    \<open>keys.rs\<close>), \<open>Vault_Key\<close> with \<open>Vault_Key_Correct\<close> (\<open>vault.rs\<close>, key derivation policy of \<open>keys.rs\<close>).
  \<^item> \<open>Commit_Graph\<close> with \<open>_Correct\<close> and \<open>_Queries\<close> (\<open>graph.rs\<close>), \<open>Signed_Commit\<close> with \<open>_Correct\<close>
    (\<open>commit.rs\<close>), \<open>Manifest\<close> with \<open>_Correct\<close> (\<open>manifest.rs\<close>).

  \<^bold>\<open>Server.\<close>
  \<^item> \<open>Storage_State\<close> (tables and files, \<open>storage/mod.rs\<close>, \<open>schema.rs\<close>), \<open>Storage_Start\<close> (initialization),
    \<open>Storage_Blobs\<close> (\<open>blob.rs\<close>), \<open>Storage_Commits\<close> (\<open>version.rs\<close>). \<open>Storage_Blobs_Correct\<close> and \<open>_Props\<close> prove
    the blob invariant over all histories of operations and crashes, a crash being possible between every file step
    and the transaction before or after it (\<open>power_loss\<close>);
    \<open>Storage_Commits_Correct\<close> and \<open>_Props\<close> that the tables refine the commit graph;
    \<open>Upload_Locks\<close> with \<open>_Correct\<close> that the upload locks make concurrent requests safe;
    \<open>Storage_Start_Props\<close> that a start finds what an earlier one left.
  \<^item> \<open>Session_Store\<close> (\<open>session.rs\<close>), \<open>Rate_Limit\<close> with \<open>_Props\<close> (\<open>rate_limit.rs\<close>), \<open>Application\<close> with
    \<open>_Correct\<close> (\<open>application.rs\<close>), \<open>Server_State\<close> (\<open>state.rs\<close>, handlers of \<open>http.rs\<close>).
  \<^item> \<open>Service_Invariant\<close>, \<open>Service_Responses\<close>: the storage invariant over every request, and that every response
    but a device list is within the limits the client's decoder enforces. \<open>Server_Sequence\<close>: what one session
    serves, observed with a handler that counts its calls. \<open>Service_System\<close> with \<open>_Correct\<close>: the running server as a
    step relation whose steps interleave handshakes, envelopes (looked up, waiting, processed), time, requests dropped
    while they wait for their session or in their handler, and the storage jobs that the latter leave behind.
  \<^item> \<open>Server_Identity\<close> with \<open>_Props\<close> (\<open>identity.rs\<close>, the password of \<open>config.rs\<close>), \<open>Service_Restart\<close>
    and \<open>Server_Process\<close> (\<open>config.rs\<close>, \<open>server.rs\<close>, \<open>main.rs\<close>): from the command line to the running
    service, and again after a restart. \<open>Storage_Schema\<close>: the constraints of \<open>schema.rs\<close>.
    \<open>Process_Life\<close> with \<open>_Correct\<close>: a data directory through starts, refusals, service and power losses, with any
    number of storage jobs under way, keeps its constraints, its identity and what was stored in it.

  \<^bold>\<open>Client.\<close>
  \<^item> \<open>Client_Vault\<close> with \<open>_Correct\<close> (\<open>vault.rs\<close>, \<open>device.rs\<close>), \<open>Client_Channel\<close> (\<open>channel.rs\<close>).
  \<^item> \<open>Client_Session\<close>, \<open>Client_Conversation\<close>, \<open>Client_Login\<close>, \<open>Client_Service\<close>: both ends of a session stay in
    step, and a conversation over the channel refines calls of the dispatcher, device lists included as far as
    one message can carry them (\<open>Message_Sizes\<close>); \<open>Client_Commit\<close>: a published
    commit is read back by another client.
  \<^item> \<open>Wasm_Text\<close>, \<open>Wasm_Client\<close>, \<open>Wasm_Formats\<close> with \<open>Wasm_Correct\<close>: the same client behind its JavaScript
    interface (\<open>transport.rs\<close>, \<open>formats.rs\<close>, \<open>vault.rs\<close>).
  \<^item> \<open>Chunk_Reassembly\<close> (\<open>fuzz/chunk_reassembly.rs\<close>): the chunks that the server serves add up to the blob.
    \<open>Content_Sharing\<close> puts the parts together: what one client encrypts and uploads another downloads and decrypts.
    \<open>Identifiers\<close> (\<open>identity.rs\<close> of \<open>ll-versioning\<close>, \<open>ll-testkit\<close>): identifiers sortable by time, and clocks.

  \<^bold>\<open>Against the repository's own data.\<close> \<open>Known_Answers\<close>: the model writes and reads the shared test vectors
  byte for byte. \<open>Scenarios\<close> and \<open>Scenarios_Storage\<close>: unit tests of the commit graph, uploads and restarts pass.

  \<^bold>\<open>Bounds.\<close> No definition uses fuel: loops are structural or have a measure (the ancestor search the nodes
  not yet seen, the record loop the bytes left). Where an operation can fail on large inputs the theorems carry
  the bound of the code: 10000 messages a session and its lifetime, 1024 sessions, 4096 tracked addresses, a
  record stream of \<open>MAX_TRANSPORT_CIPHERTEXT_BYTES\<close>, device sequences and offsets within \<open>i64\<close>.

  \<^bold>\<open>Not modelled.\<close> The axum router and its layers (body limit, concurrency limit); the interleaving of two handlers
  within their storage jobs, other than on uploads (\<open>Upload_Locks\<close>): a request, or a job whose request was dropped, is
  one step of the server, at any time. So jobs of dropped requests that overlap in time with another operation on
  the same upload are excluded from every property: the lock of the upload is then gone, and the program can
  lose acknowledged bytes (\<open>detached_append_loses_data\<close>); TOML, socket addresses, signals, the listening socket and tracing; SQLite failures other than the
  constraints, its PRAGMAs, fsync (a crash is a prefix of the steps), permissions of created files; zeroization,
  redacted \<open>Debug\<close> output and constant-time comparison; poisoned locks; the generated glue of \<open>wasm_bindgen\<close> and
  serde; tests other than those above, the fuzz targets that only call decoders and the TypeScript plugin.
\<close>

end
